(* ===== verification/Prelude.thy ===== *)
theory Prelude
  imports Main "HOL-Library.Word" "HOL-Library.Product_Lexorder"
begin

text \<open>
  Shared vocabulary of the development: the machine types of the Rust sources, results with an
  error value, the checked and saturating integer operations of the Rust standard library,
  big-endian byte encodings, and two interfaces that several components implement: a prefix
  codec (a value written to a byte stream and read back) and a guarded transition system with an
  invariant.
\<close>

section \<open>Machine types and results\<close>

type_synonym byte = "8 word"
type_synonym u16 = "16 word"
type_synonym u32 = "32 word"
type_synonym u64 = "64 word"

type_synonym ('e, 'a) result = "'e + 'a"

named_theorems result_simps \<open>unfolding of fallible sequencing\<close>
named_theorems byte_eval \<open>evaluation of byte encodings on concrete values\<close>
named_theorems rust_int \<open>the integer operations of the Rust standard library\<close>

text \<open>The question mark operator: stop at the first error.\<close>

definition rbind :: "('e, 'a) result \<Rightarrow> ('a \<Rightarrow> ('e, 'b) result) \<Rightarrow> ('e, 'b) result" where
  "rbind r k = (case r of Inl e \<Rightarrow> Inl e | Inr x \<Rightarrow> k x)"

lemma rbind_Inl [simp]: "rbind (Inl e) k = Inl e"
  by (simp add: rbind_def)

lemma rbind_Inr [simp]: "rbind (Inr x) k = k x"
  by (simp add: rbind_def)

lemma rbind_eq_Inr [result_simps]: "rbind r k = Inr y \<longleftrightarrow> (\<exists>x. r = Inr x \<and> k x = Inr y)"
  by (cases r) auto

lemma rbind_eq_Inl [result_simps]:
  "rbind r k = Inl e \<longleftrightarrow> r = Inl e \<or> (\<exists>x. r = Inr x \<and> k x = Inl e)"
  by (cases r) auto

definition is_ok :: "('e, 'a) result \<Rightarrow> bool" where
  "is_ok r = (case r of Inl _ \<Rightarrow> False | Inr _ \<Rightarrow> True)"

lemma is_ok_simps [simp]: "is_ok (Inr x)" "\<not> is_ok (Inl e)"
  by (simp_all add: is_ok_def)

lemma is_ok_iff: "is_ok r \<longleftrightarrow> (\<exists>x. r = Inr x)"
  by (cases r) auto

text \<open>A loop that checks every element and stops at the first error.\<close>

fun check_all :: "('a \<Rightarrow> ('e, unit) result) \<Rightarrow> 'a list \<Rightarrow> ('e, unit) result" where
  "check_all f [] = Inr ()"
| "check_all f (x # xs) = rbind (f x) (\<lambda>_. check_all f xs)"

lemma check_all_Inr [simp]: "check_all f xs = Inr () \<longleftrightarrow> (\<forall>x \<in> set xs. f x = Inr ())"
  by (induction xs) (auto simp: rbind_eq_Inr)


section \<open>Integers of the Rust standard library\<close>

definition checked_add_u64 :: "u64 \<Rightarrow> u64 \<Rightarrow> u64 option" where
  "checked_add_u64 a b = (if unat a + unat b < 2 ^ 64 then Some (a + b) else None)"

definition checked_sub_u64 :: "u64 \<Rightarrow> u64 \<Rightarrow> u64 option" where
  "checked_sub_u64 a b = (if b \<le> a then Some (a - b) else None)"

definition saturating_sub_u64 :: "u64 \<Rightarrow> u64 \<Rightarrow> u64" where
  "saturating_sub_u64 a b = (if b \<le> a then a - b else 0)"

definition saturating_add_u64 :: "u64 \<Rightarrow> u64 \<Rightarrow> u64" where
  "saturating_add_u64 a b = (if unat a + unat b < 2 ^ 64 then a + b else - 1)"

text \<open>
  A length or size (\<open>usize\<close>) is a natural number; a conversion to a narrower type fails where
  the value does not fit.
\<close>

definition u16_try_from :: "nat \<Rightarrow> u16 option" where
  "u16_try_from n = (if n < 2 ^ 16 then Some (of_nat n) else None)"

definition u32_try_from :: "nat \<Rightarrow> u32 option" where
  "u32_try_from n = (if n < 2 ^ 32 then Some (of_nat n) else None)"

definition u64_try_from :: "nat \<Rightarrow> u64 option" where
  "u64_try_from n = (if n < 2 ^ 64 then Some (of_nat n) else None)"

definition checked_add_usize :: "nat \<Rightarrow> nat \<Rightarrow> nat option" where
  "checked_add_usize a b = (if a + b < 2 ^ 64 then Some (a + b) else None)"

lemma unat_add_u64 [rust_int]: "unat a + unat b < 2 ^ 64 \<Longrightarrow> unat (a + b :: u64) = unat a + unat b"
  by (simp add: unat_word_ariths)

lemma unat_sub_u64 [rust_int]: "b \<le> a \<Longrightarrow> unat (a - b :: u64) = unat a - unat b"
  by (simp add: unat_sub)

lemma unat_u64_less [simp]: "unat (x :: u64) < 18446744073709551616"
  using unsigned_less [of x] by simp

lemma unat_u32_less [simp]: "unat (x :: u32) < 4294967296"
  using unsigned_less [of x] by simp

lemma unat_u16_less [simp]: "unat (x :: u16) < 65536"
  using unsigned_less [of x] by simp

lemma unat_byte_less [simp]: "unat (x :: byte) < 256"
  using unsigned_less [of x] by simp

lemma checked_add_u64_Some [rust_int]:
  "checked_add_u64 a b = Some c \<longleftrightarrow> unat a + unat b < 2 ^ 64 \<and> c = a + b"
  by (auto simp: checked_add_u64_def)

lemma checked_add_u64_None [rust_int]:
  "checked_add_u64 a b = None \<longleftrightarrow> 2 ^ 64 \<le> unat a + unat b"
  by (auto simp: checked_add_u64_def)

lemma checked_sub_u64_Some [rust_int]:
  "checked_sub_u64 a b = Some c \<longleftrightarrow> b \<le> a \<and> c = a - b"
  by (auto simp: checked_sub_u64_def)

lemma unat_saturating_sub_u64 [rust_int]:
  "unat (saturating_sub_u64 a b) = unat a - unat b"
  by (auto simp: saturating_sub_u64_def unat_sub_u64 word_le_nat_alt)

lemma unat_saturating_add_u64 [rust_int]:
  "unat (saturating_add_u64 a b) = min (unat a + unat b) (2 ^ 64 - 1)"
  by (auto simp: saturating_add_u64_def unat_add_u64 unsigned_minus_1_eq_mask mask_eq_exp_minus_1)

lemma unat_min_word [rust_int]: "unat (min a b :: 'a::len word) = min (unat a) (unat b)"
  by (simp add: min_def word_le_nat_alt)

lemma unat_of_nat_u16: "n < 2 ^ 16 \<Longrightarrow> unat (of_nat n :: u16) = n"
  by (simp add: unat_of_nat)

lemma unat_of_nat_u32: "n < 2 ^ 32 \<Longrightarrow> unat (of_nat n :: u32) = n"
  by (simp add: unat_of_nat)

lemma unat_of_nat_u64: "n < 2 ^ 64 \<Longrightarrow> unat (of_nat n :: u64) = n"
  by (simp add: unat_of_nat)

lemma u16_try_from_Some [rust_int]:
  "u16_try_from n = Some w \<longleftrightarrow> n < 2 ^ 16 \<and> unat w = n"
  by (auto simp: u16_try_from_def unat_of_nat)

lemma u32_try_from_Some [rust_int]:
  "u32_try_from n = Some w \<longleftrightarrow> n < 2 ^ 32 \<and> unat w = n"
  by (auto simp: u32_try_from_def unat_of_nat)

lemma u64_try_from_Some [rust_int]:
  "u64_try_from n = Some w \<longleftrightarrow> n < 2 ^ 64 \<and> unat w = n"
  by (auto simp: u64_try_from_def unat_of_nat)

lemma try_from_None [rust_int]:
  "u16_try_from n = None \<longleftrightarrow> 2 ^ 16 \<le> n"
  "u32_try_from n = None \<longleftrightarrow> 2 ^ 32 \<le> n"
  "u64_try_from n = None \<longleftrightarrow> 2 ^ 64 \<le> n"
  by (auto simp: u16_try_from_def u32_try_from_def u64_try_from_def)

section \<open>Big-endian byte strings\<close>

text \<open>\<open>to_be n v\<close> is the last \<open>n\<close> base-256 digits of \<open>v\<close>, most significant first.\<close>

primrec to_be :: "nat \<Rightarrow> nat \<Rightarrow> byte list" where
  "to_be 0 v = []"
| "to_be (Suc n) v = to_be n (v div 256) @ [of_nat v]"

definition from_be :: "byte list \<Rightarrow> nat" where
  "from_be bs = foldl (\<lambda>a b. a * 256 + unat b) 0 bs"

lemma length_to_be [simp]: "length (to_be n v) = n"
  by (induction n arbitrary: v) auto

lemma from_be_Nil [simp]: "from_be [] = 0"
  by (simp add: from_be_def)

lemma from_be_snoc [simp]: "from_be (bs @ [b]) = from_be bs * 256 + unat b"
  by (simp add: from_be_def)

lemma unat_of_nat_byte [simp]: "unat (of_nat v :: byte) = v mod 256"
  by (simp add: unat_of_nat)

lemma from_be_to_be: "from_be (to_be n v) = v mod 256 ^ n"
proof (induction n arbitrary: v)
  case 0
  then show ?case by simp
next
  case (Suc n)
  have "v mod (256 * 256 ^ n) = 256 * (v div 256 mod 256 ^ n) + v mod 256"
    by (rule mod_mult2_eq)
  then show ?case by (simp add: Suc)
qed

lemma from_be_to_be_id [simp]: "v < 256 ^ n \<Longrightarrow> from_be (to_be n v) = v"
  by (simp add: from_be_to_be)

lemma from_be_less: "from_be bs < 256 ^ length bs"
proof (induction bs rule: rev_induct)
  case Nil
  then show ?case by simp
next
  case (snoc b bs)
  have "from_be bs * 256 + unat b < (from_be bs + 1) * 256"
    using unat_byte_less [of b] by simp
  also have "\<dots> \<le> 256 ^ length bs * 256"
    using snoc by (intro mult_right_mono) auto
  finally show ?case by simp
qed

lemma to_be_from_be [simp]: "to_be (length bs) (from_be bs) = bs"
proof (induction bs rule: rev_induct)
  case Nil
  then show ?case by simp
next
  case (snoc b bs)
  have "(of_nat (from_be bs * 256 + unat b) :: byte) = b"
    by (rule word_unat_eq_iff [THEN iffD2]) (simp add: unat_word_ariths)
  then show ?case using snoc by simp
qed

lemma to_be_inj: "to_be n v = to_be n w \<Longrightarrow> v < 256 ^ n \<Longrightarrow> w < 256 ^ n \<Longrightarrow> v = w"
  by (metis from_be_to_be_id)

lemma to_be_numeral [byte_eval]:
  "to_be (numeral k) v = to_be (pred_numeral k) (v div 256) @ [of_nat v]"
  using to_be.simps(2) [of "pred_numeral k" v] by (simp only: numeral_eq_Suc [of k, symmetric])

text \<open>The typed encoders and decoders.\<close>

definition u16_be :: "u16 \<Rightarrow> byte list" where "u16_be w = to_be 2 (unat w)"
definition u32_be :: "u32 \<Rightarrow> byte list" where "u32_be w = to_be 4 (unat w)"
definition u64_be :: "u64 \<Rightarrow> byte list" where "u64_be w = to_be 8 (unat w)"

definition u16_from_be :: "byte list \<Rightarrow> u16" where "u16_from_be bs = of_nat (from_be bs)"
definition u32_from_be :: "byte list \<Rightarrow> u32" where "u32_from_be bs = of_nat (from_be bs)"
definition u64_from_be :: "byte list \<Rightarrow> u64" where "u64_from_be bs = of_nat (from_be bs)"

lemmas word_be_defs [byte_eval] =
  u16_be_def u32_be_def u64_be_def u16_from_be_def u32_from_be_def u64_from_be_def from_be_def

lemma length_word_be [simp]:
  "length (u16_be a) = 2" "length (u32_be b) = 4" "length (u64_be c) = 8"
  by (simp_all add: u16_be_def u32_be_def u64_be_def)

lemma word_from_be_be [simp]:
  "u16_from_be (u16_be a) = a" "u32_from_be (u32_be b) = b" "u64_from_be (u64_be c) = c"
  by (simp_all add: u16_be_def u32_be_def u64_be_def u16_from_be_def u32_from_be_def
      u64_from_be_def from_be_to_be)

lemma word_be_from_be [simp]:
  "length bs = 2 \<Longrightarrow> u16_be (u16_from_be bs) = bs"
  "length bs = 4 \<Longrightarrow> u32_be (u32_from_be bs) = bs"
  "length bs = 8 \<Longrightarrow> u64_be (u64_from_be bs) = bs"
  using from_be_less [of bs] to_be_from_be [of bs]
  by (simp_all add: u16_be_def u32_be_def u64_be_def u16_from_be_def u32_from_be_def
      u64_from_be_def unat_of_nat)

lemma unat_from_be [simp]:
  "length bs = 2 \<Longrightarrow> unat (u16_from_be bs) = from_be bs"
  "length bs = 4 \<Longrightarrow> unat (u32_from_be bs) = from_be bs"
  "length bs = 8 \<Longrightarrow> unat (u64_from_be bs) = from_be bs"
  using from_be_less [of bs]
  by (simp_all add: u16_from_be_def u32_from_be_def u64_from_be_def unat_of_nat)


section \<open>Interfaces\<close>

text \<open>
  A self-delimiting encoding: whatever follows an encoded value on the stream, reading returns
  that value and the rest, and everything that reads successfully was written by the encoder.
  The wire frames of the relay tunnel and the labelled fields of the signed transcripts are both
  of this kind.
\<close>

locale prefix_codec =
  fixes enc :: "'a \<Rightarrow> byte list"
    and dec :: "byte list \<Rightarrow> ('a \<times> byte list) option"
    and wf :: "'a \<Rightarrow> bool"
  assumes dec_enc: "wf x \<Longrightarrow> dec (enc x @ rest) = Some (x, rest)"
    and dec_sound: "dec bs = Some (x, rest) \<Longrightarrow> wf x \<and> bs = enc x @ rest"
    and enc_nonempty: "wf x \<Longrightarrow> enc x \<noteq> []"
begin

lemma enc_append_inj:
  assumes "wf x" and "wf y" and "enc x @ r = enc y @ s"
  shows "x = y \<and> r = s"
proof -
  have "Some (x, r) = dec (enc y @ s)"
    using dec_enc [OF assms(1), of r] assms(3) by simp
  also have "\<dots> = Some (y, s)"
    by (rule dec_enc [OF assms(2)])
  finally show ?thesis by simp
qed

lemma stream_inj:
  "\<lbrakk>list_all wf xs; list_all wf ys; concat (map enc xs) = concat (map enc ys)\<rbrakk> \<Longrightarrow> xs = ys"
proof (induction xs arbitrary: ys)
  case Nil
  then show ?case using enc_nonempty by (cases ys) auto
next
  case (Cons x xs)
  then obtain y ys' where ys: "ys = y # ys'"
    using enc_nonempty by (cases ys) auto
  from Cons.prems ys have "x = y \<and> concat (map enc xs) = concat (map enc ys')"
    by (intro enc_append_inj) auto
  with Cons ys show ?case by simp
qed

lemma prefix_inj:
  "\<lbrakk>list_all wf xs; list_all wf ys; length xs = length ys;
    concat (map enc xs) @ r = concat (map enc ys) @ s\<rbrakk> \<Longrightarrow> xs = ys \<and> r = s"
proof (induction xs arbitrary: ys)
  case Nil
  then show ?case by simp
next
  case (Cons x xs)
  then obtain y ys' where ys: "ys = y # ys'" by (cases ys) auto
  from Cons.prems ys have "x = y \<and> concat (map enc xs) @ r = concat (map enc ys') @ s"
    by (intro enc_append_inj) auto
  with Cons ys show ?case by simp
qed

end

text \<open>
  A labelled transition system that runs from an initial state, with an invariant every
  transition keeps.
\<close>

inductive reaches :: "('s \<Rightarrow> 'l \<Rightarrow> 's \<Rightarrow> bool) \<Rightarrow> 's \<Rightarrow> 'l list \<Rightarrow> 's \<Rightarrow> bool"
  for step :: "'s \<Rightarrow> 'l \<Rightarrow> 's \<Rightarrow> bool" where
  reaches_Nil: "reaches step s [] s"
| reaches_snoc: "reaches step s ls t \<Longrightarrow> step t l u \<Longrightarrow> reaches step s (ls @ [l]) u"

inductive_cases reaches_NilE: "reaches step s [] t"

lemma reaches_append:
  assumes "reaches step t ls' u" and "reaches step s ls t"
  shows "reaches step s (ls @ ls') u"
  using assms
proof (induction rule: reaches.induct)
  case (reaches_Nil s)
  then show ?case by simp
next
  case (reaches_snoc t ls' u l v)
  then have "reaches step s (ls @ ls') u" by simp
  then show ?case using reaches_snoc.hyps(2) reaches.reaches_snoc by fastforce
qed

lemma reaches_single: "step s l t \<Longrightarrow> reaches step s [l] t"
  using reaches.reaches_snoc [OF reaches.reaches_Nil] by fastforce

lemma reaches_Cons: "step s l t \<Longrightarrow> reaches step t ls u \<Longrightarrow> reaches step s (l # ls) u"
  using reaches_append [OF _ reaches_single, of step t ls u s l] by simp

locale invariant_system =
  fixes step :: "'s \<Rightarrow> 'l \<Rightarrow> 's \<Rightarrow> bool"
    and inv :: "'s \<Rightarrow> bool"
  assumes step_inv: "step s l t \<Longrightarrow> inv s \<Longrightarrow> inv t"
begin

lemma reaches_inv: "reaches step s ls t \<Longrightarrow> inv s \<Longrightarrow> inv t"
  by (induction rule: reaches.induct) (auto intro: step_inv)

text \<open>
  A cost that every transition adds to a potential bounds the total cost of a run by the
  difference of the potentials.
\<close>

lemma reaches_potential:
  fixes cost :: "'l \<Rightarrow> nat" and pot :: "'s \<Rightarrow> nat"
  assumes "\<And>s l t. step s l t \<Longrightarrow> inv s \<Longrightarrow> pot t = pot s + cost l"
    and "reaches step s ls t" and "inv s"
  shows "pot t = pot s + sum_list (map cost ls)"
  using assms(2,3)
proof (induction rule: reaches.induct)
  case (reaches_Nil s)
  then show ?case by simp
next
  case (reaches_snoc s ls t l u)
  then have "inv t" by (blast intro: reaches_inv)
  with reaches_snoc assms(1) show ?case by simp
qed

end

text \<open>
  A system that refines another through a mapping of its states and labels: each of its runs maps to a
  run of the other.
\<close>

locale simulation = invariant_system step inv
  for step :: "'s \<Rightarrow> 'l \<Rightarrow> 's \<Rightarrow> bool" and inv :: "'s \<Rightarrow> bool" +
  fixes spec_step :: "'a \<Rightarrow> 'b \<Rightarrow> 'a \<Rightarrow> bool"
    and abs :: "'s \<Rightarrow> 'a"
    and lab :: "'l \<Rightarrow> 'b"
  assumes step_sim: "step s l t \<Longrightarrow> inv s \<Longrightarrow> spec_step (abs s) (lab l) (abs t)"
begin

lemma reaches_sim: "reaches step s ls t \<Longrightarrow> inv s \<Longrightarrow> reaches spec_step (abs s) (map lab ls) (abs t)"
proof (induction rule: reaches.induct)
  case (reaches_Nil s)
  then show ?case by (simp add: reaches.reaches_Nil)
next
  case (reaches_snoc s ls t l u)
  then have "inv t" by (blast intro: reaches_inv)
  then show ?case using reaches_snoc by (auto intro: reaches.reaches_snoc step_sim)
qed

end

end
