(* ===== verification/Rust_Std.thy ===== *)
theory Rust_Std
  imports Prelude
begin

unbundle bit_operations_syntax

text \<open>
  What the sources use of the Rust standard library's text and network types. A \<open>str\<close> is the
  list of its UTF-8 bytes, written as characters, so that \<open>length\<close> is \<open>str::len\<close>. An
  address is its octets or segments, and its textual form is read by the recursive-descent parser
  of \<open>core::net\<close>.
\<close>

section \<open>Text\<close>

definition byte_of :: "char \<Rightarrow> byte" where
  "byte_of c = of_nat (of_char c)"

definition char_of_byte :: "byte \<Rightarrow> char" where
  "char_of_byte b = char_of (unat b)"

definition str_bytes :: "string \<Rightarrow> byte list" where
  "str_bytes s = map byte_of s"

definition bytes_str :: "byte list \<Rightarrow> string" where
  "bytes_str bs = map char_of_byte bs"

lemma char_of_byte_of [simp]: "char_of_byte (byte_of c) = c"
  by (simp add: byte_of_def char_of_byte_def)

lemma byte_of_char_of_byte [simp]: "byte_of (char_of_byte b) = b"
  by (rule word_unat_eq_iff [THEN iffD2]) (simp add: byte_of_def char_of_byte_def)

lemma bytes_str_str_bytes [simp]: "bytes_str (str_bytes s) = s"
  by (simp add: bytes_str_def str_bytes_def map_idI)

lemma str_bytes_bytes_str [simp]: "str_bytes (bytes_str bs) = bs"
  by (simp add: bytes_str_def str_bytes_def map_idI)

lemma length_str_bytes [simp]: "length (str_bytes s) = length s" "length (bytes_str bs) = length bs"
  by (simp_all add: str_bytes_def bytes_str_def)

lemma str_bytes_inj [simp]: "str_bytes s = str_bytes t \<longleftrightarrow> s = t"
  by (metis bytes_str_str_bytes)

lemma str_bytes_append [simp]: "str_bytes (s @ t) = str_bytes s @ str_bytes t"
  by (simp add: str_bytes_def)

lemma str_bytes_Nil [simp]: "str_bytes [] = []" "str_bytes s = [] \<longleftrightarrow> s = []"
  by (simp_all add: str_bytes_def)

text \<open>\<open>str::from_utf8\<close> accepts the well-formed sequences of the Unicode standard (table 3-7).\<close>

definition utf8_cont :: "byte \<Rightarrow> bool" where
  "utf8_cont b \<longleftrightarrow> 0x80 \<le> b \<and> b \<le> 0xBF"

fun utf8_valid :: "byte list \<Rightarrow> bool" where
  "utf8_valid [] = True"
| "utf8_valid (a # bs) =
     (if a < 0x80 then utf8_valid bs
      else (case bs of [] \<Rightarrow> False | b # cs \<Rightarrow>
        if 0xC2 \<le> a \<and> a \<le> 0xDF then utf8_cont b \<and> utf8_valid cs
        else (case cs of [] \<Rightarrow> False | c # ds \<Rightarrow>
          if 0xE0 \<le> a \<and> a \<le> 0xEF then
            utf8_cont b \<and> (a = 0xE0 \<longrightarrow> 0xA0 \<le> b) \<and> (a = 0xED \<longrightarrow> b \<le> 0x9F)
              \<and> utf8_cont c \<and> utf8_valid ds
          else (case ds of [] \<Rightarrow> False | d # es \<Rightarrow>
            0xF0 \<le> a \<and> a \<le> 0xF4 \<and> utf8_cont b \<and> (a = 0xF0 \<longrightarrow> 0x90 \<le> b) \<and> (a = 0xF4 \<longrightarrow> b \<le> 0x8F)
              \<and> utf8_cont c \<and> utf8_cont d \<and> utf8_valid es))))"

lemma utf8_valid_ascii: "(\<forall>b \<in> set bs. b < 0x80) \<Longrightarrow> utf8_valid bs"
  by (induction bs) auto

definition from_utf8 :: "byte list \<Rightarrow> string option" where
  "from_utf8 bs = (if utf8_valid bs then Some (bytes_str bs) else None)"

definition is_str :: "string \<Rightarrow> bool" where
  "is_str s = utf8_valid (str_bytes s)"

lemma from_utf8_Some: "from_utf8 bs = Some s \<longleftrightarrow> is_str s \<and> bs = str_bytes s"
  by (auto simp: from_utf8_def is_str_def)

text \<open>Byte classes.\<close>

definition is_ascii_digit :: "char \<Rightarrow> bool" where
  "is_ascii_digit c \<longleftrightarrow> (let n = of_char c :: nat in 48 \<le> n \<and> n \<le> 57)"

definition is_ascii_lowercase :: "char \<Rightarrow> bool" where
  "is_ascii_lowercase c \<longleftrightarrow> (let n = of_char c :: nat in 97 \<le> n \<and> n \<le> 122)"

definition is_ascii_uppercase :: "char \<Rightarrow> bool" where
  "is_ascii_uppercase c \<longleftrightarrow> (let n = of_char c :: nat in 65 \<le> n \<and> n \<le> 90)"

definition is_ascii_alphanumeric :: "char \<Rightarrow> bool" where
  "is_ascii_alphanumeric c \<longleftrightarrow> is_ascii_digit c \<or> is_ascii_lowercase c \<or> is_ascii_uppercase c"

definition is_ascii_hexdigit :: "char \<Rightarrow> bool" where
  "is_ascii_hexdigit c \<longleftrightarrow> is_ascii_digit c
     \<or> (let n = of_char c :: nat in 97 \<le> n \<and> n \<le> 102 \<or> 65 \<le> n \<and> n \<le> 70)"

lemmas ascii_class_defs =
  is_ascii_digit_def is_ascii_lowercase_def is_ascii_uppercase_def is_ascii_alphanumeric_def
  is_ascii_hexdigit_def Let_def

text \<open>\<open>byte.is_ascii_alphanumeric() || matches!(byte, b'_' | b'-')\<close>\<close>

definition is_url_safe :: "char \<Rightarrow> bool" where
  "is_url_safe c \<longleftrightarrow> is_ascii_alphanumeric c \<or> c = CHR ''_'' \<or> c = CHR ''-''"

lemma is_url_safe_ascii: "is_url_safe c \<Longrightarrow> byte_of c < 0x80"
proof -
  assume "is_url_safe c"
  then have "(of_char c :: nat) < 128"
    by (auto simp: is_url_safe_def ascii_class_defs)
  then show ?thesis
    by (simp add: byte_of_def word_less_nat_alt)
qed

lemma is_str_url_safe: "list_all is_url_safe s \<Longrightarrow> is_str s"
  unfolding is_str_def
  by (rule utf8_valid_ascii) (auto simp: str_bytes_def list_all_iff dest: is_url_safe_ascii)

definition starts_with :: "string \<Rightarrow> string \<Rightarrow> bool" where
  "starts_with p s \<longleftrightarrow> take (length p) s = p"

definition ends_with :: "string \<Rightarrow> string \<Rightarrow> bool" where
  "ends_with p s \<longleftrightarrow> length p \<le> length s \<and> drop (length s - length p) s = p"

definition strip_prefix :: "string \<Rightarrow> string \<Rightarrow> string option" where
  "strip_prefix p s = (if starts_with p s then Some (drop (length p) s) else None)"

definition strip_suffix :: "string \<Rightarrow> string \<Rightarrow> string option" where
  "strip_suffix p s = (if ends_with p s then Some (take (length s - length p) s) else None)"

lemma strip_prefix_Some: "strip_prefix p s = Some t \<longleftrightarrow> s = p @ t"
  by (auto simp: strip_prefix_def starts_with_def) (metis append_take_drop_id)

text \<open>\<open>str::split\<close> at a character: always at least one piece.\<close>

fun split_char :: "char \<Rightarrow> string \<Rightarrow> string list" where
  "split_char d [] = [[]]"
| "split_char d (c # s) =
     (if c = d then [] # split_char d s
      else (case split_char d s of [] \<Rightarrow> [[c]] | p # ps \<Rightarrow> (c # p) # ps))"

lemma split_char_nonempty [simp]: "split_char d s \<noteq> []"
  by (induction s) (auto split: list.splits)

text \<open>\<open>Display\<close> of an unsigned integer.\<close>

fun show_nat :: "nat \<Rightarrow> string" where
  "show_nat n = (if n < 10 then [char_of (48 + n)] else show_nat (n div 10) @ [char_of (48 + n mod 10)])"

declare show_nat.simps [simp del]

definition read_nat :: "string \<Rightarrow> nat" where
  "read_nat s = foldl (\<lambda>n c. n * 10 + (of_char c - 48)) 0 s"

lemma read_show_nat [simp]: "read_nat (show_nat n) = n"
proof (induction n rule: show_nat.induct)
  case (1 n)
  then show ?case
    by (cases "n < 10") (simp_all add: show_nat.simps [of n] read_nat_def)
qed

lemma show_nat_digits: "list_all is_ascii_digit (show_nat n)"
proof (induction n rule: show_nat.induct)
  case (1 n)
  have "48 + n mod 10 < (256 :: nat)" by (rule le_less_trans [of _ "48 + 9"]) simp_all
  with 1 show ?case
    by (cases "n < 10") (auto simp: show_nat.simps [of n] is_ascii_digit_def)
qed

text \<open>The scalar values of a text.\<close>

fun utf8_chars :: "byte list \<Rightarrow> nat list" where
  "utf8_chars [] = []"
| "utf8_chars (a # bs) =
     (if a < 0x80 then unat a # utf8_chars bs
      else (case bs of [] \<Rightarrow> [] | b # cs \<Rightarrow>
        if a \<le> 0xDF then (unat a mod 32 * 64 + unat b mod 64) # utf8_chars cs
        else (case cs of [] \<Rightarrow> [] | c # ds \<Rightarrow>
          if a \<le> 0xEF then ((unat a mod 16 * 64 + unat b mod 64) * 64 + unat c mod 64) # utf8_chars ds
          else (case ds of [] \<Rightarrow> [] | d # es \<Rightarrow>
            (((unat a mod 8 * 64 + unat b mod 64) * 64 + unat c mod 64) * 64 + unat d mod 64) # utf8_chars es))))"

text \<open>\<open>char::is_whitespace\<close> on a scalar value, and comparison of texts up to the case of letters.\<close>

definition char_is_whitespace :: "nat \<Rightarrow> bool" where
  "char_is_whitespace n \<longleftrightarrow> (9 \<le> n \<and> n \<le> 13) \<or> n \<in> {0x20, 0x85, 0xA0, 0x1680, 0x2028, 0x2029, 0x202F, 0x205F, 0x3000}
     \<or> (0x2000 \<le> n \<and> n \<le> 0x200A)"

definition to_ascii_lowercase :: "char \<Rightarrow> char" where
  "to_ascii_lowercase c = (if is_ascii_uppercase c then char_of ((of_char c :: nat) + 32) else c)"

definition eq_ignore_ascii_case :: "string \<Rightarrow> string \<Rightarrow> bool" where
  "eq_ignore_ascii_case s t \<longleftrightarrow> map to_ascii_lowercase s = map to_ascii_lowercase t"

text \<open>Decimal numbers padded with zeros to a width.\<close>

definition show_padded :: "nat \<Rightarrow> int \<Rightarrow> string" where
  "show_padded width v =
     (let sign = (if v < 0 then ''-'' else []); ds = show_nat (nat \<bar>v\<bar>) in
      sign @ replicate (width - length sign - length ds) (CHR ''0'') @ ds)"

text \<open>\<open>LowerHex\<close> of an unsigned integer.\<close>

definition hex_digit :: "nat \<Rightarrow> char" where
  "hex_digit n = (if n < 10 then char_of (48 + n) else char_of (87 + n))"

fun show_hex :: "nat \<Rightarrow> string" where
  "show_hex n = (if n < 16 then [hex_digit n] else show_hex (n div 16) @ [hex_digit (n mod 16)])"

declare show_hex.simps [simp del]


section \<open>Network addresses\<close>

datatype ipv4 = Ipv4 byte byte byte byte

datatype ipv6 = Ipv6 u16 u16 u16 u16 u16 u16 u16 u16

datatype ip_addr = V4 ipv4 | V6 ipv6

text \<open>A socket address; \<open>sock_scope\<close> is the flow label and scope of an IPv6 address.\<close>

record socket_addr =
  sock_ip :: ip_addr
  sock_port :: u16
  sock_scope :: "u32 \<times> u32"

fun v4_is_private :: "ipv4 \<Rightarrow> bool" where
  "v4_is_private (Ipv4 a b c d) \<longleftrightarrow>
     a = 10 \<or> (a = 172 \<and> 16 \<le> b \<and> b \<le> 31) \<or> (a = 192 \<and> b = 168)"

fun v4_is_loopback :: "ipv4 \<Rightarrow> bool" where
  "v4_is_loopback (Ipv4 a b c d) \<longleftrightarrow> a = 127"

fun v4_is_link_local :: "ipv4 \<Rightarrow> bool" where
  "v4_is_link_local (Ipv4 a b c d) \<longleftrightarrow> a = 169 \<and> b = 254"

fun v4_is_broadcast :: "ipv4 \<Rightarrow> bool" where
  "v4_is_broadcast (Ipv4 a b c d) \<longleftrightarrow> a = 255 \<and> b = 255 \<and> c = 255 \<and> d = 255"

fun v4_is_documentation :: "ipv4 \<Rightarrow> bool" where
  "v4_is_documentation (Ipv4 a b c d) \<longleftrightarrow>
     (a = 192 \<and> b = 0 \<and> c = 2) \<or> (a = 198 \<and> b = 51 \<and> c = 100) \<or> (a = 203 \<and> b = 0 \<and> c = 113)"

fun v4_is_unspecified :: "ipv4 \<Rightarrow> bool" where
  "v4_is_unspecified (Ipv4 a b c d) \<longleftrightarrow> a = 0 \<and> b = 0 \<and> c = 0 \<and> d = 0"

fun v4_is_multicast :: "ipv4 \<Rightarrow> bool" where
  "v4_is_multicast (Ipv4 a b c d) \<longleftrightarrow> 224 \<le> a \<and> a \<le> 239"

fun v6_is_loopback :: "ipv6 \<Rightarrow> bool" where
  "v6_is_loopback x \<longleftrightarrow> x = Ipv6 0 0 0 0 0 0 0 1"

fun v6_is_unspecified :: "ipv6 \<Rightarrow> bool" where
  "v6_is_unspecified x \<longleftrightarrow> x = Ipv6 0 0 0 0 0 0 0 0"

fun v6_is_unique_local :: "ipv6 \<Rightarrow> bool" where
  "v6_is_unique_local (Ipv6 a _ _ _ _ _ _ _) \<longleftrightarrow> a AND 0xfe00 = 0xfc00"

fun v6_is_unicast_link_local :: "ipv6 \<Rightarrow> bool" where
  "v6_is_unicast_link_local (Ipv6 a _ _ _ _ _ _ _) \<longleftrightarrow> a AND 0xffc0 = 0xfe80"

fun v6_is_multicast :: "ipv6 \<Rightarrow> bool" where
  "v6_is_multicast (Ipv6 a _ _ _ _ _ _ _) \<longleftrightarrow> a AND 0xff00 = 0xff00"

definition v4_of_segments :: "u16 \<Rightarrow> u16 \<Rightarrow> ipv4" where
  "v4_of_segments g h =
     Ipv4 (of_nat (unat g div 256)) (of_nat (unat g)) (of_nat (unat h div 256)) (of_nat (unat h))"

fun to_ipv4_mapped :: "ipv6 \<Rightarrow> ipv4 option" where
  "to_ipv4_mapped (Ipv6 a b c d e f g h) =
     (if a = 0 \<and> b = 0 \<and> c = 0 \<and> d = 0 \<and> e = 0 \<and> f = 0xffff then Some (v4_of_segments g h)
      else None)"

fun ip_is_loopback :: "ip_addr \<Rightarrow> bool" where
  "ip_is_loopback (V4 a) = v4_is_loopback a"
| "ip_is_loopback (V6 a) = v6_is_loopback a"

section \<open>Reading an address\<close>

definition to_digit :: "nat \<Rightarrow> char \<Rightarrow> nat option" where
  "to_digit radix c =
     (let n = of_char c;
          v = (if 48 \<le> n \<and> n \<le> 57 then Some (n - 48)
               else if 97 \<le> n \<and> n \<le> 122 then Some (n - 87)
               else if 65 \<le> n \<and> n \<le> 90 then Some (n - 55) else None)
      in case v of Some d \<Rightarrow> if d < radix then Some d else None | None \<Rightarrow> None)"

definition is_digit_of :: "nat \<Rightarrow> char \<Rightarrow> bool" where
  "is_digit_of radix c \<longleftrightarrow> to_digit radix c \<noteq> None"

definition digits_value :: "nat \<Rightarrow> string \<Rightarrow> nat" where
  "digits_value radix ds = foldl (\<lambda>a c. a * radix + the (to_digit radix c)) 0 ds"

text \<open>
  \<open>Parser::read_number\<close>: all leading digits, at least one and at most \<open>max_digits\<close> of them,
  without a leading zero unless \<open>zero_ok\<close>, and a value below \<open>bound\<close>.
\<close>

definition read_number :: "nat \<Rightarrow> nat \<Rightarrow> bool \<Rightarrow> nat \<Rightarrow> string \<Rightarrow> (nat \<times> string) option" where
  "read_number radix max_digits zero_ok bound s =
     (let ds = takeWhile (is_digit_of radix) s; v = digits_value radix ds in
      if ds = [] \<or> max_digits < length ds \<or> (\<not> zero_ok \<and> take 1 ds = ''0'' \<and> 1 < length ds) \<or> bound \<le> v
      then None else Some (v, dropWhile (is_digit_of radix) s))"

fun read_given_char :: "char \<Rightarrow> string \<Rightarrow> string option" where
  "read_given_char c [] = None"
| "read_given_char c (d # s) = (if c = d then Some s else None)"

definition read_separator ::
  "char \<Rightarrow> nat \<Rightarrow> (string \<Rightarrow> ('a \<times> string) option) \<Rightarrow> string \<Rightarrow> ('a \<times> string) option" where
  "read_separator sep index inner s =
     (if 0 < index then (case read_given_char sep s of None \<Rightarrow> None | Some t \<Rightarrow> inner t) else inner s)"

fun read_octets :: "nat \<Rightarrow> nat \<Rightarrow> string \<Rightarrow> (nat list \<times> string) option" where
  "read_octets 0 i s = Some ([], s)"
| "read_octets (Suc n) i s =
     (case read_separator (CHR ''.'') i (read_number 10 3 False 256) s of
        None \<Rightarrow> None
      | Some (v, t) \<Rightarrow> map_option (\<lambda>(vs, u). (v # vs, u)) (read_octets n (Suc i) t))"

definition read_ipv4_addr :: "string \<Rightarrow> (ipv4 \<times> string) option" where
  "read_ipv4_addr s =
     (case read_octets 4 0 s of
        Some ([a, b, c, d], t) \<Rightarrow> Some (Ipv4 (of_nat a) (of_nat b) (of_nat c) (of_nat d), t)
      | _ \<Rightarrow> None)"

fun v4_segments :: "ipv4 \<Rightarrow> nat list" where
  "v4_segments (Ipv4 a b c d) = [unat a * 256 + unat b, unat c * 256 + unat d]"

text \<open>\<open>read_groups\<close>: up to \<open>n\<close> groups, the last two of which may be an embedded IPv4 address.\<close>

fun read_groups :: "nat \<Rightarrow> nat \<Rightarrow> string \<Rightarrow> nat list \<times> bool \<times> string" where
  "read_groups 0 i s = ([], False, s)"
| "read_groups (Suc n) i s =
     (case (if 0 < n then read_separator (CHR '':'') i read_ipv4_addr s else None) of
        Some (a, t) \<Rightarrow> (v4_segments a, True, t)
      | None \<Rightarrow>
          (case read_separator (CHR '':'') i (read_number 16 4 True 65536) s of
             None \<Rightarrow> ([], False, s)
           | Some (g, t) \<Rightarrow> (let (gs, v4, u) = read_groups n (Suc i) t in (g # gs, v4, u))))"

definition ipv6_of_groups :: "nat list \<Rightarrow> ipv6 option" where
  "ipv6_of_groups gs =
     (case map of_nat gs of [a, b, c, d, e, f, g, h] \<Rightarrow> Some (Ipv6 a b c d e f g h) | _ \<Rightarrow> None)"

definition read_ipv6_addr :: "string \<Rightarrow> (ipv6 \<times> string) option" where
  "read_ipv6_addr s =
     (let (head, head_ipv4, t) = read_groups 8 0 s in
      if length head = 8 then map_option (\<lambda>x. (x, t)) (ipv6_of_groups head)
      else if head_ipv4 then None
      else (case read_given_char (CHR '':'') t of None \<Rightarrow> None | Some t1 \<Rightarrow>
             (case read_given_char (CHR '':'') t1 of None \<Rightarrow> None | Some t2 \<Rightarrow>
               (let (tail, _, u) = read_groups (8 - (length head + 1)) 0 t2 in
                map_option (\<lambda>x. (x, u))
                  (ipv6_of_groups
                    (head @ replicate (8 - (length head + length tail)) 0 @ tail))))))"

definition parse_ip :: "string \<Rightarrow> ip_addr option" where
  "parse_ip s =
     (case read_ipv4_addr s of
        Some (a, t) \<Rightarrow> if t = [] then Some (V4 a) else None
      | None \<Rightarrow>
          (case read_ipv6_addr s of
             Some (a, t) \<Rightarrow> if t = [] then Some (V6 a) else None
           | None \<Rightarrow> None))"


text \<open>A text that starts with neither a hexadecimal digit nor a colon is no address.\<close>

lemma is_digit_of_mono: "is_digit_of 10 c \<Longrightarrow> is_digit_of 16 c"
  by (auto simp: is_digit_of_def to_digit_def Let_def split: if_splits)

lemma read_number_no_digit: "\<not> is_digit_of radix c \<Longrightarrow> read_number radix m z b (c # s) = None"
  by (simp add: read_number_def)

lemma parse_ip_name:
  assumes "\<not> is_digit_of 16 c" and "c \<noteq> CHR '':''"
  shows "parse_ip (c # s) = None"
proof -
  have n: "read_number 10 3 False 256 (c # s) = None" "read_number 16 4 True 65536 (c # s) = None"
    using assms is_digit_of_mono by (blast intro: read_number_no_digit)+
  have v4: "read_ipv4_addr (c # s) = None"
    using n(1) read_octets.simps(2) [of 3 0 "c # s"] by (simp add: read_ipv4_addr_def read_separator_def)
  have "read_groups 8 0 (c # s) = ([], False, c # s)"
    using n(2) v4 read_groups.simps(2) [of 7 0 "c # s"] by (simp add: read_separator_def)
  then have "read_ipv6_addr (c # s) = None"
    using assms(2) by (simp add: read_ipv6_addr_def)
  with v4 show ?thesis by (simp add: parse_ip_def)
qed

section \<open>Displaying an address\<close>

fun show_v4 :: "ipv4 \<Rightarrow> string" where
  "show_v4 (Ipv4 a b c d) =
     show_nat (unat a) @ ''.'' @ show_nat (unat b) @ ''.'' @ show_nat (unat c) @ ''.'' @ show_nat (unat d)"

fun v6_segments :: "ipv6 \<Rightarrow> nat list" where
  "v6_segments (Ipv6 a b c d e f g h) = map unat [a, b, c, d, e, f, g, h]"

text \<open>The first longest run of zeros as start and length: the index, the run at hand and the longest so far.\<close>

fun longest_zeros :: "nat \<Rightarrow> nat \<times> nat \<Rightarrow> nat \<times> nat \<Rightarrow> nat list \<Rightarrow> nat \<times> nat" where
  "longest_zeros i current longest [] = longest"
| "longest_zeros i current longest (g # gs) =
     (if g = 0
      then let run = (if snd current = 0 then (i, 1) else (fst current, snd current + 1))
           in longest_zeros (Suc i) run (if snd longest < snd run then run else longest) gs
      else longest_zeros (Suc i) (0, 0) longest gs)"

fun show_groups :: "nat list \<Rightarrow> string" where
  "show_groups [] = []"
| "show_groups [g] = show_hex g"
| "show_groups (g # gs) = show_hex g @ '':'' @ show_groups gs"

definition show_v6 :: "ipv6 \<Rightarrow> string" where
  "show_v6 x =
     (case to_ipv4_mapped x of
        Some a \<Rightarrow> ''::ffff:'' @ show_v4 a
      | None \<Rightarrow>
          let gs = v6_segments x; (start, len) = longest_zeros 0 (0, 0) (0, 0) gs in
          if 1 < len then show_groups (take start gs) @ ''::'' @ show_groups (drop (start + len) gs)
          else show_groups gs)"

fun show_ip :: "ip_addr \<Rightarrow> string" where
  "show_ip (V4 a) = show_v4 a"
| "show_ip (V6 a) = show_v6 a"

lemma to_digit_digit: "is_ascii_digit c \<Longrightarrow> to_digit 10 c = Some (of_char c - 48)"
  by (auto simp: to_digit_def is_ascii_digit_def Let_def)

lemma digits_value_show: "digits_value 10 (show_nat n) = n"
proof -
  have "digits_value 10 ds = read_nat ds" if "list_all is_ascii_digit ds" for ds
    using that by (induction ds rule: rev_induct) (simp_all add: digits_value_def read_nat_def to_digit_digit)
  then show ?thesis using show_nat_digits by simp
qed

lemma show_nat_length: "n < 10 ^ k \<Longrightarrow> 0 < k \<Longrightarrow> length (show_nat n) \<le> k"
proof (induction k arbitrary: n)
  case (Suc k)
  show ?case
  proof (cases "n < 10")
    case True
    then show ?thesis by (simp add: show_nat.simps [of n])
  next
    case False
    then have "k \<noteq> 0" using Suc.prems by (cases k) auto
    moreover have "n div 10 < 10 ^ k" using Suc.prems by (simp add: less_mult_imp_div_less mult.commute)
    ultimately show ?thesis using Suc.IH [of "n div 10"] False by (simp add: show_nat.simps [of n])
  qed
qed simp

lemma show_nat_nonempty [simp]: "show_nat n \<noteq> []"
  by (simp add: show_nat.simps [of n])

lemma show_nat_no_zero: "10 \<le> n \<Longrightarrow> take 1 (show_nat n) \<noteq> ''0''"
proof (induction n rule: show_nat.induct)
  case (1 n)
  have *: "take 1 (show_nat n) = take 1 (show_nat (n div 10))"
    using 1(2) show_nat_nonempty [of "n div 10"] by (cases "show_nat (n div 10)") (simp_all add: show_nat.simps [of n])
  show ?case
  proof (cases "n div 10 < 10")
    case True
    then have "n div 10 \<noteq> 0" using 1(2) by simp
    then show ?thesis using * True by (auto simp: show_nat.simps [of "n div 10"] dest!: arg_cong [of _ _ "of_char :: char \<Rightarrow> nat"])
  qed (use 1 * in auto)
qed

lemma is_digit_of_ascii: "is_digit_of 10 c \<longleftrightarrow> is_ascii_digit c"
  by (auto simp: is_digit_of_def to_digit_def is_ascii_digit_def Let_def split: if_splits)

lemma read_number_show:
  assumes "n < 256" and "rest = [] \<or> \<not> is_digit_of 10 (hd rest)"
  shows "read_number 10 3 False 256 (show_nat n @ rest) = Some (n, rest)"
proof -
  have digits: "\<forall>c \<in> set (show_nat n). is_digit_of 10 c"
    using show_nat_digits [of n] by (simp add: is_digit_of_ascii list_all_iff)
  have take: "takeWhile (is_digit_of 10) (show_nat n @ rest) = show_nat n" "dropWhile (is_digit_of 10) (show_nat n @ rest) = rest"
    using digits assms(2) by (cases rest; simp add: takeWhile_append2 dropWhile_append2)+
  have "length (show_nat n) \<le> 3" using assms(1) by (intro show_nat_length) simp_all
  moreover have "\<not> (take 1 (show_nat n) = ''0'' \<and> 1 < length (show_nat n))"
    using show_nat_no_zero [of n] show_nat_length [of n 1] by (cases "10 \<le> n") auto
  ultimately show ?thesis using assms(1) by (simp add: read_number_def Let_def take digits_value_show)
qed

lemma parse_show_v4 [simp]: "parse_ip (show_v4 a) = Some (V4 a)"
proof (cases a)
  case (Ipv4 w x y z)
  have b: "unat v < 256" for v :: byte using unsigned_less [of v] by simp
  have dot: "\<not> is_digit_of 10 (CHR ''.'')" by (simp add: is_digit_of_ascii is_ascii_digit_def)
  have four: "4 = Suc (Suc (Suc (Suc 0)))" by simp
  have "read_octets 4 0 (show_v4 a) = Some ([unat w, unat x, unat y, unat z], [])"
    using read_number_show [OF b [of z], of "[]"] unfolding four
    by (simp add: Ipv4 read_separator_def read_number_show [OF b] dot)
  then show ?thesis by (simp add: parse_ip_def read_ipv4_addr_def Ipv4)
qed

section \<open>Paths\<close>

text \<open>
  A \<open>PathBuf\<close> of a Unix system, up to the spelling its equality ignores: whether it is rooted, and
  its components (repeated separators and inner \<open>.\<close> components are not components).
\<close>

record path =
  rooted :: bool
  comps :: "string list"

definition path_of :: "string \<Rightarrow> path" where
  "path_of s =
     (let parts = split_char (CHR ''/'') s;
          body = filter (\<lambda>c. c \<noteq> [] \<and> c \<noteq> ''.'') parts;
          root = starts_with ''/'' s
      in \<lparr>rooted = root, comps = (if \<not> root \<and> hd parts = ''.'' then ''.'' # body else body)\<rparr>)"

definition path_is_relative :: "path \<Rightarrow> bool" where
  "path_is_relative p = (\<not> rooted p)"

definition path_join :: "path \<Rightarrow> path \<Rightarrow> path" where
  "path_join p q =
     (if rooted q then q
      else if \<not> rooted p \<and> comps p = [] then q
      else p\<lparr>comps := comps p @ filter (\<lambda>c. c \<noteq> ''.'') (comps q)\<rparr>)"

definition path_parent :: "path \<Rightarrow> path option" where
  "path_parent p = (if comps p = [] then None else Some (p\<lparr>comps := butlast (comps p)\<rparr>))"

section \<open>Date and time\<close>

text \<open>
  An \<open>OffsetDateTime\<close>: an instant in nanoseconds and the offset from UTC in seconds. Its order is
  that of the instants.
\<close>

record odt =
  instant :: int
  utc_offset :: int

section \<open>Printed addresses\<close>

lemma utf8_chars_ascii: "list_all (\<lambda>b. b < 0x80) bs \<Longrightarrow> utf8_chars bs = map unat bs"
  by (induction bs) simp_all

lemma show_v4_chars: "c \<in> set (show_v4 a) \<Longrightarrow> is_ascii_digit c \<or> c = CHR ''.''"
  using show_nat_digits by (cases a) (auto simp: list_all_iff)

lemma show_v4_length: "1 \<le> length (show_v4 a) \<and> length (show_v4 a) \<le> 15"
proof (cases a)
  case (Ipv4 w x y z)
  have "unat v < 10 ^ 3" for v :: byte by (rule order_less_le_trans [OF unsigned_less]) simp
  then have "length (show_nat (unat v)) \<le> 3" for v :: byte by (rule show_nat_length) simp
  from this [of w] this [of x] this [of y] this [of z] show ?thesis by (simp add: Ipv4)
qed

lemma show_v4_code:
  assumes "c \<in> set (show_v4 a)"
  shows "of_char c = (46 :: nat) \<or> (48 \<le> (of_char c :: nat) \<and> of_char c \<le> (57 :: nat))"
  using show_v4_chars [OF assms] by (auto simp: is_ascii_digit_def Let_def)

lemma show_v4_utf8: "utf8_chars (str_bytes (show_v4 a)) = map of_char (show_v4 a)"
proof -
  have "(word_of_nat n :: byte) < 128 \<and> unat (word_of_nat n :: byte) = n" if "n < 128" for n
    using that by (simp add: word_less_nat_alt unsigned_of_nat take_bit_nat_eq_self)
  then show ?thesis
    using show_v4_code [of _ a] by (subst utf8_chars_ascii) (fastforce simp: str_bytes_def list_all_iff byte_of_def)+
qed

end
