(* ===== verification/Relay_Error.thy ===== *)
theory Relay_Error
  imports Rust_Std
begin

text \<open>
  The error values of the relay (\<open>relay-server/src/error.rs\<close>): the stable codes, their wire
  spelling and the reading of a wire code, and the internal error with the code it reports.
\<close>

datatype error_code =
    ProtocolInvalid | FrameTooLarge | AuthFailed | RouteUnknown | GrantExpired | RouteUnavailable
  | LimitReached | OpenTimeout | IdleTimeout | TunnelLost | RouteRevoked | Internal

fun as_str :: "error_code \<Rightarrow> string" where
  "as_str ProtocolInvalid = ''relay_protocol_invalid''"
| "as_str FrameTooLarge = ''relay_frame_too_large''"
| "as_str AuthFailed = ''relay_auth_failed''"
| "as_str RouteUnknown = ''relay_route_unknown''"
| "as_str GrantExpired = ''relay_grant_expired''"
| "as_str RouteUnavailable = ''relay_route_unavailable''"
| "as_str LimitReached = ''relay_limit_reached''"
| "as_str OpenTimeout = ''relay_open_timeout''"
| "as_str IdleTimeout = ''relay_idle_timeout''"
| "as_str TunnelLost = ''relay_tunnel_lost''"
| "as_str RouteRevoked = ''relay_route_revoked''"
| "as_str Internal = ''relay_internal''"

definition from_wire :: "byte list \<Rightarrow> error_code option" where
  "from_wire value =
     (let s = bytes_str value in
      if s = ''relay_protocol_invalid'' then Some ProtocolInvalid
      else if s = ''relay_frame_too_large'' then Some FrameTooLarge
      else if s = ''relay_auth_failed'' then Some AuthFailed
      else if s = ''relay_route_unknown'' then Some RouteUnknown
      else if s = ''relay_grant_expired'' then Some GrantExpired
      else if s = ''relay_route_unavailable'' then Some RouteUnavailable
      else if s = ''relay_limit_reached'' then Some LimitReached
      else if s = ''relay_open_timeout'' then Some OpenTimeout
      else if s = ''relay_idle_timeout'' then Some IdleTimeout
      else if s = ''relay_tunnel_lost'' then Some TunnelLost
      else if s = ''relay_route_revoked'' then Some RouteRevoked
      else if s = ''relay_internal'' then Some Internal
      else None)"

text \<open>The kinds of \<open>std::io::Error\<close> the code distinguishes.\<close>

datatype io_kind = UnexpectedEof | IoOther

datatype relay_error =
    Stable error_code string
  | Io io_kind
  | Tls string
  | Config string

fun relay_error_code :: "relay_error \<Rightarrow> error_code" where
  "relay_error_code (Stable c _) = c"
| "relay_error_code (Io _) = Internal"
| "relay_error_code (Tls _) = Internal"
| "relay_error_code (Config _) = Internal"

fun operational_code :: "relay_error \<Rightarrow> string" where
  "operational_code (Config message) =
     (if starts_with ''managed_route'' message then message else as_str (relay_error_code (Config message)))"
| "operational_code e = as_str (relay_error_code e)"

lemma from_wire_as_str [simp]: "from_wire (str_bytes (as_str c)) = Some c"
  by (cases c) (simp_all add: from_wire_def)

lemma from_wire_Some: "from_wire bs = Some c \<longleftrightarrow> bs = str_bytes (as_str c)"
proof
  assume "from_wire bs = Some c"
  then have "bytes_str bs = as_str c"
    by (auto simp: from_wire_def Let_def split: if_splits)
  then show "bs = str_bytes (as_str c)"
    by (metis str_bytes_bytes_str)
qed simp

end
