(* ===== verification/Frame.thy ===== *)
theory Frame
  imports Relay_Error
begin

text \<open>
  The wire format of the relay tunnel (\<open>relay-server/src/frame.rs\<close>): frame kinds, the frame
  itself, the payload builders and parsers, and reading and writing one length-delimited frame.
  A reader is the bytes it will still deliver and the way it then ends.
\<close>

section \<open>Frames\<close>

definition PROTOCOL_VERSION :: byte where "PROTOCOL_VERSION = 1"
definition HEADER_BYTES :: nat where "HEADER_BYTES = 10"

datatype frame_kind =
    Register | RegisterOk | Error | Open | OpenOk | OpenError | Data | Fin | Close | WindowUpdate
  | Ping | Pong

fun kind_byte :: "frame_kind \<Rightarrow> byte" where
  "kind_byte Register = 1"
| "kind_byte RegisterOk = 2"
| "kind_byte Error = 3"
| "kind_byte Open = 10"
| "kind_byte OpenOk = 11"
| "kind_byte OpenError = 12"
| "kind_byte Data = 13"
| "kind_byte Fin = 14"
| "kind_byte Close = 15"
| "kind_byte WindowUpdate = 16"
| "kind_byte Ping = 20"
| "kind_byte Pong = 21"

definition kind_try_from :: "byte \<Rightarrow> (relay_error, frame_kind) result" where
  "kind_try_from value =
     (if value = 1 then Inr Register
      else if value = 2 then Inr RegisterOk
      else if value = 3 then Inr Error
      else if value = 10 then Inr Open
      else if value = 11 then Inr OpenOk
      else if value = 12 then Inr OpenError
      else if value = 13 then Inr Data
      else if value = 14 then Inr Fin
      else if value = 15 then Inr Close
      else if value = 16 then Inr WindowUpdate
      else if value = 20 then Inr Ping
      else if value = 21 then Inr Pong
      else Inl (Stable ProtocolInvalid ''unknown frame kind''))"

record frame =
  kind :: frame_kind
  stream_id :: u64
  payload :: "byte list"

definition frame_new :: "frame_kind \<Rightarrow> u64 \<Rightarrow> byte list \<Rightarrow> frame" where
  "frame_new k sid p = \<lparr>kind = k, stream_id = sid, payload = p\<rparr>"

definition frame_register :: "string \<Rightarrow> byte list \<Rightarrow> (relay_error, frame) result" where
  "frame_register route_id token =
     (case u16_try_from (length route_id) of
        None \<Rightarrow> Inl (Stable ProtocolInvalid ''route identifier is too long'')
      | Some route_len \<Rightarrow>
          (case u16_try_from (length token) of
             None \<Rightarrow> Inl (Stable ProtocolInvalid ''route token is too long'')
           | Some token_len \<Rightarrow>
               Inr (frame_new Register 0
                 (u16_be route_len @ str_bytes route_id @ u16_be token_len @ token))))"

definition parse_register :: "frame \<Rightarrow> (relay_error, string \<times> byte list) result" where
  "parse_register f =
     (let p = payload f in
      if kind f \<noteq> Register \<or> stream_id f \<noteq> 0 \<or> length p < 4
      then Inl (Stable ProtocolInvalid ''first frame must register one route'')
      else
        let route_len = unat (u16_from_be [p ! 0, p ! 1]) in
        (case checked_add_usize 2 route_len of
           None \<Rightarrow> Inl (Stable ProtocolInvalid ''invalid register lengths'')
         | Some token_len_offset \<Rightarrow>
             if length p < token_len_offset + 2
             then Inl (Stable ProtocolInvalid ''invalid register route length'')
             else
               let token_len = unat (u16_from_be [p ! token_len_offset, p ! (token_len_offset + 1)]);
                   token_offset = token_len_offset + 2 in
               if checked_add_usize token_offset token_len \<noteq> Some (length p)
               then Inl (Stable ProtocolInvalid ''invalid register token length'')
               else
                 (case from_utf8 (take (token_len_offset - 2) (drop 2 p)) of
                    None \<Rightarrow> Inl (Stable ProtocolInvalid ''route identifier is not UTF-8'')
                  | Some route_id \<Rightarrow> Inr (route_id, drop token_offset p))))"

definition frame_u32 :: "frame_kind \<Rightarrow> u64 \<Rightarrow> u32 \<Rightarrow> frame" where
  "frame_u32 k sid value = frame_new k sid (u32_be value)"

definition parse_u32 :: "frame \<Rightarrow> (relay_error, u32) result" where
  "parse_u32 f =
     (if length (payload f) = 4 then Inr (u32_from_be (payload f))
      else Inl (Stable ProtocolInvalid ''frame requires one unsigned 32-bit value''))"

definition frame_code :: "frame_kind \<Rightarrow> u64 \<Rightarrow> error_code \<Rightarrow> frame" where
  "frame_code k sid c = frame_new k sid (str_bytes (as_str c))"

section \<open>Reading and writing\<close>

definition read_from ::
  "nat \<Rightarrow> io_kind \<Rightarrow> byte list \<Rightarrow> (relay_error, (frame \<times> byte list) option) result" where
  "read_from max_frame_bytes ending reader =
     (if length reader < 4 then
        (if ending = UnexpectedEof then Inr None else Inl (Io ending))
      else
        let len = unat (u32_from_be (take 4 reader)); rest = drop 4 reader in
        if len < HEADER_BYTES
        then Inl (Stable ProtocolInvalid ''frame is shorter than its header'')
        else if max_frame_bytes + HEADER_BYTES < len
        then Inl (Stable FrameTooLarge ''frame exceeds configured maximum'')
        else if length rest < len then Inl (Io ending)
        else
          let body = take len rest in
          if body ! 0 \<noteq> PROTOCOL_VERSION
          then Inl (Stable ProtocolInvalid ''protocol version is unsupported'')
          else
            rbind (kind_try_from (body ! 1)) (\<lambda>k.
              Inr (Some (\<lparr>kind = k, stream_id = u64_from_be (take 8 (drop 2 body)),
                payload = drop HEADER_BYTES body\<rparr>, drop len rest))))"

definition write_to :: "frame \<Rightarrow> nat \<Rightarrow> (relay_error, byte list) result" where
  "write_to f max_frame_bytes =
     (if max_frame_bytes < length (payload f)
      then Inl (Stable FrameTooLarge ''frame exceeds configured maximum'')
      else
        (case checked_add_usize HEADER_BYTES (length (payload f)) of
           None \<Rightarrow> Inl (Stable FrameTooLarge ''frame length overflow'')
         | Some len \<Rightarrow>
             (case u32_try_from len of
                None \<Rightarrow> Inl (Stable FrameTooLarge ''frame length is unsupported'')
              | Some w \<Rightarrow>
                  Inr (u32_be w @ [PROTOCOL_VERSION] @ [kind_byte (kind f)] @ u64_be (stream_id f)
                    @ payload f))))"

section \<open>Kinds\<close>

lemma kind_try_from_byte [simp]: "kind_try_from (kind_byte k) = Inr k"
  by (cases k) (simp_all add: kind_try_from_def)

lemma kind_try_from_Inr: "kind_try_from b = Inr k \<longleftrightarrow> b = kind_byte k"
proof
  assume "kind_try_from b = Inr k"
  then show "b = kind_byte k"
    unfolding kind_try_from_def by (simp split: if_splits)
qed simp

section \<open>Lemmas on reading and writing\<close>

lemma write_to_Inr:
  "write_to f m = Inr bs \<longleftrightarrow>
     length (payload f) \<le> m \<and> 10 + length (payload f) < 2 ^ 32 \<and>
     bs = to_be 4 (10 + length (payload f)) @ PROTOCOL_VERSION # kind_byte (kind f)
       # u64_be (stream_id f) @ payload f"
  unfolding write_to_def HEADER_BYTES_def checked_add_usize_def u32_be_def
  by (auto simp: rust_int split: option.splits)

lemma read_from_wire:
  assumes "length p \<le> m" and "10 + length p < 2 ^ 32"
  shows "read_from m e ((to_be 4 (10 + length p) @ PROTOCOL_VERSION # kind_byte k # u64_be sid @ p) @ rest)
     = Inr (Some (\<lparr>kind = k, stream_id = sid, payload = p\<rparr>, rest))"
proof -
  define body where "body = PROTOCOL_VERSION # kind_byte k # u64_be sid @ p"
  have len: "length body = 10 + length p" by (simp add: body_def)
  have parts: "body ! 0 = PROTOCOL_VERSION" "body ! Suc 0 = kind_byte k"
    "take 8 (drop 2 body) = u64_be sid" "drop 10 body = p"
    by (simp_all add: body_def)
  have "read_from m e (to_be 4 (length body) @ body @ rest)
     = Inr (Some (\<lparr>kind = k, stream_id = sid, payload = p\<rparr>, rest))"
    using assms by (simp add: read_from_def HEADER_BYTES_def Let_def len parts from_be_to_be)
  then show ?thesis by (simp add: body_def)
qed

text \<open>Every byte list with a whole body splits into version, kind, stream identifier and payload.\<close>

lemma body_split:
  assumes "10 \<le> length body"
  shows "body = body ! 0 # body ! 1 # u64_be (u64_from_be (take 8 (drop 2 body))) @ drop 10 body"
proof -
  from assms obtain a b cs where body: "body = a # b # cs" and "8 \<le> length cs"
    by (cases body rule: remdups_adj.cases) auto
  then have "u64_be (u64_from_be (take 8 cs)) @ drop 8 cs = cs"
    by simp
  with body show ?thesis by simp
qed

lemma read_from_Some:
  assumes "read_from m e bs = Inr (Some (f, rest))"
  shows "\<exists>w. write_to f m = Inr w \<and> bs = w @ rest"
proof -
  define len where "len = unat (u32_from_be (take 4 bs))"
  define body where "body = take len (drop 4 bs)"
  from assms have four: "4 \<le> length bs" and len: "10 \<le> len" "len \<le> m + 10" "len \<le> length bs - 4"
    and ver: "body ! 0 = PROTOCOL_VERSION" and kind: "body ! 1 = kind_byte (kind f)"
    and sid: "stream_id f = u64_from_be (take 8 (drop 2 body))" and pay: "payload f = drop 10 body"
    and rest: "rest = drop len (drop 4 bs)"
    by (auto simp: read_from_def HEADER_BYTES_def Let_def len_def body_def result_simps
        kind_try_from_Inr split: if_splits)
  have lb: "length body = len" using len(3) by (simp add: body_def)
  have lp: "length (payload f) = len - 10" using pay lb by simp
  have "len < 2 ^ 32" unfolding len_def using unat_u32_less by simp
  have hd: "to_be 4 len = take 4 bs"
    using four to_be_from_be [of "take 4 bs"] by (simp add: len_def)
  have "bs = take 4 bs @ body @ rest"
    unfolding body_def rest by (simp only: append_take_drop_id)
  also have "body = PROTOCOL_VERSION # kind_byte (kind f) # u64_be (stream_id f) @ payload f"
    using body_split [of body] lb len(1) ver kind sid pay by simp
  finally have bs: "bs = to_be 4 len @ PROTOCOL_VERSION # kind_byte (kind f) # u64_be (stream_id f)
      @ payload f @ rest"
    using hd by simp
  from lp len \<open>len < 2 ^ 32\<close> bs show ?thesis
    by (auto simp: write_to_Inr)
qed


section \<open>Frames as a prefix codec\<close>

definition frame_wire :: "frame \<Rightarrow> byte list" where
  "frame_wire f = to_be 4 (10 + length (payload f)) @ PROTOCOL_VERSION # kind_byte (kind f)
     # u64_be (stream_id f) @ payload f"

definition frame_fits :: "nat \<Rightarrow> frame \<Rightarrow> bool" where
  "frame_fits m f \<longleftrightarrow> length (payload f) \<le> m \<and> 10 + length (payload f) < 2 ^ 32"

definition frame_dec :: "nat \<Rightarrow> io_kind \<Rightarrow> byte list \<Rightarrow> (frame \<times> byte list) option" where
  "frame_dec m e bs = (case read_from m e bs of Inr r \<Rightarrow> r | Inl _ \<Rightarrow> None)"

lemma write_to_fits: "write_to f m = Inr bs \<longleftrightarrow> frame_fits m f \<and> bs = frame_wire f"
  by (simp add: write_to_Inr frame_fits_def frame_wire_def)

lemma read_from_frame_wire: "frame_fits m f \<Longrightarrow> read_from m e (frame_wire f @ rest) = Inr (Some (f, rest))"
  using read_from_wire [of "payload f" m e "kind f" "stream_id f" rest]
  by (simp add: frame_fits_def frame_wire_def)

lemma read_from_Some_iff:
  "read_from m e bs = Inr (Some (f, rest)) \<longleftrightarrow> frame_fits m f \<and> bs = frame_wire f @ rest"
  using read_from_Some read_from_frame_wire by (auto simp: write_to_fits)

interpretation fc: prefix_codec frame_wire "frame_dec m e" "frame_fits m" for m e
proof unfold_locales
  show "frame_dec m e (frame_wire f @ rest) = Some (f, rest)" if "frame_fits m f" for f rest
    using that by (simp add: frame_dec_def read_from_frame_wire)
  show "frame_fits m f \<and> bs = frame_wire f @ rest" if "frame_dec m e bs = Some (f, rest)" for bs f rest
    using that by (auto simp: frame_dec_def read_from_Some_iff split: sum.splits)
  show "frame_wire f \<noteq> []" if "frame_fits m f" for f
    by (simp add: frame_wire_def)
qed

section \<open>The registration payload\<close>

lemma frame_register_Inr:
  "frame_register r t = Inr f \<longleftrightarrow>
     length r < 2 ^ 16 \<and> length t < 2 ^ 16 \<and>
     f = frame_new Register 0 (to_be 2 (length r) @ str_bytes r @ to_be 2 (length t) @ t)"
  unfolding frame_register_def u16_be_def
  by (auto simp: rust_int split: option.splits)

lemma two_bytes:
  "2 \<le> length xs \<Longrightarrow> [xs ! 0, xs ! Suc 0] = take 2 xs"
  by (cases xs rule: remdups_adj.cases) auto

lemma two_bytes_at:
  "i + 2 \<le> length xs \<Longrightarrow> [xs ! i, xs ! (i + 1)] = take 2 (drop i xs)"
  using two_bytes [of "drop i xs"] by simp

lemma parse_register_payload:
  assumes "is_str r" and "length r < 2 ^ 16" and "length t < 2 ^ 16"
  shows "parse_register (frame_new Register 0 (to_be 2 (length r) @ str_bytes r @ to_be 2 (length t) @ t))
     = Inr (r, t)"
proof -
  define p where "p = to_be 2 (length r) @ str_bytes r @ to_be 2 (length t) @ t"
  have len: "length p = 4 + length r + length t" by (simp add: p_def)
  have a: "[p ! 0, p ! Suc 0] = to_be 2 (length r)"
    using two_bytes [of p] len by (simp add: p_def)
  have b: "[p ! (2 + length r), p ! (Suc (2 + length r))] = to_be 2 (length t)"
    using two_bytes_at [of "2 + length r" p] len by (simp add: p_def)
  have c: "take (length r) (drop 2 p) = str_bytes r" "drop (Suc (Suc (Suc (Suc (length r))))) p = t"
    by (simp_all add: p_def)
  have u: "from_utf8 (str_bytes r) = Some r"
    using assms(1) by (simp add: from_utf8_Some)
  have "parse_register (frame_new Register 0 p) = Inr (r, t)"
    using assms(2,3) a b c u
    by (simp add: parse_register_def frame_new_def Let_def len checked_add_usize_def from_be_to_be)
  then show ?thesis by (simp add: p_def)
qed

lemma parse_register_Inr:
  assumes "parse_register f = Inr (r, t)"
  shows "is_str r \<and> frame_register r t = Inr f"
proof -
  define p where "p = payload f"
  define n where "n = from_be (take 2 p)"
  define k where "k = from_be (take 2 (drop (2 + n) p))"
  from assms have kind: "kind f = Register" "stream_id f = 0" and four: "4 \<le> length p"
    by (auto simp: parse_register_def Let_def p_def split: if_splits)
  have a: "unat (u16_from_be [p ! 0, p ! Suc 0]) = n"
    using four two_bytes [of p] by (simp add: n_def)
  have n: "n < 2 ^ 16"
    using from_be_less [of "take 2 p"] four by (simp add: n_def)
  from assms a have l1: "n + 4 \<le> length p"
    by (auto simp: parse_register_def Let_def p_def [symmetric] kind checked_add_usize_def split: if_splits)
  have b: "unat (u16_from_be [p ! (2 + n), p ! Suc (2 + n)]) = k"
    using l1 two_bytes_at [of "2 + n" p] by (simp add: k_def)
  from assms a b l1 n have l2: "length p = n + 4 + k"
    and s: "from_utf8 (take n (drop 2 p)) = Some r" and "t = drop (Suc (Suc (Suc (Suc n)))) p"
    by (auto simp: parse_register_def Let_def p_def [symmetric] kind checked_add_usize_def
        split: if_splits option.splits)
  then have t: "t = drop (n + 4) p" by (simp add: eval_nat_numeral)
  have k: "k < 2 ^ 16"
    using from_be_less [of "take 2 (drop (2 + n) p)"] l1 by (simp add: k_def)
  from s have r: "is_str r" "str_bytes r = take n (drop 2 p)" by (auto simp: from_utf8_Some)
  have lr: "length r = n" using arg_cong [OF r(2), of length] l1 by simp
  have "p = take 2 p @ take n (drop 2 p) @ take 2 (drop (2 + n) p) @ drop (n + 4) p"
    by (metis (no_types, opaque_lifting) add.commute add.left_commute append_take_drop_id drop_drop
        numeral_Bit0)
  moreover have "take 2 p = to_be 2 n" "take 2 (drop (2 + n) p) = to_be 2 k"
    using to_be_from_be [of "take 2 p"] to_be_from_be [of "take 2 (drop (2 + n) p)"] l1
    by (simp_all add: n_def [symmetric] k_def)
  ultimately have "p = to_be 2 n @ str_bytes r @ to_be 2 k @ t"
    using r t by simp
  with kind lr n k l2 t r show ?thesis
    by (cases f) (simp add: frame_register_Inr frame_new_def p_def)
qed


section \<open>A whole tunnel direction\<close>

text \<open>The writer task of a tunnel writes the queued frames one after the other.\<close>

fun write_frames :: "frame list \<Rightarrow> nat \<Rightarrow> (relay_error, byte list) result" where
  "write_frames [] m = Inr []"
| "write_frames (f # fs) m =
     rbind (write_to f m) (\<lambda>w. rbind (write_frames fs m) (\<lambda>ws. Inr (w @ ws)))"

text \<open>The reader loop takes frames off the stream until it ends or a frame is refused.\<close>

function read_frames :: "nat \<Rightarrow> io_kind \<Rightarrow> byte list \<Rightarrow> frame list \<times> relay_error option" where
  "read_frames m e bs =
     (case read_from m e bs of
        Inl err \<Rightarrow> ([], Some err)
      | Inr None \<Rightarrow> ([], None)
      | Inr (Some (f, rest)) \<Rightarrow> (let (fs, r) = read_frames m e rest in (f # fs, r)))"
  by pat_completeness auto
termination
proof (relation "measure (\<lambda>(m, e, bs). length bs)")
  show "((m, e, rest), m, e, bs) \<in> measure (\<lambda>(m, e, bs). length bs)"
    if "read_from m e bs = Inr x2" "x2 = Some y" "(f, rest) = y" for m e bs x2 y f rest
  proof -
    from that have "frame_fits m f \<and> bs = frame_wire f @ rest"
      by (auto simp: read_from_Some_iff)
    then show ?thesis by (simp add: frame_wire_def)
  qed
qed simp

declare read_frames.simps [simp del]

lemma write_frames_Inr:
  "write_frames fs m = Inr bs \<longleftrightarrow> list_all (frame_fits m) fs \<and> bs = concat (map frame_wire fs)"
  by (induction fs arbitrary: bs) (auto simp: result_simps write_to_fits)

lemma read_frames_wire:
  "list_all (frame_fits m) fs \<Longrightarrow>
   read_frames m e (concat (map frame_wire fs) @ rest) =
     (let (gs, r) = read_frames m e rest in (fs @ gs, r))"
proof (induction fs)
  case Nil
  then show ?case by simp
next
  case (Cons f fs)
  then have "read_from m e (frame_wire f @ concat (map frame_wire fs) @ rest)
      = Inr (Some (f, concat (map frame_wire fs) @ rest))"
    by (simp add: read_from_frame_wire)
  with Cons show ?case
    by (simp add: read_frames.simps [of m e "frame_wire f @ concat (map frame_wire fs) @ rest"]
        split: prod.splits)
qed

section \<open>Properties\<close>

text \<open>Claim C17: a sequence of frames accepted by the writer is read back by the peer exactly as it
  was sent, frame by frame, whatever the payloads contain and whatever bytes follow: the reader then goes on
  with those bytes, and if none follow it ends without an error.\<close>

theorem frame_stream_roundtrip:
  assumes "write_frames fs m = Inr bs"
  shows "read_frames m ending (bs @ rest) =
      (fs @ fst (read_frames m ending rest), snd (read_frames m ending rest))
    \<and> read_frames m UnexpectedEof bs = (fs, None)"
proof -
  have "read_frames m UnexpectedEof [] = ([], None)"
    by (subst read_frames.simps) (simp add: read_from_def)
  with assms read_frames_wire [of m fs UnexpectedEof "[]"] read_frames_wire [of m fs ending rest] show ?thesis
    by (simp add: write_frames_Inr split_def Let_def)
qed

theorem frame_stream_roundtrip_witness:
  "write_frames [frame_new Data 42 [1, 2, 3], frame_u32 WindowUpdate 42 3] 512 =
     Inr [0, 0, 0, 13, 1, 13, 0, 0, 0, 0, 0, 0, 0, 42, 1, 2, 3,
          0, 0, 0, 14, 1, 16, 0, 0, 0, 0, 0, 0, 0, 42, 0, 0, 0, 3] \<and>
   read_frames 512 UnexpectedEof
     [0, 0, 0, 13, 1, 13, 0, 0, 0, 0, 0, 0, 0, 42, 1, 2, 3,
      0, 0, 0, 14, 1, 16, 0, 0, 0, 0, 0, 0, 0, 42, 0, 0, 0, 3] =
     ([frame_new Data 42 [1, 2, 3], frame_u32 WindowUpdate 42 3], None) \<and>
   fst (read_frames 512 UnexpectedEof
     ([0, 0, 0, 13, 1, 13, 0, 0, 0, 0, 0, 0, 0, 42, 1, 2, 3,
       0, 0, 0, 14, 1, 16, 0, 0, 0, 0, 0, 0, 0, 42, 0, 0, 0, 3] @ [0, 0, 0, 2])) =
     [frame_new Data 42 [1, 2, 3], frame_u32 WindowUpdate 42 3]"
proof -
  have w: "write_frames [frame_new Data 42 [1, 2, 3], frame_u32 WindowUpdate 42 3] 512 =
     Inr [0, 0, 0, 13, 1, 13, 0, 0, 0, 0, 0, 0, 0, 42, 1, 2, 3,
          0, 0, 0, 14, 1, 16, 0, 0, 0, 0, 0, 0, 0, 42, 0, 0, 0, 3]"
    by (simp add: write_to_def frame_new_def frame_u32_def HEADER_BYTES_def PROTOCOL_VERSION_def
        checked_add_usize_def u32_try_from_def byte_eval)
  have short: "read_frames 512 UnexpectedEof [0, 0, 0, 2] =
      ([], Some (Stable ProtocolInvalid ''frame is shorter than its header''))"
    by (subst read_frames.simps) (simp add: read_from_def HEADER_BYTES_def byte_eval)
  show ?thesis
    using w frame_stream_roundtrip [OF w, of UnexpectedEof "[0, 0, 0, 2]"] short by simp
qed


text \<open>Claim C20: reading is canonical and bounded. Whatever bytes arrive, a frame that is accepted
  has a payload within the configured maximum, and the bytes it was read from are exactly the bytes
  the writer emits for it.\<close>

theorem frame_read_canonical:
  assumes "read_from m e bs = Inr (Some (f, rest))"
  shows "length (payload f) \<le> m \<and> (\<exists>w. write_to f m = Inr w \<and> bs = w @ rest)"
  using assms by (auto simp: read_from_Some_iff write_to_fits frame_fits_def)

theorem frame_read_canonical_witness:
  "length (payload (frame_new Ping 0 [9])) \<le> 1024 \<and>
   (\<exists>w. write_to (frame_new Ping 0 [9]) 1024 = Inr w \<and>
        [0, 0, 0, 11, 1, 20, 0, 0, 0, 0, 0, 0, 0, 0, 9, 77] = w @ [77])"
proof -
  have "read_from 1024 IoOther [0, 0, 0, 11, 1, 20, 0, 0, 0, 0, 0, 0, 0, 0, 9, 77]
      = Inr (Some (frame_new Ping 0 [9], [77]))"
    by (simp add: read_from_def HEADER_BYTES_def PROTOCOL_VERSION_def kind_try_from_def frame_new_def
        byte_eval)
  from frame_read_canonical [OF this] show ?thesis .
qed

text \<open>Claim C23: the registration frame and its parser are inverse to each other. A route identifier
  and token that fit the wire form are recovered from the frame built for them, and a frame parses to
  a pair only when it is the very frame built for that pair.\<close>

theorem register_roundtrip:
  assumes "is_str route_id"
  shows "frame_register route_id token = Inr f \<longleftrightarrow> parse_register f = Inr (route_id, token)"
proof
  assume "frame_register route_id token = Inr f"
  with assms show "parse_register f = Inr (route_id, token)"
    by (auto simp: frame_register_Inr parse_register_payload)
next
  assume "parse_register f = Inr (route_id, token)"
  then show "frame_register route_id token = Inr f"
    by (blast dest: parse_register_Inr)
qed

theorem register_roundtrip_witness:
  "\<exists>f. frame_register ''route_0123456789'' (replicate 32 7) = Inr f \<and>
       parse_register f = Inr (''route_0123456789'', replicate 32 7)"
proof -
  have r: "is_str ''route_0123456789''"
    by (rule is_str_url_safe) (simp add: is_url_safe_def ascii_class_defs)
  obtain f where f: "frame_register ''route_0123456789'' (replicate 32 7) = Inr f"
    by (simp add: frame_register_Inr)
  with register_roundtrip [OF r, of "replicate 32 7" f] show ?thesis by auto
qed

end
