(* ===== verification/Flow.thy ===== *)
theory Flow
  imports Frame
begin

text \<open>
  Flow control of the relay (\<open>relay-server/src/flow.rs\<close>): the send credit of a logical
  stream, and the byte-rate limiter of a route. A call that waits is given the list of what wakes it
  up, in order; a clock reading is a number of nanoseconds of the monotonic clock.
\<close>

section \<open>Credit\<close>

type_synonym credit = u64

definition credit_new :: "u32 \<Rightarrow> credit" where
  "credit_new initial = ucast initial"

definition credit_add :: "credit \<Rightarrow> u32 \<Rightarrow> (relay_error, credit) result" where
  "credit_add available amount =
     (if amount = 0 then Inl (Stable ProtocolInvalid ''flow-control update cannot be zero'')
      else (case checked_add_u64 available (ucast amount) of
              None \<Rightarrow> Inl (Stable ProtocolInvalid ''flow-control credit overflow'')
            | Some a \<Rightarrow> Inr a))"

text \<open>What ends a wait: a notification, after which the credit is read again, or cancellation.\<close>

datatype credit_wake = Notified credit | CreditCancelled

text \<open>\<open>None\<close>: the call is still waiting when the wake-ups are used up.\<close>

fun consume_loop :: "u64 \<Rightarrow> credit \<Rightarrow> credit_wake list \<Rightarrow> (relay_error, credit) result option" where
  "consume_loop amount available wakes =
     (if amount \<le> available then Some (Inr (available - amount))
      else (case wakes of
              [] \<Rightarrow> None
            | CreditCancelled # _ \<Rightarrow> Some (Inl (Stable TunnelLost ''stream was cancelled''))
            | Notified a # ws \<Rightarrow> consume_loop amount a ws))"

declare consume_loop.simps [simp del]

definition credit_consume ::
  "credit \<Rightarrow> nat \<Rightarrow> credit_wake list \<Rightarrow> (relay_error, credit) result option" where
  "credit_consume available amount wakes =
     (case u64_try_from amount of
        None \<Rightarrow> Some (Inl (Stable ProtocolInvalid ''flow-control amount is unsupported''))
      | Some a \<Rightarrow> consume_loop a available wakes)"

section \<open>Rate limiter\<close>

record rate_limiter =
  bytes_per_second :: u64
  rate_available :: u64
  updated_at :: nat

definition rate_limiter_new :: "u64 \<Rightarrow> nat \<Rightarrow> rate_limiter" where
  "rate_limiter_new bps now = \<lparr>bytes_per_second = bps, rate_available = bps, updated_at = now\<rparr>"

datatype attempt = Acquired | WaitNanos u64 | DivisionByZero

definition u64_saturate :: "nat \<Rightarrow> u64" where
  "u64_saturate n = (if n < 2 ^ 64 then of_nat n else - 1)"

definition replenished :: "rate_limiter \<Rightarrow> nat \<Rightarrow> u64" where
  "replenished rl now =
     (let elapsed_nanos = now - updated_at rl;
          r = min (elapsed_nanos * unat (bytes_per_second rl)) (2 ^ 128 - 1) div 1000000000;
          r64 = u64_saturate r
      in min (saturating_add_u64 (rate_available rl) r64) (bytes_per_second rl))"

text \<open>One pass of the loop of \<open>acquire\<close>, under the lock.\<close>

definition rate_attempt :: "rate_limiter \<Rightarrow> u64 \<Rightarrow> nat \<Rightarrow> rate_limiter \<times> attempt" where
  "rate_attempt rl requested now =
     (let available = replenished rl now in
      if requested \<le> available
      then (rl\<lparr>rate_available := available - requested, updated_at := now\<rparr>, Acquired)
      else
        let missing = requested - available; rl' = rl\<lparr>rate_available := 0, updated_at := now\<rparr> in
        if bytes_per_second rl = 0 then (rl', DivisionByZero)
        else
          let numerator = min (unat missing * 1000000000) (2 ^ 128 - 1);
              wait_nanos = (numerator + unat (bytes_per_second rl) - 1) div unat (bytes_per_second rl)
          in (rl', WaitNanos (u64_saturate wait_nanos)))"

text \<open>
  What ends the sleep of \<open>acquire\<close>: revocation, or the timer. The lock is not held during the sleep and the other streams
  of the route use the same limiter, so a wake-up carries the clock reading and the state that is found under
  the lock then: what is available, and when that was.
\<close>

datatype rate_wake = Slept nat u64 nat | RateCancelled

fun acquire_loop ::
  "rate_limiter \<Rightarrow> u64 \<Rightarrow> nat \<Rightarrow> rate_wake list \<Rightarrow> rate_limiter \<times> (relay_error, unit) result option" where
  "acquire_loop rl requested now wakes =
     (case rate_attempt rl requested now of
        (rl', Acquired) \<Rightarrow> (rl', Some (Inr ()))
      | (rl', DivisionByZero) \<Rightarrow> (rl', None)
      | (rl', WaitNanos _) \<Rightarrow>
          (case wakes of
             [] \<Rightarrow> (rl', None)
           | RateCancelled # _ \<Rightarrow> (rl', Some (Inl (Stable RouteRevoked ''route was revoked'')))
           | Slept t available updated # ws \<Rightarrow>
               acquire_loop (rl'\<lparr>rate_available := available, updated_at := updated\<rparr>) requested t ws))"

declare acquire_loop.simps [simp del]

definition rate_acquire ::
  "rate_limiter \<Rightarrow> nat \<Rightarrow> nat \<Rightarrow> rate_wake list \<Rightarrow> rate_limiter \<times> (relay_error, unit) result option" where
  "rate_acquire rl bytes now wakes =
     (case u64_try_from bytes of
        None \<Rightarrow> (rl, Some (Inl (Stable LimitReached ''rate-limit amount is unsupported'')))
      | Some requested \<Rightarrow> acquire_loop rl requested now wakes)"

section \<open>Lemmas on credit\<close>

lemma unat_ucast_u32 [simp]: "unat (ucast (w :: u32) :: u64) = unat w"
  by (simp add: unsigned_ucast_eq take_bit_nat_eq_self order_less_trans [OF unat_u32_less])

lemma unat_credit_new [simp]: "unat (credit_new w) = unat w"
  by (simp add: credit_new_def)

lemma credit_add_Inr:
  "credit_add c a = Inr c' \<longleftrightarrow> a \<noteq> 0 \<and> unat c + unat a < 2 ^ 64 \<and> c' = c + ucast a"
  by (auto simp: credit_add_def checked_add_u64_def split: option.splits)

lemma unat_credit_add: "credit_add c a = Inr c' \<Longrightarrow> unat c' = unat c + unat a"
  by (simp add: credit_add_Inr unat_add_u64)

lemma consume_loop_now: "amount \<le> available \<Longrightarrow> consume_loop amount available ws = Some (Inr (available - amount))"
  by (simp add: consume_loop.simps)


section \<open>Runs of a credit account\<close>

datatype credit_event = CreditAdded u32 | CreditConsumed nat

inductive credit_step :: "credit \<Rightarrow> credit_event \<Rightarrow> credit \<Rightarrow> bool" where
  credit_added: "credit_add c a = Inr c' \<Longrightarrow> credit_step c (CreditAdded a) c'"
| credit_consumed: "credit_consume c n ws = Some (Inr c') \<Longrightarrow> ws = [] \<Longrightarrow> credit_step c (CreditConsumed n) c'"

fun event_added :: "credit_event \<Rightarrow> nat" where
  "event_added (CreditAdded a) = unat a"
| "event_added (CreditConsumed n) = 0"

fun event_consumed :: "credit_event \<Rightarrow> nat" where
  "event_consumed (CreditAdded a) = 0"
| "event_consumed (CreditConsumed n) = n"

lemma credit_consume_now:
  "credit_consume c n [] = Some (Inr c') \<longleftrightarrow> n \<le> unat c \<and> unat c' = unat c - n"
proof
  assume "credit_consume c n [] = Some (Inr c')"
  then show "n \<le> unat c \<and> unat c' = unat c - n"
    by (auto simp: credit_consume_def consume_loop.simps rust_int word_le_nat_alt
        split: option.splits if_splits)
next
  assume *: "n \<le> unat c \<and> unat c' = unat c - n"
  then have "n < 2 ^ 64" using order_le_less_trans [OF _ unat_u64_less, of n c] by simp
  then obtain w where w: "u64_try_from n = Some w" "unat w = n"
    by (auto simp: u64_try_from_def unat_of_nat)
  with * have "w \<le> c" "c' = c - w"
    by (auto simp: word_le_nat_alt word_unat_eq_iff unat_sub_u64)
  with w show "credit_consume c n [] = Some (Inr c')"
    by (simp add: credit_consume_def consume_loop_now)
qed

lemma credit_step_balance:
  "credit_step c l c' \<Longrightarrow> unat c' + event_consumed l = unat c + event_added l"
  by (induction rule: credit_step.induct) (auto simp: unat_credit_add credit_consume_now)

lemma credit_run_balance:
  "reaches credit_step c ls c' \<Longrightarrow>
   unat c' + sum_list (map event_consumed ls) = unat c + sum_list (map event_added ls)"
  by (induction rule: reaches.induct) (auto dest: credit_step_balance)

text \<open>A call that waits returns as soon as a notification finds enough credit.\<close>

lemma consume_loop_woken:
  "\<lbrakk>\<forall>a \<in> set as. a < amount; available < amount; amount \<le> b\<rbrakk> \<Longrightarrow>
   consume_loop amount available (map Notified as @ Notified b # ws) = Some (Inr (b - amount))"
proof (induction as arbitrary: available)
  case Nil
  then show ?case
    by (simp add: consume_loop.simps [of amount available] consume_loop_now not_le [symmetric])
next
  case (Cons a as)
  then show ?case
    by (simp add: consume_loop.simps [of amount available] not_le [symmetric])
qed

section \<open>Lemmas on the rate limiter\<close>

lemma unat_u64_saturate: "unat (u64_saturate n) = min n (2 ^ 64 - 1)"
  by (auto simp: u64_saturate_def unat_of_nat unsigned_minus_1_eq_mask mask_eq_exp_minus_1)

lemma unat_replenished:
  "unat (replenished rl now) =
     min (min (unat (rate_available rl)
            + min (min ((now - updated_at rl) * unat (bytes_per_second rl)) (2 ^ 128 - 1) div 1000000000)
                (2 ^ 64 - 1)) (2 ^ 64 - 1))
       (unat (bytes_per_second rl))"
  by (simp add: replenished_def Let_def rust_int unat_u64_saturate)

lemma replenished_le_rate: "unat (replenished rl now) \<le> unat (bytes_per_second rl)"
  by (simp add: unat_replenished)

lemma replenished_le_elapsed:
  "unat (replenished rl now) * 1000000000
     \<le> unat (rate_available rl) * 1000000000 + (now - updated_at rl) * unat (bytes_per_second rl)"
proof -
  let ?x = "(now - updated_at rl) * unat (bytes_per_second rl)"
  have "unat (replenished rl now) \<le> unat (rate_available rl) + min ?x (2 ^ 128 - 1) div 1000000000"
    unfolding unat_replenished by (intro min.coboundedI1 add_left_mono min.cobounded1)
  also have "\<dots> \<le> unat (rate_available rl) + ?x div 1000000000"
    by (intro add_left_mono div_le_mono) simp
  finally have "unat (replenished rl now) * 1000000000
      \<le> unat (rate_available rl) * 1000000000 + ?x div 1000000000 * 1000000000"
    by simp
  also have "?x div 1000000000 * 1000000000 \<le> ?x" by simp
  finally show ?thesis by simp
qed

lemma replenished_exact:
  assumes "(now - updated_at rl) * unat (bytes_per_second rl) < 2 ^ 128"
    and "unat (rate_available rl) + (now - updated_at rl) * unat (bytes_per_second rl) div 1000000000
      \<le> unat (bytes_per_second rl)"
  shows "unat (replenished rl now) =
    unat (rate_available rl) + (now - updated_at rl) * unat (bytes_per_second rl) div 1000000000"
proof -
  define q where "q = (now - updated_at rl) * unat (bytes_per_second rl) div 1000000000"
  from assms(2) unat_u64_less [of "bytes_per_second rl"]
  have q: "q \<le> 2 ^ 64 - 1" "unat (rate_available rl) + q \<le> 2 ^ 64 - 1"
    "unat (rate_available rl) + q \<le> unat (bytes_per_second rl)"
    unfolding q_def [symmetric] by (simp_all, linarith+)
  from assms(1) have "min ((now - updated_at rl) * unat (bytes_per_second rl)) (2 ^ 128 - 1) div 1000000000 = q"
    by (simp add: q_def)
  with q show ?thesis unfolding unat_replenished q_def [symmetric] by (simp add: min_absorb1)
qed

lemma replenished_full:
  assumes "updated_at rl + 1000000000 \<le> now"
  shows "replenished rl now = bytes_per_second rl"
proof -
  let ?b = "unat (bytes_per_second rl)"
  have "?b * 1000000000 \<le> (now - updated_at rl) * ?b"
    unfolding mult.commute [of ?b] by (rule mult_le_mono1) (use assms in linarith)
  moreover have "?b * 1000000000 \<le> 2 ^ 128 - 1"
    using unat_u64_less [of "bytes_per_second rl"] by (simp, linarith)
  ultimately have "?b * 1000000000 div 1000000000
      \<le> min ((now - updated_at rl) * ?b) (2 ^ 128 - 1) div 1000000000"
    by (intro div_le_mono) simp
  then have x: "?b \<le> min ((now - updated_at rl) * ?b) (2 ^ 128 - 1) div 1000000000" by simp
  have m: "?b \<le> 2 ^ 64 - 1"
    using unat_u64_less [of "bytes_per_second rl"] by (simp, linarith)
  have "unat (replenished rl now) = ?b"
    unfolding unat_replenished by (intro min.absorb2 min.boundedI trans_le_add2 x m)
  then show ?thesis by (simp add: word_unat_eq_iff)
qed


section \<open>Runs of a rate limiter\<close>

text \<open>One attempt at a clock reading no earlier than the last; \<open>granted\<close> is what it hands out.\<close>

record rate_event =
  rate_requested :: u64
  rate_now :: nat
  rate_granted :: nat

inductive rate_step :: "rate_limiter \<Rightarrow> rate_event \<Rightarrow> rate_limiter \<Rightarrow> bool" where
  rate_polled:
    "\<lbrakk>updated_at rl \<le> now; rate_attempt rl requested now = (rl', outcome)\<rbrakk> \<Longrightarrow>
     rate_step rl \<lparr>rate_requested = requested, rate_now = now,
       rate_granted = (if outcome = Acquired then unat requested else 0)\<rparr> rl'"

lemma rate_attempt_cases:
  assumes "rate_attempt rl requested now = (rl', outcome)"
  shows "bytes_per_second rl' = bytes_per_second rl \<and> updated_at rl' = now \<and>
    (if outcome = Acquired then unat requested else 0) + unat (rate_available rl')
      \<le> unat (replenished rl now)"
  using assms
  by (auto simp: rate_attempt_def Let_def word_le_nat_alt unat_sub_u64 split: if_splits)

lemma rate_run_bound:
  assumes "reaches rate_step rl ls rl'"
  shows "bytes_per_second rl' = bytes_per_second rl \<and> updated_at rl \<le> updated_at rl' \<and>
    (sum_list (map rate_granted ls) + unat (rate_available rl')) * 1000000000
      \<le> unat (rate_available rl) * 1000000000
        + (updated_at rl' - updated_at rl) * unat (bytes_per_second rl)"
  using assms
proof (induction rule: reaches.induct)
  case (reaches_Nil rl)
  then show ?case by simp
next
  case (reaches_snoc rl ls t l u)
  then obtain requested now outcome where le: "updated_at t \<le> now"
    and at: "rate_attempt t requested now = (u, outcome)"
    and l: "rate_granted l = (if outcome = Acquired then unat requested else 0)"
    by (auto elim: rate_step.cases)
  define b where "b = unat (bytes_per_second rl)"
  from reaches_snoc.IH have IH: "bytes_per_second t = bytes_per_second rl"
    "updated_at rl \<le> updated_at t"
    "(sum_list (map rate_granted ls) + unat (rate_available t)) * 1000000000
      \<le> unat (rate_available rl) * 1000000000 + (updated_at t - updated_at rl) * b"
    by (simp_all add: b_def)
  from rate_attempt_cases [OF at] l have u: "bytes_per_second u = bytes_per_second t"
    "updated_at u = now" "rate_granted l + unat (rate_available u) \<le> unat (replenished t now)"
    by simp_all
  have "(rate_granted l + unat (rate_available u)) * 1000000000
      \<le> unat (rate_available t) * 1000000000 + (now - updated_at t) * b"
    using replenished_le_elapsed [of t now] u(3) IH(1) by (simp add: b_def)
  moreover have "(updated_at t - updated_at rl) * b + (now - updated_at t) * b = (now - updated_at rl) * b"
    using le IH(2) by (simp add: add_mult_distrib [symmetric])
  ultimately show ?case
    using IH u le by (simp add: b_def [symmetric] add_mult_distrib)
qed

section \<open>Waiting for the limiter\<close>

text \<open>
  The wake-ups of a caller whose timer fires exactly when the wait it was told is over, on a limiter that no other
  stream uses in the meantime.
\<close>

primrec exact_wakeups :: "rate_limiter \<Rightarrow> u64 \<Rightarrow> nat \<Rightarrow> nat \<Rightarrow> rate_wake list" where
  "exact_wakeups rl requested now 0 = []"
| "exact_wakeups rl requested now (Suc n) =
     (case rate_attempt rl requested now of
        (rl', WaitNanos w) \<Rightarrow>
          Slept (now + unat w) (rate_available rl') (updated_at rl') # exact_wakeups rl' requested (now + unat w) n
      | (rl', _) \<Rightarrow> [])"

lemma ceil_floor_exact:
  fixes m b :: nat
  assumes "0 < b" and "b \<le> g"
  shows "(m * g + b - 1) div b * b div g = m"
proof -
  define w where "w = (m * g + b - 1) div b"
  have "m * g + b - 1 = w * b + (m * g + b - 1) mod b"
    by (simp add: w_def)
  moreover have "(m * g + b - 1) mod b < b" using assms by simp
  ultimately have "m * g \<le> w * b" "w * b < m * g + b" using assms by linarith+
  with assms have "m * g \<le> w * b" "w * b < Suc m * g" by simp_all
  then have "w * b div g = m" using assms by (intro div_nat_eqI) (simp_all add: mult.commute)
  then show ?thesis by (simp add: w_def)
qed

lemma rate_attempt_exact:
  assumes "0 < unat (bytes_per_second rl)" "unat (bytes_per_second rl) \<le> 1000000000"
    and "replenished rl now = a" "a < requested" "requested \<le> bytes_per_second rl" "0 < a"
  shows "\<exists>w. rate_attempt rl requested now
      = (rl\<lparr>rate_available := 0, updated_at := now\<rparr>, WaitNanos w)
    \<and> replenished (rl\<lparr>rate_available := 0, updated_at := now\<rparr>) (now + unat w) = requested - a"
proof -
  define b where "b = unat (bytes_per_second rl)"
  define m where "m = unat (requested - a)"
  define w where "w = (m * 1000000000 + b - 1) div b"
  have b: "0 < b" "b \<le> 1000000000" "m \<le> b"
    using assms unat_sub_u64 [of a requested]
    by (auto simp: b_def m_def word_le_nat_alt word_less_nat_alt)
  have "m * 1000000000 \<le> b * 1000000000" using b by simp
  then have mg: "m * 1000000000 \<le> 1000000000 * 1000000000" using b by linarith
  have "w \<le> m * 1000000000 + b - 1" unfolding w_def by (rule div_le_dividend)
  with mg b have w64: "w < 2 ^ 64" by simp
  have "w * b div 1000000000 = m" unfolding w_def by (rule ceil_floor_exact) (use b in auto)
  moreover have "w * b \<le> m * 1000000000 + b - 1" unfolding w_def by (rule div_times_less_eq_dividend)
  with mg b have "w * b < 2 ^ 128" by simp
  ultimately have "unat (replenished (rl\<lparr>rate_available := 0, updated_at := now\<rparr>) (now + w)) = m"
    using b by (subst replenished_exact) (simp_all add: b_def [symmetric])
  then have "replenished (rl\<lparr>rate_available := 0, updated_at := now\<rparr>) (now + w) = requested - a"
    by (simp add: m_def word_unat_eq_iff)
  moreover have "unat (u64_saturate w) = w" using w64 by (simp add: unat_u64_saturate)
  moreover have "bytes_per_second rl \<noteq> 0" using assms(1) by auto
  moreover have "rate_attempt rl requested now
      = (rl\<lparr>rate_available := 0, updated_at := now\<rparr>, WaitNanos (u64_saturate w))"
    using assms(3,4) mg \<open>bytes_per_second rl \<noteq> 0\<close>
    by (simp add: rate_attempt_def Let_def w_def m_def b_def not_le min_absorb1)
  ultimately show ?thesis by simp
qed

lemma exact_wakeups_starve:
  assumes "0 < unat (bytes_per_second rl)" "unat (bytes_per_second rl) \<le> 1000000000"
    and "replenished rl now = a" "a < requested" "requested \<le> bytes_per_second rl" "0 < a"
  shows "snd (acquire_loop rl requested now (exact_wakeups rl requested now n)) = None
    \<and> length (exact_wakeups rl requested now n) = n"
  using assms
proof (induction n arbitrary: rl now a)
  case 0
  then obtain w rl' where "rate_attempt rl requested now = (rl', WaitNanos w)"
    using rate_attempt_exact [of rl now a requested] by blast
  then show ?case by (simp add: acquire_loop.simps [of rl])
next
  case (Suc n)
  define rl' where "rl' = rl\<lparr>rate_available := 0, updated_at := now\<rparr>"
  obtain w where w: "rate_attempt rl requested now = (rl', WaitNanos w)"
    "replenished rl' (now + unat w) = requested - a"
    using rate_attempt_exact [OF Suc.prems] by (auto simp: rl'_def)
  have "requested - a < requested" "0 < requested - a"
    using Suc.prems(4,6) unat_sub_u64 [of a requested]
    by (auto simp: word_less_nat_alt word_le_nat_alt)
  then have "snd (acquire_loop rl' requested (now + unat w)
        (exact_wakeups rl' requested (now + unat w) n)) = None
      \<and> length (exact_wakeups rl' requested (now + unat w) n) = n"
    using Suc.prems by (intro Suc.IH [OF _ _ w(2)]) (simp_all add: rl'_def)
  then show ?case by (simp add: w(1) acquire_loop.simps [of rl])
qed

lemma acquire_loop_full:
  assumes "requested \<le> bytes_per_second rl" and "updated_at rl + 1000000000 \<le> now"
  shows "snd (acquire_loop rl requested now ws) = Some (Inr ())"
  using assms by (simp add: acquire_loop.simps [of rl] rate_attempt_def replenished_full)

lemma acquire_loop_returns:
  assumes "0 < requested" "requested \<le> bytes_per_second rl"
    and "RateCancelled \<notin> set before" "u + 1000000000 \<le> t"
  shows "snd (acquire_loop rl requested now (before @ Slept t a u # ws)) = Some (Inr ())"
  using assms(2,3)
proof (induction before arbitrary: rl now)
  case Nil
  obtain rl' at where at: "rate_attempt rl requested now = (rl', at)" by fastforce
  have rl': "bytes_per_second rl' = bytes_per_second rl" using rate_attempt_cases [OF at] by simp
  have "at \<noteq> DivisionByZero" using at assms(1) Nil by (auto simp: rate_attempt_def Let_def split: if_splits)
  moreover have "snd (acquire_loop (rl'\<lparr>rate_available := a, updated_at := u\<rparr>) requested t ws) = Some (Inr ())"
    by (rule acquire_loop_full) (use Nil assms(4) in \<open>simp_all add: rl'\<close>)
  ultimately show ?case by (simp add: acquire_loop.simps [of rl] at split: attempt.splits)
next
  case (Cons e before)
  obtain rl' at where at: "rate_attempt rl requested now = (rl', at)" by fastforce
  have rl': "bytes_per_second rl' = bytes_per_second rl" using rate_attempt_cases [OF at] by simp
  have ok: "at \<noteq> DivisionByZero" using at assms(1) Cons.prems by (auto simp: rate_attempt_def Let_def split: if_splits)
  obtain t' a' u' where e: "e = Slept t' a' u'" using Cons.prems by (cases e) auto
  have "snd (acquire_loop (rl'\<lparr>rate_available := a', updated_at := u'\<rparr>) requested t' (before @ Slept t a u # ws)) = Some (Inr ())"
    using Cons.prems by (intro Cons.IH) (simp_all add: rl')
  with ok show ?case by (simp add: acquire_loop.simps [of rl] at e split: attempt.splits)
qed

section \<open>Properties\<close>

text \<open>Flow-control credit is conserved. Over any run of window updates and sends on a
  stream, the credit left is the initial window plus what was granted minus what was sent, so a
  sender never puts more bytes on the tunnel than its peer granted.\<close>

lemma credit_conservation:
  assumes "reaches credit_step (credit_new w) ls c"
  shows "unat c + sum_list (map event_consumed ls) = unat w + sum_list (map event_added ls)"
  using credit_run_balance [OF assms] by simp

text \<open>Claim C18: the route limiter enforces its byte rate. However its clock readings and requests
  fall, the bytes it hands out from its creation to any later attempt are at most one second's
  allowance plus the rate times the time that has passed.\<close>

theorem rate_limit_bound:
  assumes "reaches rate_step (rate_limiter_new bps t0) ls rl"
  shows "sum_list (map rate_granted ls) * 1000000000
     \<le> unat bps * 1000000000 + (updated_at rl - t0) * unat bps"
  using rate_run_bound [OF assms] by (simp add: rate_limiter_new_def add_mult_distrib)

theorem rate_limit_bound_witness:
  "sum_list (map rate_granted [\<lparr>rate_requested = 700, rate_now = 5, rate_granted = 700\<rparr>]) * 1000000000
     \<le> unat (1000 :: u64) * 1000000000 + ((5 :: nat) - 5) * unat (1000 :: u64)"
proof -
  have a: "rate_attempt (rate_limiter_new 1000 5) 700 5
      = (\<lparr>bytes_per_second = 1000, rate_available = 300, updated_at = 5\<rparr>, Acquired)"
    by (simp add: rate_attempt_def rate_limiter_new_def replenished_def u64_saturate_def
        saturating_add_u64_def)
  have "rate_step (rate_limiter_new 1000 5) \<lparr>rate_requested = 700, rate_now = 5, rate_granted = 700\<rparr>
      \<lparr>bytes_per_second = 1000, rate_available = 300, updated_at = 5\<rparr>"
    using rate_step.rate_polled [OF _ a] by (simp add: rate_limiter_new_def)
  from rate_limit_bound [OF reaches_single [of rate_step, OF this]] show ?thesis by simp
qed

text \<open>Claim C24: what a stream that waits for the limiter of its route can rely on. The limiter is shared by all streams of
  the route and may be drained by the others while this one sleeps, so there is no bound on the wait as such. But a
  request within the rate is served at the latest at the first wake-up that finds the limiter untouched for a full
  second, whatever it found at the wake-ups before and whatever state the limiter is left in, unless the route is
  revoked first.\<close>

theorem rate_acquire_returns:
  assumes "0 < bytes" "bytes \<le> unat (bytes_per_second rl)"
    and "RateCancelled \<notin> set before" "updated + 1000000000 \<le> t"
  shows "snd (rate_acquire rl bytes now (before @ Slept t available updated # ws)) = Some (Inr ())"
proof -
  have "bytes < 2 ^ 64" using assms(2) unat_u64_less [of "bytes_per_second rl"] by (simp, linarith)
  then have "u64_try_from bytes = Some (of_nat bytes)" "unat (of_nat bytes :: u64) = bytes"
    by (simp_all add: u64_try_from_def unat_of_nat)
  with assms show ?thesis
    by (simp add: rate_acquire_def acquire_loop_returns word_le_nat_alt word_less_nat_alt)
qed

theorem rate_acquire_returns_witness:
  "snd (rate_acquire \<lparr>bytes_per_second = 1000, rate_available = 0, updated_at = 5\<rparr> 900 7
     ([Slept 900000007 0 900000000] @ Slept 1900000005 100 900000005 # [])) = Some (Inr ())"
  by (rule rate_acquire_returns) simp_all

text \<open>Claim C25: with a timer that fires exactly on time, a request above a remainder that is not zero is never served. On
  a limiter that no other stream uses, of a rate of at most one byte per nanosecond, every number \<open>n\<close> of waits of exactly the
  length \<open>acquire\<close> asks for leaves such a request waiting again: it discards what was left, waits for the rest only,
  and finds too little.\<close>

theorem rate_acquire_exact_timer_starves:
  assumes "0 < unat (bytes_per_second rl)" "unat (bytes_per_second rl) \<le> 1000000000"
    and "0 < unat (replenished rl now)" "unat (replenished rl now) < bytes"
    and "bytes \<le> unat (bytes_per_second rl)"
  shows "snd (rate_acquire rl bytes now (exact_wakeups rl (of_nat bytes) now n)) = None
    \<and> length (exact_wakeups rl (of_nat bytes) now n) = n"
proof -
  have "bytes < 2 ^ 64" using assms(5) unat_u64_less [of "bytes_per_second rl"] by (simp, linarith)
  then have "u64_try_from bytes = Some (of_nat bytes)" "unat (of_nat bytes :: u64) = bytes"
    by (simp_all add: u64_try_from_def unat_of_nat)
  with assms show ?thesis
    by (simp only: rate_acquire_def option.case)
      (rule exact_wakeups_starve [OF _ _ refl]; simp add: word_le_nat_alt word_less_nat_alt)
qed

theorem rate_acquire_exact_timer_starves_witness:
  "snd (rate_acquire \<lparr>bytes_per_second = 1000, rate_available = 100, updated_at = 5\<rparr> 900 5
     (exact_wakeups \<lparr>bytes_per_second = 1000, rate_available = 100, updated_at = 5\<rparr>
        (of_nat 900) 5 20)) = None
    \<and> length (exact_wakeups \<lparr>bytes_per_second = 1000, rate_available = 100, updated_at = 5\<rparr>
        (of_nat 900) 5 20) = 20"
  by (rule rate_acquire_exact_timer_starves) (simp_all add: unat_replenished)

end
