(* ===== verification/Ordered_Map.thy ===== *)
theory Ordered_Map
  imports Prelude "HOL-Library.List_Lexorder" "HOL-Library.Char_ord"
begin

text \<open>
  The ordered maps of the Rust standard library (\<open>BTreeMap\<close>) as association lists in ascending
  key order, so that \<open>len\<close>, \<open>retain\<close> and iteration are those of the list, and the interface
  through which the components use them.
\<close>

fun bt_insert :: "'k::linorder \<Rightarrow> 'v \<Rightarrow> ('k \<times> 'v) list \<Rightarrow> ('k \<times> 'v) list" where
  "bt_insert k v [] = [(k, v)]"
| "bt_insert k v ((k', v') # m) =
     (if k < k' then (k, v) # (k', v') # m
      else if k = k' then (k, v) # m
      else (k', v') # bt_insert k v m)"

definition bt_remove :: "'k \<Rightarrow> ('k \<times> 'v) list \<Rightarrow> ('k \<times> 'v) list" where
  "bt_remove k m = filter (\<lambda>(k', v). k' \<noteq> k) m"

definition bt_retain :: "('k \<Rightarrow> 'v \<Rightarrow> bool) \<Rightarrow> ('k \<times> 'v) list \<Rightarrow> ('k \<times> 'v) list" where
  "bt_retain P m = filter (\<lambda>(k, v). P k v) m"

text \<open>Mutation of every value in place.\<close>

definition bt_values :: "('k \<Rightarrow> 'v \<Rightarrow> 'w) \<Rightarrow> ('k \<times> 'v) list \<Rightarrow> ('k \<times> 'w) list" where
  "bt_values f m = map (\<lambda>(k, v). (k, f k v)) m"

definition bt_wf :: "('k::linorder \<times> 'v) list \<Rightarrow> bool" where
  "bt_wf m = sorted_wrt (<) (map fst m)"

text \<open>Collecting pairs: a later pair replaces an earlier one with the same key.\<close>

definition bt_collect :: "('k::linorder \<times> 'v) list \<Rightarrow> ('k \<times> 'v) list" where
  "bt_collect kvs = foldl (\<lambda>m (k, v). bt_insert k v m) [] kvs"

lemma map_of_bt_insert [simp]: "map_of (bt_insert k v m) = (map_of m)(k \<mapsto> v)"
  by (induction k v m rule: bt_insert.induct) auto

lemma keys_bt_insert [simp]: "fst ` set (bt_insert k v m) = insert k (fst ` set m)"
  by (induction k v m rule: bt_insert.induct) auto

lemma bt_wf_Nil [simp]: "bt_wf []"
  by (simp add: bt_wf_def)

lemma bt_wf_distinct: "bt_wf m \<Longrightarrow> distinct (map fst m)"
  by (simp add: bt_wf_def strict_sorted_iff)

lemma bt_wf_bt_insert [simp]: "bt_wf m \<Longrightarrow> bt_wf (bt_insert k v m)"
proof (induction k v m rule: bt_insert.induct)
  case (1 k v)
  then show ?case by (simp add: bt_wf_def)
next
  case (2 k v k' v' m)
  then have "bt_wf (bt_insert k v m)" if "\<not> k < k'" "k \<noteq> k'"
    using that by (simp add: bt_wf_def)
  moreover have "\<forall>x \<in> set (map fst (bt_insert k v m)). x = k \<or> x \<in> fst ` set m"
    using keys_bt_insert [of k v m] by auto
  ultimately show ?case using 2 by (fastforce simp: bt_wf_def)
qed

lemma bt_wf_filter [simp]: "bt_wf m \<Longrightarrow> bt_wf (filter P m)"
  by (induction m) (auto simp: bt_wf_def)

lemma bt_wf_bt_values [simp]: "bt_wf (bt_values f m) = bt_wf m"
  by (simp add: bt_wf_def bt_values_def case_prod_beta comp_def)

lemma length_bt_values [simp]: "length (bt_values f m) = length m"
  by (simp add: bt_values_def)

lemma map_of_bt_values [simp]: "map_of (bt_values f m) k = map_option (f k) (map_of m k)"
  by (induction m) (auto simp: bt_values_def)

lemma map_of_bt_remove [simp]: "map_of (bt_remove k m) = (map_of m)(k := None)"
  by (induction m) (auto simp: bt_remove_def)

lemma map_of_bt_retain:
  "bt_wf m \<Longrightarrow> map_of (bt_retain P m) k =
     (case map_of m k of None \<Rightarrow> None | Some v \<Rightarrow> if P k v then Some v else None)"
proof (induction m)
  case Nil
  then show ?case by (simp add: bt_retain_def)
next
  case (Cons kv m)
  then have "map_of (bt_retain P m) k = (case map_of m k of None \<Rightarrow> None | Some v \<Rightarrow> if P k v then Some v else None)"
    by (simp add: bt_wf_def)
  moreover have "map_of m (fst kv) = None"
    using Cons.prems bt_wf_distinct [of "kv # m"] by (auto simp: map_of_eq_None_iff)
  ultimately show ?case
    by (cases kv) (auto simp: bt_retain_def split: option.splits)
qed

lemma bt_wf_bt_remove [simp]: "bt_wf m \<Longrightarrow> bt_wf (bt_remove k m)"
  by (simp add: bt_remove_def)

lemma bt_wf_bt_retain [simp]: "bt_wf m \<Longrightarrow> bt_wf (bt_retain P m)"
  by (simp add: bt_retain_def)

lemma length_bt_insert:
  "bt_wf m \<Longrightarrow> length (bt_insert k v m) = (if map_of m k = None then Suc (length m) else length m)"
proof (induction k v m rule: bt_insert.induct)
  case (1 k v)
  then show ?case by simp
next
  case (2 k v k' v' m)
  then have "map_of m k = None" if "k \<le> k'"
    using that by (auto simp: bt_wf_def map_of_eq_None_iff)
  with 2 show ?case by (auto simp: bt_wf_def)
qed

lemma bt_wf_bt_collect [simp]: "bt_wf (bt_collect kvs)"
proof -
  have "bt_wf m \<Longrightarrow> bt_wf (foldl (\<lambda>m (k, v). bt_insert k v m) m kvs)" for m
    by (induction kvs arbitrary: m) auto
  then show ?thesis by (simp add: bt_collect_def)
qed

lemma map_of_bt_collect: "map_of (bt_collect kvs) = map_of (rev kvs)"
proof -
  have "map_of (foldl (\<lambda>m (k, v). bt_insert k v m) m kvs) = map_of m ++ map_of (rev kvs)" for m
    by (induction kvs arbitrary: m) (auto simp: map_add_def fun_eq_iff split: option.splits)
  from this [of "[]"] show ?thesis by (simp add: bt_collect_def)
qed

text \<open>
  What a client of an ordered map relies on: a lookup after an insertion or a removal, and that
  the well-formed maps are closed under both.
\<close>

locale keyed_map =
  fixes lookup :: "'m \<Rightarrow> 'k \<Rightarrow> 'v option"
    and ins :: "'k \<Rightarrow> 'v \<Rightarrow> 'm \<Rightarrow> 'm"
    and del :: "'k \<Rightarrow> 'm \<Rightarrow> 'm"
    and wf :: "'m \<Rightarrow> bool"
  assumes lookup_ins: "wf m \<Longrightarrow> lookup (ins k v m) k' = (if k' = k then Some v else lookup m k')"
    and lookup_del: "wf m \<Longrightarrow> lookup (del k m) k' = (if k' = k then None else lookup m k')"
    and wf_ins: "wf m \<Longrightarrow> wf (ins k v m)"
    and wf_del: "wf m \<Longrightarrow> wf (del k m)"
begin

lemma wf_del_all: "wf m \<Longrightarrow> wf (fold del ks m)"
  by (induction ks arbitrary: m) (simp_all add: wf_del)

lemma lookup_del_all:
  "wf m \<Longrightarrow> lookup (fold del ks m) k = (if k \<in> set ks then None else lookup m k)"
  by (induction ks arbitrary: m) (simp_all add: wf_del lookup_del)

lemma wf_ins_all: "wf m \<Longrightarrow> wf (fold (\<lambda>(k, v). ins k v) kvs m)"
  by (induction kvs arbitrary: m) (auto simp: wf_ins)

lemma lookup_ins_all:
  "\<lbrakk>wf m; distinct (map fst kvs)\<rbrakk> \<Longrightarrow>
   lookup (fold (\<lambda>(k, v). ins k v) kvs m) k =
     (case map_of kvs k of Some v \<Rightarrow> Some v | None \<Rightarrow> lookup m k)"
proof (induction kvs arbitrary: m)
  case Nil
  then show ?case by simp
next
  case (Cons kv kvs)
  obtain a b where kv: "kv = (a, b)" by (cases kv)
  with Cons.prems have "map_of kvs a = None" "wf (ins a b m)" "distinct (map fst kvs)"
    by (simp_all add: map_of_eq_None_iff wf_ins)
  with Cons.IH [of "ins a b m"] Cons.prems show ?case
    by (simp add: kv lookup_ins split: option.split)
qed

end

interpretation bt: keyed_map map_of bt_insert bt_remove bt_wf
  by unfold_locales auto

end
