(* ===== verification/Quota.thy ===== *)
theory Quota
  imports Flow Ordered_Map
begin

text \<open>
  The durable monthly byte quotas of the relay (\<open>relay-server/src/quota.rs\<close>). The store keeps one
  record per route in memory and in a file that every change replaces; the file system is an
  explicit disk with what a reader sees and what survives a loss of power. The calendar, the
  serializer and the effective user are what the code takes from the \<open>time\<close>, \<open>serde_json\<close> and
  \<open>rustix\<close> packages: parameters collected in a record, with what is relied on stated as named
  hypotheses.
\<close>

section \<open>Data\<close>

definition STATE_SCHEMA_VERSION :: nat where "STATE_SCHEMA_VERSION = 1"
definition MAX_STATE_FILE_BYTES :: nat where "MAX_STATE_FILE_BYTES = 8 * 1024 * 1024"
definition RETENTION_DAYS :: int where "RETENTION_DAYS = 62"
definition RECORDS_PER_CONFIGURED_ROUTE :: nat where "RECORDS_PER_CONFIGURED_ROUTE = 8"
definition MAX_QUOTA_RECORDS :: nat where "MAX_QUOTA_RECORDS = 65536"

record quota_record =
  qr_year :: int
  qr_month :: nat
  qr_bytes :: u64
  retired_at :: "odt option"

record quota_state =
  schema_version :: nat
  clock_high_watermark :: odt
  records :: "(string \<times> quota_record) list"

record quota_store =
  max_records :: nat
  qs_state :: quota_state
  poisoned :: bool

record route_quota =
  rq_route_id :: string
  rq_limit :: u64

text \<open>The packages: year and month of an instant, serializer, deserializer, effective user.\<close>

record quota_env =
  q_cal :: "int \<Rightarrow> int \<times> nat"
  q_ser :: "quota_state \<Rightarrow> byte list option"
  q_de :: "byte list \<Rightarrow> quota_state option"
  q_euid :: nat

section \<open>Disk\<close>

record metadata =
  md_is_dir :: bool
  md_is_file :: bool
  md_uid :: nat
  md_mode :: nat
  md_len :: nat
  md_dev :: nat
  md_ino :: nat

text \<open>
  The store's directory: its own metadata, the state file as a reader sees it, the state file a
  loss of power leaves, and whether the temporary file exists.
\<close>

record disk =
  dir_meta :: "metadata option"
  visible :: "(metadata \<times> byte list) option"
  durable :: "(metadata \<times> byte list) option"
  temp_exists :: bool

text \<open>What the operating system answers to the calls of one write; \<open>io_meta\<close> identifies the new file.\<close>

record write_io =
  io_create :: bool
  io_write :: bool
  io_sync :: bool
  io_rename :: bool
  io_dir_sync :: bool
  io_remove :: bool
  io_dev :: nat
  io_ino :: nat

definition quota_error :: "string \<Rightarrow> relay_error" where
  "quota_error code = Config code"

definition validate_directory :: "quota_env \<Rightarrow> metadata option \<Rightarrow> (relay_error, unit) result" where
  "validate_directory env m =
     (case m of
        None \<Rightarrow> Inl (quota_error ''relay_quota_directory_unavailable'')
      | Some md \<Rightarrow>
          if \<not> md_is_dir md \<or> md_uid md \<noteq> q_euid env \<or> md_mode md mod 512 \<noteq> 448
          then Inl (quota_error ''relay_quota_directory_permissions_invalid'')
          else Inr ())"

definition validate_state_file_metadata :: "quota_env \<Rightarrow> metadata \<Rightarrow> (relay_error, unit) result" where
  "validate_state_file_metadata env md =
     (if \<not> md_is_file md \<or> md_uid md \<noteq> q_euid env \<or> md_mode md mod 512 \<noteq> 384
         \<or> md_len md = 0 \<or> MAX_STATE_FILE_BYTES < md_len md
      then Inl (quota_error ''relay_quota_state_permissions_invalid'')
      else Inr ())"

definition validate_same_file :: "metadata \<Rightarrow> metadata \<Rightarrow> (relay_error, unit) result" where
  "validate_same_file before after =
     (if md_dev before \<noteq> md_dev after \<or> md_ino before \<noteq> md_ino after
      then Inl (quota_error ''relay_quota_state_changed'')
      else Inr ())"

text \<open>\<open>create_new\<close> fails where the path exists; the file is created with mode 0600 and no content.\<close>

definition create_temporary :: "write_io \<Rightarrow> disk \<Rightarrow> (relay_error, disk) result" where
  "create_temporary io d =
     (if temp_exists d \<or> \<not> io_create io
      then Inl (quota_error ''relay_quota_temporary_create_failed'')
      else Inr (d\<lparr>temp_exists := True\<rparr>))"

definition written_meta :: "quota_env \<Rightarrow> write_io \<Rightarrow> nat \<Rightarrow> metadata" where
  "written_meta env io n =
     \<lparr>md_is_dir = False, md_is_file = True, md_uid = q_euid env, md_mode = 384, md_len = n,
      md_dev = io_dev io, md_ino = io_ino io\<rparr>"

text \<open>
  The inner closure of \<open>persist_state\<close>: create, write, sync, rename, sync the directory. The disk
  it leaves is returned with its result, since the calls before a failure have taken effect.
\<close>

definition write_steps ::
  "quota_env \<Rightarrow> write_io \<Rightarrow> disk \<Rightarrow> byte list \<Rightarrow> disk \<times> (relay_error, unit) result" where
  "write_steps env io d bytes =
     (case create_temporary io d of
        Inl e \<Rightarrow> (d, Inl e)
      | Inr d1 \<Rightarrow>
          if \<not> io_write io then (d1, Inl (quota_error ''relay_quota_state_write_failed''))
          else if \<not> io_sync io then (d1, Inl (quota_error ''relay_quota_state_sync_failed''))
          else if \<not> io_rename io then (d1, Inl (quota_error ''relay_quota_state_replace_failed''))
          else
            let file = Some (written_meta env io (length bytes), bytes);
                d2 = d1\<lparr>temp_exists := False, visible := file\<rparr> in
            if \<not> io_dir_sync io then (d2, Inl (quota_error ''relay_quota_directory_sync_failed''))
            else (d2\<lparr>durable := file\<rparr>, Inr ()))"

definition persist_state ::
  "quota_env \<Rightarrow> write_io \<Rightarrow> disk \<Rightarrow> quota_state \<Rightarrow> disk \<times> (relay_error, unit) result" where
  "persist_state env io d st =
     (case validate_directory env (dir_meta d) of
        Inl e \<Rightarrow> (d, Inl e)
      | Inr _ \<Rightarrow>
          (case q_ser env st of
             None \<Rightarrow> (d, Inl (quota_error ''relay_quota_state_serialize_failed''))
           | Some bs \<Rightarrow>
               let bytes = bs @ [10] in
               if MAX_STATE_FILE_BYTES < length bytes
               then (d, Inl (quota_error ''relay_quota_state_size_invalid''))
               else
                 (case write_steps env io d bytes of
                    (d', Inl e) \<Rightarrow>
                      (if io_remove io then d'\<lparr>temp_exists := False\<rparr> else d', Inl e)
                  | (d', Inr _) \<Rightarrow> (d', Inr ()))))"

section \<open>Records and time\<close>

definition utc :: "odt \<Rightarrow> odt" where
  "utc v = v\<lparr>utc_offset := 0\<rparr>"

definition month_key :: "quota_env \<Rightarrow> odt \<Rightarrow> int \<times> nat" where
  "month_key env v = q_cal env (instant v + utc_offset v * 1000000000)"

definition effective_now :: "quota_state \<Rightarrow> odt \<Rightarrow> odt" where
  "effective_now st now =
     (if instant (clock_high_watermark st) < instant (utc now) then utc now
      else clock_high_watermark st)"

definition record_month :: "quota_record \<Rightarrow> int \<times> nat" where
  "record_month r = (qr_year r, qr_month r)"

definition roll_record :: "quota_record \<Rightarrow> int \<times> nat \<Rightarrow> quota_record \<times> bool" where
  "roll_record r current_month =
     (if (qr_year r, qr_month r) < current_month
      then (r\<lparr>qr_year := fst current_month, qr_month := snd current_month, qr_bytes := 0\<rparr>, True)
      else (r, False))"

definition active_record_mut :: "quota_state \<Rightarrow> string \<Rightarrow> (relay_error, quota_record) result" where
  "active_record_mut st route_id =
     (case map_of (records st) route_id of
        None \<Rightarrow> Inl (quota_error ''relay_quota_route_unavailable'')
      | Some r \<Rightarrow>
          if retired_at r = None then Inr r
          else Inl (quota_error ''relay_quota_route_unavailable''))"

definition ensure_healthy :: "quota_store \<Rightarrow> (relay_error, unit) result" where
  "ensure_healthy s =
     (if poisoned s then Inl (quota_error ''relay_quota_state_poisoned'') else Inr ())"

definition route_id_ok :: "string \<Rightarrow> bool" where
  "route_id_ok rid = (16 \<le> length rid \<and> length rid \<le> 128 \<and> list_all is_url_safe rid)"

definition record_invalid :: "quota_env \<Rightarrow> quota_state \<Rightarrow> string \<times> quota_record \<Rightarrow> bool" where
  "record_invalid env st = (\<lambda>(rid, r).
     \<not> route_id_ok rid
     \<or> \<not> (1 \<le> qr_month r \<and> qr_month r \<le> 12)
     \<or> month_key env (clock_high_watermark st) < (qr_year r, qr_month r)
     \<or> (case retired_at r of
          None \<Rightarrow> False
        | Some t \<Rightarrow> utc_offset t \<noteq> 0 \<or> instant (clock_high_watermark st) < instant t))"

definition validate_state :: "quota_env \<Rightarrow> quota_state \<Rightarrow> nat \<Rightarrow> (relay_error, unit) result" where
  "validate_state env st max_recs =
     (if schema_version st \<noteq> STATE_SCHEMA_VERSION
         \<or> utc_offset (clock_high_watermark st) \<noteq> 0
         \<or> max_recs < length (records st)
      then Inl (quota_error ''relay_quota_state_invalid'')
      else
        check_all (\<lambda>kv. if record_invalid env st kv then Inl (quota_error ''relay_quota_state_invalid'')
                        else Inr ()) (records st))"

section \<open>Opening the store\<close>

text \<open>
  \<open>opened\<close> is the metadata of the file the open call returned (none where it failed) and \<open>content\<close>
  what reading at most the size limit plus one byte returned.
\<close>

definition read_state ::
  "quota_env \<Rightarrow> metadata \<Rightarrow> metadata option \<Rightarrow> byte list option \<Rightarrow> nat \<Rightarrow> (relay_error, quota_state) result" where
  "read_state env md opened content max_recs =
     rbind (validate_state_file_metadata env md) (\<lambda>_.
     case opened of
       None \<Rightarrow> Inl (quota_error ''relay_quota_state_unavailable'')
     | Some omd \<Rightarrow>
         rbind (validate_state_file_metadata env omd) (\<lambda>_.
         rbind (validate_same_file md omd) (\<lambda>_.
         case content of
           None \<Rightarrow> Inl (quota_error ''relay_quota_state_unreadable'')
         | Some bytes \<Rightarrow>
             if bytes = [] \<or> MAX_STATE_FILE_BYTES < length bytes
             then Inl (quota_error ''relay_quota_state_size_invalid'')
             else
               (case q_de env bytes of
                  None \<Rightarrow> Inl (quota_error ''relay_quota_state_invalid'')
                | Some st \<Rightarrow> rbind (validate_state env st max_recs) (\<lambda>_. Inr st)))))"

text \<open>
  \<open>stat\<close> is \<open>false\<close> where the metadata of the state file cannot be read for a reason other than its
  absence. The file is opened, and read, as the metadata call found it.
\<close>

definition open_blocking ::
  "quota_env \<Rightarrow> write_io \<Rightarrow> bool \<Rightarrow> disk \<Rightarrow> nat \<Rightarrow> odt \<Rightarrow> disk \<times> (relay_error, quota_store) result" where
  "open_blocking env io stat d max_routes now =
     (case validate_directory env (dir_meta d) of
        Inl e \<Rightarrow> (d, Inl e)
      | Inr _ \<Rightarrow>
          if MAX_QUOTA_RECORDS div RECORDS_PER_CONFIGURED_ROUTE < max_routes
          then (d, Inl (quota_error ''relay_quota_route_capacity_exceeded''))
          else if temp_exists d then (d, Inl (quota_error ''relay_quota_incomplete_write''))
          else
            let max_recs = max (min (max_routes * RECORDS_PER_CONFIGURED_ROUTE) MAX_QUOTA_RECORDS) max_routes in
            if \<not> stat then (d, Inl (quota_error ''relay_quota_state_unavailable''))
            else
              (case visible d of
                 Some (md, bytes) \<Rightarrow>
                   (d, rbind (read_state env md (Some md) (Some (take (MAX_STATE_FILE_BYTES + 1) bytes)) max_recs)
                     (\<lambda>st. Inr \<lparr>max_records = max_recs, qs_state = st, poisoned = False\<rparr>))
               | None \<Rightarrow>
                   let st = \<lparr>schema_version = STATE_SCHEMA_VERSION, clock_high_watermark = utc now,
                             records = []\<rparr> in
                   (case persist_state env io d st of
                      (d', Inl e) \<Rightarrow> (d', Inl e)
                    | (d', Inr _) \<Rightarrow>
                        (d', Inr \<lparr>max_records = max_recs, qs_state = st, poisoned = False\<rparr>))))"

definition quota_route :: "string \<Rightarrow> u64 \<Rightarrow> route_quota" where
  "quota_route route_id limit = \<lparr>rq_route_id = route_id, rq_limit = limit\<rparr>"

section \<open>Operations of the store\<close>

definition commit ::
  "quota_env \<Rightarrow> write_io \<Rightarrow> disk \<Rightarrow> quota_store \<Rightarrow> quota_state \<Rightarrow>
   disk \<times> quota_store \<times> (relay_error, unit) result" where
  "commit env io d s candidate =
     (case persist_state env io d candidate of
        (d', Inl e) \<Rightarrow> (d', s\<lparr>poisoned := True\<rparr>, Inl e)
      | (d', Inr _) \<Rightarrow> (d', s\<lparr>qs_state := candidate\<rparr>, Inr ()))"

text \<open>One pass of the second loop of \<open>reconcile\<close>: the record and whether it changed.\<close>

definition reconcile_record ::
  "string list \<Rightarrow> int \<times> nat \<Rightarrow> odt \<Rightarrow> string \<Rightarrow> quota_record \<Rightarrow> quota_record \<times> bool" where
  "reconcile_record active current_month now route_id r =
     (if route_id \<in> set active then
        let (r', rolled) = roll_record r current_month in
        (r'\<lparr>retired_at := None\<rparr>, rolled \<or> retired_at r' \<noteq> None)
      else if retired_at r = None then (r\<lparr>retired_at := Some now\<rparr>, True)
      else (r, False))"

text \<open>The third loop: a fresh record for each active route that has none.\<close>

fun add_missing ::
  "nat \<Rightarrow> int \<times> nat \<Rightarrow> string list \<Rightarrow> (string \<times> quota_record) list \<Rightarrow> bool \<Rightarrow>
   (relay_error, (string \<times> quota_record) list \<times> bool) result" where
  "add_missing max_recs current_month [] recs changed = Inr (recs, changed)"
| "add_missing max_recs current_month (route_id # ids) recs changed =
     (if map_of recs route_id \<noteq> None then add_missing max_recs current_month ids recs changed
      else if max_recs \<le> length recs then Inl (quota_error ''relay_quota_record_capacity_exceeded'')
      else add_missing max_recs current_month ids
             (bt_insert route_id
                \<lparr>qr_year = fst current_month, qr_month = snd current_month, qr_bytes = 0,
                 retired_at = None\<rparr> recs) True)"

definition record_retained :: "int \<Rightarrow> quota_record \<Rightarrow> bool" where
  "record_retained cutoff r = (case retired_at r of None \<Rightarrow> True | Some t \<Rightarrow> cutoff < instant t)"

text \<open>The state \<open>reconcile\<close> computes before it commits it.\<close>

definition reconcile_candidate ::
  "quota_env \<Rightarrow> nat \<Rightarrow> quota_state \<Rightarrow> string list \<Rightarrow> odt \<Rightarrow>
   (relay_error, quota_state \<times> bool) result" where
  "reconcile_candidate env max_recs st active_route_ids now =
     (let eff = effective_now st now;
          current_month = month_key env eff;
          cutoff = instant eff - RETENTION_DAYS * 86400 * 1000000000;
          kept = bt_retain (\<lambda>_ r. record_retained cutoff r) (records st);
          changed1 = (length kept \<noteq> length (records st));
          step = reconcile_record active_route_ids current_month eff;
          recs = bt_values (\<lambda>rid r. fst (step rid r)) kept;
          changed2 = (changed1 \<or> list_ex (\<lambda>(rid, r). snd (step rid r)) kept)
      in rbind (add_missing max_recs current_month active_route_ids recs changed2)
           (\<lambda>(recs', changed).
              Inr (st\<lparr>records := recs',
                      clock_high_watermark := (if changed then eff else clock_high_watermark st)\<rparr>,
                   changed)))"

definition reconcile ::
  "quota_env \<Rightarrow> write_io \<Rightarrow> disk \<Rightarrow> quota_store \<Rightarrow> string list \<Rightarrow> odt \<Rightarrow>
   disk \<times> quota_store \<times> (relay_error, unit) result" where
  "reconcile env io d s active_route_ids now =
     (if max_records s < length (remdups active_route_ids)
      then (d, s, Inl (quota_error ''relay_quota_record_capacity_exceeded''))
      else
        case ensure_healthy s of
          Inl e \<Rightarrow> (d, s, Inl e)
        | Inr _ \<Rightarrow>
            (case reconcile_candidate env (max_records s) (qs_state s) active_route_ids now of
               Inl e \<Rightarrow> (d, s, Inl e)
             | Inr (candidate, changed) \<Rightarrow>
                 if changed then commit env io d s candidate else (d, s, Inr ())))"

definition permits_new_stream ::
  "quota_env \<Rightarrow> write_io \<Rightarrow> disk \<Rightarrow> quota_store \<Rightarrow> string \<Rightarrow> u64 \<Rightarrow> odt \<Rightarrow>
   disk \<times> quota_store \<times> (relay_error, bool) result" where
  "permits_new_stream env io d s route_id limit now =
     (case ensure_healthy s of
        Inl e \<Rightarrow> (d, s, Inl e)
      | Inr _ \<Rightarrow>
          let eff = effective_now (qs_state s) now; current_month = month_key env eff in
          (case active_record_mut (qs_state s) route_id of
             Inl e \<Rightarrow> (d, s, Inl e)
           | Inr r \<Rightarrow>
               let (r', changed) = roll_record r current_month; permitted = qr_bytes r' < limit in
               if changed then
                 (case commit env io d s ((qs_state s)\<lparr>records := bt_insert route_id r' (records (qs_state s)),
                                                     clock_high_watermark := eff\<rparr>) of
                    (d', s', Inl e) \<Rightarrow> (d', s', Inl e)
                  | (d', s', Inr _) \<Rightarrow> (d', s', Inr permitted))
               else (d, s, Inr permitted)))"

definition reserve ::
  "quota_env \<Rightarrow> write_io \<Rightarrow> disk \<Rightarrow> quota_store \<Rightarrow> string \<Rightarrow> u64 \<Rightarrow> u64 \<Rightarrow> odt \<Rightarrow>
   disk \<times> quota_store \<times> (relay_error, u64) result" where
  "reserve env io d s route_id limit requested now =
     (if requested = 0 then (d, s, Inr 0)
      else
        case ensure_healthy s of
          Inl e \<Rightarrow> (d, s, Inl e)
        | Inr _ \<Rightarrow>
            let eff = effective_now (qs_state s) now; current_month = month_key env eff in
            (case active_record_mut (qs_state s) route_id of
               Inl e \<Rightarrow> (d, s, Inl e)
             | Inr r \<Rightarrow>
                 let r1 = fst (roll_record r current_month);
                     granted = min requested (saturating_sub_u64 limit (qr_bytes r1)) in
                 if granted = 0 then (d, s, Inr 0)
                 else
                   (case checked_add_u64 (qr_bytes r1) granted of
                      None \<Rightarrow> (d, s, Inl (quota_error ''relay_quota_counter_overflow''))
                    | Some used \<Rightarrow>
                        (case commit env io d s
                           ((qs_state s)\<lparr>records := bt_insert route_id (r1\<lparr>qr_bytes := used\<rparr>) (records (qs_state s)),
                                         clock_high_watermark := eff\<rparr>) of
                           (d', s', Inl e) \<Rightarrow> (d', s', Inl e)
                         | (d', s', Inr _) \<Rightarrow> (d', s', Inr granted)))))"

text \<open>
  The asynchronous entry points run the operation on a blocking worker; \<open>joined\<close> is \<open>false\<close> where the
  runtime dropped the worker before it started.
\<close>

definition route_reserve ::
  "quota_env \<Rightarrow> write_io \<Rightarrow> bool \<Rightarrow> disk \<Rightarrow> quota_store \<Rightarrow> route_quota \<Rightarrow> nat \<Rightarrow> odt \<Rightarrow>
   disk \<times> quota_store \<times> (relay_error, nat) result" where
  "route_reserve env io joined d s rq requested now =
     (case u64_try_from requested of
        None \<Rightarrow> (d, s, Inl (quota_error ''relay_quota_reservation_invalid''))
      | Some req \<Rightarrow>
          if \<not> joined then (d, s, Inl (quota_error ''relay_quota_worker_failed''))
          else
            (case reserve env io d s (rq_route_id rq) (rq_limit rq) req now of
               (d', s', Inl e) \<Rightarrow> (d', s', Inl e)
             | (d', s', Inr granted) \<Rightarrow> (d', s', Inr (unat granted))))"

definition route_permits_new_stream ::
  "quota_env \<Rightarrow> write_io \<Rightarrow> bool \<Rightarrow> disk \<Rightarrow> quota_store \<Rightarrow> route_quota \<Rightarrow> odt \<Rightarrow>
   disk \<times> quota_store \<times> (relay_error, bool) result" where
  "route_permits_new_stream env io joined d s rq now =
     (if \<not> joined then (d, s, Inl (quota_error ''relay_quota_worker_failed''))
      else permits_new_stream env io d s (rq_route_id rq) (rq_limit rq) now)"

definition store_reconcile ::
  "quota_env \<Rightarrow> write_io \<Rightarrow> bool \<Rightarrow> disk \<Rightarrow> quota_store \<Rightarrow> string list \<Rightarrow> odt \<Rightarrow>
   disk \<times> quota_store \<times> (relay_error, unit) result" where
  "store_reconcile env io joined d s active_route_ids now =
     (if \<not> joined then (d, s, Inl (quota_error ''relay_quota_worker_failed''))
      else reconcile env io d s active_route_ids now)"

definition quota_open ::
  "quota_env \<Rightarrow> write_io \<Rightarrow> bool \<Rightarrow> bool \<Rightarrow> disk \<Rightarrow> nat \<Rightarrow> odt \<Rightarrow> disk \<times> (relay_error, quota_store) result" where
  "quota_open env io joined stat d max_routes now =
     (if \<not> joined then (d, Inl (quota_error ''relay_quota_worker_failed''))
      else open_blocking env io stat d max_routes now)"

section \<open>Hypotheses on the packages\<close>

text \<open>
  Months follow the order of time, two instants that are 62 days apart lie in different months,
  and months are numbered from 1 to 12.
\<close>

definition calendar_ok :: "quota_env \<Rightarrow> bool" where
  "calendar_ok env \<longleftrightarrow>
     (\<forall>s t. s \<le> t \<longrightarrow> q_cal env s \<le> q_cal env t)
     \<and> (\<forall>t. q_cal env t < q_cal env (t + RETENTION_DAYS * 86400 * 1000000000))
     \<and> (\<forall>t. 1 \<le> snd (q_cal env t) \<and> snd (q_cal env t) \<le> 12)"

definition utc_state :: "quota_state \<Rightarrow> bool" where
  "utc_state st \<longleftrightarrow> bt_wf (records st) \<and> utc_offset (clock_high_watermark st) = 0
     \<and> (\<forall>rid r t. map_of (records st) rid = Some r \<longrightarrow> retired_at r = Some t \<longrightarrow> utc_offset t = 0)"

text \<open>What is serialized is what is read back.\<close>

definition serde_ok :: "quota_env \<Rightarrow> bool" where
  "serde_ok env \<longleftrightarrow>
     (\<forall>st bs. utc_state st \<longrightarrow> q_ser env st = Some bs \<longrightarrow> q_de env (bs @ [10]) = Some st)"

section \<open>The ledger\<close>

text \<open>A ledger says how many bytes were granted to a route in a month.\<close>

type_synonym ledger = "string \<Rightarrow> int \<times> nat \<Rightarrow> nat"

definition record_covers :: "quota_env \<Rightarrow> odt \<Rightarrow> (int \<times> nat \<Rightarrow> nat) \<Rightarrow> quota_record \<Rightarrow> bool" where
  "record_covers env wm g r \<longleftrightarrow>
     record_month r \<le> month_key env wm
     \<and> (\<forall>m. 0 < g m \<longrightarrow> m \<le> record_month r)
     \<and> g (record_month r) \<le> unat (qr_bytes r)
     \<and> (\<forall>t. retired_at r = Some t \<longrightarrow>
          utc_offset t = 0 \<and> instant t \<le> instant wm \<and> record_month r \<le> month_key env t)"

text \<open>
  The state accounts for the ledger: every grant is in a month no later than the record's, those
  of the record's month are within its counter, and a route without a record got its grants
  before the month of the clock watermark.
\<close>

definition covers :: "quota_env \<Rightarrow> ledger \<Rightarrow> quota_state \<Rightarrow> bool" where
  "covers env g st \<longleftrightarrow>
     utc_offset (clock_high_watermark st) = 0 \<and> bt_wf (records st)
     \<and> (\<forall>rid r. map_of (records st) rid = Some r \<longrightarrow>
          record_covers env (clock_high_watermark st) (g rid) r)
     \<and> (\<forall>rid m. map_of (records st) rid = None \<longrightarrow> 0 < g rid m \<longrightarrow>
          m < month_key env (clock_high_watermark st))"

definition grant :: "string \<Rightarrow> int \<times> nat \<Rightarrow> nat \<Rightarrow> ledger \<Rightarrow> ledger" where
  "grant rid m n g = g(rid := (g rid)(m := g rid m + n))"

declare split_paired_All [simp del] split_paired_Ex [simp del]

lemma coversI:
  assumes "utc_offset (clock_high_watermark st) = 0" "bt_wf (records st)"
    and "\<And>rid r. map_of (records st) rid = Some r \<Longrightarrow>
      record_covers env (clock_high_watermark st) (g rid) r"
    and "\<And>rid m. map_of (records st) rid = None \<Longrightarrow> 0 < g rid m \<Longrightarrow>
      m < month_key env (clock_high_watermark st)"
  shows "covers env g st"
  using assms by (simp add: covers_def)

lemma covers_utc_state: "covers env g st \<Longrightarrow> utc_state st"
  by (auto simp: covers_def utc_state_def record_covers_def)

lemma record_covers_mono:
  "record_covers env wm g r \<Longrightarrow> (\<And>m. g' m \<le> g m) \<Longrightarrow> record_covers env wm g' r"
  unfolding record_covers_def by (meson le_trans less_le_trans)

lemma covers_mono:
  assumes "covers env g st" and "\<And>rid m. g' rid m \<le> g rid m"
  shows "covers env g' st"
proof (rule coversI)
  fix rid r assume "map_of (records st) rid = Some r"
  then have "record_covers env (clock_high_watermark st) (g rid) r"
    using assms(1) by (simp add: covers_def)
  then show "record_covers env (clock_high_watermark st) (g' rid) r"
    by (rule record_covers_mono) (rule assms(2))
next
  fix rid m assume "map_of (records st) rid = None" "0 < g' rid m"
  moreover have "0 < g rid m" using assms(2) [of rid m] calculation(2) by simp
  ultimately show "m < month_key env (clock_high_watermark st)"
    using assms(1) by (simp add: covers_def)
qed (use assms(1) in \<open>simp_all add: covers_def\<close>)

lemma month_key_mono:
  "\<lbrakk>calendar_ok env; utc_offset s = 0; utc_offset t = 0; instant s \<le> instant t\<rbrakk> \<Longrightarrow>
   month_key env s \<le> month_key env t"
  by (simp add: calendar_ok_def month_key_def)

lemma month_key_retention:
  assumes "calendar_ok env" "utc_offset s = 0" "utc_offset t = 0"
    and "instant s \<le> instant t - RETENTION_DAYS * 86400 * 1000000000"
  shows "month_key env s < month_key env t"
proof -
  have "q_cal env (instant s) < q_cal env (instant s + RETENTION_DAYS * 86400 * 1000000000)"
    using assms(1) by (simp add: calendar_ok_def)
  also have "\<dots> \<le> q_cal env (instant t)"
    using assms(1,4) by (simp add: calendar_ok_def)
  finally show ?thesis using assms(2,3) by (simp add: month_key_def)
qed

lemma effective_now_utc: "utc_offset (clock_high_watermark st) = 0 \<Longrightarrow> utc_offset (effective_now st now) = 0"
  by (simp add: effective_now_def utc_def)

lemma effective_now_ge:
  "instant (clock_high_watermark st) \<le> instant (effective_now st now)"
  "instant now \<le> instant (effective_now st now)"
  by (simp_all add: effective_now_def utc_def)

lemma effective_month:
  assumes "calendar_ok env" "utc_offset (clock_high_watermark st) = 0"
  shows "month_key env (clock_high_watermark st) \<le> month_key env (effective_now st now)"
  using assms by (intro month_key_mono effective_now_utc effective_now_ge)

lemma record_coversD:
  assumes "record_covers env wm g r"
  shows "record_month r \<le> month_key env wm"
    and "0 < g m \<Longrightarrow> m \<le> record_month r"
    and "g (record_month r) \<le> unat (qr_bytes r)"
    and "retired_at r = Some t \<Longrightarrow> utc_offset t = 0"
    and "retired_at r = Some t \<Longrightarrow> instant t \<le> instant wm"
    and "retired_at r = Some t \<Longrightarrow> record_month r \<le> month_key env t"
  using assms by (simp_all add: record_covers_def)

lemma record_covers_later:
  assumes "record_covers env wm g r" "instant wm \<le> instant wm'"
    and "month_key env wm \<le> month_key env wm'"
  shows "record_covers env wm' g r"
  unfolding record_covers_def
proof (intro conjI allI impI)
  show "record_month r \<le> month_key env wm'"
    using record_coversD(1) [OF assms(1)] assms(3) by order
next
  fix t assume "retired_at r = Some t"
  then show "instant t \<le> instant wm'"
    using record_coversD(5) [OF assms(1)] assms(2) by force
qed (use record_coversD [OF assms(1)] in simp_all)

lemma roll_record_month:
  "record_month r \<le> m \<Longrightarrow> record_month (fst (roll_record r m)) = m"
  by (auto simp: roll_record_def record_month_def)

lemma record_covers_fresh:
  assumes "\<And>m. 0 < g m \<Longrightarrow> m < month_key env wm"
    and "record_month r = month_key env wm" "retired_at r = None"
  shows "record_covers env wm g r"
  unfolding record_covers_def
proof (intro conjI allI impI)
  show "g (record_month r) \<le> unat (qr_bytes r)"
    using assms(1) [of "month_key env wm"] assms(2) by (cases "g (record_month r)") auto
next
  fix m assume "0 < g m"
  then have "m < month_key env wm" by (rule assms(1))
  with assms(2) show "m \<le> record_month r" by simp
qed (use assms in simp_all)

lemma roll_record_covers:
  assumes "record_covers env wm g r" "retired_at r = None" "month_key env wm \<le> month_key env wm'"
  shows "record_covers env wm' g (fst (roll_record r (month_key env wm')))"
proof (cases "record_month r < month_key env wm'")
  case True
  then have "record_month (fst (roll_record r (month_key env wm'))) = month_key env wm'"
    by (simp add: roll_record_month)
  moreover have "m < month_key env wm'" if "0 < g m" for m
    using record_coversD(2) [OF assms(1) that] True by order
  moreover have "retired_at (fst (roll_record r (month_key env wm'))) = None"
    using assms(2) by (simp add: roll_record_def)
  ultimately show ?thesis by (intro record_covers_fresh)
next
  case False
  then have "fst (roll_record r (month_key env wm')) = r"
    by (simp add: roll_record_def record_month_def)
  moreover have "record_month r \<le> month_key env wm'"
    using record_coversD(1) [OF assms(1)] assms(3) by order
  ultimately show ?thesis using assms(2) record_coversD(2,3) [OF assms(1)]
    by (simp add: record_covers_def)
qed

section \<open>What an operation commits accounts for the ledger\<close>

lemma covers_update:
  assumes cal: "calendar_ok env" and st: "covers env g st"
    and r: "record_covers env (effective_now st now) (g' rid) r"
    and other: "\<And>x. x \<noteq> rid \<Longrightarrow> g' x = g x"
  shows "covers env g' (st\<lparr>records := bt_insert rid r (records st),
    clock_high_watermark := effective_now st now\<rparr>)"
proof (rule coversI)
  have wm: "month_key env (clock_high_watermark st) \<le> month_key env (effective_now st now)"
    using cal st by (intro effective_month) (simp_all add: covers_def)
  fix x
  show "record_covers env (clock_high_watermark (st\<lparr>records := bt_insert rid r (records st),
      clock_high_watermark := effective_now st now\<rparr>)) (g' x) r'"
    if "map_of (records (st\<lparr>records := bt_insert rid r (records st),
      clock_high_watermark := effective_now st now\<rparr>)) x = Some r'" for r'
  proof (cases "x = rid")
    case True
    with that r show ?thesis by simp
  next
    case False
    with that st have "record_covers env (clock_high_watermark st) (g x) r'"
      by (simp add: covers_def)
    then have "record_covers env (effective_now st now) (g x) r'"
      using effective_now_ge(1) wm by (rule record_covers_later)
    with other [OF False] show ?thesis by simp
  qed
  show "m < month_key env (clock_high_watermark (st\<lparr>records := bt_insert rid r (records st),
      clock_high_watermark := effective_now st now\<rparr>))"
    if "map_of (records (st\<lparr>records := bt_insert rid r (records st),
      clock_high_watermark := effective_now st now\<rparr>)) x = None" "0 < g' x m" for m
  proof -
    from that have "x \<noteq> rid" "map_of (records st) x = None" by (simp_all split: if_splits)
    with that(2) other have "m < month_key env (clock_high_watermark st)"
      using st by (simp add: covers_def)
    with wm show ?thesis by simp
  qed
qed (use st in \<open>simp_all add: covers_def effective_now_utc\<close>)

lemma record_covers_grant:
  assumes "record_covers env wm g r" "record_month r = month_key env wm"
    and "unat used = unat (qr_bytes r) + n" "retired_at r = None"
  shows "record_covers env wm (g(month_key env wm := g (month_key env wm) + n)) (r\<lparr>qr_bytes := used\<rparr>)"
proof -
  have "record_month (r\<lparr>qr_bytes := used\<rparr>) = month_key env wm"
    using assms(2) by (simp add: record_month_def)
  with assms record_coversD(2,3) [OF assms(1)] show ?thesis
    by (simp add: record_covers_def)
qed

lemma active_record_mut_Inr:
  "active_record_mut st rid = Inr r \<longleftrightarrow> map_of (records st) rid = Some r \<and> retired_at r = None"
  by (auto simp: active_record_mut_def split: option.splits)

text \<open>The rolled record of an active route accounts for its grants.\<close>

lemma active_rolled:
  assumes "calendar_ok env" "covers env g st" "active_record_mut st rid = Inr r"
  shows "record_covers env (effective_now st now) (g rid)
      (fst (roll_record r (month_key env (effective_now st now))))"
    and "record_month (fst (roll_record r (month_key env (effective_now st now))))
      = month_key env (effective_now st now)"
    and "retired_at (fst (roll_record r (month_key env (effective_now st now)))) = None"
proof -
  have wm: "month_key env (clock_high_watermark st) \<le> month_key env (effective_now st now)"
    using assms by (intro effective_month) (simp_all add: covers_def)
  have r: "record_covers env (clock_high_watermark st) (g rid) r" "retired_at r = None"
    using assms by (simp_all add: active_record_mut_Inr covers_def)
  show "record_covers env (effective_now st now) (g rid)
      (fst (roll_record r (month_key env (effective_now st now))))"
    by (rule roll_record_covers [OF r wm])
  show "record_month (fst (roll_record r (month_key env (effective_now st now))))
      = month_key env (effective_now st now)"
    by (rule roll_record_month) (use record_coversD(1) [OF r(1)] wm in order)
  show "retired_at (fst (roll_record r (month_key env (effective_now st now)))) = None"
    using r(2) by (simp add: roll_record_def)
qed

definition fresh_record :: "int \<times> nat \<Rightarrow> quota_record" where
  "fresh_record m = \<lparr>qr_year = fst m, qr_month = snd m, qr_bytes = 0, retired_at = None\<rparr>"

lemma add_missing_Inr:
  "\<lbrakk>add_missing n m ids recs changed = Inr (recs', changed'); bt_wf recs\<rbrakk> \<Longrightarrow>
   bt_wf recs' \<and> (length recs \<le> n \<longrightarrow> length recs' \<le> n) \<and>
   map_of recs' = (\<lambda>x. case map_of recs x of
       Some r \<Rightarrow> Some r | None \<Rightarrow> if x \<in> set ids then Some (fresh_record m) else None)"
proof (induction n m ids recs changed rule: add_missing.induct)
  case (1 n m recs changed)
  then show ?case by (auto simp: fun_eq_iff split: option.splits)
next
  case (2 n m rid ids recs changed)
  show ?case
  proof (cases "map_of recs rid")
    case None
    with 2 show ?thesis
      by (auto simp: fresh_record_def fun_eq_iff length_bt_insert split: if_splits option.splits)
  next
    case (Some r)
    with 2 show ?thesis by (auto simp: fun_eq_iff split: option.splits)
  qed
qed

lemma record_month_simps [simp]:
  "record_month (r\<lparr>retired_at := t\<rparr>) = record_month r"
  "record_month (fresh_record m) = m"
  "retired_at (fresh_record m) = None"
  by (simp_all add: record_month_def fresh_record_def)

lemma record_covers_retire:
  "record_covers env wm g r \<Longrightarrow> record_covers env wm g (r\<lparr>retired_at := None\<rparr>)"
  "\<lbrakk>record_covers env wm g r; utc_offset wm = 0\<rbrakk> \<Longrightarrow>
   record_covers env wm g (r\<lparr>retired_at := Some wm\<rparr>)"
  by (simp_all add: record_covers_def)

lemma reconcile_record_covers:
  assumes "record_covers env wm g r" "utc_offset wm' = 0" "instant wm \<le> instant wm'"
    and "month_key env wm \<le> month_key env wm'"
  shows "record_covers env wm' g (fst (reconcile_record ids (month_key env wm') wm' rid r))"
proof (cases "rid \<in> set ids")
  case True
  have "record_covers env wm g (r\<lparr>retired_at := None\<rparr>)"
    by (rule record_covers_retire(1) [OF assms(1)])
  then have "record_covers env wm' g (fst (roll_record (r\<lparr>retired_at := None\<rparr>) (month_key env wm')))"
    using assms(4) by (intro roll_record_covers) simp_all
  moreover have "fst (roll_record (r\<lparr>retired_at := None\<rparr>) (month_key env wm'))
      = (fst (roll_record r (month_key env wm')))\<lparr>retired_at := None\<rparr>"
    by (simp add: roll_record_def)
  ultimately show ?thesis
    using True by (simp add: reconcile_record_def case_prod_beta Let_def)
next
  case False
  have "record_covers env wm' g r"
    using assms(1,3,4) by (rule record_covers_later)
  with False assms(2) show ?thesis
    by (simp add: reconcile_record_def record_covers_retire(2))
qed

text \<open>A record past its retention got all its grants before the current month.\<close>

lemma dropped_before:
  assumes "calendar_ok env" "record_covers env wm g r" "utc_offset now = 0"
    and "\<not> record_retained (instant now - RETENTION_DAYS * 86400 * 1000000000) r" "0 < g m"
  shows "m < month_key env now"
proof -
  obtain t where t: "retired_at r = Some t"
    "instant t \<le> instant now - RETENTION_DAYS * 86400 * 1000000000"
    using assms(4) by (auto simp: record_retained_def split: option.splits)
  have "month_key env t < month_key env now"
    using assms(1) record_coversD(4) [OF assms(2) t(1)] assms(3) t(2) by (rule month_key_retention)
  then show ?thesis
    using record_coversD(2) [OF assms(2,5)] record_coversD(6) [OF assms(2) t(1)] by order
qed

text \<open>The record of each route in the state \<open>reconcile\<close> commits.\<close>

definition reconciled ::
  "quota_env \<Rightarrow> string list \<Rightarrow> odt \<Rightarrow> string \<Rightarrow> quota_record option \<Rightarrow> quota_record option" where
  "reconciled env ids eff rid old =
     (case old of
        Some r \<Rightarrow>
          if record_retained (instant eff - RETENTION_DAYS * 86400 * 1000000000) r
          then Some (fst (reconcile_record ids (month_key env eff) eff rid r))
          else if rid \<in> set ids then Some (fresh_record (month_key env eff)) else None
      | None \<Rightarrow> if rid \<in> set ids then Some (fresh_record (month_key env eff)) else None)"

lemma reconcile_candidate_Inr:
  assumes "reconcile_candidate env n st ids now = Inr (cand, True)" "bt_wf (records st)"
  shows "bt_wf (records cand)" and "clock_high_watermark cand = effective_now st now"
    and "schema_version cand = schema_version st"
    and "length (records st) \<le> n \<Longrightarrow> length (records cand) \<le> n"
    and "map_of (records cand) x = reconciled env ids (effective_now st now) x (map_of (records st) x)"
proof -
  define eff where "eff = effective_now st now"
  define cutoff where "cutoff = instant eff - RETENTION_DAYS * 86400 * 1000000000"
  define recs where "recs = bt_values (\<lambda>rid r. fst (reconcile_record ids (month_key env eff) eff rid r))
    (bt_retain (\<lambda>_ r. record_retained cutoff r) (records st))"
  obtain changed where am: "add_missing n (month_key env eff) ids recs changed = Inr (records cand, True)"
    and cand: "clock_high_watermark cand = eff" "schema_version cand = schema_version st"
    using assms(1) by (auto simp: reconcile_candidate_def Let_def eff_def cutoff_def recs_def rbind_eq_Inr
        split: prod.splits)
  have recs: "bt_wf recs" "length recs \<le> length (records st)"
    using assms(2) by (simp_all add: recs_def bt_retain_def)
  note am' = add_missing_Inr [OF am recs(1)]
  from am' show "bt_wf (records cand)" by simp
  from cand show "clock_high_watermark cand = effective_now st now" by (simp add: eff_def)
  from cand show "schema_version cand = schema_version st" by simp
  from am' recs(2) show "length (records st) \<le> n \<Longrightarrow> length (records cand) \<le> n" by simp
  from am' show "map_of (records cand) x = reconciled env ids (effective_now st now) x (map_of (records st) x)"
    using assms(2) by (simp add: reconciled_def recs_def map_of_bt_retain eff_def [symmetric]
        cutoff_def split: option.split)
qed

lemma reconciled_covers:
  assumes cal: "calendar_ok env" and st: "covers env g st" and eff: "eff = effective_now st now"
  shows "reconciled env ids eff x (map_of (records st) x) = Some r \<Longrightarrow> record_covers env eff (g x) r"
    and "reconciled env ids eff x (map_of (records st) x) = None \<Longrightarrow> 0 < g x m \<Longrightarrow> m < month_key env eff"
proof -
  from st have off: "utc_offset eff = 0" by (simp add: covers_def eff effective_now_utc)
  have wm: "month_key env (clock_high_watermark st) \<le> month_key env eff"
    "instant (clock_high_watermark st) \<le> instant eff"
    using cal st by (auto simp: eff covers_def intro: effective_month effective_now_ge)
  have none: "m < month_key env eff" if "map_of (records st) x = None" "0 < g x m" for m
  proof -
    from that st have "m < month_key env (clock_high_watermark st)" by (simp add: covers_def)
    with wm show ?thesis by simp
  qed
  have dropped: "m < month_key env eff"
    if "map_of (records st) x = Some r0" "0 < g x m"
      "\<not> record_retained (instant eff - RETENTION_DAYS * 86400 * 1000000000) r0" for r0 m
    using st that by (intro dropped_before [OF cal _ off]) (auto simp: covers_def)
  have kept: "record_covers env eff (g x) (fst (reconcile_record ids (month_key env eff) eff x r0))"
    if "map_of (records st) x = Some r0" for r0
    using st that off wm by (intro reconcile_record_covers) (auto simp: covers_def)
  have fresh: "record_covers env eff (g x) (fresh_record (month_key env eff))"
    if "\<And>m. 0 < g x m \<Longrightarrow> m < month_key env eff"
    using that by (intro record_covers_fresh) simp_all
  show "reconciled env ids eff x (map_of (records st) x) = Some r \<Longrightarrow> record_covers env eff (g x) r"
    using none dropped kept fresh by (auto simp: reconciled_def split: option.splits if_splits)
  show "reconciled env ids eff x (map_of (records st) x) = None \<Longrightarrow> 0 < g x m \<Longrightarrow> m < month_key env eff"
    using none dropped by (auto simp: reconciled_def split: option.splits if_splits)
qed

lemma reconcile_covers:
  assumes cal: "calendar_ok env" and st: "covers env g st"
    and rc: "reconcile_candidate env n st ids now = Inr (cand, True)"
  shows "covers env g cand"
proof -
  from st have "bt_wf (records st)" by (simp add: covers_def)
  note rc' = reconcile_candidate_Inr [OF rc this]
  show ?thesis
    using rc' reconciled_covers [OF cal st refl] effective_now_utc [of st now] st
    by (intro coversI) (simp_all add: covers_def)
qed

section \<open>Files that account for the ledger\<close>

definition file_covers :: "quota_env \<Rightarrow> ledger \<Rightarrow> (metadata \<times> byte list) option \<Rightarrow> bool" where
  "file_covers env g f =
     (case f of
        None \<Rightarrow> (\<forall>rid m. g rid m = 0)
      | Some (md, bytes) \<Rightarrow>
          (case q_de env bytes of None \<Rightarrow> False | Some st \<Rightarrow> covers env g st))"

definition disk_covers :: "quota_env \<Rightarrow> ledger \<Rightarrow> disk \<Rightarrow> bool" where
  "disk_covers env g d \<longleftrightarrow> file_covers env g (visible d) \<and> file_covers env g (durable d)"

lemma disk_covers_temp [simp]: "disk_covers env g (d\<lparr>temp_exists := b\<rparr>) = disk_covers env g d"
  by (simp add: disk_covers_def)

text \<open>A write replaces what is on disk by the candidate, or leaves it.\<close>

lemma write_steps_disk:
  assumes "write_steps env io d bytes = (d', res)"
  shows "\<exists>md. (visible d' = visible d \<or> visible d' = Some (md, bytes))
    \<and> (durable d' = durable d \<or> durable d' = Some (md, bytes))
    \<and> (res = Inr () \<longrightarrow> visible d' = Some (md, bytes) \<and> durable d' = Some (md, bytes) \<and> \<not> temp_exists d')
    \<and> dir_meta d' = dir_meta d"
  using assms
  by (auto simp: write_steps_def create_temporary_def Let_def split: if_splits)

lemma persist_state_disk:
  assumes "persist_state env io d st = (d', res)"
  shows "\<exists>f. (visible d' = visible d \<or> visible d' = f) \<and> (durable d' = durable d \<or> durable d' = f)
    \<and> (res = Inr () \<longrightarrow> visible d' = f \<and> durable d' = f \<and> \<not> temp_exists d')
    \<and> dir_meta d' = dir_meta d
    \<and> (f = visible d \<and> d' = d \<and> res \<noteq> Inr () \<or>
       (\<exists>md bs. f = Some (md, bs @ [10]) \<and> q_ser env st = Some bs))"
proof (cases "\<exists>bs. q_ser env st = Some bs \<and> length (bs @ [10 :: byte]) \<le> MAX_STATE_FILE_BYTES
    \<and> validate_directory env (dir_meta d) = Inr ()")
  case True
  then obtain bs where bs: "q_ser env st = Some bs" "length bs < MAX_STATE_FILE_BYTES"
    "validate_directory env (dir_meta d) = Inr ()" by auto
  obtain d1 res1 where w: "write_steps env io d (bs @ [10]) = (d1, res1)" by fastforce
  have "visible d' = visible d1 \<and> durable d' = durable d1 \<and> dir_meta d' = dir_meta d1
      \<and> (res = Inr () \<longrightarrow> res1 = Inr () \<and> temp_exists d' = temp_exists d1)"
    using assms bs w by (auto simp: persist_state_def Let_def split: sum.splits if_splits)
  with write_steps_disk [OF w] bs(1) show ?thesis by metis
next
  case False
  then have "d' = d \<and> res \<noteq> Inr ()"
    using assms by (auto simp: persist_state_def Let_def linorder_not_less split: sum.splits option.splits if_splits)
  then show ?thesis by blast
qed

lemma persist_covers:
  assumes "serde_ok env" "persist_state env io d st = (d', res)"
    and "disk_covers env g d" "covers env g st"
  shows "disk_covers env g d'"
proof -
  have fc: "file_covers env g (Some (md, bs @ [10]))" if "q_ser env st = Some bs" for md bs
    using assms(1) that covers_utc_state [OF assms(4)] assms(4) by (simp add: file_covers_def serde_ok_def)
  from persist_state_disk [OF assms(2)] show ?thesis
    using assms(3) fc unfolding disk_covers_def by metis
qed

text \<open>After a successful write, the candidate alone is on disk: the ledger may grow with it.\<close>

lemma persist_covers_Inr:
  assumes "serde_ok env" "persist_state env io d st = (d', Inr ())" "covers env g st"
  shows "disk_covers env g d'"
proof -
  have fc: "file_covers env g (Some (md, bs @ [10]))" if "q_ser env st = Some bs" for md bs
    using assms(1) that covers_utc_state [OF assms(3)] assms(3) by (simp add: file_covers_def serde_ok_def)
  from persist_state_disk [OF assms(2)] show ?thesis
    using fc unfolding disk_covers_def by metis
qed

definition store_covers :: "quota_env \<Rightarrow> ledger \<Rightarrow> quota_store \<Rightarrow> bool" where
  "store_covers env g s \<longleftrightarrow> poisoned s \<or> covers env g (qs_state s)"

lemma commit_covers:
  assumes "serde_ok env" "commit env io d s cand = (d', s', res)"
    and "disk_covers env g d" "covers env g cand"
  shows "disk_covers env g d'" and "store_covers env g s'"
  using assms persist_covers [OF assms(1) _ assms(3,4)]
  by (auto simp: commit_def store_covers_def split: prod.splits sum.splits)

lemma commit_covers_Inr:
  assumes "serde_ok env" "commit env io d s cand = (d', s', Inr ())" "covers env g cand"
  shows "disk_covers env g d'" and "store_covers env g s'"
  using assms persist_covers_Inr [OF assms(1) _ assms(3)]
  by (auto simp: commit_def store_covers_def split: prod.splits sum.splits)

section \<open>Operations keep the account\<close>

lemma ensure_healthy_Inr [simp]: "ensure_healthy s = Inr () \<longleftrightarrow> \<not> poisoned s"
  by (simp add: ensure_healthy_def)

lemma grant_zero [simp]: "grant rid m 0 g = g"
  by (simp add: grant_def)

lemma grant_le: "g rid' m' \<le> grant rid m n g rid' m'"
  by (simp add: grant_def)

text \<open>The candidate state of a reservation of \<open>granted\<close> bytes.\<close>

definition reserve_candidate ::
  "quota_env \<Rightarrow> quota_state \<Rightarrow> string \<Rightarrow> quota_record \<Rightarrow> u64 \<Rightarrow> odt \<Rightarrow> quota_state" where
  "reserve_candidate env st rid r granted now =
     (let eff = effective_now st now; r1 = fst (roll_record r (month_key env eff)) in
      st\<lparr>records := bt_insert rid (r1\<lparr>qr_bytes := qr_bytes r1 + granted\<rparr>) (records st),
         clock_high_watermark := eff\<rparr>)"

text \<open>Adding a grant never overflows the counter: the sum is within the limit.\<close>

lemma reserve_no_overflow:
  assumes "granted = min requested (saturating_sub_u64 limit used)" "granted \<noteq> 0"
  shows "unat used + unat granted \<le> unat limit"
    and "checked_add_u64 used granted = Some (used + granted)"
    and "unat (used + granted) = unat used + unat granted"
proof -
  have "unat granted \<noteq> 0" using assms(2) by (simp add: unat_eq_zero)
  moreover have "unat granted \<le> unat limit - unat used"
    by (simp add: assms(1) rust_int)
  ultimately show le: "unat used + unat granted \<le> unat limit" by simp
  then have "unat used + unat granted < 2 ^ 64" using unat_u64_less [of limit] by (simp, linarith)
  then show "checked_add_u64 used granted = Some (used + granted)"
    "unat (used + granted) = unat used + unat granted"
    by (simp_all add: checked_add_u64_Some unat_add_u64)
qed

lemma reserve_cases:
  assumes "reserve env io d s rid limit requested now = (d', s', res)"
  obtains (unchanged) e where "d' = d" "s' = s" "res = Inr 0 \<or> res = Inl e"
  | (committed) r granted cres where "\<not> poisoned s" "active_record_mut (qs_state s) rid = Inr r"
      "granted \<noteq> 0" "granted = min requested (saturating_sub_u64 limit
         (qr_bytes (fst (roll_record r (month_key env (effective_now (qs_state s) now))))))"
      "commit env io d s (reserve_candidate env (qs_state s) rid r granted now) = (d', s', cres)"
      "res = (case cres of Inl e \<Rightarrow> Inl e | Inr _ \<Rightarrow> Inr granted)"
proof -
  consider "requested = 0" | e where "requested \<noteq> 0" "ensure_healthy s = Inl e"
    | e where "requested \<noteq> 0" "ensure_healthy s = Inr ()" "active_record_mut (qs_state s) rid = Inl e"
    | r where "requested \<noteq> 0" "ensure_healthy s = Inr ()" "active_record_mut (qs_state s) rid = Inr r"
    by (cases "ensure_healthy s"; cases "active_record_mut (qs_state s) rid") auto
  then show ?thesis
  proof cases
    case (4 r)
    define r1 where "r1 = fst (roll_record r (month_key env (effective_now (qs_state s) now)))"
    define granted where "granted = min requested (saturating_sub_u64 limit (qr_bytes r1))"
    show ?thesis
    proof (cases "granted = 0")
      case True
      with assms 4 show ?thesis
        by (intro unchanged) (auto simp: reserve_def Let_def r1_def [symmetric] granted_def [symmetric])
    next
      case False
      obtain cres where c: "commit env io d s (reserve_candidate env (qs_state s) rid r granted now)
          = (d', s', cres)" "res = (case cres of Inl e \<Rightarrow> Inl e | Inr _ \<Rightarrow> Inr granted)"
        using assms 4 False reserve_no_overflow(2) [OF granted_def False]
        by (auto simp: reserve_def reserve_candidate_def Let_def r1_def [symmetric]
            granted_def [symmetric] split: prod.splits sum.splits)
      from 4 False c show ?thesis
        by (intro committed) (simp_all add: granted_def r1_def)
    qed
  qed (use assms in \<open>auto simp: reserve_def ensure_healthy_def Let_def intro: unchanged\<close>)
qed

lemma reserve_candidate_covers:
  assumes "calendar_ok env" "covers env g st" "active_record_mut st rid = Inr r"
    and granted: "granted \<noteq> 0" "granted = min requested (saturating_sub_u64 limit
      (qr_bytes (fst (roll_record r (month_key env (effective_now st now))))))"
  defines "m \<equiv> month_key env (effective_now st now)"
  shows "covers env (grant rid m (unat granted) g) (reserve_candidate env st rid r granted now)"
    and "grant rid m (unat granted) g rid m \<le> unat limit"
proof -
  define r1 where "r1 = fst (roll_record r m)"
  note act = active_rolled [OF assms(1-3), of now, folded m_def, folded r1_def]
  note no = reserve_no_overflow [OF granted(2,1), folded m_def, folded r1_def]
  have "record_covers env (effective_now st now) ((g rid)(m := g rid m + unat granted))
      (r1\<lparr>qr_bytes := qr_bytes r1 + granted\<rparr>)"
    using record_covers_grant [OF act(1) act(2) [unfolded m_def] no(3) act(3)] by (simp add: m_def)
  then show "covers env (grant rid m (unat granted) g) (reserve_candidate env st rid r granted now)"
    unfolding reserve_candidate_def Let_def m_def [symmetric] r1_def [symmetric]
    by (intro covers_update [OF assms(1,2)]) (simp_all add: grant_def)
  have "g rid m \<le> unat (qr_bytes r1)"
    using record_coversD(3) [OF act(1)] act(2) by simp
  with no(1) show "grant rid m (unat granted) g rid m \<le> unat limit"
    by (simp add: grant_def)
qed

definition granted_by :: "('e, 'a) result \<Rightarrow> ('a \<Rightarrow> nat) \<Rightarrow> nat" where
  "granted_by res f = (case res of Inl _ \<Rightarrow> 0 | Inr n \<Rightarrow> f n)"

lemma granted_by_simps [simp]: "granted_by (Inl e) f = 0" "granted_by (Inr n) f = f n"
  by (simp_all add: granted_by_def)

lemma reserve_covers:
  assumes "calendar_ok env" "serde_ok env" "disk_covers env g d" "store_covers env g s"
    and "reserve env io d s rid limit requested now = (d', s', res)"
  defines "m \<equiv> month_key env (effective_now (qs_state s) now)"
  shows "disk_covers env (grant rid m (granted_by res unat) g) d'
    \<and> store_covers env (grant rid m (granted_by res unat) g) s'
    \<and> (granted_by res unat \<noteq> 0 \<longrightarrow> grant rid m (granted_by res unat) g rid m \<le> unat limit)"
  using assms(5)
proof (cases rule: reserve_cases)
  case (unchanged e)
  with assms(3,4) show ?thesis by auto
next
  case (committed r granted cres)
  from committed(1) assms(4) have st: "covers env g (qs_state s)" by (simp add: store_covers_def)
  note cand = reserve_candidate_covers [OF assms(1) st committed(2-4), folded m_def]
  show ?thesis
  proof (cases cres)
    case (Inl e)
    with committed(6) have "granted_by res unat = 0" by simp
    moreover have "covers env g (reserve_candidate env (qs_state s) rid r granted now)"
      by (rule covers_mono [OF cand(1)]) (rule grant_le)
    ultimately show ?thesis
      using commit_covers [OF assms(2) committed(5) assms(3)] by simp
  next
    case (Inr u)
    then have "granted_by res unat = unat granted" "cres = Inr ()" using committed(6) by simp_all
    then show ?thesis
      using commit_covers_Inr [OF assms(2) committed(5) [unfolded \<open>cres = Inr ()\<close>] cand(1)] cand(2) by simp
  qed
qed

lemma permits_covers:
  assumes "calendar_ok env" "serde_ok env" "disk_covers env g d" "store_covers env g s"
    and "permits_new_stream env io d s rid limit now = (d', s', res)"
  shows "disk_covers env g d' \<and> store_covers env g s'"
proof (cases "\<not> poisoned s \<and> is_ok (active_record_mut (qs_state s) rid)")
  case True
  then obtain r where r: "\<not> poisoned s" "active_record_mut (qs_state s) rid = Inr r"
    by (auto simp: is_ok_iff)
  with assms(4) have st: "covers env g (qs_state s)" by (simp add: store_covers_def)
  define eff where "eff = effective_now (qs_state s) now"
  have "covers env g ((qs_state s)\<lparr>records := bt_insert rid (fst (roll_record r (month_key env eff)))
      (records (qs_state s)), clock_high_watermark := eff\<rparr>)" (is "covers env g ?cand")
    unfolding eff_def by (rule covers_update [OF assms(1) st active_rolled(1) [OF assms(1) st r(2)] refl])
  moreover have "(d', s') = (d, s) \<or> (\<exists>cres. commit env io d s ?cand = (d', s', cres))"
    using assms(5) r by (auto simp: permits_new_stream_def ensure_healthy_def Let_def eff_def case_prod_beta
        split: prod.splits sum.splits if_splits)
  ultimately show ?thesis
    using commit_covers [OF assms(2) _ assms(3)] assms(3,4) by blast
next
  case False
  then have "(d', s') = (d, s)"
    using assms(5) by (auto simp: permits_new_stream_def ensure_healthy_def is_ok_def Let_def split: sum.splits)
  with assms(3,4) show ?thesis by simp
qed

lemma reconcile_keeps_covers:
  assumes "calendar_ok env" "serde_ok env" "disk_covers env g d" "store_covers env g s"
    and "reconcile env io d s ids now = (d', s', res)"
  shows "disk_covers env g d' \<and> store_covers env g s'"
proof -
  consider "(d', s') = (d, s)" | cand where "\<not> poisoned s"
      "reconcile_candidate env (max_records s) (qs_state s) ids now = Inr (cand, True)"
      "commit env io d s cand = (d', s', res)"
    using assms(5) by (auto simp: reconcile_def ensure_healthy_def split: sum.splits if_splits prod.splits)
  then show ?thesis
  proof cases
    case 1
    with assms(3,4) show ?thesis by simp
  next
    case (2 cand)
    with assms(4) have "covers env g (qs_state s)" by (simp add: store_covers_def)
    from commit_covers [OF assms(2) 2(3) assms(3) reconcile_covers [OF assms(1) this 2(2)]]
    show ?thesis by simp
  qed
qed

lemma read_state_Inr:
  "read_state env md opened content n = Inr st \<Longrightarrow>
   \<exists>bytes. content = Some bytes \<and> length bytes \<le> MAX_STATE_FILE_BYTES \<and> q_de env bytes = Some st
     \<and> validate_state env st n = Inr ()"
  by (auto simp: read_state_def rbind_eq_Inr split: option.splits if_splits)

lemma take_Suc_eq: "length (take (n + 1) xs) \<le> n \<Longrightarrow> take (n + 1) xs = xs"
  by (simp add: min_def split: if_splits)

lemma open_covers:
  assumes "calendar_ok env" "serde_ok env" "disk_covers env g d"
    and "open_blocking env io stat d max_routes now = (d', res)"
  shows "disk_covers env g d' \<and> (\<forall>s. res = Inr s \<longrightarrow> store_covers env g s)"
proof (cases "visible d")
  case None
  define st where
    "st = \<lparr>schema_version = STATE_SCHEMA_VERSION, clock_high_watermark = utc now, records = []\<rparr>"
  have "\<forall>rid m. g rid m = 0" using assms(3) None by (simp add: disk_covers_def file_covers_def)
  then have st: "covers env g st" by (simp add: covers_def st_def utc_def)
  have "(d' = d \<and> \<not> is_ok res) \<or> (\<exists>pres. persist_state env io d st = (d', pres)
      \<and> (\<forall>s. res = Inr s \<longrightarrow> qs_state s = st \<and> \<not> poisoned s))"
    using assms(4) None by (auto simp: open_blocking_def Let_def st_def split: sum.splits if_splits prod.splits)
  with st persist_covers [OF assms(2) _ assms(3) st] assms(3) show ?thesis
    by (auto simp: store_covers_def is_ok_iff)
next
  case (Some f)
  then obtain md bytes where f: "visible d = Some (md, bytes)" by (cases f) auto
  have "d' = d" using assms(4) f by (auto simp: open_blocking_def Let_def split: sum.splits if_splits)
  moreover have "covers env g (qs_state s)" if "res = Inr s" for s
  proof -
    from assms(4) f that have "\<exists>n. read_state env md (Some md)
        (Some (take (MAX_STATE_FILE_BYTES + 1) bytes)) n = Inr (qs_state s)"
      by (auto simp: open_blocking_def Let_def rbind_eq_Inr split: sum.splits if_splits)
    then have "q_de env bytes = Some (qs_state s)"
      using take_Suc_eq [of MAX_STATE_FILE_BYTES bytes] by (fastforce dest: read_state_Inr)
    with assms(3) f show ?thesis by (simp add: disk_covers_def file_covers_def)
  qed
  ultimately show ?thesis using assms(3) by (simp add: store_covers_def)
qed

section \<open>The store as a system\<close>

text \<open>
  The disk, the running process if there is one, and the ledger of what it told its callers they
  may forward. A run interleaves the operations with crashes: a process may stop at any point of a
  write, which is the same write with a failing call followed by a stop, and a loss of power leaves
  what was durable, with or without the temporary file. Routes are configured with at most \<open>L\<close> bytes
  per month.
\<close>

record quota_sys =
  sys_disk :: disk
  sys_store :: "quota_store option"
  sys_ledger :: ledger

datatype quota_event =
    QOpened
  | QReconciled
  | QPermitted
  | QReserved string "int \<times> nat" nat
  | QStopped
  | QPowerLost

fun event_granted :: "string \<Rightarrow> int \<times> nat \<Rightarrow> quota_event \<Rightarrow> nat" where
  "event_granted rid m (QReserved rid' m' n) = (if rid = rid' \<and> m = m' then n else 0)"
| "event_granted rid m _ = 0"

inductive quota_step ::
  "quota_env \<Rightarrow> (string \<Rightarrow> nat) \<Rightarrow> quota_sys \<Rightarrow> quota_event \<Rightarrow> quota_sys \<Rightarrow> bool"
  for env :: quota_env and L :: "string \<Rightarrow> nat" where
  quota_opened:
    "quota_open env io joined stat d max_routes now = (d', res) \<Longrightarrow>
     quota_step env L \<lparr>sys_disk = d, sys_store = None, sys_ledger = g\<rparr> QOpened
       \<lparr>sys_disk = d', sys_store = (case res of Inl _ \<Rightarrow> None | Inr s \<Rightarrow> Some s), sys_ledger = g\<rparr>"
| quota_reconciled:
    "store_reconcile env io joined d s ids now = (d', s', res) \<Longrightarrow>
     quota_step env L \<lparr>sys_disk = d, sys_store = Some s, sys_ledger = g\<rparr> QReconciled
       \<lparr>sys_disk = d', sys_store = Some s', sys_ledger = g\<rparr>"
| quota_permitted:
    "route_permits_new_stream env io joined d s rq now = (d', s', res) \<Longrightarrow>
     quota_step env L \<lparr>sys_disk = d, sys_store = Some s, sys_ledger = g\<rparr> QPermitted
       \<lparr>sys_disk = d', sys_store = Some s', sys_ledger = g\<rparr>"
| quota_reserved:
    "\<lbrakk>route_reserve env io joined d s rq requested now = (d', s', res);
      unat (rq_limit rq) \<le> L (rq_route_id rq);
      m = month_key env (effective_now (qs_state s) now); n = granted_by res id\<rbrakk> \<Longrightarrow>
     quota_step env L \<lparr>sys_disk = d, sys_store = Some s, sys_ledger = g\<rparr> (QReserved (rq_route_id rq) m n)
       \<lparr>sys_disk = d', sys_store = Some s', sys_ledger = grant (rq_route_id rq) m n g\<rparr>"
| quota_stopped:
    "quota_step env L \<lparr>sys_disk = d, sys_store = s, sys_ledger = g\<rparr> QStopped
       \<lparr>sys_disk = d, sys_store = None, sys_ledger = g\<rparr>"
| quota_power_lost:
    "quota_step env L \<lparr>sys_disk = d, sys_store = s, sys_ledger = g\<rparr> QPowerLost
       \<lparr>sys_disk = d\<lparr>visible := durable d, temp_exists := t\<rparr>, sys_store = None, sys_ledger = g\<rparr>"

inductive_cases quota_stepE: "quota_step env L sys l sys'"

definition sys_inv :: "quota_env \<Rightarrow> (string \<Rightarrow> nat) \<Rightarrow> quota_sys \<Rightarrow> bool" where
  "sys_inv env L sys \<longleftrightarrow>
     disk_covers env (sys_ledger sys) (sys_disk sys)
     \<and> (\<forall>s. sys_store sys = Some s \<longrightarrow> store_covers env (sys_ledger sys) s)
     \<and> (\<forall>rid m. sys_ledger sys rid m \<le> L rid)"

lemma route_reserve_covers:
  assumes "calendar_ok env" "serde_ok env" "disk_covers env g d" "store_covers env g s"
    and "route_reserve env io joined d s rq requested now = (d', s', res)"
    and "m = month_key env (effective_now (qs_state s) now)" "n = granted_by res id"
  shows "disk_covers env (grant (rq_route_id rq) m n g) d'
    \<and> store_covers env (grant (rq_route_id rq) m n g) s'
    \<and> (n \<noteq> 0 \<longrightarrow> grant (rq_route_id rq) m n g (rq_route_id rq) m \<le> unat (rq_limit rq))"
proof -
  consider "d' = d" "s' = s" "n = 0" | req res0
    where "reserve env io d s (rq_route_id rq) (rq_limit rq) req now = (d', s', res0)"
      "n = granted_by res0 unat"
    using assms(5,7) by (auto simp: route_reserve_def split: option.splits if_splits prod.splits sum.splits)
  then show ?thesis
  proof cases
    case 1
    with assms(3,4) show ?thesis by simp
  next
    case (2 req res0)
    from reserve_covers [OF assms(1-4) 2(1)] show ?thesis by (simp add: 2(2) assms(6))
  qed
qed

lemma quota_step_inv:
  assumes "calendar_ok env" "serde_ok env" "quota_step env L sys l sys'" "sys_inv env L sys"
  shows "sys_inv env L sys'"
  using assms(3,4)
proof (induction rule: quota_step.induct)
  case (quota_opened io joined stat d max_routes now d' res g)
  then show ?case
    using open_covers [OF assms(1,2), of g d io stat max_routes now d' res]
    by (auto simp: sys_inv_def quota_open_def split: sum.splits if_splits)
next
  case (quota_reconciled io joined d s ids now d' s' res g)
  then show ?case
    using reconcile_keeps_covers [OF assms(1,2), of g d s io ids now d' s' res]
    by (auto simp: sys_inv_def store_reconcile_def split: if_splits)
next
  case (quota_permitted io joined d s rq now d' s' res g)
  then show ?case
    using permits_covers [OF assms(1,2), of g d s io "rq_route_id rq" "rq_limit rq" now d' s' res]
    by (auto simp: sys_inv_def route_permits_new_stream_def split: if_splits)
next
  case (quota_reserved io joined d s rq requested now d' s' res m n g)
  then have "disk_covers env g d" "store_covers env g s" and le: "\<And>rid m. g rid m \<le> L rid"
    by (simp_all add: sys_inv_def)
  note rc = route_reserve_covers [OF assms(1,2) this(1,2) quota_reserved.hyps(1,3,4)]
  have "grant (rq_route_id rq) m n g rid m' \<le> L rid" for rid m'
    using rc quota_reserved.hyps(2) le [of rid m'] by (cases "n = 0") (auto simp: grant_def)
  with rc show ?case by (simp add: sys_inv_def)
qed (auto simp: sys_inv_def disk_covers_def)

lemma quota_step_ledger:
  "quota_step env L sys l sys' \<Longrightarrow> sys_ledger sys' rid m = sys_ledger sys rid m + event_granted rid m l"
  by (induction rule: quota_step.induct) (auto simp: grant_def)

interpretation qs: invariant_system "quota_step env L"
    "\<lambda>sys. calendar_ok env \<and> serde_ok env \<and> sys_inv env L sys" for env L
  by unfold_locales (blast intro: quota_step_inv)

text \<open>A directory the store has never used.\<close>

definition fresh_sys :: "metadata option \<Rightarrow> quota_sys" where
  "fresh_sys dm = \<lparr>sys_disk = \<lparr>dir_meta = dm, visible = None, durable = None, temp_exists = False\<rparr>,
     sys_store = None, sys_ledger = (\<lambda>_ _. 0)\<rparr>"

lemma fresh_sys_inv: "sys_inv env L (fresh_sys dm)"
  by (simp add: sys_inv_def fresh_sys_def disk_covers_def file_covers_def)

section \<open>A concrete calendar and serializer\<close>

text \<open>Months of 31 days, twelve to a year; a serializer that numbers the states of a table.\<close>

definition month_number :: "int \<Rightarrow> int \<times> nat" where
  "month_number k = (k div 12, Suc (nat (k mod 12)))"

definition plain_cal :: "int \<Rightarrow> int \<times> nat" where
  "plain_cal t = month_number (t div (31 * 86400 * 1000000000))"

definition table_ser :: "quota_state list \<Rightarrow> quota_state \<Rightarrow> byte list option" where
  "table_ser tbl st =
     (if st \<in> set tbl then Some [of_nat (length (takeWhile (\<lambda>x. x \<noteq> st) tbl))] else None)"

definition table_de :: "quota_state list \<Rightarrow> byte list \<Rightarrow> quota_state option" where
  "table_de tbl bs =
     (if length bs = 2 \<and> unat (hd bs) < length tbl then Some (tbl ! unat (hd bs)) else None)"

definition table_env :: "quota_state list \<Rightarrow> quota_env" where
  "table_env tbl = \<lparr>q_cal = plain_cal, q_ser = table_ser tbl, q_de = table_de tbl, q_euid = 0\<rparr>"

lemma month_number_less: assumes "j < k" shows "month_number j < month_number k"
proof (cases "j div 12 = k div 12")
  case True
  then have "j mod 12 < k mod 12"
    using assms by (simp add: minus_div_mult_eq_mod [symmetric])
  with True show ?thesis by (simp add: month_number_def nat_less_eq_zless)
next
  case False
  moreover have "j div 12 \<le> k div 12" using assms by (intro zdiv_mono1) simp_all
  ultimately show ?thesis by (simp add: month_number_def)
qed

lemma month_number_mono: "j \<le> k \<Longrightarrow> month_number j \<le> month_number k"
  using month_number_less [of j k] by (cases "j = k") auto

lemma calendar_ok_table_env: "calendar_ok (table_env tbl)"
  unfolding calendar_ok_def
proof (intro conjI allI impI)
  fix s t :: int
  assume "s \<le> t"
  then show "q_cal (table_env tbl) s \<le> q_cal (table_env tbl) t"
    by (simp add: table_env_def plain_cal_def month_number_mono zdiv_mono1)
next
  fix t :: int
  have "(t + RETENTION_DAYS * 86400 * 1000000000) div (31 * 86400 * 1000000000)
      = t div (31 * 86400 * 1000000000) + 2"
    by (simp add: RETENTION_DAYS_def)
  then show "q_cal (table_env tbl) t < q_cal (table_env tbl) (t + RETENTION_DAYS * 86400 * 1000000000)"
    unfolding table_env_def plain_cal_def by (simp only: quota_env.simps month_number_less)
  show "1 \<le> snd (q_cal (table_env tbl) t)"
    by (simp add: table_env_def plain_cal_def month_number_def)
  show "snd (q_cal (table_env tbl) t) \<le> 12"
    using pos_mod_bound [of 12 "t div (31 * 86400 * 1000000000)"]
    by (simp add: table_env_def plain_cal_def month_number_def)
qed

lemma serde_ok_table_env: assumes "length tbl \<le> 256" shows "serde_ok (table_env tbl)"
proof -
  have "table_de tbl (bs @ [10]) = Some st" if "table_ser tbl st = Some bs" for st bs
  proof -
    define i where "i = length (takeWhile (\<lambda>x. x \<noteq> st) tbl)"
    from that have st: "st \<in> set tbl" and bs: "bs = [of_nat i]"
      by (auto simp: table_ser_def i_def split: if_splits)
    have "takeWhile (\<lambda>x. x \<noteq> st) tbl \<noteq> tbl" using st by (auto simp: takeWhile_eq_all_conv)
    then have "i < length tbl"
      using takeWhile_eq_take [of "\<lambda>x. x \<noteq> st" tbl] take_all [of tbl i]
      by (metis i_def linorder_not_less)
    moreover from this have "tbl ! i = st"
      using nth_length_takeWhile [of "\<lambda>x. x \<noteq> st" tbl] by (simp add: i_def)
    ultimately show ?thesis using assms by (simp add: table_de_def bs)
  qed
  then show ?thesis by (simp add: serde_ok_def table_env_def)
qed

section \<open>What is written can be read back\<close>

lemma validate_state_Inr:
  "validate_state env st n = Inr () \<longleftrightarrow>
     schema_version st = STATE_SCHEMA_VERSION \<and> utc_offset (clock_high_watermark st) = 0
     \<and> length (records st) \<le> n \<and> (\<forall>kv \<in> set (records st). \<not> record_invalid env st kv)"
  by (auto simp: validate_state_def)

lemma validate_state_utc: "validate_state env st n = Inr () \<Longrightarrow> bt_wf (records st) \<Longrightarrow> utc_state st"
  by (auto simp: validate_state_Inr utc_state_def record_invalid_def dest!: map_of_SomeD)

text \<open>A later watermark keeps the other records valid.\<close>

lemma record_valid_later:
  assumes "calendar_ok env" "utc_offset (clock_high_watermark st) = 0"
    and "\<not> record_invalid env st kv" "eff = effective_now st now"
  shows "\<not> record_invalid env (st\<lparr>records := recs, clock_high_watermark := eff\<rparr>) kv"
proof -
  have "month_key env (clock_high_watermark st) \<le> month_key env eff"
    using effective_month [OF assms(1,2)] by (simp add: assms(4))
  moreover have "instant (clock_high_watermark st) \<le> instant eff"
    using effective_now_ge(1) by (simp add: assms(4))
  ultimately show ?thesis
    using assms(3) by (auto simp: record_invalid_def split: option.splits)
qed

lemma reserve_candidate_valid:
  assumes cal: "calendar_ok env" and v: "validate_state env st n = Inr ()" "bt_wf (records st)"
    and r: "active_record_mut st rid = Inr r"
  shows "validate_state env (reserve_candidate env st rid r granted now) n = Inr ()
    \<and> bt_wf (records (reserve_candidate env st rid r granted now))"
proof -
  define eff where "eff = effective_now st now"
  define r' where "r' = (fst (roll_record r (month_key env eff)))
    \<lparr>qr_bytes := qr_bytes (fst (roll_record r (month_key env eff))) + granted\<rparr>"
  have c: "reserve_candidate env st rid r granted now
      = st\<lparr>records := bt_insert rid r' (records st), clock_high_watermark := eff\<rparr>"
    by (simp add: reserve_candidate_def Let_def eff_def r'_def)
  have off: "utc_offset (clock_high_watermark st) = 0" using v by (simp add: validate_state_Inr)
  have mem: "(rid, r) \<in> set (records st)" "retired_at r = None"
    using r by (auto simp: active_record_mut_Inr dest: map_of_SomeD)
  have "\<not> record_invalid env (st\<lparr>records := bt_insert rid r' (records st), clock_high_watermark := eff\<rparr>) (rid, r)"
    using v(1) mem(1) by (intro record_valid_later [OF cal off _ eff_def]) (auto simp: validate_state_Inr)
  then have new: "\<not> record_invalid env (st\<lparr>records := bt_insert rid r' (records st), clock_high_watermark := eff\<rparr>) (rid, r')"
    using mem(2) cal by (auto simp: record_invalid_def r'_def roll_record_def calendar_ok_def month_key_def
        less_le_not_le)
  have "\<not> record_invalid env (st\<lparr>records := bt_insert rid r' (records st), clock_high_watermark := eff\<rparr>) kv"
    if "kv \<in> set (bt_insert rid r' (records st))" for kv
  proof (cases "kv = (rid, r')")
    case False
    have "set (bt_insert rid r' m) \<subseteq> insert (rid, r') (set m)" for m
      by (induction rid r' m rule: bt_insert.induct) auto
    with that False have "kv \<in> set (records st)" by blast
    then show ?thesis
      using v(1) by (intro record_valid_later [OF cal off _ eff_def]) (auto simp: validate_state_Inr)
  qed (use new in simp)
  moreover have "length (bt_insert rid r' (records st)) = length (records st)"
    using r v(2) by (auto simp: length_bt_insert active_record_mut_Inr)
  moreover have "utc_offset eff = 0" using off by (simp add: eff_def effective_now_utc)
  ultimately show ?thesis
    using v by (simp add: c validate_state_Inr)
qed

text \<open>A state that was written and is valid is what the next start reads.\<close>

lemma persisted_reopens:
  assumes "serde_ok env" "persist_state env io d st = (d', Inr ())"
    and "validate_state env st n = Inr ()" "bt_wf (records st)"
    and "n = max (min (max_routes * RECORDS_PER_CONFIGURED_ROUTE) MAX_QUOTA_RECORDS) max_routes"
    and "max_routes \<le> MAX_QUOTA_RECORDS div RECORDS_PER_CONFIGURED_ROUTE"
  shows "open_blocking env io' True d' max_routes now
    = (d', Inr \<lparr>max_records = n, qs_state = st, poisoned = False\<rparr>)"
proof -
  obtain bs where bs: "q_ser env st = Some bs" "length bs < MAX_STATE_FILE_BYTES"
    "validate_directory env (dir_meta d) = Inr ()"
    "write_steps env io d (bs @ [10]) = (d', Inr ())"
    using assms(2) by (auto simp: persist_state_def Let_def split: sum.splits option.splits if_splits prod.splits)
  from bs(4) have d': "visible d' = Some (written_meta env io (Suc (length bs)), bs @ [10])"
    "\<not> temp_exists d'" "dir_meta d' = dir_meta d"
    by (auto simp: write_steps_def create_temporary_def Let_def split: if_splits)
  have de: "q_de env (bs @ [10]) = Some st"
    using assms(1) bs(1) validate_state_utc [OF assms(3,4)] by (simp add: serde_ok_def)
  have t: "take (MAX_STATE_FILE_BYTES + 1) (bs @ [10]) = bs @ [10]"
    using bs(2) by simp
  have md: "validate_state_file_metadata env (written_meta env io (Suc (length bs))) = Inr ()"
    using bs(2) by (simp add: validate_state_file_metadata_def written_meta_def)
  have "read_state env (written_meta env io (Suc (length bs))) (Some (written_meta env io (Suc (length bs))))
      (Some (bs @ [10])) n = Inr st"
    using bs(2) by (simp add: read_state_def md validate_same_file_def de assms(3))
  with d' bs(3) assms(6) show ?thesis
    unfolding open_blocking_def d'(1,3) bs(3) sum.case option.case prod.case Let_def t
    by (simp add: assms(5))
qed

section \<open>Properties\<close>

text \<open>Claim C1: monthly quotas hold whatever happens. Starting from an empty directory, over any
  interleaving of opening, reconciliation, admission checks and reservations, with clocks that jump
  back and forth, failing system calls, crashes at any point, losses of power and retired records
  that expire and come back, the bytes granted to a route in one calendar month never exceed the
  largest limit it was configured with.\<close>

theorem monthly_quota_enforced:
  assumes "calendar_ok env" and "serde_ok env"
    and "reaches (quota_step env L) (fresh_sys dm) ls sys"
  shows "sum_list (map (event_granted rid m) ls) \<le> L rid"
proof -
  have "sys_ledger sys rid m = sys_ledger (fresh_sys dm) rid m + sum_list (map (event_granted rid m) ls)"
    using assms fresh_sys_inv by (intro qs.reaches_potential [of env L]) (auto simp: quota_step_ledger)
  moreover have "sys_inv env L sys"
    using qs.reaches_inv [OF assms(3)] assms(1,2) fresh_sys_inv by blast
  then have "sys_ledger sys rid m \<le> L rid" by (simp add: sys_inv_def)
  ultimately show ?thesis by (simp add: fresh_sys_def)
qed

text \<open>A run that opens the store, activates a route and reserves 70 bytes of its 100.\<close>

definition demo_route :: string where "demo_route = ''grant_0123456789abcdef''"

definition demo_state :: "(string \<times> quota_record) list \<Rightarrow> quota_state" where
  "demo_state recs = \<lparr>schema_version = 1, clock_high_watermark = \<lparr>instant = 5, utc_offset = 0\<rparr>, records = recs\<rparr>"

definition demo_record :: "u64 \<Rightarrow> quota_record" where
  "demo_record n = \<lparr>qr_year = 0, qr_month = 1, qr_bytes = n, retired_at = None\<rparr>"

definition demo_env :: quota_env where
  "demo_env = table_env [demo_state [], demo_state [(demo_route, demo_record 0)],
     demo_state [(demo_route, demo_record 70)]]"

definition demo_dir :: metadata where
  "demo_dir = \<lparr>md_is_dir = True, md_is_file = False, md_uid = 0, md_mode = 448, md_len = 0,
     md_dev = 1, md_ino = 1\<rparr>"

definition demo_io :: write_io where
  "demo_io = \<lparr>io_create = True, io_write = True, io_sync = True, io_rename = True,
     io_dir_sync = True, io_remove = True, io_dev = 1, io_ino = 2\<rparr>"

definition demo_disk :: "byte option \<Rightarrow> disk" where
  "demo_disk b = (let f = map_option (\<lambda>b. (written_meta demo_env demo_io 2, [b, 10])) b in
     \<lparr>dir_meta = Some demo_dir, visible = f, durable = f, temp_exists = False\<rparr>)"

definition demo_store :: "(string \<times> quota_record) list \<Rightarrow> quota_store" where
  "demo_store recs = \<lparr>max_records = 16, qs_state = demo_state recs, poisoned = False\<rparr>"

lemmas demo_defs = demo_state_def demo_record_def demo_env_def demo_dir_def demo_io_def
  demo_disk_def demo_store_def table_env_def

lemma demo_persist:
  "persist_state demo_env demo_io (demo_disk b) (demo_state []) = (demo_disk (Some 0), Inr ())"
  "persist_state demo_env demo_io (demo_disk b) (demo_state [(demo_route, demo_record 0)])
     = (demo_disk (Some 1), Inr ())"
  "persist_state demo_env demo_io (demo_disk b) (demo_state [(demo_route, demo_record 70)])
     = (demo_disk (Some 2), Inr ())"
  by (simp_all add: persist_state_def write_steps_def create_temporary_def validate_directory_def
      demo_defs table_ser_def written_meta_def MAX_STATE_FILE_BYTES_def Let_def)


definition demo_now :: odt where "demo_now = \<lparr>instant = 5, utc_offset = 0\<rparr>"

lemma demo_open:
  "quota_open demo_env demo_io True True (demo_disk None) 2 demo_now
     = (demo_disk (Some 0), Inr (demo_store []))"
  using demo_persist(1) [of None]
  by (simp add: quota_open_def open_blocking_def validate_directory_def Let_def utc_def demo_now_def
      MAX_QUOTA_RECORDS_def RECORDS_PER_CONFIGURED_ROUTE_def STATE_SCHEMA_VERSION_def demo_defs)

lemma demo_month [simp]: "month_key demo_env demo_now = (0, 1)"
  by (simp add: month_key_def demo_now_def demo_env_def table_env_def plain_cal_def month_number_def)

lemma demo_effective [simp]: "effective_now (demo_state recs) demo_now = demo_now"
  by (simp add: effective_now_def demo_state_def demo_now_def utc_def)

lemma demo_reconcile:
  "store_reconcile demo_env demo_io True (demo_disk (Some 0)) (demo_store []) [demo_route] demo_now
     = (demo_disk (Some 1), demo_store [(demo_route, demo_record 0)], Inr ())"
proof -
  have "reconcile_candidate demo_env 16 (demo_state []) [demo_route] demo_now
      = Inr (demo_state [(demo_route, demo_record 0)], True)"
    by (simp add: reconcile_candidate_def Let_def bt_retain_def bt_values_def)
      (simp add: demo_state_def demo_record_def demo_now_def)
  with demo_persist(2) [of "Some 0"] show ?thesis
    by (simp add: store_reconcile_def reconcile_def ensure_healthy_def commit_def demo_store_def)
qed

lemma demo_reserve:
  "route_reserve demo_env demo_io True (demo_disk (Some 1)) (demo_store [(demo_route, demo_record 0)])
     (quota_route demo_route 100) 70 demo_now
   = (demo_disk (Some 2), demo_store [(demo_route, demo_record 70)], Inr 70)"
proof -
  have "(demo_state [(demo_route, demo_record 0)])\<lparr>records := [(demo_route, (demo_record 0)\<lparr>qr_bytes := 70\<rparr>)],
      clock_high_watermark := demo_now\<rparr> = demo_state [(demo_route, demo_record 70)]"
    by (simp add: demo_state_def demo_record_def demo_now_def)
  moreover have "records (demo_state [(demo_route, demo_record 0)]) = [(demo_route, demo_record 0)]"
    by (simp add: demo_state_def)
  moreover have "qr_bytes (demo_record 0) = 0" "retired_at (demo_record 0) = None"
    "roll_record (demo_record 0) (0, 1) = (demo_record 0, False)"
    by (simp_all add: demo_record_def roll_record_def)
  ultimately show ?thesis
    using demo_persist(3) [of "Some 1"]
    by (simp add: route_reserve_def reserve_def ensure_healthy_def active_record_mut_def commit_def
        demo_store_def quota_route_def u64_try_from_def saturating_sub_u64_def checked_add_u64_def min_def)
qed

theorem monthly_quota_enforced_witness:
  "sum_list (map (event_granted demo_route (0, 1))
     (([QOpened] @ [QReconciled]) @ [QReserved demo_route (0, 1) 70])) \<le> (100 :: nat)"
proof -
  let ?sys = "\<lambda>b s g. \<lparr>sys_disk = demo_disk b, sys_store = s, sys_ledger = g\<rparr>"
  let ?L = "\<lambda>_. 100 :: nat"
  have f: "fresh_sys (Some demo_dir) = ?sys None None (\<lambda>_ _. 0)"
    by (simp add: fresh_sys_def demo_disk_def)
  have "quota_step demo_env ?L (?sys None None (\<lambda>_ _. 0)) QOpened
      (?sys (Some 0) (Some (demo_store [])) (\<lambda>_ _. 0))"
    using quota_step.quota_opened [OF demo_open] by simp
  moreover have "quota_step demo_env ?L (?sys (Some 0) (Some (demo_store [])) (\<lambda>_ _. 0)) QReconciled
      (?sys (Some 1) (Some (demo_store [(demo_route, demo_record 0)])) (\<lambda>_ _. 0))"
    using quota_step.quota_reconciled [OF demo_reconcile] by simp
  moreover have "quota_step demo_env ?L
      (?sys (Some 1) (Some (demo_store [(demo_route, demo_record 0)])) (\<lambda>_ _. 0))
      (QReserved demo_route (0, 1) 70)
      (?sys (Some 2) (Some (demo_store [(demo_route, demo_record 70)]))
        (grant demo_route (0, 1) 70 (\<lambda>_ _. 0)))"
    using quota_step.quota_reserved [OF demo_reserve, of ?L]
    by (simp add: quota_route_def demo_store_def)
  ultimately have "reaches (quota_step demo_env ?L) (fresh_sys (Some demo_dir))
      (([QOpened] @ [QReconciled]) @ [QReserved demo_route (0, 1) 70])
      (?sys (Some 2) (Some (demo_store [(demo_route, demo_record 70)]))
        (grant demo_route (0, 1) 70 (\<lambda>_ _. 0)))"
    unfolding f by (intro reaches_snoc reaches_single)
  then show ?thesis
    by (intro monthly_quota_enforced [of demo_env ?L])
      (simp_all add: demo_env_def calendar_ok_table_env serde_ok_table_env)
qed


text \<open>Claim C21: a reservation that succeeds grants exactly what was asked for or what is left of the
  month, whichever is less; it adds that to the route's counter of the current month without
  overflow and touches no other route, and a grant of nothing changes nothing.\<close>

theorem reserve_effect:
  assumes "reserve env io d s rid limit requested now = (d', s', Inr n)"
    and "active_record_mut (qs_state s) rid = Inr r"
    and "r1 = fst (roll_record r (month_key env (effective_now (qs_state s) now)))"
  shows "unat n = min (unat requested) (unat limit - unat (qr_bytes r1))
    \<and> unat (qr_bytes r1 + n) = unat (qr_bytes r1) + unat n
    \<and> map_of (records (qs_state s')) = (if n = 0 then map_of (records (qs_state s))
         else (map_of (records (qs_state s)))(rid \<mapsto> r1\<lparr>qr_bytes := qr_bytes r1 + n\<rparr>))
    \<and> (n = 0 \<longrightarrow> d' = d \<and> s' = s) \<and> poisoned s' = poisoned s"
proof (cases "n = 0")
  case True
  have "(requested = 0 \<or> saturating_sub_u64 limit (qr_bytes r1) = 0) \<and> d' = d \<and> s' = s"
    using assms(1,2) True unfolding assms(3)
    by (auto simp: reserve_def ensure_healthy_def Let_def commit_def min_def
        split: if_splits option.splits prod.splits sum.splits)
  moreover have "unat (saturating_sub_u64 limit (qr_bytes r1)) = unat limit - unat (qr_bytes r1)"
    by (rule unat_saturating_sub_u64)
  ultimately show ?thesis using True by auto
next
  case False
  from assms(1) show ?thesis
  proof (cases rule: reserve_cases)
    case (committed r' granted cres)
    with assms(2,3) have g: "n = granted" "cres = Inr ()" "r' = r"
      "granted = min requested (saturating_sub_u64 limit (qr_bytes r1))"
      by (auto split: sum.splits)
    have "s' = s\<lparr>qs_state := reserve_candidate env (qs_state s) rid r granted now\<rparr>"
      using committed(5) g by (auto simp: commit_def split: prod.splits sum.splits)
    with False g reserve_no_overflow(3) [OF g(4) committed(3)] show ?thesis
      by (simp add: reserve_candidate_def Let_def assms(3) rust_int)
  qed (use False in auto)
qed

theorem reserve_effect_witness:
  "\<exists>d' s'. reserve demo_env demo_io (demo_disk (Some 1)) (demo_store [(demo_route, demo_record 0)])
     demo_route 100 70 demo_now = (d', s', Inr 70) \<and> unat (70 :: u64) = min (unat (70 :: u64)) (unat (100 :: u64) - unat (0 :: u64))"
proof -
  have r: "reserve demo_env demo_io (demo_disk (Some 1)) (demo_store [(demo_route, demo_record 0)])
      demo_route 100 70 demo_now = (demo_disk (Some 2), demo_store [(demo_route, demo_record 70)], Inr 70)"
    using demo_reserve by (auto simp: route_reserve_def quota_route_def u64_try_from_def word_unat_eq_iff
        split: prod.splits sum.splits)
  have a: "active_record_mut (qs_state (demo_store [(demo_route, demo_record 0)])) demo_route = Inr (demo_record 0)"
    by (simp add: active_record_mut_def demo_store_def demo_state_def demo_record_def)
  have "qr_bytes (fst (roll_record (demo_record 0) (month_key demo_env
      (effective_now (qs_state (demo_store [(demo_route, demo_record 0)])) demo_now)))) = 0"
    by (simp add: demo_store_def roll_record_def demo_record_def)
  with reserve_effect [OF r a refl] r show ?thesis by simp
qed

text \<open>Claim C22: the store fails closed. After a commit that failed no operation grants a byte or admits a stream, and
  none changes anything, in memory or on disk, until the store is opened again: every operation is refused, apart from
  a reservation of nothing, which returns zero before it looks at the store.\<close>

theorem quota_fails_closed:
  assumes "commit env io d s candidate = (d', s', Inl e)"
  shows "reserve env io' d' s' rid limit requested now
        = (d', s', if requested = 0 then Inr 0 else Inl (quota_error ''relay_quota_state_poisoned''))
    \<and> permits_new_stream env io' d' s' rid limit now
        = (d', s', Inl (quota_error ''relay_quota_state_poisoned''))
    \<and> (\<exists>e'. reconcile env io' d' s' ids now = (d', s', Inl e'))"
proof -
  have "poisoned s'" using assms by (auto simp: commit_def split: prod.splits sum.splits)
  then show ?thesis
    by (simp add: reserve_def permits_new_stream_def reconcile_def ensure_healthy_def)
qed

theorem quota_fails_closed_witness:
  "permits_new_stream demo_env demo_io (demo_disk (Some 0)) ((demo_store [])\<lparr>poisoned := True\<rparr>) demo_route 100 demo_now
     = (demo_disk (Some 0), (demo_store [])\<lparr>poisoned := True\<rparr>, Inl (quota_error ''relay_quota_state_poisoned''))"
proof -
  have "commit demo_env (demo_io\<lparr>io_write := False\<rparr>) (demo_disk (Some 0)) (demo_store [])
      (demo_state [(demo_route, demo_record 0)])
      = (demo_disk (Some 0), (demo_store [])\<lparr>poisoned := True\<rparr>, Inl (quota_error ''relay_quota_state_write_failed''))"
    by (simp add: commit_def persist_state_def write_steps_def create_temporary_def validate_directory_def
        demo_defs table_ser_def written_meta_def MAX_STATE_FILE_BYTES_def Let_def)
  from quota_fails_closed [OF this] show ?thesis by blast
qed

text \<open>Claim C19: a grant survives a restart. Once \<open>reserve\<close> has granted bytes, opening the store again
  (with the same route capacity) yields exactly the state that was granted from.\<close>

theorem grant_survives_restart:
  assumes "calendar_ok env" "serde_ok env"
    and "reserve env io d s rid limit requested now = (d', s', Inr n)" "n \<noteq> 0"
    and "validate_state env (qs_state s) (max_records s) = Inr ()" "bt_wf (records (qs_state s))"
    and "max_records s = max (min (max_routes * RECORDS_PER_CONFIGURED_ROUTE) MAX_QUOTA_RECORDS) max_routes"
    and "max_routes \<le> MAX_QUOTA_RECORDS div RECORDS_PER_CONFIGURED_ROUTE"
  shows "open_blocking env io' True d' max_routes now' = (d', Inr s')"
  using assms(3)
proof (cases rule: reserve_cases)
  case (committed r granted cres)
  let ?c = "reserve_candidate env (qs_state s) rid r granted now"
  have p: "persist_state env io d ?c = (d', Inr ())" and s': "s' = s\<lparr>qs_state := ?c\<rparr>"
    using committed(5,6) by (auto simp: commit_def split: prod.splits sum.splits)
  note v = reserve_candidate_valid [OF assms(1,5,6) committed(2), of granted now]
  have "open_blocking env io' True d' max_routes now'
      = (d', Inr \<lparr>max_records = max_records s, qs_state = ?c, poisoned = False\<rparr>)"
    using v by (intro persisted_reopens [OF assms(2) p _ _ assms(7,8)]) simp_all
  then show ?thesis using committed(1) by (simp add: s')
qed (use assms(4) in auto)

theorem grant_survives_restart_witness:
  "open_blocking demo_env demo_io True (demo_disk (Some 2)) 2 demo_now
     = (demo_disk (Some 2), Inr (demo_store [(demo_route, demo_record 70)]))"
proof (rule grant_survives_restart)
  show "reserve demo_env demo_io (demo_disk (Some 1)) (demo_store [(demo_route, demo_record 0)])
      demo_route 100 70 demo_now = (demo_disk (Some 2), demo_store [(demo_route, demo_record 70)], Inr 70)"
    using demo_reserve by (auto simp: route_reserve_def quota_route_def u64_try_from_def word_unat_eq_iff
        split: prod.splits sum.splits)
  show "calendar_ok demo_env" "serde_ok demo_env"
    by (simp_all add: demo_env_def calendar_ok_table_env serde_ok_table_env)
  have "month_key demo_env (clock_high_watermark (demo_state recs)) = (0, 1)" for recs
    using demo_month by (simp add: demo_state_def demo_now_def)
  then show "validate_state demo_env (qs_state (demo_store [(demo_route, demo_record 0)]))
      (max_records (demo_store [(demo_route, demo_record 0)])) = Inr ()"
    by (simp add: validate_state_Inr record_invalid_def demo_store_def)
      (simp add: demo_state_def demo_record_def STATE_SCHEMA_VERSION_def route_id_ok_def demo_route_def
        is_url_safe_def ascii_class_defs)
qed (simp_all add: demo_store_def demo_state_def bt_wf_def MAX_QUOTA_RECORDS_def RECORDS_PER_CONFIGURED_ROUTE_def)

end
