(* ===== verification/Protocol_Base.thy ===== *)
theory Protocol_Base
  imports Rust_Std
begin

text \<open>
  The basic values of the control protocol (\<open>crates/control-protocol/src\<close>: \<open>validation.rs\<close>, \<open>id.rs\<close>,
  \<open>crypto.rs\<close>, \<open>idempotency.rs\<close>): validation errors, typed identifiers, positive and non-negative
  numbers, timestamps, and encoded keys, signatures, digests and nonces. Identifiers are 16 bytes.
  What comes from the \<open>uuid\<close>, \<open>time\<close>, \<open>base64\<close> and \<open>sha2\<close> packages is collected in a record of
  functions, and what is relied on is a named hypothesis.
\<close>

section \<open>Packages\<close>

type_synonym uuid = "byte list"

record proto_env =
  uuid_parse :: "string \<Rightarrow> uuid option"
  uuid_show :: "uuid \<Rightarrow> string"
  rfc3339_parse :: "string \<Rightarrow> odt option"
  rfc3339_show :: "odt \<Rightarrow> string"
  b64_decode :: "string \<Rightarrow> byte list option"
  b64_encode :: "byte list \<Rightarrow> string"
  sha256 :: "byte list \<Rightarrow> byte list"

text \<open>Different identifiers and different instants have different texts.\<close>

definition shows_distinct :: "'z proto_env_scheme \<Rightarrow> bool" where
  "shows_distinct pe \<longleftrightarrow>
     (\<forall>u v. uuid_show pe u = uuid_show pe v \<longrightarrow> u = v)
     \<and> (\<forall>s t. utc_offset s = 0 \<longrightarrow> utc_offset t = 0 \<longrightarrow> rfc3339_show pe s = rfc3339_show pe t \<longrightarrow> s = t)"

text \<open>A digest has 32 bytes.\<close>

definition sha256_len :: "'z proto_env_scheme \<Rightarrow> bool" where
  "sha256_len pe \<longleftrightarrow> (\<forall>bs. length (sha256 pe bs) = 32)"

section \<open>Validation errors\<close>

datatype validation_code =
    MissingField | OutOfRange | InvalidFormat | UnsupportedSchema | IdentityMismatch | StaleState
  | InconsistentState | DuplicateIdentity | SequenceGap | InvalidTransition

record protocol_error =
  pe_code :: validation_code
  pe_field :: string
  pe_message :: string

definition validation :: "validation_code \<Rightarrow> string \<Rightarrow> string \<Rightarrow> protocol_error" where
  "validation code field message = \<lparr>pe_code = code, pe_field = field, pe_message = message\<rparr>"

section \<open>Identifiers and numbers\<close>

datatype id_error = InvalidId | InvalidPositiveNumber | InvalidNonNegativeNumber | InvalidTimestamp

definition id_from_str :: "'z proto_env_scheme \<Rightarrow> string \<Rightarrow> (id_error, uuid) result" where
  "id_from_str pe value =
     (case uuid_parse pe value of
        None \<Rightarrow> Inl InvalidId
      | Some parsed \<Rightarrow> if uuid_show pe parsed \<noteq> value then Inl InvalidId else Inr parsed)"

text \<open>\<open>Revision\<close>, \<open>BundleGeneration\<close> and \<open>RelayGeneration\<close>; a signed 64-bit integer is an \<open>int\<close>.\<close>

definition positive_new :: "int \<Rightarrow> (id_error, int) result" where
  "positive_new value = (if 0 < value then Inr value else Inl InvalidPositiveNumber)"

text \<open>\<open>SequenceNumber\<close> and \<open>Count\<close>.\<close>

definition non_negative_new :: "int \<Rightarrow> (id_error, int) result" where
  "non_negative_new value = (if 0 \<le> value then Inr value else Inl InvalidNonNegativeNumber)"

definition checked_next :: "int \<Rightarrow> int option" where
  "checked_next value = (if value + 1 < 2 ^ 63 then Some (value + 1) else None)"

definition timestamp_from_datetime :: "odt \<Rightarrow> odt" where
  "timestamp_from_datetime value = value\<lparr>utc_offset := 0\<rparr>"

definition timestamp_from_str :: "'z proto_env_scheme \<Rightarrow> string \<Rightarrow> (id_error, odt) result" where
  "timestamp_from_str pe value =
     (case rfc3339_parse pe value of
        None \<Rightarrow> Inl InvalidTimestamp
      | Some parsed \<Rightarrow>
          if utc_offset parsed \<noteq> 0 \<or> \<not> ends_with ''Z'' value then Inl InvalidTimestamp else Inr parsed)"

section \<open>Encoded values\<close>

definition decode_exact_value :: "'z proto_env_scheme \<Rightarrow> string \<Rightarrow> nat \<Rightarrow> (string, unit) result" where
  "decode_exact_value pe value expected_length =
     (if CHR ''='' \<in> set value then Inl ''expected unpadded base64url without whitespace''
      else
        (case b64_decode pe value of
           None \<Rightarrow> Inl ''expected unpadded base64url without whitespace''
         | Some decoded \<Rightarrow>
             if length decoded \<noteq> expected_length then Inl ''encoded value has an invalid length''
             else Inr ()))"

text \<open>Keys (32 bytes) and signatures (64 bytes) are kept in their encoded form.\<close>

definition fixed_base64url_from_str :: "'z proto_env_scheme \<Rightarrow> nat \<Rightarrow> string \<Rightarrow> (string, string) result" where
  "fixed_base64url_from_str pe len value = rbind (decode_exact_value pe value len) (\<lambda>_. Inr value)"

definition ed25519_signing_key_id :: "'z proto_env_scheme \<Rightarrow> string \<Rightarrow> (string, uuid) result" where
  "ed25519_signing_key_id pe public_key =
     (case b64_decode pe public_key of
        None \<Rightarrow> Inl ''stored Ed25519 public key is invalid''
      | Some public_bytes \<Rightarrow>
          if length public_bytes \<noteq> 32 then Inl ''stored Ed25519 public key has an invalid length''
          else
            let bytes = take 16 (sha256 pe public_bytes);
                bytes1 = bytes[6 := (bytes ! 6 AND 0x0f) OR 0x50];
                bytes2 = bytes1[8 := (bytes1 ! 8 AND 0x3f) OR 0x80]
            in Inr bytes2)"

definition hex_digits :: string where "hex_digits = ''0123456789abcdef''"

definition hex_byte :: "byte \<Rightarrow> string" where
  "hex_byte b = [hex_digits ! unat (drop_bit 4 b), hex_digits ! unat (b AND 0x0f)]"

definition sha256_digest_from_bytes :: "byte list \<Rightarrow> string" where
  "sha256_digest_from_bytes value = ''sha256:'' @ concat (map hex_byte value)"

definition is_lower_hex :: "char \<Rightarrow> bool" where
  "is_lower_hex c \<longleftrightarrow> is_ascii_digit c \<or> (let n = of_char c :: nat in 97 \<le> n \<and> n \<le> 102)"

definition sha256_digest_from_str :: "string \<Rightarrow> (string, string) result" where
  "sha256_digest_from_str value =
     (case strip_prefix ''sha256:'' value of
        None \<Rightarrow> Inl ''expected a sha256: digest''
      | Some hex \<Rightarrow>
          if length hex \<noteq> 64 \<or> \<not> list_all is_lower_hex hex
          then Inl ''SHA-256 digest must use 64 lowercase hexadecimal characters''
          else Inr value)"

definition nonce_from_str :: "'z proto_env_scheme \<Rightarrow> string \<Rightarrow> (string, string) result" where
  "nonce_from_str pe value =
     (if CHR ''='' \<in> set value then Inl ''expected unpadded base64url without whitespace''
      else
        (case b64_decode pe value of
           None \<Rightarrow> Inl ''expected unpadded base64url without whitespace''
         | Some decoded \<Rightarrow>
             if \<not> (16 \<le> length decoded \<and> length decoded \<le> 64)
             then Inl ''nonce must contain between 16 and 64 bytes''
             else Inr value))"

definition MAX_IDEMPOTENCY_KEY_BYTES :: nat where "MAX_IDEMPOTENCY_KEY_BYTES = 128"

definition is_ascii_graphic :: "char \<Rightarrow> bool" where
  "is_ascii_graphic c \<longleftrightarrow> (let n = of_char c :: nat in 33 \<le> n \<and> n \<le> 126)"

definition idempotency_key_from_str :: "string \<Rightarrow> (protocol_error, string) result" where
  "idempotency_key_from_str value =
     (if value = [] then Inl (validation MissingField ''Idempotency-Key'' ''idempotency key is required'')
      else if MAX_IDEMPOTENCY_KEY_BYTES < length value \<or> \<not> list_all is_ascii_graphic value
      then Inl (validation InvalidFormat ''Idempotency-Key''
                  ''idempotency key must contain 1 to 128 visible ASCII bytes'')
      else Inr value)"

section \<open>Lemmas\<close>

lemma id_from_str_Inr: "id_from_str pe s = Inr u \<Longrightarrow> uuid_show pe u = s"
  by (auto simp: id_from_str_def split: option.splits if_splits)

lemma length_hex_byte [simp]: "length (hex_byte b) = 2"
  by (simp add: hex_byte_def)

lemma length_concat_hex [simp]: "length (concat (map hex_byte bs)) = 2 * length bs"
  by (induction bs) auto

lemma hex_nibbles:
  "unat (drop_bit 4 (b :: byte)) = unat b div 16" "unat (b AND 0x0f) = unat b mod 16"
proof -
  show "unat (drop_bit 4 b) = unat b div 16"
    by (simp add: drop_bit_eq_div unat_div)
  have "b AND 0x0f = take_bit 4 b" by (simp add: take_bit_eq_mask mask_eq_exp_minus_1)
  then show "unat (b AND 0x0f) = unat b mod 16"
    by (simp add: take_bit_eq_mod unat_mod)
qed

lemma hex_digits_lower: "n < 16 \<Longrightarrow> is_lower_hex (hex_digits ! n)"
proof -
  assume "n < 16"
  then have "hex_digits ! n \<in> set hex_digits" by (intro nth_mem) (simp add: hex_digits_def)
  then show ?thesis by (auto simp: hex_digits_def is_lower_hex_def ascii_class_defs)
qed

lemma hex_digits_distinct: "m < 16 \<Longrightarrow> n < 16 \<Longrightarrow> hex_digits ! m = hex_digits ! n \<Longrightarrow> m = n"
  using nth_eq_iff_index_eq [of hex_digits m n] by (simp add: hex_digits_def)

lemma nibble_less: "unat (b :: byte) div 16 < 16"
  using unat_byte_less [of b] by linarith

lemma hex_byte_lower: "list_all is_lower_hex (hex_byte b)"
  by (simp add: hex_byte_def hex_nibbles hex_digits_lower nibble_less)

lemma hex_byte_inj: "hex_byte a = hex_byte b \<Longrightarrow> a = b"
proof -
  assume "hex_byte a = hex_byte b"
  then have "unat a div 16 = unat b div 16" "unat a mod 16 = unat b mod 16"
    using hex_digits_distinct nibble_less by (auto simp: hex_byte_def hex_nibbles)
  then have "unat a = unat b" by (metis div_mult_mod_eq)
  then show ?thesis by (simp add: word_unat_eq_iff)
qed

lemma concat_hex_inj: "concat (map hex_byte xs) = concat (map hex_byte ys) \<Longrightarrow> xs = ys"
proof (induction xs arbitrary: ys)
  case Nil
  then show ?case by (cases ys) (auto simp: hex_byte_def)
next
  case (Cons x xs)
  then obtain y ys' where ys: "ys = y # ys'" by (cases ys) (auto simp: hex_byte_def)
  with Cons.prems have "hex_byte x = hex_byte y \<and> concat (map hex_byte xs) = concat (map hex_byte ys')"
    by (simp add: append_eq_append_conv)
  with Cons.IH ys show ?case by (auto dest: hex_byte_inj)
qed

section \<open>Properties\<close>

text \<open>The text of a SHA-256 digest is canonical. What \<open>from_bytes\<close> builds from 32 bytes is
  accepted by the parser unchanged, and two digests with the same text are the same bytes.\<close>

lemma sha256_digest_roundtrip:
  assumes "length v = 32" and "length w = 32"
  shows "sha256_digest_from_str (sha256_digest_from_bytes v) = Inr (sha256_digest_from_bytes v)
    \<and> (sha256_digest_from_bytes v = sha256_digest_from_bytes w \<longleftrightarrow> v = w)"
proof -
  have "list_all is_lower_hex (concat (map hex_byte v))"
    using hex_byte_lower by (auto simp: list_all_iff)
  moreover have "strip_prefix ''sha256:'' (sha256_digest_from_bytes v) = Some (concat (map hex_byte v))"
    by (simp add: sha256_digest_from_bytes_def strip_prefix_Some)
  ultimately have "sha256_digest_from_str (sha256_digest_from_bytes v) = Inr (sha256_digest_from_bytes v)"
    using assms(1) by (simp add: sha256_digest_from_str_def)
  then show ?thesis
    using concat_hex_inj [of v w] by (auto simp: sha256_digest_from_bytes_def)
qed

end
