(* ===== verification/Relay_Config.thy ===== *)
theory Relay_Config
  imports Quota Protocol_Base
begin

text \<open>
  The configuration of the relay (\<open>relay-server/src/config.rs\<close>): its records, the validation of the
  server bounds and of a set of routes, and loading. What the code takes from the \<open>hex\<close>, \<open>subtle\<close>
  and \<open>toml\<close> packages is a parameter.
\<close>

section \<open>Records\<close>

definition MIN_FRAME_BYTES :: nat where "MIN_FRAME_BYTES = 1024"
definition MAX_FRAME_BYTES :: nat where "MAX_FRAME_BYTES = 1048576"
definition MIN_ROUTE_ID_LEN :: nat where "MIN_ROUTE_ID_LEN = 16"
definition MAX_ROUTE_ID_LEN :: nat where "MAX_ROUTE_ID_LEN = 128"
definition MAX_MANAGED_ROUTES :: nat where "MAX_MANAGED_ROUTES = 8192"

record managed_routes_config =
  mc_relay_id :: uuid
  mc_managed_routes_directory :: path
  mc_quota_state_directory :: path
  mc_controller_public_key :: string
  mc_public_listen_ip :: ip_addr
  mc_public_port_start :: u16
  mc_public_port_end :: u16
  mc_max_concurrent_streams :: u16
  mc_max_bytes_per_second :: u64
  mc_max_bytes_per_connection :: u64
  mc_monthly_byte_limit :: u64

record server_config =
  sc_node_listen :: socket_addr
  sc_metrics_listen :: socket_addr
  sc_tls_cert_path :: path
  sc_tls_key_path :: path
  sc_client_ca_path :: path
  sc_max_frame_bytes :: nat
  sc_command_queue_frames :: nat
  sc_stream_buffer_frames :: nat
  sc_initial_window_bytes :: u32
  sc_open_timeout_secs :: u64
  sc_no_payload_timeout_secs :: u64
  sc_idle_timeout_secs :: u64
  sc_heartbeat_interval_secs :: u64
  sc_heartbeat_timeout_secs :: u64
  sc_reload_interval_secs :: u64
  sc_max_routes :: nat
  sc_max_node_connections :: nat

record route_config =
  rc_route_id :: string
  rc_public_listen :: socket_addr
  rc_node_token_sha256 :: string
  rc_node_cert_sha256 :: string
  rc_expires_at :: odt
  rc_enabled :: bool
  rc_max_concurrent_streams :: nat
  rc_max_bytes_per_second :: u64
  rc_max_bytes_per_connection :: u64
  rc_monthly_byte_limit :: "u64 option"

record relay_config =
  cfg_server :: server_config
  cfg_managed_routes :: "managed_routes_config option"
  cfg_routes :: "route_config list"

text \<open>The hexadecimal decoder and the constant-time comparison of the packages.\<close>

record token_env =
  hex_decode :: "string \<Rightarrow> byte list option"
  ct_eq :: "byte list \<Rightarrow> byte list \<Rightarrow> bool"

text \<open>The values a missing field of the file takes.\<close>

definition default_max_frame_bytes :: nat where "default_max_frame_bytes = 65536"
definition default_command_queue_frames :: nat where "default_command_queue_frames = 256"
definition default_stream_buffer_frames :: nat where "default_stream_buffer_frames = 16"
definition default_initial_window_bytes :: u32 where "default_initial_window_bytes = 262144"
definition default_open_timeout_secs :: u64 where "default_open_timeout_secs = 10"
definition default_no_payload_timeout_secs :: u64 where "default_no_payload_timeout_secs = 120"
definition default_idle_timeout_secs :: u64 where "default_idle_timeout_secs = 1800"
definition default_heartbeat_interval_secs :: u64 where "default_heartbeat_interval_secs = 15"
definition default_heartbeat_timeout_secs :: u64 where "default_heartbeat_timeout_secs = 45"
definition default_reload_interval_secs :: u64 where "default_reload_interval_secs = 2"
definition default_max_routes :: nat where "default_max_routes = 1024"
definition default_max_node_connections :: nat where "default_max_node_connections = 1024"
definition default_route_enabled :: bool where "default_route_enabled = True"
definition default_max_concurrent_streams :: nat where "default_max_concurrent_streams = 16"
definition default_max_bytes_per_second :: u64 where "default_max_bytes_per_second = 2500000"
definition default_max_bytes_per_connection :: u64 where
  "default_max_bytes_per_connection = 10 * 1024 * 1024 * 1024"

section \<open>Routes\<close>

definition is_expired :: "route_config \<Rightarrow> odt \<Rightarrow> bool" where
  "is_expired r now \<longleftrightarrow> instant (rc_expires_at r) \<le> instant now"

definition token_matches :: "token_env \<Rightarrow> route_config \<Rightarrow> byte list \<Rightarrow> bool" where
  "token_matches te r candidate =
     (case hex_decode te (rc_node_token_sha256 r) of
        None \<Rightarrow> False
      | Some expected \<Rightarrow> ct_eq te expected candidate)"

definition cert_matches :: "token_env \<Rightarrow> route_config \<Rightarrow> byte list \<Rightarrow> bool" where
  "cert_matches te r candidate =
     (case hex_decode te (rc_node_cert_sha256 r) of
        None \<Rightarrow> False
      | Some expected \<Rightarrow> ct_eq te expected candidate)"

definition validate_route_id :: "string \<Rightarrow> (relay_error, unit) result" where
  "validate_route_id route_id =
     (if \<not> (MIN_ROUTE_ID_LEN \<le> length route_id \<and> length route_id \<le> MAX_ROUTE_ID_LEN)
         \<or> \<not> list_all is_url_safe route_id
      then Inl (Config ''route_id must be 16-128 ASCII URL-safe characters'')
      else Inr ())"

definition validate_digest :: "string \<Rightarrow> string \<Rightarrow> (relay_error, unit) result" where
  "validate_digest name value =
     (if length value \<noteq> 64 \<or> \<not> list_all is_ascii_hexdigit value
      then Inl (Config (name @ '' must be a 32-byte lowercase or uppercase hexadecimal digest''))
      else Inr ())"

text \<open>The limits of one route, the last check of the loop.\<close>

definition route_limits_bad :: "server_config \<Rightarrow> route_config \<Rightarrow> bool" where
  "route_limits_bad sc r \<longleftrightarrow>
     rc_max_concurrent_streams r = 0
     \<or> rc_max_bytes_per_second r < ucast (sc_initial_window_bytes sc)
     \<or> rc_max_bytes_per_connection r < ucast (sc_initial_window_bytes sc)
     \<or> (case rc_monthly_byte_limit r of
          None \<Rightarrow> False | Some limit \<Rightarrow> limit < ucast (sc_initial_window_bytes sc))"

fun validate_route_loop ::
  "server_config \<Rightarrow> string list \<Rightarrow> socket_addr list \<Rightarrow> route_config list \<Rightarrow> (relay_error, unit) result" where
  "validate_route_loop sc route_ids public_addresses [] = Inr ()"
| "validate_route_loop sc route_ids public_addresses (r # routes) =
     rbind (validate_route_id (rc_route_id r)) (\<lambda>_.
     rbind (validate_digest ''node_token_sha256'' (rc_node_token_sha256 r)) (\<lambda>_.
     rbind (validate_digest ''node_cert_sha256'' (rc_node_cert_sha256 r)) (\<lambda>_.
     if rc_route_id r \<in> set route_ids then Inl (Config ''duplicate route_id'')
     else if rc_public_listen r \<in> set public_addresses then Inl (Config ''duplicate public_listen'')
     else if sock_port (rc_public_listen r) \<noteq> 0
         \<and> (rc_public_listen r = sc_node_listen sc \<or> rc_public_listen r = sc_metrics_listen sc)
     then Inl (Config ''public listener conflicts with a service listener'')
     else if route_limits_bad sc r
     then Inl (Config ''route limits must be non-zero and at least initial_window_bytes'')
     else validate_route_loop sc (rc_route_id r # route_ids) (rc_public_listen r # public_addresses) routes)))"

definition validate_routes :: "relay_config \<Rightarrow> route_config list \<Rightarrow> (relay_error, unit) result" where
  "validate_routes cfg routes =
     (if sc_max_routes (cfg_server cfg) < length routes
      then Inl (Config ''route count exceeds max_routes'')
      else validate_route_loop (cfg_server cfg) [] [] routes)"

section \<open>The whole configuration\<close>

definition validate_managed ::
  "server_config \<Rightarrow> managed_routes_config \<Rightarrow> (relay_error, unit) result" where
  "validate_managed sc mc =
     (if MAX_MANAGED_ROUTES < sc_max_routes sc
      then Inl (Config ''managed max_routes must not exceed 8192'')
      else if mc_public_port_start mc = 0
         \<or> mc_public_port_end mc < mc_public_port_start mc
         \<or> mc_max_concurrent_streams mc = 0
         \<or> mc_max_bytes_per_second mc < ucast (sc_initial_window_bytes sc)
         \<or> mc_max_bytes_per_connection mc < ucast (sc_initial_window_bytes sc)
         \<or> mc_monthly_byte_limit mc < ucast (sc_initial_window_bytes sc)
      then Inl (Config ''managed route bounds are inconsistent'')
      else if mc_managed_routes_directory mc = mc_quota_state_directory mc
      then Inl (Config ''managed route registry and quota state directories must be distinct'')
      else
        check_all (\<lambda>address.
            if sock_ip address = mc_public_listen_ip mc
               \<and> mc_public_port_start mc \<le> sock_port address \<and> sock_port address \<le> mc_public_port_end mc
            then Inl (Config ''managed public port range conflicts with a service listener'')
            else Inr ())
          [sc_node_listen sc, sc_metrics_listen sc])"

definition validate_server :: "server_config \<Rightarrow> (relay_error, unit) result" where
  "validate_server sc =
     (if \<not> (MIN_FRAME_BYTES \<le> sc_max_frame_bytes sc \<and> sc_max_frame_bytes sc \<le> MAX_FRAME_BYTES)
      then Inl (Config ''max_frame_bytes must be between 1024 and 1048576'')
      else if sc_command_queue_frames sc = 0 \<or> sc_stream_buffer_frames sc = 0
      then Inl (Config ''frame queue capacities must be non-zero'')
      else if sc_initial_window_bytes sc = 0
         \<or> unat (sc_initial_window_bytes sc) < sc_max_frame_bytes sc
      then Inl (Config ''initial_window_bytes must fit at least one maximum frame'')
      else if sc_open_timeout_secs sc = 0
         \<or> sc_no_payload_timeout_secs sc = 0
         \<or> sc_idle_timeout_secs sc < sc_no_payload_timeout_secs sc
         \<or> sc_heartbeat_interval_secs sc = 0
         \<or> sc_heartbeat_timeout_secs sc \<le> sc_heartbeat_interval_secs sc
         \<or> sc_reload_interval_secs sc = 0
         \<or> sc_max_routes sc = 0
         \<or> sc_max_node_connections sc = 0
      then Inl (Config ''timeouts, reload interval, and max_routes are inconsistent'')
      else if \<not> ip_is_loopback (sock_ip (sc_metrics_listen sc))
      then Inl (Config ''metrics_listen must use a loopback address'')
      else Inr ())"

definition validate_config :: "relay_config \<Rightarrow> (relay_error, unit) result" where
  "validate_config cfg =
     (if sc_max_routes (cfg_server cfg) < length (cfg_routes cfg)
      then Inl (Config ''route count exceeds max_routes'')
      else
        rbind (validate_server (cfg_server cfg)) (\<lambda>_.
        rbind (case cfg_managed_routes cfg of
                 None \<Rightarrow> Inr ()
               | Some mc \<Rightarrow> validate_managed (cfg_server cfg) mc) (\<lambda>_.
        if cfg_managed_routes cfg = None
           \<and> list_ex (\<lambda>r. rc_monthly_byte_limit r \<noteq> None) (cfg_routes cfg)
        then Inl (Config ''finite monthly route limits require managed quota state'')
        else validate_routes cfg (cfg_routes cfg))))"

definition rebase :: "path \<Rightarrow> path \<Rightarrow> path" where
  "rebase base p = (if path_is_relative p then path_join base p else p)"

definition rebase_managed :: "path \<Rightarrow> managed_routes_config \<Rightarrow> managed_routes_config" where
  "rebase_managed base mc =
     mc\<lparr>mc_managed_routes_directory := rebase base (mc_managed_routes_directory mc),
        mc_quota_state_directory := rebase base (mc_quota_state_directory mc)\<rparr>"

text \<open>
  \<open>file\<close> is the outcome of reading the file (the text of the error, or its bytes), \<open>from_toml\<close> the
  parser of the \<open>toml\<close> package, and \<open>shown\<close> the display of the path.
\<close>

definition load_config ::
  "(string \<Rightarrow> (string, relay_config) result) \<Rightarrow> string \<Rightarrow> path \<Rightarrow> (string, byte list) result \<Rightarrow>
   (relay_error, relay_config) result" where
  "load_config from_toml shown path file =
     (case file of
        Inl err \<Rightarrow> Inl (Config (''cannot read '' @ shown @ '': '' @ err))
      | Inr bytes \<Rightarrow>
          (case from_utf8 bytes of
             None \<Rightarrow> Inl (Config ''configuration is not UTF-8'')
           | Some txt \<Rightarrow>
               (case from_toml txt of
                  Inl err \<Rightarrow> Inl (Config (''invalid TOML: '' @ err))
                | Inr cfg \<Rightarrow>
                    let base = (case path_parent path of None \<Rightarrow> path_of ''.'' | Some b \<Rightarrow> b);
                        sc = cfg_server cfg;
                        cfg' = cfg\<lparr>cfg_server := sc\<lparr>sc_tls_cert_path := rebase base (sc_tls_cert_path sc),
                                                    sc_tls_key_path := rebase base (sc_tls_key_path sc),
                                                    sc_client_ca_path := rebase base (sc_client_ca_path sc)\<rparr>,
                                  cfg_managed_routes :=
                                    map_option (rebase_managed base) (cfg_managed_routes cfg)\<rparr>
                    in rbind (validate_config cfg') (\<lambda>_. Inr cfg'))))"

section \<open>What validation establishes\<close>

definition digest_ok :: "string \<Rightarrow> bool" where
  "digest_ok v \<longleftrightarrow> length v = 64 \<and> list_all is_ascii_hexdigit v"

text \<open>What a single route must satisfy, independently of the others.\<close>

definition route_ok :: "server_config \<Rightarrow> route_config \<Rightarrow> bool" where
  "route_ok sc r \<longleftrightarrow>
     route_id_ok (rc_route_id r) \<and> digest_ok (rc_node_token_sha256 r) \<and> digest_ok (rc_node_cert_sha256 r)
     \<and> (sock_port (rc_public_listen r) \<noteq> 0 \<longrightarrow>
          rc_public_listen r \<noteq> sc_node_listen sc \<and> rc_public_listen r \<noteq> sc_metrics_listen sc)
     \<and> 0 < rc_max_concurrent_streams r
     \<and> unat (sc_initial_window_bytes sc) \<le> unat (rc_max_bytes_per_second r)
     \<and> unat (sc_initial_window_bytes sc) \<le> unat (rc_max_bytes_per_connection r)
     \<and> (case rc_monthly_byte_limit r of None \<Rightarrow> True | Some l \<Rightarrow> unat (sc_initial_window_bytes sc) \<le> unat l)"

text \<open>What a managed configuration must satisfy beside the server's.\<close>

definition managed_consistent :: "server_config \<Rightarrow> managed_routes_config \<Rightarrow> bool" where
  "managed_consistent sc mc \<longleftrightarrow>
     mc_public_port_start mc \<noteq> 0 \<and> unat (mc_public_port_start mc) \<le> unat (mc_public_port_end mc)
     \<and> mc_max_concurrent_streams mc \<noteq> 0
     \<and> unat (sc_initial_window_bytes sc) \<le> unat (mc_max_bytes_per_second mc)
     \<and> unat (sc_initial_window_bytes sc) \<le> unat (mc_max_bytes_per_connection mc)
     \<and> unat (sc_initial_window_bytes sc) \<le> unat (mc_monthly_byte_limit mc)
     \<and> mc_managed_routes_directory mc \<noteq> mc_quota_state_directory mc
     \<and> sc_max_routes sc \<le> MAX_QUOTA_RECORDS div RECORDS_PER_CONFIGURED_ROUTE
     \<and> list_all (\<lambda>a. sock_ip a = mc_public_listen_ip mc \<longrightarrow>
          sock_port a < mc_public_port_start mc \<or> mc_public_port_end mc < sock_port a) [sc_node_listen sc, sc_metrics_listen sc]"

lemma validate_route_id_Inr [simp]: "validate_route_id rid = Inr () \<longleftrightarrow> route_id_ok rid"
  by (auto simp: validate_route_id_def route_id_ok_def MIN_ROUTE_ID_LEN_def MAX_ROUTE_ID_LEN_def)

lemma validate_digest_Inr [simp]: "validate_digest name v = Inr () \<longleftrightarrow> digest_ok v"
  by (auto simp: validate_digest_def digest_ok_def)

lemma route_limits_ok:
  "\<not> route_limits_bad sc r \<longleftrightarrow>
     0 < rc_max_concurrent_streams r
     \<and> unat (sc_initial_window_bytes sc) \<le> unat (rc_max_bytes_per_second r)
     \<and> unat (sc_initial_window_bytes sc) \<le> unat (rc_max_bytes_per_connection r)
     \<and> (case rc_monthly_byte_limit r of None \<Rightarrow> True | Some l \<Rightarrow> unat (sc_initial_window_bytes sc) \<le> unat l)"
  by (auto simp: route_limits_bad_def word_less_nat_alt not_less split: option.splits)

lemma validate_managed_consistent:
  assumes "validate_managed sc mc = Inr ()"
  shows "managed_consistent sc mc"
  using assms
  by (auto simp: validate_managed_def managed_consistent_def word_less_nat_alt word_le_nat_alt not_less not_le
      MAX_MANAGED_ROUTES_def MAX_QUOTA_RECORDS_def RECORDS_PER_CONFIGURED_ROUTE_def split: if_splits)

lemma validate_route_loop_Inr:
  "validate_route_loop sc ids addrs rs = Inr () \<longleftrightarrow>
     (\<forall>r \<in> set rs. route_ok sc r \<and> rc_route_id r \<notin> set ids \<and> rc_public_listen r \<notin> set addrs)
     \<and> distinct (map rc_route_id rs) \<and> distinct (map rc_public_listen rs)"
proof (induction rs arbitrary: ids addrs)
  case Nil
  then show ?case by simp
next
  case (Cons r rs)
  have "validate_route_loop sc ids addrs (r # rs) = Inr () \<longleftrightarrow>
      route_ok sc r \<and> rc_route_id r \<notin> set ids \<and> rc_public_listen r \<notin> set addrs
      \<and> validate_route_loop sc (rc_route_id r # ids) (rc_public_listen r # addrs) rs = Inr ()"
    by (simp add: rbind_eq_Inr route_ok_def route_limits_ok [symmetric]) blast
  also have "\<dots> \<longleftrightarrow> (\<forall>r \<in> set (r # rs). route_ok sc r \<and> rc_route_id r \<notin> set ids \<and> rc_public_listen r \<notin> set addrs)
     \<and> distinct (map rc_route_id (r # rs)) \<and> distinct (map rc_public_listen (r # rs))"
    unfolding Cons.IH by (simp add: image_iff ball_conj_distrib neq_commute [of "rc_route_id r"]
        neq_commute [of "rc_public_listen r"]) blast
  finally show ?case .
qed

lemma validate_routes_Inr:
  "validate_routes cfg rs = Inr () \<longleftrightarrow>
     length rs \<le> sc_max_routes (cfg_server cfg) \<and> (\<forall>r \<in> set rs. route_ok (cfg_server cfg) r)
     \<and> distinct (map rc_route_id rs) \<and> distinct (map rc_public_listen rs)"
  by (auto simp: validate_routes_def validate_route_loop_Inr)

lemma validate_config_Inr:
  assumes "validate_config cfg = Inr ()"
  shows "validate_server (cfg_server cfg) = Inr ()"
    and "validate_routes cfg (cfg_routes cfg) = Inr ()"
    and "cfg_managed_routes cfg = Some mc \<Longrightarrow> validate_managed (cfg_server cfg) mc = Inr ()"
    and "cfg_managed_routes cfg = None \<Longrightarrow> r \<in> set (cfg_routes cfg) \<Longrightarrow> rc_monthly_byte_limit r = None"
  using assms by (auto simp: validate_config_def rbind_eq_Inr list_ex_iff split: if_splits option.splits)

lemma validate_server_Inr:
  assumes "validate_server sc = Inr ()"
  shows "1024 \<le> sc_max_frame_bytes sc" "sc_max_frame_bytes sc \<le> 1048576"
    and "sc_max_frame_bytes sc \<le> unat (sc_initial_window_bytes sc)"
    and "0 < sc_command_queue_frames sc" "0 < sc_stream_buffer_frames sc"
    and "sc_heartbeat_interval_secs sc < sc_heartbeat_timeout_secs sc"
    and "sc_no_payload_timeout_secs sc \<le> sc_idle_timeout_secs sc"
    and "0 < sc_max_routes sc" "0 < sc_max_node_connections sc"
    and "ip_is_loopback (sock_ip (sc_metrics_listen sc))"
  using assms by (auto simp: validate_server_def MIN_FRAME_BYTES_def MAX_FRAME_BYTES_def split: if_splits)

lemma route_ok_limits:
  assumes "route_ok sc r"
  shows "unat (sc_initial_window_bytes sc) \<le> unat (rc_max_bytes_per_second r)"
    and "unat (sc_initial_window_bytes sc) \<le> unat (rc_max_bytes_per_connection r)"
    and "rc_monthly_byte_limit r = Some l \<Longrightarrow> unat (sc_initial_window_bytes sc) \<le> unat l"
    and "0 < rc_max_concurrent_streams r"
  using assms
  by (auto simp: route_ok_def)

lemma load_config_Inr:
  assumes "load_config from_toml shown path file = Inr cfg"
  shows "validate_config cfg = Inr ()"
  using assms
  by (auto simp: load_config_def Let_def rbind_eq_Inr split: sum.splits option.splits)

section \<open>Properties\<close>


text \<open>Claim C31: a configuration that loads is internally consistent, whether it has static routes, managed routes or
  both. The largest frame lies between its bounds and fits the initial window; the queues are not empty; the time limits
  are ordered; the metrics listener is a loopback address; the static routes are within their number, with distinct
  identifiers and addresses. The window fits the rate, connection and monthly limits of every static route and the
  ceilings for managed ones, and a static monthly limit needs the managed configuration. A managed configuration has a
  port range without the ports of the service listeners on its address, separate directories for registry and quota
  state, and no more routes than the quota store accepts.\<close>

theorem loaded_config_consistent:
  assumes "load_config from_toml shown path file = Inr cfg"
  shows "let sc = cfg_server cfg; window = unat (sc_initial_window_bytes sc) in
    1024 \<le> sc_max_frame_bytes sc \<and> sc_max_frame_bytes sc \<le> 1048576 \<and> sc_max_frame_bytes sc \<le> window
    \<and> 0 < sc_command_queue_frames sc \<and> 0 < sc_stream_buffer_frames sc
    \<and> sc_heartbeat_interval_secs sc < sc_heartbeat_timeout_secs sc
    \<and> sc_no_payload_timeout_secs sc \<le> sc_idle_timeout_secs sc
    \<and> ip_is_loopback (sock_ip (sc_metrics_listen sc))
    \<and> length (cfg_routes cfg) \<le> sc_max_routes sc
    \<and> distinct (map rc_route_id (cfg_routes cfg)) \<and> distinct (map rc_public_listen (cfg_routes cfg))
    \<and> list_all (\<lambda>r. 0 < rc_max_concurrent_streams r \<and> window \<le> unat (rc_max_bytes_per_second r)
         \<and> window \<le> unat (rc_max_bytes_per_connection r)
         \<and> (case rc_monthly_byte_limit r of None \<Rightarrow> True
            | Some l \<Rightarrow> window \<le> unat l \<and> cfg_managed_routes cfg \<noteq> None)) (cfg_routes cfg)
    \<and> (case cfg_managed_routes cfg of None \<Rightarrow> True
       | Some mc \<Rightarrow> managed_consistent sc mc)"
proof -
  note v = validate_config_Inr [OF load_config_Inr [OF assms]]
  have ok: "list_all (route_ok (cfg_server cfg)) (cfg_routes cfg)" using v(2) by (simp add: validate_routes_Inr list_all_iff)
  have limits: "list_all (\<lambda>r. 0 < rc_max_concurrent_streams r
      \<and> unat (sc_initial_window_bytes (cfg_server cfg)) \<le> unat (rc_max_bytes_per_second r)
      \<and> unat (sc_initial_window_bytes (cfg_server cfg)) \<le> unat (rc_max_bytes_per_connection r)
      \<and> (case rc_monthly_byte_limit r of None \<Rightarrow> True
         | Some l \<Rightarrow> unat (sc_initial_window_bytes (cfg_server cfg)) \<le> unat l \<and> cfg_managed_routes cfg \<noteq> None)) (cfg_routes cfg)"
    using ok v(4) by (fastforce simp: list_all_iff route_ok_def split: option.splits)
  have managed: "case cfg_managed_routes cfg of None \<Rightarrow> True | Some mc \<Rightarrow> managed_consistent (cfg_server cfg) mc"
    using v(3) validate_managed_consistent by (simp split: option.split)
  show ?thesis
    using v(2) validate_server_Inr [OF v(1)] limits managed by (simp add: Let_def validate_routes_Inr)
qed

definition demo_addr :: "u16 \<Rightarrow> socket_addr" where
  "demo_addr port = \<lparr>sock_ip = V4 (Ipv4 127 0 0 1), sock_port = port, sock_scope = (0, 0)\<rparr>"

definition demo_server :: server_config where
  "demo_server = \<lparr>sc_node_listen = demo_addr 7443, sc_metrics_listen = demo_addr 9090,
     sc_tls_cert_path = path_of ''/c'', sc_tls_key_path = path_of ''/k'', sc_client_ca_path = path_of ''/a'',
     sc_max_frame_bytes = default_max_frame_bytes,
     sc_command_queue_frames = default_command_queue_frames,
     sc_stream_buffer_frames = default_stream_buffer_frames,
     sc_initial_window_bytes = default_initial_window_bytes,
     sc_open_timeout_secs = default_open_timeout_secs,
     sc_no_payload_timeout_secs = default_no_payload_timeout_secs,
     sc_idle_timeout_secs = default_idle_timeout_secs,
     sc_heartbeat_interval_secs = default_heartbeat_interval_secs,
     sc_heartbeat_timeout_secs = default_heartbeat_timeout_secs,
     sc_reload_interval_secs = default_reload_interval_secs,
     sc_max_routes = default_max_routes,
     sc_max_node_connections = default_max_node_connections\<rparr>"

definition demo_route_config :: route_config where
  "demo_route_config = \<lparr>rc_route_id = ''grant_0123456789abcdef'', rc_public_listen = demo_addr 8443,
     rc_node_token_sha256 = replicate 64 (CHR ''a''), rc_node_cert_sha256 = replicate 64 (CHR ''b''),
     rc_expires_at = \<lparr>instant = 1000, utc_offset = 0\<rparr>, rc_enabled = default_route_enabled,
     rc_max_concurrent_streams = default_max_concurrent_streams,
     rc_max_bytes_per_second = default_max_bytes_per_second,
     rc_max_bytes_per_connection = default_max_bytes_per_connection,
     rc_monthly_byte_limit = None\<rparr>"

definition demo_config :: relay_config where
  "demo_config = \<lparr>cfg_server = demo_server, cfg_managed_routes = None, cfg_routes = [demo_route_config]\<rparr>"

lemmas default_defs =
  default_max_frame_bytes_def default_command_queue_frames_def default_stream_buffer_frames_def
  default_initial_window_bytes_def default_open_timeout_secs_def default_no_payload_timeout_secs_def
  default_idle_timeout_secs_def default_heartbeat_interval_secs_def default_heartbeat_timeout_secs_def
  default_reload_interval_secs_def default_max_routes_def default_max_node_connections_def
  default_route_enabled_def default_max_concurrent_streams_def default_max_bytes_per_second_def
  default_max_bytes_per_connection_def

lemma demo_route_ok: "route_ok demo_server demo_route_config"
  unfolding route_ok_def
proof (intro conjI)
  show "route_id_ok (rc_route_id demo_route_config)"
    by (simp add: demo_route_config_def route_id_ok_def is_url_safe_def ascii_class_defs)
  show "digest_ok (rc_node_token_sha256 demo_route_config)" "digest_ok (rc_node_cert_sha256 demo_route_config)"
    by (simp_all add: demo_route_config_def digest_ok_def list_all_iff ascii_class_defs)
  show "sock_port (rc_public_listen demo_route_config) \<noteq> 0 \<longrightarrow>
      rc_public_listen demo_route_config \<noteq> sc_node_listen demo_server
      \<and> rc_public_listen demo_route_config \<noteq> sc_metrics_listen demo_server"
    by (simp add: demo_route_config_def demo_server_def demo_addr_def)
qed (simp_all add: demo_route_config_def demo_server_def default_defs)

lemma demo_config_valid: "validate_config demo_config = Inr ()"
proof -
  have "validate_server demo_server = Inr ()"
    by (simp add: validate_server_def demo_server_def default_defs demo_addr_def MIN_FRAME_BYTES_def
        MAX_FRAME_BYTES_def)
  moreover have "validate_routes demo_config [demo_route_config] = Inr ()"
    using demo_route_ok by (simp add: validate_routes_Inr demo_config_def) (simp add: demo_server_def default_defs)
  moreover have "rc_monthly_byte_limit demo_route_config = None" "Suc 0 \<le> sc_max_routes demo_server"
    by (simp_all add: demo_route_config_def demo_server_def default_defs)
  ultimately show ?thesis by (simp add: validate_config_def) (simp add: demo_config_def)
qed

lemma demo_config_loads: "load_config (\<lambda>_. Inr demo_config) [] (path_of ''/etc/relay.toml'') (Inr []) = Inr demo_config"
proof -
  have p: "path_of ''/c'' = \<lparr>rooted = True, comps = [''c'']\<rparr>" "path_of ''/k'' = \<lparr>rooted = True, comps = [''k'']\<rparr>"
    "path_of ''/a'' = \<lparr>rooted = True, comps = [''a'']\<rparr>"
    by (simp_all add: path_of_def starts_with_def)
  have eq: "demo_config\<lparr>cfg_server := demo_server, cfg_managed_routes := None\<rparr> = demo_config"
    by (simp add: demo_config_def)
  have "demo_server\<lparr>sc_tls_cert_path := rebase b (sc_tls_cert_path demo_server),
      sc_tls_key_path := rebase b (sc_tls_key_path demo_server),
      sc_client_ca_path := rebase b (sc_client_ca_path demo_server)\<rparr> = demo_server" for b
    by (simp add: demo_server_def rebase_def path_is_relative_def p)
  moreover have "cfg_server demo_config = demo_server" "cfg_managed_routes demo_config = None"
    by (simp_all add: demo_config_def)
  ultimately show ?thesis
    by (simp add: load_config_def from_utf8_def Let_def) (simp only: eq demo_config_valid rbind_Inr)
qed

theorem loaded_config_consistent_witness:
  "unat (sc_initial_window_bytes demo_server) \<le> unat (rc_max_bytes_per_second demo_route_config)
   \<and> sc_max_frame_bytes demo_server \<le> unat (sc_initial_window_bytes demo_server)
   \<and> ip_is_loopback (sock_ip (sc_metrics_listen demo_server))"
  using loaded_config_consistent [OF demo_config_loads] by (simp add: demo_config_def Let_def)

end
