(* ===== verification/Registry.thy ===== *)
theory Registry
  imports Relay_Config Relay_Grant
begin

text \<open>
  The registry of controller-managed routes (\<open>relay-server/src/registry.rs\<close>): reading a directory of
  signed route documents, checking each against the pinned controller key and the operator's
  ceilings, and combining the result with the static routes. The file system is what the calls
  return; the JSON form of a route document is a function of the environment.
\<close>

section \<open>Directory and files\<close>

definition MAX_ROUTE_FILE_BYTES :: nat where "MAX_ROUTE_FILE_BYTES = 64 * 1024"
definition MAX_ROUTE_FILE_NAME_BYTES :: nat where "MAX_ROUTE_FILE_NAME_BYTES = 255"

record registry_env = crypto_env +
  route_de :: "byte list \<Rightarrow> signed_route option"
  rg_euid :: nat

text \<open>
  One entry of the directory: its name, the metadata of the path, the metadata of the file the open
  call returned, and what reading it returned.
\<close>

record route_file =
  rf_name :: "byte list"
  rf_path_meta :: "metadata option"
  rf_opened :: "metadata option"
  rf_content :: "byte list option"

record managed_snapshot =
  ms_fingerprint :: "byte list"
  ms_routes :: "route_config list"

definition managed_error :: "string \<Rightarrow> relay_error" where
  "managed_error code = Config code"

definition validate_directory_owner :: "nat \<Rightarrow> metadata \<Rightarrow> (relay_error, unit) result" where
  "validate_directory_owner euid md =
     (if md_uid md \<noteq> euid \<or> md_mode md mod 512 \<noteq> 448
      then Inl (managed_error ''managed_routes_directory_permissions_invalid'')
      else Inr ())"

definition directory_owner :: "metadata \<Rightarrow> nat" where
  "directory_owner md = md_uid md"

definition validate_file_metadata :: "metadata \<Rightarrow> nat \<Rightarrow> (relay_error, unit) result" where
  "validate_file_metadata md expected_owner =
     (if \<not> md_is_file md then Inl (managed_error ''managed_route_file_type_invalid'')
      else if md_uid md \<noteq> expected_owner \<or> md_mode md mod 512 \<noteq> 384
      then Inl (managed_error ''managed_route_file_permissions_invalid'')
      else if md_len md = 0 \<or> MAX_ROUTE_FILE_BYTES < md_len md
      then Inl (managed_error ''managed_route_file_size_invalid'')
      else Inr ())"

definition validate_same_route_file :: "metadata \<Rightarrow> metadata \<Rightarrow> (relay_error, unit) result" where
  "validate_same_route_file before after =
     (if md_dev before \<noteq> md_dev after \<or> md_ino before \<noteq> md_ino after
      then Inl (managed_error ''managed_route_file_changed'')
      else Inr ())"

definition read_route_file :: "route_file \<Rightarrow> nat \<Rightarrow> (relay_error, byte list) result" where
  "read_route_file rf expected_owner =
     (case rf_path_meta rf of
        None \<Rightarrow> Inl (managed_error ''managed_route_file_unavailable'')
      | Some path_metadata \<Rightarrow>
          rbind (validate_file_metadata path_metadata expected_owner) (\<lambda>_.
          case rf_opened rf of
            None \<Rightarrow> Inl (managed_error ''managed_route_file_unavailable'')
          | Some opened_metadata \<Rightarrow>
              rbind (validate_file_metadata opened_metadata expected_owner) (\<lambda>_.
              rbind (validate_same_route_file path_metadata opened_metadata) (\<lambda>_.
              case rf_content rf of
                None \<Rightarrow> Inl (managed_error ''managed_route_file_unreadable'')
              | Some content \<Rightarrow>
                  let bytes = take (MAX_ROUTE_FILE_BYTES + 1) content in
                  if bytes = [] \<or> MAX_ROUTE_FILE_BYTES < length bytes
                  then Inl (managed_error ''managed_route_file_size_invalid'')
                  else Inr bytes))))"

definition validate_file_name :: "'z proto_env_scheme \<Rightarrow> byte list \<Rightarrow> (relay_error, uuid) result" where
  "validate_file_name pe file_name =
     (case from_utf8 file_name of
        None \<Rightarrow> Inl (managed_error ''managed_route_filename_invalid'')
      | Some name \<Rightarrow>
          let stem = (case strip_suffix ''.relay-route.json'' name of None \<Rightarrow> [] | Some st \<Rightarrow> st) in
          if MAX_ROUTE_FILE_NAME_BYTES < length name
          then Inl (managed_error ''managed_route_filename_invalid'')
          else
            (case id_from_str pe stem of
               Inl _ \<Rightarrow> Inl (managed_error ''managed_route_filename_invalid'')
             | Inr gid \<Rightarrow> Inr gid))"

section \<open>Conversion\<close>

definition digest_hex :: "string \<Rightarrow> (relay_error, string) result" where
  "digest_hex value =
     (case strip_prefix ''sha256:'' value of
        None \<Rightarrow> Inl (managed_error ''managed_route_digest_invalid'')
      | Some hex \<Rightarrow> Inr hex)"

definition convert_route ::
  "'z proto_env_scheme \<Rightarrow> managed_routes_config \<Rightarrow> signed_route \<Rightarrow> (relay_error, route_config) result" where
  "convert_route pe mc doc =
     (let h = sr_header doc in
      if hdr_relay_id h \<noteq> mc_relay_id mc then Inl (managed_error ''managed_route_relay_mismatch'')
      else if \<not> (mc_public_port_start mc \<le> hdr_public_port h \<and> hdr_public_port h \<le> mc_public_port_end mc)
      then Inl (managed_error ''managed_route_port_out_of_range'')
      else if mc_max_concurrent_streams mc < rl_max_concurrent_streams (hdr_limits h)
         \<or> mc_max_bytes_per_second mc < rl_max_bytes_per_second (hdr_limits h)
         \<or> mc_max_bytes_per_connection mc < rl_max_bytes_per_connection (hdr_limits h)
         \<or> mc_monthly_byte_limit mc < rl_monthly_byte_limit (hdr_limits h)
      then Inl (managed_error ''managed_route_ceiling_exceeded'')
      else
        rbind (digest_hex (sr_route_token_sha256 doc)) (\<lambda>token_hex.
        rbind (digest_hex (sr_client_certificate_sha256 doc)) (\<lambda>cert_hex.
        Inr \<lparr>rc_route_id = uuid_show pe (hdr_grant_id h),
             rc_public_listen = \<lparr>sock_ip = mc_public_listen_ip mc, sock_port = hdr_public_port h, sock_scope = (0, 0)\<rparr>,
             rc_node_token_sha256 = token_hex, rc_node_cert_sha256 = cert_hex,
             rc_expires_at = hdr_expires_at h, rc_enabled = True,
             rc_max_concurrent_streams = unat (rl_max_concurrent_streams (hdr_limits h)),
             rc_max_bytes_per_second = rl_max_bytes_per_second (hdr_limits h),
             rc_max_bytes_per_connection = rl_max_bytes_per_connection (hdr_limits h),
             rc_monthly_byte_limit = Some (rl_monthly_byte_limit (hdr_limits h))\<rparr>)))"

fun conflicts_with_managed :: "route_config \<Rightarrow> route_config list \<Rightarrow> (relay_error, unit) result" where
  "conflicts_with_managed static_route managed_routes =
     check_all (\<lambda>managed_route.
       if sock_port (rc_public_listen static_route) = sock_port (rc_public_listen managed_route)
       then Inl (managed_error ''managed_route_static_listener_conflict'') else Inr ()) managed_routes"

definition validate_static_managed_listener_conflicts ::
  "route_config list \<Rightarrow> route_config list \<Rightarrow> (relay_error, unit) result" where
  "validate_static_managed_listener_conflicts static_routes managed_routes =
     check_all (\<lambda>static_route. conflicts_with_managed static_route managed_routes) static_routes"

section \<open>Loading\<close>

text \<open>A signed document that was read from a file and passed every check of the loop up to its time.\<close>

definition check_document ::
  "registry_env \<Rightarrow> managed_routes_config \<Rightarrow> uuid \<Rightarrow> uuid \<Rightarrow> byte list \<Rightarrow> (relay_error, signed_route) result" where
  "check_document re mc expected_key_id file_grant_id bytes =
     (case route_de re bytes of
        None \<Rightarrow> Inl (managed_error ''managed_route_json_invalid'')
      | Some doc \<Rightarrow>
          (case validate_route_document doc of
             Inl _ \<Rightarrow> Inl (managed_error ''managed_route_header_invalid'')
           | Inr _ \<Rightarrow>
               if hdr_grant_id (sr_header doc) \<noteq> file_grant_id
               then Inl (managed_error ''managed_route_filename_grant_mismatch'')
               else if sr_signing_key_id doc \<noteq> expected_key_id
               then Inl (managed_error ''managed_route_key_id_mismatch'')
               else
                 (case verify_relay_route_signature re doc (mc_controller_public_key mc) of
                    Inl _ \<Rightarrow> Inl (managed_error ''managed_route_signature_invalid'')
                  | Inr _ \<Rightarrow> Inr doc)))"

definition document_active :: "odt \<Rightarrow> signed_route \<Rightarrow> bool" where
  "document_active now doc \<longleftrightarrow> instant (hdr_not_before (sr_header doc)) \<le> instant now
     \<and> instant now < instant (hdr_expires_at (sr_header doc))"

text \<open>What the fingerprint absorbs for one entry.\<close>

definition item_wire :: "byte list \<times> byte list \<times> bool \<Rightarrow> byte list" where
  "item_wire = (\<lambda>(name, bytes, active).
     u64_be (of_nat (length name)) @ name @ u64_be (of_nat (length bytes)) @ bytes @ [if active then 1 else 0])"

record load_state =
  ls_fingerprint :: "byte list"
  ls_generations :: "(uuid \<times> int) list"
  ls_endpoints :: "uuid list"
  ls_ports :: "u16 list"
  ls_routes :: "route_config list"

text \<open>The rest of the loop body for a document that is active.\<close>

definition add_active ::
  "registry_env \<Rightarrow> managed_routes_config \<Rightarrow> signed_route \<Rightarrow> load_state \<Rightarrow> (relay_error, load_state) result" where
  "add_active re mc doc ls =
     (let h = sr_header doc; identity = (hdr_route_id h, hdr_generation h) in
      if identity \<in> set (ls_generations ls) then Inl (managed_error ''managed_route_duplicate_generation'')
      else if hdr_endpoint_id h \<in> set (ls_endpoints ls)
      then Inl (managed_error ''managed_route_duplicate_endpoint'')
      else
        rbind (convert_route re mc doc) (\<lambda>route.
        if sock_port (rc_public_listen route) \<in> set (ls_ports ls)
        then Inl (managed_error ''managed_route_duplicate_public_port'')
        else Inr (ls\<lparr>ls_generations := identity # ls_generations ls,
                      ls_endpoints := hdr_endpoint_id h # ls_endpoints ls,
                      ls_ports := sock_port (rc_public_listen route) # ls_ports ls,
                      ls_routes := ls_routes ls @ [route]\<rparr>)))"

definition load_entry ::
  "registry_env \<Rightarrow> managed_routes_config \<Rightarrow> nat \<Rightarrow> uuid \<Rightarrow> odt \<Rightarrow> route_file \<Rightarrow> load_state \<Rightarrow>
   (relay_error, load_state) result" where
  "load_entry re mc owner expected_key_id now rf ls =
     rbind (validate_file_name re (rf_name rf)) (\<lambda>file_grant_id.
     rbind (read_route_file rf owner) (\<lambda>bytes.
     rbind (check_document re mc expected_key_id file_grant_id bytes) (\<lambda>doc.
     let active = document_active now doc;
         ls' = ls\<lparr>ls_fingerprint := ls_fingerprint ls @ item_wire (rf_name rf, bytes, active)\<rparr>
     in if \<not> active then Inr ls' else add_active re mc doc ls')))"

fun load_entries ::
  "registry_env \<Rightarrow> managed_routes_config \<Rightarrow> nat \<Rightarrow> uuid \<Rightarrow> odt \<Rightarrow> route_file list \<Rightarrow> load_state \<Rightarrow>
   (relay_error, load_state) result" where
  "load_entries re mc owner key now [] ls = Inr ls"
| "load_entries re mc owner key now (rf # rfs) ls =
     rbind (load_entry re mc owner key now rf ls) (\<lambda>ls'. load_entries re mc owner key now rfs ls')"

text \<open>
  \<open>dir_md\<close> is the directory's metadata, \<open>listing\<close> the entries the directory stream returned, each of
  which may be an error, or nothing where the stream could not be opened.
\<close>

definition load_registry ::
  "registry_env \<Rightarrow> metadata option \<Rightarrow> route_file option list option \<Rightarrow> managed_routes_config \<Rightarrow> nat \<Rightarrow> odt \<Rightarrow>
   (relay_error, load_state) result" where
  "load_registry re dir_md listing mc max_routes now =
     (case dir_md of
        None \<Rightarrow> Inl (managed_error ''managed_routes_directory_unavailable'')
      | Some md \<Rightarrow>
          if \<not> md_is_dir md then Inl (managed_error ''managed_routes_directory_invalid'')
          else
            rbind (validate_directory_owner (rg_euid re) md) (\<lambda>_.
            case listing of
              None \<Rightarrow> Inl (managed_error ''managed_routes_directory_unreadable'')
            | Some results \<Rightarrow>
                if list_ex (\<lambda>e. e = None) results
                then Inl (managed_error ''managed_routes_directory_unreadable'')
                else if max_routes < length results then Inl (managed_error ''managed_routes_count_exceeded'')
                else
                  let entries = sort_key rf_name (map the results) in
                  (case ed25519_signing_key_id re (mc_controller_public_key mc) of
                     Inl _ \<Rightarrow> Inl (managed_error ''managed_routes_key_invalid'')
                   | Inr expected_key_id \<Rightarrow>
                       load_entries re mc (directory_owner md) expected_key_id now entries
                         \<lparr>ls_fingerprint = str_bytes ''relay-managed-routes-v1'' @ u64_be (of_nat (length entries)),
                          ls_generations = [], ls_endpoints = [], ls_ports = [], ls_routes = []\<rparr>)))"

text \<open>The result of the load: the digest of everything the hasher absorbed, and the routes.\<close>

definition load_managed_routes ::
  "registry_env \<Rightarrow> metadata option \<Rightarrow> route_file option list option \<Rightarrow> managed_routes_config \<Rightarrow> nat \<Rightarrow> odt \<Rightarrow>
   (relay_error, managed_snapshot) result" where
  "load_managed_routes re dir_md listing mc max_routes now =
     rbind (load_registry re dir_md listing mc max_routes now)
       (\<lambda>ls. Inr \<lparr>ms_fingerprint = sha256 re (ls_fingerprint ls), ms_routes = ls_routes ls\<rparr>)"

definition load_effective_routes ::
  "registry_env \<Rightarrow> bool \<Rightarrow> metadata option \<Rightarrow> route_file option list option \<Rightarrow> relay_config \<Rightarrow> odt \<Rightarrow>
   (relay_error, route_config list \<times> byte list option) result" where
  "load_effective_routes re joined dir_md listing cfg now =
     (case cfg_managed_routes cfg of
        None \<Rightarrow> Inr (cfg_routes cfg, None)
      | Some mc \<Rightarrow>
          if \<not> joined then Inl (managed_error ''managed_routes_worker_failed'')
          else
            rbind (load_managed_routes re dir_md listing mc (sc_max_routes (cfg_server cfg)) now) (\<lambda>snapshot.
            rbind (validate_static_managed_listener_conflicts (cfg_routes cfg) (ms_routes snapshot)) (\<lambda>_.
            let routes = cfg_routes cfg @ ms_routes snapshot in
            rbind (validate_routes cfg routes) (\<lambda>_. Inr (routes, Some (ms_fingerprint snapshot))))))"

section \<open>What the loop computes\<close>

type_synonym item = "byte list \<times> byte list \<times> bool"

definition item_fits :: "item \<Rightarrow> bool" where
  "item_fits = (\<lambda>(name, bytes, active). length name < 2 ^ 64 \<and> length bytes < 2 ^ 64)"

definition item_dec :: "byte list \<Rightarrow> (item \<times> byte list) option" where
  "item_dec bs =
     (let n = from_be (take 8 bs); r1 = drop 8 bs; k = from_be (take 8 (drop n r1)); r2 = drop (n + 8) r1 in
      if length bs < 8 \<or> length r1 < n + 8 \<or> length r2 < k + 1 \<or> r2 ! k \<notin> {0, 1} then None
      else Some ((take n r1, take k r2, r2 ! k = 1), drop (k + 1) r2))"

lemma from_be_u64_be [simp]: "from_be (u64_be w) = unat w"
  by (simp add: u64_be_def from_be_to_be)

lemma item_dec_wire: "item_fits x \<Longrightarrow> item_dec (item_wire x @ rest) = Some (x, rest)"
proof (cases x)
  case (fields name bytes active)
  assume "item_fits x"
  with fields have "unat (of_nat (length name) :: u64) = length name"
    "unat (of_nat (length bytes) :: u64) = length bytes"
    by (simp_all add: item_fits_def unat_of_nat_u64)
  then show ?thesis
    by (simp add: fields item_wire_def item_dec_def Let_def nth_append)
qed

lemma item_dec_sound:
  assumes "item_dec bs = Some (x, rest)"
  shows "item_fits x \<and> bs = item_wire x @ rest"
proof -
  define n where "n = from_be (take 8 bs)"
  define r1 where "r1 = drop 8 bs"
  define k where "k = from_be (take 8 (drop n r1))"
  define r2 where "r2 = drop (n + 8) r1"
  from assms have len: "8 \<le> length bs" "n + 8 \<le> length r1" "k < length r2" "r2 ! k \<in> {0, 1}"
    and x: "x = (take n r1, take k r2, r2 ! k = 1)" "rest = drop (k + 1) r2"
    by (auto simp: item_dec_def Let_def n_def r1_def k_def r2_def split: if_splits)
  have b8: "length (take 8 bs) = 8" "length (take 8 (drop n r1)) = 8" using len by simp_all
  have nk: "n < 2 ^ 64" "k < 2 ^ 64"
    using from_be_less [of "take 8 bs"] from_be_less [of "take 8 (drop n r1)"] b8
    by (simp_all add: n_def k_def)
  have "u64_be (of_nat n) = take 8 bs" "u64_be (of_nat k) = take 8 (drop n r1)"
    using b8 by (simp_all add: n_def k_def u64_from_be_def [symmetric])
  moreover have "bs = take 8 bs @ r1" by (simp add: r1_def)
  moreover have "r1 = take n r1 @ take 8 (drop n r1) @ r2"
    using take_append_drop2 [of n r1 8] by (simp add: r2_def)
  moreover have "r2 = take k r2 @ [r2 ! k] @ drop (k + 1) r2"
    using len(3) by (simp add: id_take_nth_drop)
  ultimately have "bs = u64_be (of_nat n) @ take n r1 @ u64_be (of_nat k) @ take k r2 @ [r2 ! k] @ drop (k + 1) r2"
    by metis
  moreover have "r2 ! k = (if r2 ! k = 1 then 1 else 0)" using len(4) by auto
  ultimately show ?thesis
    using nk len by (simp add: x item_fits_def item_wire_def)
qed

interpretation ri: prefix_codec item_wire item_dec item_fits
proof
  show "item_fits x \<Longrightarrow> item_wire x \<noteq> []" for x
    by (cases x) (simp add: item_wire_def)
qed (use item_dec_wire item_dec_sound in auto)

text \<open>The routes of a list of items: a function of what the fingerprint absorbs.\<close>

fun item_route :: "registry_env \<Rightarrow> managed_routes_config \<Rightarrow> item \<Rightarrow> route_config list" where
  "item_route re mc (name, bytes, active) =
     (if active then
        (case route_de re bytes of
           None \<Rightarrow> []
         | Some doc \<Rightarrow> (case convert_route re mc doc of Inl _ \<Rightarrow> [] | Inr r \<Rightarrow> [r]))
      else [])"

definition item_routes :: "registry_env \<Rightarrow> managed_routes_config \<Rightarrow> item list \<Rightarrow> route_config list" where
  "item_routes re mc items = concat (map (item_route re mc) items)"

definition item_ok :: "registry_env \<Rightarrow> managed_routes_config \<Rightarrow> uuid \<Rightarrow> odt \<Rightarrow> item \<Rightarrow> bool" where
  "item_ok re mc key now = (\<lambda>(name, bytes, active).
     \<exists>gid doc. validate_file_name re name = Inr gid \<and> check_document re mc key gid bytes = Inr doc
       \<and> active = document_active now doc)"

lemma validate_file_name_Inr: "validate_file_name pe name = Inr gid \<Longrightarrow> length name \<le> 255"
  by (auto simp: validate_file_name_def from_utf8_Some MAX_ROUTE_FILE_NAME_BYTES_def
      split: option.splits if_splits)

lemma read_route_file_Inr: "read_route_file rf owner = Inr bytes \<Longrightarrow> length bytes \<le> 65536"
  by (auto simp: read_route_file_def rbind_eq_Inr MAX_ROUTE_FILE_BYTES_def Let_def
      split: option.splits if_splits)

lemma check_document_Inr:
  assumes "check_document re mc key gid bytes = Inr doc"
  shows "route_de re bytes = Some doc" "validate_header (sr_header doc) = Inr ()"
    "hdr_grant_id (sr_header doc) = gid"
    "verify_relay_route_signature re doc (mc_controller_public_key mc) = Inr ()"
  using assms
  by (auto simp: check_document_def validate_route_document_def split: option.splits sum.splits if_splits)

lemma add_active_Inr:
  assumes "add_active re mc doc ls = Inr ls'"
  obtains r where "convert_route re mc doc = Inr r" "ls_routes ls' = ls_routes ls @ [r]"
    "ls_fingerprint ls' = ls_fingerprint ls" "sock_port (rc_public_listen r) \<notin> set (ls_ports ls)"
    "ls_ports ls' = sock_port (rc_public_listen r) # ls_ports ls"
  using assms by (auto simp: add_active_def Let_def rbind_eq_Inr split: if_splits)

lemma load_entry_Inr:
  assumes "load_entry re mc owner key now rf ls = Inr ls'"
  obtains item where "item_fits item" "item_ok re mc key now item"
    "ls_fingerprint ls' = ls_fingerprint ls @ item_wire item"
    "ls_routes ls' = ls_routes ls @ item_routes re mc [item]"
proof -
  from assms obtain gid bytes doc ls0 where d: "validate_file_name re (rf_name rf) = Inr gid"
    "read_route_file rf owner = Inr bytes" "check_document re mc key gid bytes = Inr doc"
    "ls0 = ls\<lparr>ls_fingerprint := ls_fingerprint ls @ item_wire (rf_name rf, bytes, document_active now doc)\<rparr>"
    "if document_active now doc then add_active re mc doc ls0 = Inr ls' else ls' = ls0"
    by (auto simp: load_entry_def rbind_eq_Inr Let_def split: if_splits)
  let ?item = "(rf_name rf, bytes, document_active now doc)"
  have "item_fits ?item"
    using validate_file_name_Inr [OF d(1)] read_route_file_Inr [OF d(2)] by (simp add: item_fits_def)
  moreover have "item_ok re mc key now ?item"
    using d(1,3) by (auto simp: item_ok_def)
  moreover have "ls_fingerprint ls' = ls_fingerprint ls @ item_wire ?item
      \<and> ls_routes ls' = ls_routes ls @ item_routes re mc [?item]"
    using d(4,5) check_document_Inr(1) [OF d(3)]
    by (auto simp: item_routes_def split: if_splits elim!: add_active_Inr)
  ultimately show ?thesis using that by blast
qed

lemma load_entries_items:
  "load_entries re mc owner key now rfs ls = Inr ls' \<Longrightarrow>
   \<exists>items. length items = length rfs \<and> list_all item_fits items \<and> list_all (item_ok re mc key now) items
     \<and> ls_fingerprint ls' = ls_fingerprint ls @ concat (map item_wire items)
     \<and> ls_routes ls' = ls_routes ls @ item_routes re mc items"
proof (induction rfs arbitrary: ls)
  case Nil
  then show ?case by (simp add: item_routes_def)
next
  case (Cons rf rfs)
  then obtain ls1 where l: "load_entry re mc owner key now rf ls = Inr ls1"
    "load_entries re mc owner key now rfs ls1 = Inr ls'"
    by (auto simp: rbind_eq_Inr)
  from l(1) obtain item where i: "item_fits item" "item_ok re mc key now item"
    "ls_fingerprint ls1 = ls_fingerprint ls @ item_wire item"
    "ls_routes ls1 = ls_routes ls @ item_routes re mc [item]"
    by (rule load_entry_Inr)
  from Cons.IH [OF l(2)] obtain items where "length items = length rfs" "list_all item_fits items"
    "list_all (item_ok re mc key now) items"
    "ls_fingerprint ls' = ls_fingerprint ls1 @ concat (map item_wire items)"
    "ls_routes ls' = ls_routes ls1 @ item_routes re mc items" by blast
  with i show ?case by (intro exI [of _ "item # items"]) (simp add: item_routes_def)
qed

lemma load_entries_ports:
  "\<lbrakk>load_entries re mc owner key now rfs ls = Inr ls';
    distinct (ls_ports ls); set (ls_ports ls) = (\<lambda>r. sock_port (rc_public_listen r)) ` set (ls_routes ls);
    distinct (map (\<lambda>r. sock_port (rc_public_listen r)) (ls_routes ls))\<rbrakk> \<Longrightarrow>
   distinct (map (\<lambda>r. sock_port (rc_public_listen r)) (ls_routes ls'))"
proof (induction rfs arbitrary: ls)
  case Nil
  then show ?case by simp
next
  case (Cons rf rfs)
  then obtain ls1 where l: "load_entry re mc owner key now rf ls = Inr ls1"
    "load_entries re mc owner key now rfs ls1 = Inr ls'"
    by (auto simp: rbind_eq_Inr)
  have "distinct (ls_ports ls1) \<and> set (ls_ports ls1) = (\<lambda>r. sock_port (rc_public_listen r)) ` set (ls_routes ls1)
      \<and> distinct (map (\<lambda>r. sock_port (rc_public_listen r)) (ls_routes ls1))"
    using l(1) Cons.prems(2-4)
    by (auto simp: load_entry_def rbind_eq_Inr Let_def split: if_splits elim!: add_active_Inr)
  with Cons.IH [OF l(2)] show ?case by blast
qed

lemma load_registry_Inr:
  assumes "load_registry re dir_md listing mc max_routes now = Inr ls"
  obtains key items where "ed25519_signing_key_id re (mc_controller_public_key mc) = Inr key"
    "list_all item_fits items" "list_all (item_ok re mc key now) items" "length items \<le> max_routes"
    "ls_fingerprint ls = str_bytes ''relay-managed-routes-v1''
       @ u64_be (of_nat (length items)) @ concat (map item_wire items)"
    "ls_routes ls = item_routes re mc items"
    "distinct (map (\<lambda>r. sock_port (rc_public_listen r)) (ls_routes ls))"
proof -
  from assms obtain md results key where
    l: "ed25519_signing_key_id re (mc_controller_public_key mc) = Inr key" "length results \<le> max_routes"
      "load_entries re mc (directory_owner md) key now (sort_key rf_name (map the results))
         \<lparr>ls_fingerprint = str_bytes ''relay-managed-routes-v1'' @ u64_be (of_nat (length results)),
          ls_generations = [], ls_endpoints = [], ls_ports = [], ls_routes = []\<rparr> = Inr ls"
    by (auto simp: load_registry_def rbind_eq_Inr Let_def not_less split: option.splits if_splits sum.splits)
  from load_entries_items [OF l(3)] obtain items where "length items = length results"
    "list_all item_fits items" "list_all (item_ok re mc key now) items"
    "ls_fingerprint ls = str_bytes ''relay-managed-routes-v1'' @ u64_be (of_nat (length results))
       @ concat (map item_wire items)"
    "ls_routes ls = item_routes re mc items" by auto
  moreover have "distinct (map (\<lambda>r. sock_port (rc_public_listen r)) (ls_routes ls))"
    by (rule load_entries_ports [OF l(3)]) simp_all
  ultimately show ?thesis using l(1,2) by (intro that [of key items]) simp_all
qed

lemma load_managed_routes_Inr:
  assumes "load_managed_routes re dir_md listing mc max_routes now = Inr snap"
  obtains key items where "list_all (item_ok re mc key now) items" "ms_routes snap = item_routes re mc items"
    "distinct (map (\<lambda>r. sock_port (rc_public_listen r)) (ms_routes snap))"
  using assms that
  by (auto simp: load_managed_routes_def rbind_eq_Inr elim!: load_registry_Inr)

lemma item_routes_mem:
  assumes "r \<in> set (item_routes re mc items)" "list_all (item_ok re mc key now) items"
  obtains doc gid bytes where "check_document re mc key gid bytes = Inr doc"
    "document_active now doc" "convert_route re mc doc = Inr r"
proof -
  from assms(1) have "\<exists>x \<in> set items. r \<in> set (item_routes re mc [x])"
    by (simp add: item_routes_def)
  then obtain name bytes active where i: "(name, bytes, active) \<in> set items"
    "r \<in> set (item_routes re mc [(name, bytes, active)])"
    by (metis prod_cases3)
  from i(2) have r: "r \<in> set (item_route re mc (name, bytes, active))"
    by (simp only: item_routes_def list.map concat.simps append_Nil2)
  obtain doc where d: "route_de re bytes = Some doc" "convert_route re mc doc = Inr r" "active"
  proof (cases "route_de re bytes")
    case None
    with r show ?thesis by (cases active) simp_all
  next
    case (Some doc)
    then show ?thesis
      using r that by (cases "convert_route re mc doc"; cases active) simp_all
  qed
  from assms(2) i(1) have "item_ok re mc key now (name, bytes, active)"
    by (auto simp: list_all_iff)
  then obtain gid doc' where c: "check_document re mc key gid bytes = Inr doc'" "document_active now doc'"
    using d(3) by (auto simp: item_ok_def)
  with d check_document_Inr(1) [OF c(1)] show ?thesis using that by simp
qed

lemma convert_route_Inr:
  assumes "convert_route pe mc doc = Inr r"
  shows "rc_expires_at r = hdr_expires_at (sr_header doc)"
    and "rc_route_id r = uuid_show pe (hdr_grant_id (sr_header doc))"
    and "sock_port (rc_public_listen r) = hdr_public_port (sr_header doc)"
    and "hdr_relay_id (sr_header doc) = mc_relay_id mc"
    and "mc_public_port_start mc \<le> sock_port (rc_public_listen r)"
    and "sock_port (rc_public_listen r) \<le> mc_public_port_end mc"
    and "rc_max_concurrent_streams r \<le> unat (mc_max_concurrent_streams mc)"
    and "rc_max_bytes_per_second r \<le> mc_max_bytes_per_second mc"
    and "rc_max_bytes_per_connection r \<le> mc_max_bytes_per_connection mc"
    and "\<exists>l. rc_monthly_byte_limit r = Some l \<and> l \<le> mc_monthly_byte_limit mc"
  using assms by (auto simp: convert_route_def Let_def rbind_eq_Inr word_le_nat_alt word_less_nat_alt split: if_splits)

lemma verified_route_signed:
  assumes "verify_relay_route_signature ce doc key = Inr ()" "unforgeable ce key texts"
  obtains t where "relay_route_transcript ce doc = Inr t" "t \<in> texts"
  using assms
  by (auto simp: verify_relay_route_signature_def verify_signature_def decode_exact_def unforgeable_def
      rbind_eq_Inr split: sum.splits if_splits option.splits)

section \<open>A concrete registry\<close>

definition demo_managed :: managed_routes_config where
  "demo_managed = \<lparr>mc_relay_id = [3], mc_managed_routes_directory = path_of ''/r'',
     mc_quota_state_directory = path_of ''/q'', mc_controller_public_key = demo_recipient,
     mc_public_listen_ip = V4 (Ipv4 127 0 0 1), mc_public_port_start = 20000, mc_public_port_end = 20100,
     mc_max_concurrent_streams = 64, mc_max_bytes_per_second = 5000000,
     mc_max_bytes_per_connection = 20971520, mc_monthly_byte_limit = 209715200\<rparr>"

definition demo_key_id :: uuid where
  "demo_key_id = [112, 112, 112, 112, 112, 112, 0x50, 112, 0xB0, 112, 112, 112, 112, 112, 112, 112]"

definition demo_doc :: signed_route where
  "demo_doc = \<lparr>sr_header = demo_header\<lparr>hdr_grant_id := str_bytes demo_route\<rparr>,
     sr_route_token_sha256 = ''sha256:'' @ replicate 64 (CHR ''a''),
     sr_client_certificate_sha256 = ''sha256:'' @ replicate 64 (CHR ''b''),
     sr_signing_key_id = demo_key_id, sr_signature = replicate 64 (CHR ''s'')\<rparr>"

definition demo_text :: "byte list" where
  "demo_text = concat (map field_wire (route_fields demo_crypto demo_doc))"

text \<open>A digest of the right length.\<close>

definition toy_digest :: "byte list \<Rightarrow> byte list" where
  "toy_digest bs = take 32 (bs @ replicate 32 0)"

lemma toy_digest_length [simp]: "length (toy_digest bs) = 32"
  by (simp add: toy_digest_def)

definition demo_registry :: registry_env where
  "demo_registry = \<lparr>uuid_parse = (\<lambda>s. Some (str_bytes s)), uuid_show = bytes_str,
     rfc3339_parse = (\<lambda>_. None), rfc3339_show = unary_show,
     b64_decode = (\<lambda>s. Some (str_bytes s)), b64_encode = bytes_str, sha256 = toy_digest,
     ed_key_ok = (\<lambda>_. True), ed_verify = (\<lambda>k s m. m = demo_text),
     hpke_pk_ok = (\<lambda>_. True), hpke_sk_ok = (\<lambda>_. True), hpke_encapped_ok = (\<lambda>_. True),
     hpke_setup_ok = (\<lambda>_ _ _. True), hpke_seal = (\<lambda>_ _ _ _ _. None), hpke_open = (\<lambda>_ _ _ _ _. None),
     material_ser = (\<lambda>_. None), material_de = (\<lambda>_. None),
     route_de = (\<lambda>bs. if bs = [1] then Some demo_doc else None), rg_euid = 0\<rparr>"

definition demo_file :: route_file where
  "demo_file = (let md = \<lparr>md_is_dir = False, md_is_file = True, md_uid = 0, md_mode = 384, md_len = 1,
                          md_dev = 1, md_ino = 3\<rparr> in
     \<lparr>rf_name = str_bytes (demo_route @ ''.relay-route.json''), rf_path_meta = Some md, rf_opened = Some md,
      rf_content = Some [1]\<rparr>)"

definition demo_now1 :: odt where "demo_now1 = \<lparr>instant = 1, utc_offset = 0\<rparr>"

definition demo_managed_route :: route_config where
  "demo_managed_route = \<lparr>rc_route_id = demo_route,
     rc_public_listen = \<lparr>sock_ip = V4 (Ipv4 127 0 0 1), sock_port = 20001, sock_scope = (0, 0)\<rparr>,
     rc_node_token_sha256 = replicate 64 (CHR ''a''), rc_node_cert_sha256 = replicate 64 (CHR ''b''),
     rc_expires_at = demo_instant 5, rc_enabled = True, rc_max_concurrent_streams = 16,
     rc_max_bytes_per_second = 2500000, rc_max_bytes_per_connection = 10485760,
     rc_monthly_byte_limit = Some 104857600\<rparr>"

definition demo_managed_config :: relay_config where
  "demo_managed_config = \<lparr>cfg_server = demo_server, cfg_managed_routes = Some demo_managed, cfg_routes = []\<rparr>"

lemma demo_registry_simps [simp]:
  "uuid_parse demo_registry = (\<lambda>s. Some (str_bytes s))" "uuid_show demo_registry = bytes_str"
  "rfc3339_show demo_registry = unary_show" "b64_decode demo_registry = (\<lambda>s. Some (str_bytes s))"
  "sha256 demo_registry = toy_digest" "ed_key_ok demo_registry = (\<lambda>_. True)"
  "ed_verify demo_registry = (\<lambda>k s m. m = demo_text)"
  "route_de demo_registry = (\<lambda>bs. if bs = [1] then Some demo_doc else None)" "rg_euid demo_registry = 0"
  by (simp_all add: demo_registry_def)

lemma replicate_16: "replicate 16 x = [x, x, x, x, x, x, x, x, x, x, x, x, x, x, x, x]"
  by (simp add: numeral_eq_Suc)

lemma demo_key: "ed25519_signing_key_id demo_registry demo_recipient = Inr demo_key_id"
proof -
  have "str_bytes demo_recipient = replicate 32 112"
    by (simp add: demo_recipient_def str_bytes_def byte_of_def)
  then show ?thesis
    by (simp add: ed25519_signing_key_id_def demo_key_id_def Let_def toy_digest_def replicate_16)
qed

lemma demo_doc_header: "validate_header (sr_header demo_doc) = Inr ()"
proof -
  have "validate_header (demo_header\<lparr>hdr_grant_id := g\<rparr>) = validate_header demo_header" for g
    by (simp add: validate_header_def)
  then show ?thesis using demo_header_valid by (simp add: demo_doc_def)
qed

lemma demo_doc_transcript: "relay_route_transcript demo_registry demo_doc = Inr demo_text"
proof -
  have f: "header_fields demo_registry h = header_fields demo_crypto h" for h
    by (simp add: header_fields_def)
  have "generation_ok (sr_header demo_doc)"
    using demo_generation_ok by (simp add: generation_ok_def demo_doc_def)
  moreover have "list_all field_fits (header_fields demo_registry (sr_header demo_doc))"
    using demo_header_fits unfolding f
    by (simp add: header_fields_def demo_doc_def field_fits_def demo_route_def)
  ultimately show ?thesis
    using demo_doc_header
    by (simp add: relay_route_transcript_def validate_route_document_def lift_validation_def
        encode_header_total tr_text_def tr_new_def tr_bytes_Inr [THEN iffD2] demo_text_def route_fields_def f
        field_fits_def RELAY_ROUTE_DOMAIN_def)
      (simp add: tr_bytes_Inr [THEN iffD2] field_fits_def demo_doc_def demo_key_id_def)
qed

lemma demo_check: "check_document demo_registry demo_managed demo_key_id (str_bytes demo_route) [1] = Inr demo_doc"
proof -
  have "verify_relay_route_signature demo_registry demo_doc demo_recipient = Inr ()"
    using demo_key demo_doc_transcript
    by (simp add: verify_relay_route_signature_def verify_signature_def decode_exact_def)
      (simp add: demo_doc_def demo_recipient_def)
  moreover have "hdr_grant_id (sr_header demo_doc) = str_bytes demo_route" "sr_signing_key_id demo_doc = demo_key_id"
    by (simp_all add: demo_doc_def)
  moreover have "mc_controller_public_key demo_managed = demo_recipient" by (simp add: demo_managed_def)
  ultimately show ?thesis
    using demo_doc_header by (simp add: check_document_def validate_route_document_def)
qed

lemma demo_convert: "convert_route demo_registry demo_managed demo_doc = Inr demo_managed_route"
  by (simp add: convert_route_def demo_managed_def demo_doc_def demo_header_def digest_hex_def
      strip_prefix_def starts_with_def demo_managed_route_def)


lemma demo_file_name: "validate_file_name demo_registry (rf_name demo_file) = Inr (str_bytes demo_route)"
proof -
  have "from_utf8 (rf_name demo_file) = Some (demo_route @ ''.relay-route.json'')"
    by (simp add: from_utf8_Some demo_file_def Let_def)
      (simp add: is_str_def utf8_valid_ascii str_bytes_def demo_route_def byte_of_def)
  moreover have "strip_suffix ''.relay-route.json'' (demo_route @ ''.relay-route.json'') = Some demo_route"
    by (simp add: strip_suffix_def ends_with_def)
  ultimately show ?thesis
    by (simp add: validate_file_name_def id_from_str_def MAX_ROUTE_FILE_NAME_BYTES_def)
      (simp add: demo_route_def)
qed

lemma demo_read: "read_route_file demo_file 0 = Inr [1]"
  by (simp add: read_route_file_def demo_file_def validate_file_metadata_def validate_same_route_file_def
      MAX_ROUTE_FILE_BYTES_def Let_def)

definition demo_loaded :: load_state where
  "demo_loaded = \<lparr>ls_fingerprint = str_bytes ''relay-managed-routes-v1'' @ u64_be 1 @ item_wire (rf_name demo_file, [1], True),
     ls_generations = [(hdr_route_id (sr_header demo_doc), hdr_generation (sr_header demo_doc))],
     ls_endpoints = [hdr_endpoint_id (sr_header demo_doc)],
     ls_ports = [sock_port (rc_public_listen demo_managed_route)], ls_routes = [demo_managed_route]\<rparr>"

definition demo_snapshot :: managed_snapshot where
  "demo_snapshot = \<lparr>ms_fingerprint = toy_digest (ls_fingerprint demo_loaded), ms_routes = [demo_managed_route]\<rparr>"

lemma demo_load_state:
  assumes "0 \<le> instant now" "instant now < 5"
  shows "load_registry demo_registry (Some demo_dir) (Some [Some demo_file]) demo_managed 1024 now = Inr demo_loaded"
proof -
  have act: "document_active now demo_doc"
    using assms by (simp add: document_active_def demo_doc_def demo_header_def demo_instant_def)
  have entry: "load_entry demo_registry demo_managed 0 demo_key_id now demo_file
      \<lparr>ls_fingerprint = fp, ls_generations = [], ls_endpoints = [], ls_ports = [], ls_routes = []\<rparr>
    = Inr (demo_loaded\<lparr>ls_fingerprint := fp @ item_wire (rf_name demo_file, [1], True)\<rparr>)" for fp
    by (simp add: load_entry_def demo_file_name demo_read demo_check Let_def act add_active_def demo_convert demo_loaded_def)
  have "validate_directory_owner 0 demo_dir = Inr ()" "directory_owner demo_dir = 0" "md_is_dir demo_dir"
    "mc_controller_public_key demo_managed = demo_recipient"
    by (simp_all add: validate_directory_owner_def directory_owner_def demo_dir_def demo_managed_def)
  with entry demo_key show ?thesis
    by (simp add: load_registry_def Let_def) (simp add: demo_loaded_def)
qed

lemma demo_load_at:
  assumes "0 \<le> instant now" "instant now < 5"
  shows "load_managed_routes demo_registry (Some demo_dir) (Some [Some demo_file]) demo_managed 1024 now
     = Inr demo_snapshot"
  using demo_load_state [OF assms]
  by (simp add: load_managed_routes_def demo_snapshot_def) (simp add: demo_loaded_def)

lemma demo_load:
  "load_managed_routes demo_registry (Some demo_dir) (Some [Some demo_file]) demo_managed 1024 demo_now1
     = Inr demo_snapshot"
  by (rule demo_load_at) (simp_all add: demo_now1_def)

lemma demo_managed_valid: "validate_routes demo_managed_config [demo_managed_route] = Inr ()"
proof -
  have "route_ok demo_server demo_managed_route"
    unfolding route_ok_def
  proof (intro conjI)
    show "route_id_ok (rc_route_id demo_managed_route)"
      by (simp add: demo_managed_route_def demo_route_def route_id_ok_def is_url_safe_def ascii_class_defs)
    show "digest_ok (rc_node_token_sha256 demo_managed_route)" "digest_ok (rc_node_cert_sha256 demo_managed_route)"
      by (simp_all add: demo_managed_route_def digest_ok_def list_all_iff ascii_class_defs)
    show "sock_port (rc_public_listen demo_managed_route) \<noteq> 0 \<longrightarrow>
        rc_public_listen demo_managed_route \<noteq> sc_node_listen demo_server
        \<and> rc_public_listen demo_managed_route \<noteq> sc_metrics_listen demo_server"
      by (simp add: demo_managed_route_def demo_server_def demo_addr_def)
  qed (simp_all add: demo_managed_route_def demo_server_def default_defs)
  then show ?thesis
    by (simp add: validate_routes_Inr demo_managed_config_def) (simp add: demo_server_def default_defs)
qed

lemma demo_effective_routes:
  "load_effective_routes demo_registry True (Some demo_dir) (Some [Some demo_file]) demo_managed_config demo_now1
     = Inr ([demo_managed_route], Some (ms_fingerprint demo_snapshot))"
proof -
  have "sc_max_routes (cfg_server demo_managed_config) = 1024" "cfg_managed_routes demo_managed_config = Some demo_managed"
    "cfg_routes demo_managed_config = []" "ms_routes demo_snapshot = [demo_managed_route]"
    by (simp_all add: demo_managed_config_def demo_server_def default_defs demo_snapshot_def)
  with demo_load demo_managed_valid show ?thesis
    by (simp add: load_effective_routes_def validate_static_managed_listener_conflicts_def Let_def)
qed

section \<open>Properties\<close>

text \<open>Claim C3: the relay serves no managed route the controller did not sign. Every route that comes
  from the registry was converted from a document whose transcript the controller signed; the
  document is valid and within its lifetime at loading, names this relay, and keeps the operator's
  port range and the four ceilings: for streams, for the rate, for a connection and for a month.\<close>

theorem managed_routes_authentic:
  assumes "load_effective_routes re joined dir_md listing cfg now = Inr (routes, fp)"
    and "cfg_managed_routes cfg = Some mc" "unforgeable re (mc_controller_public_key mc) texts"
    and "r \<in> set routes" "r \<notin> set (cfg_routes cfg)"
  shows "\<exists>doc t. relay_route_transcript re doc = Inr t \<and> t \<in> texts \<and> convert_route re mc doc = Inr r
    \<and> validate_header (sr_header doc) = Inr () \<and> hdr_relay_id (sr_header doc) = mc_relay_id mc
    \<and> instant (hdr_not_before (sr_header doc)) \<le> instant now \<and> \<not> is_expired r now
    \<and> mc_public_port_start mc \<le> sock_port (rc_public_listen r)
    \<and> sock_port (rc_public_listen r) \<le> mc_public_port_end mc
    \<and> rc_max_concurrent_streams r \<le> unat (mc_max_concurrent_streams mc)
    \<and> rc_max_bytes_per_second r \<le> mc_max_bytes_per_second mc
    \<and> rc_max_bytes_per_connection r \<le> mc_max_bytes_per_connection mc
    \<and> (\<exists>l. rc_monthly_byte_limit r = Some l \<and> l \<le> mc_monthly_byte_limit mc)"
proof -
  from assms(1,2) obtain snap where snap:
    "load_managed_routes re dir_md listing mc (sc_max_routes (cfg_server cfg)) now = Inr snap"
    "routes = cfg_routes cfg @ ms_routes snap"
    by (auto simp: load_effective_routes_def rbind_eq_Inr Let_def split: if_splits)
  from snap(1) obtain key items where items: "list_all (item_ok re mc key now) items"
    "ms_routes snap = item_routes re mc items" by (rule load_managed_routes_Inr)
  from snap(2) assms(4,5) items(2) have "r \<in> set (item_routes re mc items)" by simp
  from this items(1) obtain doc gid bytes where d: "check_document re mc key gid bytes = Inr doc"
    "document_active now doc" "convert_route re mc doc = Inr r" by (rule item_routes_mem)
  note c = check_document_Inr [OF d(1)] convert_route_Inr [OF d(3)]
  from c(4) assms(3) obtain t where "relay_route_transcript re doc = Inr t" "t \<in> texts"
    by (rule verified_route_signed)
  moreover have "instant (hdr_not_before (sr_header doc)) \<le> instant now" "\<not> is_expired r now"
    using d(2) c(5) by (simp_all add: document_active_def is_expired_def)
  ultimately show ?thesis using c d(3) by blast
qed

theorem managed_routes_authentic_witness:
  "\<exists>doc t. relay_route_transcript demo_registry doc = Inr t \<and> t \<in> {demo_text}
     \<and> convert_route demo_registry demo_managed doc = Inr demo_managed_route \<and> \<not> is_expired demo_managed_route demo_now1"
proof -
  have "unforgeable demo_registry (mc_controller_public_key demo_managed) {demo_text}"
    by (simp add: unforgeable_def)
  moreover have "cfg_managed_routes demo_managed_config = Some demo_managed" "cfg_routes demo_managed_config = []"
    by (simp_all add: demo_managed_config_def)
  ultimately show ?thesis
    using managed_routes_authentic [OF demo_effective_routes, of demo_managed "{demo_text}" demo_managed_route] by auto
qed

text \<open>Claim C32: the routes the relay starts with are mutually compatible: identifiers and addresses
  are distinct, each route is acceptable under the server's bounds, and no managed route shares
  its port with a static one or with another managed one.\<close>

theorem effective_routes_compatible:
  assumes "load_effective_routes re joined dir_md listing cfg now = Inr (routes, fp)"
    and "validate_config cfg = Inr ()"
  shows "distinct (map rc_route_id routes) \<and> distinct (map rc_public_listen routes)
    \<and> list_all (route_ok (cfg_server cfg)) routes
    \<and> (\<exists>managed. routes = cfg_routes cfg @ managed
         \<and> distinct (map (\<lambda>r. sock_port (rc_public_listen r)) managed)
         \<and> list_all (\<lambda>s. list_all (\<lambda>r. sock_port (rc_public_listen s) \<noteq> sock_port (rc_public_listen r)) managed)
              (cfg_routes cfg))"
proof (cases "cfg_managed_routes cfg")
  case None
  with assms(1) have "routes = cfg_routes cfg" by (simp add: load_effective_routes_def)
  with validate_config_Inr(2) [OF assms(2)] show ?thesis
    by (simp add: validate_routes_Inr list_all_iff)
next
  case (Some mc)
  with assms(1) obtain snap where snap:
    "load_managed_routes re dir_md listing mc (sc_max_routes (cfg_server cfg)) now = Inr snap"
    "routes = cfg_routes cfg @ ms_routes snap" "validate_routes cfg routes = Inr ()"
    "validate_static_managed_listener_conflicts (cfg_routes cfg) (ms_routes snap) = Inr ()"
    by (auto simp: load_effective_routes_def rbind_eq_Inr Let_def split: if_splits)
  from snap(1) have "distinct (map (\<lambda>r. sock_port (rc_public_listen r)) (ms_routes snap))"
    by (rule load_managed_routes_Inr)
  moreover have "list_all (\<lambda>s. list_all (\<lambda>r. sock_port (rc_public_listen s) \<noteq> sock_port (rc_public_listen r))
      (ms_routes snap)) (cfg_routes cfg)"
    using snap(4) by (auto simp: validate_static_managed_listener_conflicts_def list_all_iff split: if_splits)
  ultimately show ?thesis
    using snap(2,3) by (auto simp: validate_routes_Inr list_all_iff)
qed

theorem effective_routes_compatible_witness:
  "distinct (map rc_route_id [demo_managed_route]) \<and> list_all (route_ok demo_server) [demo_managed_route]"
proof -
  have "validate_config demo_managed_config = Inr ()"
  proof -
    have "validate_server demo_server = Inr ()" using demo_config_valid validate_config_Inr(1) [of demo_config]
      by (simp add: demo_config_def)
    moreover have "validate_managed demo_server demo_managed = Inr ()"
      by (simp add: validate_managed_def demo_server_def demo_managed_def default_defs MAX_MANAGED_ROUTES_def
          demo_addr_def path_of_def starts_with_def)
    ultimately show ?thesis
      by (simp add: validate_config_def demo_managed_config_def validate_routes_def)
  qed
  from effective_routes_compatible [OF demo_effective_routes this] show ?thesis
    by (simp add: demo_managed_config_def)
qed

text \<open>Claim C26: an unchanged fingerprint means unchanged routes. Two loads of the registry, of
  whatever directory contents and at whatever times, whose fingerprints agree yield the same
  routes, so a reload that skips on an equal fingerprint loses nothing. The only assumption on SHA-256 is that the two
  texts that were hashed are not themselves a collision.\<close>

theorem fingerprint_determines_routes:
  assumes "load_managed_routes re dir_md listing mc n now = Inr snap"
    and "load_managed_routes re dir_md' listing' mc n' now' = Inr snap'"
    and "ms_fingerprint snap = ms_fingerprint snap'"
    and hashed: "load_registry re dir_md listing mc n now = Inr ls" "load_registry re dir_md' listing' mc n' now' = Inr ls'"
    and no_collision: "inj_on (sha256 re) {ls_fingerprint ls, ls_fingerprint ls'}"
  shows "ms_routes snap = ms_routes snap'"
proof -
  from hashed(1) obtain items where i: "list_all item_fits items"
    "ls_fingerprint ls = str_bytes ''relay-managed-routes-v1'' @ u64_be (of_nat (length items)) @ concat (map item_wire items)"
    "ls_routes ls = item_routes re mc items" by (rule load_registry_Inr)
  from hashed(2) obtain items' where i': "list_all item_fits items'"
    "ls_fingerprint ls' = str_bytes ''relay-managed-routes-v1'' @ u64_be (of_nat (length items')) @ concat (map item_wire items')"
    "ls_routes ls' = item_routes re mc items'" by (rule load_registry_Inr)
  have "ls_fingerprint ls = ls_fingerprint ls'"
    using assms(1-3) hashed no_collision by (auto simp: load_managed_routes_def inj_on_def)
  then have "concat (map item_wire items) = concat (map item_wire items')"
    using i(2) i'(2) by (simp add: append_eq_append_conv)
  with i(1) i'(1) have "items = items'" by (intro ri.stream_inj)
  with i(3) i'(3) assms(1,2) hashed show ?thesis by (auto simp: load_managed_routes_def)
qed

theorem fingerprint_determines_routes_witness:
  "\<exists>snap snap'. load_managed_routes demo_registry (Some demo_dir) (Some [Some demo_file]) demo_managed 1024
       \<lparr>instant = 1, utc_offset = 0\<rparr> = Inr snap
     \<and> load_managed_routes demo_registry (Some demo_dir) (Some [Some demo_file]) demo_managed 1024
       \<lparr>instant = 4, utc_offset = 0\<rparr> = Inr snap'
     \<and> length (ms_fingerprint snap) = 32 \<and> ms_routes snap = ms_routes snap'"
proof -
  have l: "load_managed_routes demo_registry (Some demo_dir) (Some [Some demo_file]) demo_managed 1024
       \<lparr>instant = 1, utc_offset = 0\<rparr> = Inr demo_snapshot"
    "load_managed_routes demo_registry (Some demo_dir) (Some [Some demo_file]) demo_managed 1024
       \<lparr>instant = 4, utc_offset = 0\<rparr> = Inr demo_snapshot"
    by (rule demo_load_at; simp)+
  have h: "load_registry demo_registry (Some demo_dir) (Some [Some demo_file]) demo_managed 1024
       \<lparr>instant = 1, utc_offset = 0\<rparr> = Inr demo_loaded"
    "load_registry demo_registry (Some demo_dir) (Some [Some demo_file]) demo_managed 1024
       \<lparr>instant = 4, utc_offset = 0\<rparr> = Inr demo_loaded"
    by (rule demo_load_state; simp)+
  from fingerprint_determines_routes [OF l refl h] l show ?thesis by (auto simp: demo_snapshot_def)
qed

end
