(* ===== verification/Tunnel.thy ===== *)
theory Tunnel
  imports Relay_Config
begin

text \<open>
  One tunnel seen from the relay (\<open>relay-server/src/relay.rs\<close>): the table of logical streams, the
  opening of a stream, the dispatch of the frames a node sends, and the heartbeat. The records and the
  table operations that \<open>node.rs\<close> repeats for its own side are stated here once.

  The objects behind \<open>Arc\<close> live in the store of the tunnel, under the identifier of their stream; the
  table lists the identifiers that are open. A task keeps its object after the table dropped it.
\<close>

section \<open>Logical streams\<close>

datatype inbound = InData "byte list" | InFin | InClose

text \<open>
  The fields that \<open>StreamDispatch\<close> and \<open>NodeStream\<close> share. The channel is its contents, its capacity and
  whether its receiver is alive.
\<close>

record stream_end =
  se_inbound :: "inbound list"
  se_capacity :: nat
  se_receiver :: bool
  se_receive_remaining :: u64
  se_send_credit :: credit
  se_cancelled :: bool

text \<open>\<open>StreamDispatch\<close>: whether the sender of the open result is still there, and what was sent on it.\<close>

record dispatch = stream_end +
  sd_open_tx :: bool
  sd_opened :: "(error_code, u32) result option"

definition try_send :: "'s stream_end_scheme \<Rightarrow> inbound \<Rightarrow> 's stream_end_scheme option" where
  "try_send d m =
     (if se_receiver d \<and> length (se_inbound d) < se_capacity d
      then Some (d\<lparr>se_inbound := se_inbound d @ [m]\<rparr>) else None)"

definition debit :: "string \<Rightarrow> 's stream_end_scheme \<Rightarrow> nat \<Rightarrow> (relay_error, 's stream_end_scheme) result" where
  "debit exceeded d bytes =
     (case u64_try_from bytes of
        None \<Rightarrow> Inl (Stable ProtocolInvalid ''payload length is unsupported'')
      | Some b \<Rightarrow>
          (case checked_sub_u64 (se_receive_remaining d) b of
             None \<Rightarrow> Inl (Stable ProtocolInvalid exceeded)
           | Some r \<Rightarrow> Inr (d\<lparr>se_receive_remaining := r\<rparr>)))"

definition debit_receive_window :: "dispatch \<Rightarrow> nat \<Rightarrow> (relay_error, dispatch) result" where
  "debit_receive_window d bytes = debit ''node exceeded the stream receive window'' d bytes"

section \<open>The tunnel\<close>

text \<open>
  \<open>tn_outbox\<close> holds the frames that wait in the queue of the writer, oldest first; where \<open>Tunnel_System\<close> looks at
  frames only, also those on the wire that the peer has not read. \<open>tn_writer\<close> tells whether the writer still receives.
\<close>

record 's tunnel =
  tn_outbox :: "frame list"
  tn_writer :: bool
  tn_streams :: "u64 set"
  tn_store :: "u64 \<rightharpoonup> 's stream_end_scheme"
  tn_last_pong :: nat
  tn_cancelled :: bool

record tunnel_session = "unit dispatch_ext tunnel" +
  ts_id :: u64

definition tn_update :: "('s, 'z) tunnel_scheme \<Rightarrow> u64 \<Rightarrow> 's stream_end_scheme \<Rightarrow> ('s, 'z) tunnel_scheme" where
  "tn_update t sid d = t\<lparr>tn_store := (tn_store t)(sid \<mapsto> d)\<rparr>"

definition tn_lookup :: "('s, 'z) tunnel_scheme \<Rightarrow> u64 \<Rightarrow> 's stream_end_scheme option" where
  "tn_lookup t sid = (if sid \<in> tn_streams t then tn_store t sid else None)"

definition tn_insert :: "('s, 'z) tunnel_scheme \<Rightarrow> u64 \<Rightarrow> 's stream_end_scheme \<Rightarrow> ('s, 'z) tunnel_scheme" where
  "tn_insert t sid d = tn_update (t\<lparr>tn_streams := insert sid (tn_streams t)\<rparr>) sid d"

definition tn_send ::
  "string \<Rightarrow> string \<Rightarrow> ('s, 'z) tunnel_scheme \<Rightarrow> frame \<Rightarrow> (relay_error, ('s, 'z) tunnel_scheme) result" where
  "tn_send closed stopped t f =
     (if tn_cancelled t then Inl (Stable TunnelLost closed)
      else if \<not> tn_writer t then Inl (Stable TunnelLost stopped)
      else Inr (t\<lparr>tn_outbox := tn_outbox t @ [f]\<rparr>))"

definition invalid_stream_id :: "u64 \<Rightarrow> bool" where
  "invalid_stream_id sid \<longleftrightarrow> sid = 0 \<or> even (unat sid)"

definition find_stream ::
  "string \<Rightarrow> ('s, 'z) tunnel_scheme \<Rightarrow> u64 \<Rightarrow> (relay_error, 's stream_end_scheme) result" where
  "find_stream bad_id t sid =
     (if invalid_stream_id sid then Inl (Stable ProtocolInvalid bad_id)
      else (case tn_lookup t sid of
              None \<Rightarrow> Inl (Stable ProtocolInvalid ''stream is not open'')
            | Some d \<Rightarrow> Inr d))"

definition remove_stream :: "('s, 'z) tunnel_scheme \<Rightarrow> u64 \<Rightarrow> ('s, 'z) tunnel_scheme" where
  "remove_stream t sid =
     (case tn_lookup t sid of
        None \<Rightarrow> t
      | Some d \<Rightarrow> tn_update (t\<lparr>tn_streams := tn_streams t - {sid}\<rparr>) sid (d\<lparr>se_cancelled := True\<rparr>))"

definition cancel_all_streams :: "('s, 'z) tunnel_scheme \<Rightarrow> ('s, 'z) tunnel_scheme" where
  "cancel_all_streams t =
     t\<lparr>tn_streams := {},
       tn_store := (\<lambda>sid. map_option (\<lambda>d. if sid \<in> tn_streams t then d\<lparr>se_cancelled := True\<rparr> else d) (tn_store t sid))\<rparr>"

definition tunnel_send :: "tunnel_session \<Rightarrow> frame \<Rightarrow> (relay_error, tunnel_session) result" where
  "tunnel_send t f = tn_send ''node tunnel is closed'' ''node tunnel writer stopped'' t f"

definition stream_dispatch :: "tunnel_session \<Rightarrow> u64 \<Rightarrow> (relay_error, dispatch) result" where
  "stream_dispatch t sid = find_stream ''node used an invalid stream identifier'' t sid"

section \<open>Opening a stream\<close>

text \<open>
  The first half of \<open>open_stream\<close>: the identifier, the entry in the table and the \<open>Open\<close> frame. The
  counter is the one of the route; \<open>fetch_add\<close> wraps.
\<close>

definition new_dispatch :: "server_config \<Rightarrow> dispatch" where
  "new_dispatch sc =
     \<lparr>se_inbound = [], se_capacity = sc_stream_buffer_frames sc, se_receiver = True,
      se_receive_remaining = ucast (sc_initial_window_bytes sc), se_send_credit = credit_new 0,
      se_cancelled = False, sd_open_tx = True, sd_opened = None\<rparr>"

definition open_request ::
  "server_config \<Rightarrow> u64 \<Rightarrow> tunnel_session \<Rightarrow> u64 \<times> tunnel_session \<times> (relay_error, u64) result" where
  "open_request sc next_stream_id t =
     (let sid = next_stream_id; next' = next_stream_id + 2 in
      if invalid_stream_id sid
      then (next', t, Inl (Stable Internal ''stream identifier space exhausted''))
      else
        let t1 = tn_insert t sid (new_dispatch sc) in
        (case tunnel_send t1 (frame_u32 Open sid (sc_initial_window_bytes sc)) of
           Inl e \<Rightarrow> (next', remove_stream t1 sid, Inl e)
         | Inr t2 \<Rightarrow> (next', t2, Inr sid)))"

text \<open>What ends the wait for the node: cancellation, its answer, a dropped channel, or the timer.\<close>

datatype open_wait = OpenCancelled | OpenAnswered "(error_code, u32) result" | OpenDropped | OpenTimedOut

fun open_result :: "open_wait \<Rightarrow> (relay_error, u32) result" where
  "open_result OpenCancelled = Inl (Stable TunnelLost ''node tunnel closed while opening'')"
| "open_result (OpenAnswered (Inr window)) = Inr window"
| "open_result (OpenAnswered (Inl code)) = Inl (Stable code ''node refused the logical stream'')"
| "open_result OpenDropped = Inl (Stable TunnelLost ''node tunnel closed while opening'')"
| "open_result OpenTimedOut = Inl (Stable OpenTimeout ''node did not open the logical stream'')"

definition open_finish ::
  "tunnel_session \<Rightarrow> u64 \<Rightarrow> dispatch \<Rightarrow> open_wait \<Rightarrow> tunnel_session \<times> (relay_error, unit) result" where
  "open_finish t sid d w =
     (case open_result w of
        Inl e \<Rightarrow> (remove_stream t sid, Inl e)
      | Inr window \<Rightarrow>
          if window = 0
          then (remove_stream t sid, Inl (Stable ProtocolInvalid ''node advertised an empty flow-control window''))
          else
            (case credit_add (se_send_credit d) window of
               Inl e \<Rightarrow> (tn_update t sid (d\<lparr>se_receiver := False\<rparr>), Inl e)
             | Inr c \<Rightarrow> (tn_update t sid (d\<lparr>se_send_credit := c\<rparr>), Inr ())))"

section \<open>Frames from the node\<close>

text \<open>The sender of the open result is taken and used once.\<close>

definition answer_open :: "dispatch \<Rightarrow> (error_code, u32) result \<Rightarrow> dispatch" where
  "answer_open d r = d\<lparr>sd_open_tx := False, sd_opened := Some r\<rparr>"

definition heartbeat_invalid :: "frame \<Rightarrow> bool" where
  "heartbeat_invalid f \<longleftrightarrow> stream_id f \<noteq> 0 \<or> length (payload f) \<noteq> 8"

text \<open>One pass of the loop of \<open>read_tunnel_frames\<close>, for the frame it read at the clock reading \<open>now\<close>.\<close>

definition relay_open_ok :: "tunnel_session \<Rightarrow> frame \<Rightarrow> tunnel_session \<times> (relay_error, unit) result" where
  "relay_open_ok t f =
     (case parse_u32 f of
        Inl e \<Rightarrow> (t, Inl e)
      | Inr window \<Rightarrow>
          (case stream_dispatch t (stream_id f) of
             Inl e \<Rightarrow> (t, Inl e)
           | Inr d \<Rightarrow>
               if sd_open_tx d then (tn_update t (stream_id f) (answer_open d (Inr window)), Inr ())
               else (t, Inl (Stable ProtocolInvalid ''duplicate stream open result''))))"

definition relay_open_error :: "tunnel_session \<Rightarrow> frame \<Rightarrow> tunnel_session \<times> (relay_error, unit) result" where
  "relay_open_error t f =
     (case stream_dispatch t (stream_id f) of
        Inl e \<Rightarrow> (t, Inl e)
      | Inr d \<Rightarrow>
          if sd_open_tx d then (tn_update t (stream_id f) (answer_open d (Inl RouteUnavailable)), Inr ())
          else (t, Inr ()))"

definition relay_data :: "tunnel_session \<Rightarrow> frame \<Rightarrow> tunnel_session \<times> (relay_error, unit) result" where
  "relay_data t f =
     (case stream_dispatch t (stream_id f) of
        Inl e \<Rightarrow> (t, Inl e)
      | Inr d \<Rightarrow>
          (case debit_receive_window d (length (payload f)) of
             Inl e \<Rightarrow> (t, Inl e)
           | Inr d1 \<Rightarrow>
               let t1 = tn_update t (stream_id f) d1 in
               (case try_send d1 (InData (payload f)) of
                  Some d2 \<Rightarrow> (tn_update t1 (stream_id f) d2, Inr ())
                | None \<Rightarrow>
                    (case tunnel_send t1 (frame_code Close (stream_id f) LimitReached) of
                       Inl e \<Rightarrow> (t1, Inl e)
                     | Inr t2 \<Rightarrow> (remove_stream t2 (stream_id f), Inr ())))))"

definition relay_fin :: "tunnel_session \<Rightarrow> frame \<Rightarrow> tunnel_session \<times> (relay_error, unit) result" where
  "relay_fin t f =
     (case stream_dispatch t (stream_id f) of
        Inl e \<Rightarrow> (t, Inl e)
      | Inr d \<Rightarrow>
          (case try_send d InFin of
             Some d' \<Rightarrow> (tn_update t (stream_id f) d', Inr ())
           | None \<Rightarrow> (remove_stream t (stream_id f), Inr ())))"

definition relay_close :: "tunnel_session \<Rightarrow> frame \<Rightarrow> tunnel_session \<times> (relay_error, unit) result" where
  "relay_close t f =
     (let t1 = (case stream_dispatch t (stream_id f) of
                  Inl _ \<Rightarrow> t
                | Inr d \<Rightarrow> (case try_send d InClose of Some d' \<Rightarrow> tn_update t (stream_id f) d' | None \<Rightarrow> t))
      in (remove_stream t1 (stream_id f), Inr ()))"

definition relay_window_update :: "tunnel_session \<Rightarrow> frame \<Rightarrow> tunnel_session \<times> (relay_error, unit) result" where
  "relay_window_update t f =
     (case stream_dispatch t (stream_id f) of
        Inl e \<Rightarrow> (t, Inl e)
      | Inr d \<Rightarrow>
          (case rbind (parse_u32 f) (credit_add (se_send_credit d)) of
             Inl e \<Rightarrow> (t, Inl e)
           | Inr c \<Rightarrow> (tn_update t (stream_id f) (d\<lparr>se_send_credit := c\<rparr>), Inr ())))"

definition relay_dispatch ::
  "nat \<Rightarrow> tunnel_session \<Rightarrow> frame \<Rightarrow> tunnel_session \<times> (relay_error, unit) result" where
  "relay_dispatch now t f =
     (case kind f of
        OpenOk \<Rightarrow> relay_open_ok t f
      | OpenError \<Rightarrow> relay_open_error t f
      | Data \<Rightarrow> relay_data t f
      | Fin \<Rightarrow> relay_fin t f
      | Close \<Rightarrow> relay_close t f
      | WindowUpdate \<Rightarrow> relay_window_update t f
      | Ping \<Rightarrow>
          if heartbeat_invalid f then (t, Inl (Stable ProtocolInvalid ''invalid heartbeat frame''))
          else (case tunnel_send t (frame_new Pong 0 (payload f)) of Inl e \<Rightarrow> (t, Inl e) | Inr t' \<Rightarrow> (t', Inr ()))
      | Pong \<Rightarrow>
          if heartbeat_invalid f then (t, Inl (Stable ProtocolInvalid ''invalid heartbeat frame''))
          else (t\<lparr>tn_last_pong := now\<rparr>, Inr ())
      | _ \<Rightarrow> (t, Inl (Stable ProtocolInvalid ''frame kind is invalid in this direction'')))"

text \<open>What one pass of the loop of a reader waits for: cancellation, or the outcome of \<open>Frame::read_from\<close>.\<close>

datatype read_event = ReadCancelled | ReadOutcome nat "(relay_error, frame option) result"

text \<open>\<open>None\<close>: the loop is still waiting when the events are used up.\<close>

fun read_tunnel_frames ::
  "tunnel_session \<Rightarrow> read_event list \<Rightarrow> tunnel_session \<times> (relay_error, unit) result option" where
  "read_tunnel_frames t [] = (t, None)"
| "read_tunnel_frames t (ReadCancelled # es) = (t, Some (Inr ()))"
| "read_tunnel_frames t (ReadOutcome now (Inl e) # es) = (t, Some (Inl e))"
| "read_tunnel_frames t (ReadOutcome now (Inr None) # es) =
     (t, Some (Inl (Stable TunnelLost ''node tunnel reached EOF'')))"
| "read_tunnel_frames t (ReadOutcome now (Inr (Some f)) # es) =
     (case relay_dispatch now t f of
        (t', Inl e) \<Rightarrow> (t', Some (Inl e))
      | (t', Inr _) \<Rightarrow> read_tunnel_frames t' es)"

text \<open>How a pass of a pump ends: the loop goes on, or the pump returns.\<close>

datatype pass = Continue | Return "(relay_error, unit) result"

text \<open>
  The outcome of \<open>write_all\<close> on a socket: success, or the error and how many of the bytes went out
  before it; and the bytes that went out.
\<close>

type_synonym write_outcome = "(io_kind \<times> nat, unit) result"

definition written_bytes :: "byte list \<Rightarrow> write_outcome \<Rightarrow> byte list" where
  "written_bytes bytes w = (case w of Inl (k, n) \<Rightarrow> take n bytes | Inr _ \<Rightarrow> bytes)"

definition write_error :: "write_outcome \<Rightarrow> (relay_error, unit) result" where
  "write_error w = (case w of Inl (k, n) \<Rightarrow> Inl (Io k) | Inr _ \<Rightarrow> Inr ())"

text \<open>A tunnel that was just registered (\<open>run_tunnel\<close>).\<close>

definition new_tunnel :: "u64 \<Rightarrow> nat \<Rightarrow> tunnel_session" where
  "new_tunnel session_id now =
     \<lparr>tn_outbox = [], tn_writer = True, tn_streams = {}, tn_store = Map.empty, tn_last_pong = now,
      tn_cancelled = False, ts_id = session_id\<rparr>"

section \<open>Heartbeat\<close>

text \<open>Durations are nanoseconds.\<close>

definition NANOS :: nat where "NANOS = 1000000000"
definition from_secs :: "u64 \<Rightarrow> nat" where "from_secs s = unat s * NANOS"

text \<open>One pass of the loop of \<open>run_heartbeat\<close> after its sleep; \<open>false\<close> ends the task.\<close>

definition heartbeat_pass ::
  "server_config \<Rightarrow> route_config \<Rightarrow> tunnel_session \<Rightarrow> u64 \<Rightarrow> nat \<Rightarrow> odt \<Rightarrow> tunnel_session \<times> u64 \<times> bool" where
  "heartbeat_pass sc rc t sequence now now_utc =
     (if is_expired rc now_utc \<or> from_secs (sc_heartbeat_timeout_secs sc) < now - tn_last_pong t
      then (t\<lparr>tn_cancelled := True\<rparr>, sequence, False)
      else
        let sequence' = sequence + 1 in
        (case tunnel_send t (frame_new Ping 0 (u64_be sequence')) of
           Inl _ \<Rightarrow> (t\<lparr>tn_cancelled := True\<rparr>, sequence', False)
         | Inr t' \<Rightarrow> (t', sequence', True)))"

section \<open>Lemmas on the table\<close>

text \<open>The bytes that wait in a channel.\<close>

fun inbound_data :: "inbound list \<Rightarrow> byte list" where
  "inbound_data [] = []"
| "inbound_data (InData bs # ms) = bs @ inbound_data ms"
| "inbound_data (m # ms) = inbound_data ms"

lemma inbound_data_append [simp]: "inbound_data (ms @ ms') = inbound_data ms @ inbound_data ms'"
proof (induction ms)
  case (Cons m ms)
  then show ?case by (cases m) simp_all
qed simp

lemma tn_update_simps [simp]:
  "tn_store (tn_update t sid d) = (tn_store t)(sid \<mapsto> d)" "tn_streams (tn_update t sid d) = tn_streams t"
  "tn_outbox (tn_update t sid d) = tn_outbox t" "tn_cancelled (tn_update t sid d) = tn_cancelled t"
  "tn_writer (tn_update t sid d) = tn_writer t" "tn_last_pong (tn_update t sid d) = tn_last_pong t"
  by (simp_all add: tn_update_def)

lemma tn_insert_simps [simp]:
  "tn_store (tn_insert t sid d) = (tn_store t)(sid \<mapsto> d)" "tn_streams (tn_insert t sid d) = insert sid (tn_streams t)"
  "tn_outbox (tn_insert t sid d) = tn_outbox t" "tn_cancelled (tn_insert t sid d) = tn_cancelled t"
  "tn_writer (tn_insert t sid d) = tn_writer t"
  by (simp_all add: tn_insert_def)

lemma tn_lookup_Some: "tn_lookup t sid = Some d \<longleftrightarrow> sid \<in> tn_streams t \<and> tn_store t sid = Some d"
  by (simp add: tn_lookup_def)

lemma remove_stream_simps [simp]:
  "tn_outbox (remove_stream t sid) = tn_outbox t" "tn_cancelled (remove_stream t sid) = tn_cancelled t"
  "tn_writer (remove_stream t sid) = tn_writer t"
  by (simp_all add: remove_stream_def split: option.splits)

lemma remove_stream_listed [simp]:
  "tn_store t sid = Some d \<Longrightarrow> tn_streams (remove_stream t sid) = tn_streams t - {sid}"
  by (auto simp: remove_stream_def tn_lookup_def)

text \<open>What removal leaves of the objects: the one it removes is cancelled.\<close>

lemma remove_stream_store:
  "tn_store (remove_stream t sid) sid' =
     (if sid' = sid \<and> sid \<in> tn_streams t then map_option (\<lambda>d. d\<lparr>se_cancelled := True\<rparr>) (tn_store t sid)
      else tn_store t sid')"
  by (auto simp: remove_stream_def tn_lookup_def split: option.splits)

lemma remove_stream_other: "sid' \<noteq> sid \<Longrightarrow> sid' \<in> tn_streams (remove_stream t sid) \<longleftrightarrow> sid' \<in> tn_streams t"
  by (auto simp: remove_stream_def split: option.splits)

lemma tn_send_Inr:
  "tn_send a b t f = Inr t' \<longleftrightarrow> \<not> tn_cancelled t \<and> tn_writer t \<and> t' = t\<lparr>tn_outbox := tn_outbox t @ [f]\<rparr>"
  by (auto simp: tn_send_def)

lemma tn_send_Inl: "tn_send a b t f = Inl e \<Longrightarrow> relay_error_code e = TunnelLost"
  by (auto simp: tn_send_def split: if_splits)

lemma find_stream_Inr:
  "find_stream a t sid = Inr d \<longleftrightarrow> \<not> invalid_stream_id sid \<and> sid \<in> tn_streams t \<and> tn_store t sid = Some d"
  by (auto simp: find_stream_def tn_lookup_def split: option.splits)

lemma find_stream_Inl:
  "find_stream a t sid = Inl e \<Longrightarrow> \<not> invalid_stream_id sid \<Longrightarrow> e = Stable ProtocolInvalid ''stream is not open''"
  by (auto simp: find_stream_def split: option.splits)

lemma debit_Inr:
  "debit a d n = Inr d' \<longleftrightarrow>
     n \<le> unat (se_receive_remaining d) \<and>
     (\<exists>r. unat r = unat (se_receive_remaining d) - n \<and> d' = d\<lparr>se_receive_remaining := r\<rparr>)"
proof
  assume "debit a d n = Inr d'"
  then obtain b r where b: "u64_try_from n = Some b" and r: "checked_sub_u64 (se_receive_remaining d) b = Some r"
    and d': "d' = d\<lparr>se_receive_remaining := r\<rparr>"
    by (auto simp: debit_def split: option.splits)
  from b have "unat b = n" by (simp add: u64_try_from_Some)
  with r d' show "n \<le> unat (se_receive_remaining d) \<and>
     (\<exists>r. unat r = unat (se_receive_remaining d) - n \<and> d' = d\<lparr>se_receive_remaining := r\<rparr>)"
    by (auto simp: checked_sub_u64_Some word_le_nat_alt unat_sub_u64 intro!: exI [of _ r])
next
  assume *: "n \<le> unat (se_receive_remaining d) \<and>
     (\<exists>r. unat r = unat (se_receive_remaining d) - n \<and> d' = d\<lparr>se_receive_remaining := r\<rparr>)"
  then have "n < 2 ^ 64" using order_le_less_trans [OF _ unat_u64_less, of n "se_receive_remaining d"] by simp
  then have "u64_try_from n = Some (of_nat n)" "unat (of_nat n :: u64) = n"
    by (simp_all add: u64_try_from_def unat_of_nat)
  with * show "debit a d n = Inr d'"
    by (auto simp: debit_def checked_sub_u64_def word_le_nat_alt word_unat_eq_iff unat_sub_u64)
qed

lemma try_send_Some:
  "try_send d m = Some d' \<longleftrightarrow>
     se_receiver d \<and> length (se_inbound d) < se_capacity d \<and> d' = d\<lparr>se_inbound := se_inbound d @ [m]\<rparr>"
  by (auto simp: try_send_def)

lemma parse_u32_frame [simp]: "parse_u32 (frame_u32 k sid w) = Inr w"
  by (simp add: parse_u32_def frame_u32_def frame_new_def)

lemma frame_fields [simp]:
  "kind (frame_new k sid p) = k" "stream_id (frame_new k sid p) = sid" "payload (frame_new k sid p) = p"
  "kind (frame_u32 k sid w) = k" "stream_id (frame_u32 k sid w) = sid" "payload (frame_u32 k sid w) = u32_be w"
  "kind (frame_code k sid c) = k" "stream_id (frame_code k sid c) = sid"
  by (simp_all add: frame_new_def frame_u32_def frame_code_def)

lemma credit_consume_final:
  assumes "set ws \<subseteq> {CreditCancelled}" and "credit_consume c n ws = Some (Inr c')"
  shows "n \<le> unat c \<and> unat c' = unat c - n"
proof -
  have "credit_consume c n [] = Some (Inr c')"
    using assms by (cases ws) (auto simp: credit_consume_def consume_loop.simps split: option.splits if_splits)
  then show ?thesis by (simp add: credit_consume_now)
qed

end
