(* ===== verification/Relay_Node.thy ===== *)
theory Relay_Node
  imports Tunnel "HOL-Library.Sublist"
begin

text \<open>
  The node side of a tunnel (\<open>relay-server/src/node.rs\<close>): the configuration of the connector and its
  private token, the reconnect backoff, the registration, the dispatch of the frames the relay sends and
  the two pumps between a logical stream and the local target.
\<close>

section \<open>Configuration\<close>

definition MIN_ROUTE_TOKEN_BYTES :: nat where "MIN_ROUTE_TOKEN_BYTES = 32"
definition MAX_ROUTE_TOKEN_BYTES :: nat where "MAX_ROUTE_TOKEN_BYTES = 256"
definition NODE_MIN_FRAME_BYTES :: nat where "NODE_MIN_FRAME_BYTES = 1024"
definition NODE_MAX_FRAME_BYTES :: nat where "NODE_MAX_FRAME_BYTES = 1048576"

record node_config =
  nc_relay_address :: socket_addr
  nc_relay_server_name :: string
  nc_route_id :: string
  nc_route_token_path :: path
  nc_tls_cert_path :: path
  nc_tls_key_path :: path
  nc_relay_ca_path :: path
  nc_local_target :: socket_addr
  nc_max_frame_bytes :: nat
  nc_command_queue_frames :: nat
  nc_stream_buffer_frames :: nat
  nc_initial_window_bytes :: u32
  nc_max_streams :: nat
  nc_connect_timeout_secs :: u64
  nc_idle_timeout_secs :: u64
  nc_heartbeat_interval_secs :: u64
  nc_heartbeat_timeout_secs :: u64
  nc_reconnect_initial_ms :: u64
  nc_reconnect_max_secs :: u64

text \<open>The values a missing field of the file takes.\<close>

definition node_default_max_frame_bytes :: nat where "node_default_max_frame_bytes = 65536"
definition node_default_command_queue_frames :: nat where "node_default_command_queue_frames = 256"
definition node_default_stream_buffer_frames :: nat where "node_default_stream_buffer_frames = 16"
definition node_default_initial_window_bytes :: u32 where "node_default_initial_window_bytes = 262144"
definition node_default_max_streams :: nat where "node_default_max_streams = 16"
definition node_default_connect_timeout_secs :: u64 where "node_default_connect_timeout_secs = 10"
definition node_default_idle_timeout_secs :: u64 where "node_default_idle_timeout_secs = 1800"
definition node_default_heartbeat_interval_secs :: u64 where "node_default_heartbeat_interval_secs = 15"
definition node_default_heartbeat_timeout_secs :: u64 where "node_default_heartbeat_timeout_secs = 45"
definition node_default_reconnect_initial_ms :: u64 where "node_default_reconnect_initial_ms = 500"
definition node_default_reconnect_max_secs :: u64 where "node_default_reconnect_max_secs = 30"

definition validate_node :: "node_config \<Rightarrow> (relay_error, unit) result" where
  "validate_node c =
     (if sock_port (nc_relay_address c) = 0
      then Inl (Config ''relay_address must use a non-zero port'')
      else if \<not> ip_is_loopback (sock_ip (nc_local_target c)) \<or> sock_port (nc_local_target c) = 0
      then Inl (Config ''local_target must be a fixed loopback TCP address with a non-zero port'')
      else if length (nc_route_id c) < 16 \<or> 128 < length (nc_route_id c)
              \<or> \<not> list_all is_url_safe (nc_route_id c)
      then Inl (Config ''route_id must be 16-128 ASCII URL-safe characters'')
      else if nc_relay_server_name c = [] \<or> 253 < length (nc_relay_server_name c)
      then Inl (Config ''relay_server_name must be a bounded DNS name or IP address'')
      else if \<not> (NODE_MIN_FRAME_BYTES \<le> nc_max_frame_bytes c \<and> nc_max_frame_bytes c \<le> NODE_MAX_FRAME_BYTES)
              \<or> nc_command_queue_frames c = 0 \<or> nc_stream_buffer_frames c = 0 \<or> nc_max_streams c = 0
              \<or> unat (nc_initial_window_bytes c) < nc_max_frame_bytes c
      then Inl (Config ''connector frame, queue, stream, or flow-control bounds are invalid'')
      else if nc_connect_timeout_secs c = 0 \<or> nc_idle_timeout_secs c = 0 \<or> nc_heartbeat_interval_secs c = 0
              \<or> nc_heartbeat_timeout_secs c \<le> nc_heartbeat_interval_secs c
              \<or> nc_reconnect_initial_ms c = 0 \<or> nc_reconnect_max_secs c = 0
              \<or> unat (nc_reconnect_max_secs c) * 1000 < unat (nc_reconnect_initial_ms c)
      then Inl (Config ''connector timeouts and reconnect backoff are inconsistent'')
      else Inr ())"

text \<open>As in \<open>load_config\<close>, the outcome of reading the file, the parser and the display of the path are given.\<close>

definition load_node ::
  "(string \<Rightarrow> (string, node_config) result) \<Rightarrow> string \<Rightarrow> path \<Rightarrow> (string, byte list) result \<Rightarrow>
   (relay_error, node_config) result" where
  "load_node from_toml shown path contents =
     (case contents of
        Inl err \<Rightarrow> Inl (Config (''cannot read '' @ shown @ '': '' @ err))
      | Inr bytes \<Rightarrow>
          (case from_utf8 bytes of
             None \<Rightarrow> Inl (Config ''connector configuration is not UTF-8'')
           | Some txt \<Rightarrow>
               (case from_toml txt of
                  Inl err \<Rightarrow> Inl (Config (''invalid connector TOML: '' @ err))
                | Inr c \<Rightarrow>
                    let base = (case path_parent path of None \<Rightarrow> path_of ''.'' | Some b \<Rightarrow> b);
                        c' = c\<lparr>nc_route_token_path := rebase base (nc_route_token_path c),
                               nc_tls_cert_path := rebase base (nc_tls_cert_path c),
                               nc_tls_key_path := rebase base (nc_tls_key_path c),
                               nc_relay_ca_path := rebase base (nc_relay_ca_path c)\<rparr>
                    in rbind (validate_node c') (\<lambda>_. Inr c'))))"

section \<open>The route token\<close>

definition trim_one_line_ending :: "byte list \<Rightarrow> byte list" where
  "trim_one_line_ending v =
     (if v \<noteq> [] \<and> last v = 0x0A
      then let w = butlast v in if w \<noteq> [] \<and> last w = 0x0D then butlast w else w
      else v)"

text \<open>\<open>enforce_private_file_permissions\<close> of \<open>tls.rs\<close>, for the mode of the file or the text of the error.\<close>

definition enforce_private_file_permissions ::
  "string \<Rightarrow> (string, nat) result \<Rightarrow> (relay_error, unit) result" where
  "enforce_private_file_permissions shown mode =
     (case mode of
        Inl err \<Rightarrow> Inl (Tls (''cannot inspect '' @ shown @ '': '' @ err))
      | Inr m \<Rightarrow>
          if m mod 64 \<noteq> 0 then Inl (Tls (shown @ '' must not be accessible by group or other users''))
          else Inr ())"

definition token_ok :: "byte list \<Rightarrow> bool" where
  "token_ok token \<longleftrightarrow> MIN_ROUTE_TOKEN_BYTES \<le> length token \<and> length token \<le> MAX_ROUTE_TOKEN_BYTES
     \<and> list_all is_url_safe (bytes_str token)"

text \<open>
  \<open>RelayNodeConnector::new\<close>: \<open>client\<close> is the outcome of building the TLS client configuration, \<open>mode\<close> and
  \<open>contents\<close> what the token file gives.
\<close>

definition connector_new ::
  "node_config \<Rightarrow> (relay_error, unit) result \<Rightarrow> string \<Rightarrow> (string, nat) result \<Rightarrow> (string, byte list) result \<Rightarrow>
   (relay_error, byte list) result" where
  "connector_new c client shown mode contents =
     rbind (validate_node c) (\<lambda>_.
     rbind client (\<lambda>_.
     rbind (enforce_private_file_permissions shown mode) (\<lambda>_.
       (case contents of
          Inl err \<Rightarrow> Inl (Config (''cannot read route token '' @ shown @ '': '' @ err))
        | Inr bytes \<Rightarrow>
            let token = trim_one_line_ending bytes in
            if token_ok token then Inr token
            else Inl (Config ''route token must be 32-256 ASCII URL-safe characters'')))))"

section \<open>Reconnecting\<close>

text \<open>Durations are nanoseconds; \<open>saturating_mul\<close> stops at \<open>Duration::MAX\<close>.\<close>

definition DURATION_MAX :: nat where "DURATION_MAX = 2 ^ 64 * NANOS - 1"

definition from_millis :: "u64 \<Rightarrow> nat" where "from_millis m = unat m * 1000000"

record backoff =
  bo_initial :: nat
  bo_maximum :: nat
  bo_next :: nat

definition backoff_new :: "nat \<Rightarrow> nat \<Rightarrow> backoff" where
  "backoff_new initial maximum = \<lparr>bo_initial = initial, bo_maximum = maximum, bo_next = initial\<rparr>"

definition next_delay :: "backoff \<Rightarrow> nat \<times> backoff" where
  "next_delay b = (bo_next b, b\<lparr>bo_next := min (min (bo_next b * 2) DURATION_MAX) (bo_maximum b)\<rparr>)"

definition backoff_reset :: "backoff \<Rightarrow> backoff" where
  "backoff_reset b = b\<lparr>bo_next := bo_initial b\<rparr>"

datatype connector_status = Disconnected | Connecting | Registered | Backoff nat | Stopped

text \<open>
  The loop of \<open>run\<close>. Each session is how long it ran and whether the shutdown came: before it, during it,
  during the sleep after it, or not. The result is what the status channel showed, the delays included;
  \<open>Registered\<close> is shown by the session itself.
\<close>

datatype session_end = ShutdownBefore | ShutdownDuring | ShutdownAsleep nat | SessionEnded nat

definition after_session :: "node_config \<Rightarrow> nat \<Rightarrow> backoff \<Rightarrow> nat \<times> backoff" where
  "after_session c elapsed b =
     next_delay (if from_secs (nc_heartbeat_timeout_secs c) \<le> elapsed then backoff_reset b else b)"

fun connector_loop :: "node_config \<Rightarrow> backoff \<Rightarrow> session_end list \<Rightarrow> connector_status list" where
  "connector_loop c b [] = []"
| "connector_loop c b (ShutdownBefore # es) = [Stopped]"
| "connector_loop c b (ShutdownDuring # es) = [Connecting, Stopped]"
| "connector_loop c b (ShutdownAsleep elapsed # es) =
     [Connecting, Backoff (fst (after_session c elapsed b)), Stopped]"
| "connector_loop c b (SessionEnded elapsed # es) =
     Connecting # Backoff (fst (after_session c elapsed b)) #
     connector_loop c (snd (after_session c elapsed b)) es"

definition connector_run :: "node_config \<Rightarrow> session_end list \<Rightarrow> connector_status list" where
  "connector_run c es =
     connector_loop c (backoff_new (from_millis (nc_reconnect_initial_ms c)) (from_secs (nc_reconnect_max_secs c))) es"

section \<open>Registration\<close>

text \<open>
  What the network gives a session, in the order \<open>run_session\<close> asks for it; \<open>None\<close> where the timer fired
  first. \<open>si_tls\<close> is the negotiated application protocol or the text of the error.
\<close>

record session_io =
  si_connect :: "(io_kind, unit) result option"
  si_nodelay :: "(io_kind, unit) result"
  si_server_name :: bool
  si_tls :: "(string, string option) result option"
  si_write :: "(io_kind, unit) result"
  si_response :: "(relay_error, frame option) result option"

definition timed :: "string \<Rightarrow> 'a option \<Rightarrow> (relay_error, 'a) result" where
  "timed message r = (case r of None \<Rightarrow> Inl (Stable OpenTimeout message) | Some x \<Rightarrow> Inr x)"

definition io_result :: "(io_kind, 'a) result \<Rightarrow> (relay_error, 'a) result" where
  "io_result r = (case r of Inl k \<Rightarrow> Inl (Io k) | Inr x \<Rightarrow> Inr x)"

definition registration_response :: "frame \<Rightarrow> (relay_error, unit) result" where
  "registration_response response =
     (if kind response = RegisterOk \<and> stream_id response = 0
      then rbind (parse_u32 response) (\<lambda>_. Inr ())
      else if kind response = Error \<and> stream_id response = 0
      then Inl (Stable (case from_wire (payload response) of None \<Rightarrow> Internal | Some c \<Rightarrow> c)
             ''relay rejected route registration'')
      else Inl (Stable ProtocolInvalid ''relay returned an invalid registration response''))"

text \<open>The bytes written to the relay, and whether the route was registered.\<close>

definition run_session ::
  "node_config \<Rightarrow> byte list \<Rightarrow> session_io \<Rightarrow> byte list \<times> (relay_error, unit) result" where
  "run_session c token sio =
     (case rbind (timed ''relay TCP connect timed out'' (si_connect sio)) (\<lambda>connected.
           rbind (io_result connected) (\<lambda>_.
           rbind (io_result (si_nodelay sio)) (\<lambda>_.
           rbind (if si_server_name sio then Inr () else Inl (Config ''relay_server_name is invalid'')) (\<lambda>_.
           rbind (timed ''relay TLS handshake timed out'' (si_tls sio)) (\<lambda>handshake.
           rbind (case handshake of Inl err \<Rightarrow> Inl (Tls (''relay TLS handshake failed: '' @ err)) | Inr alpn \<Rightarrow> Inr alpn) (\<lambda>alpn.
           rbind (if alpn = Some ''pn-relay-v1'' then Inr ()
                  else Inl (Stable ProtocolInvalid ''required relay ALPN was not negotiated'')) (\<lambda>_.
           rbind (frame_register (nc_route_id c) token) (\<lambda>register.
             write_to register (nc_max_frame_bytes c))))))))) of
        Inl e \<Rightarrow> ([], Inl e)
      | Inr bytes \<Rightarrow>
          (case si_write sio of
             Inl k \<Rightarrow> ([], Inl (Io k))
           | Inr _ \<Rightarrow>
               (bytes,
                rbind (timed ''relay registration timed out'' (si_response sio)) (\<lambda>r.
                rbind r (\<lambda>response.
                  (case response of
                     None \<Rightarrow> Inl (Stable TunnelLost ''relay closed registration'')
                   | Some f \<Rightarrow> registration_response f))))))"

section \<open>Frames from the relay\<close>

text \<open>\<open>NodeTunnel\<close>, with the free permits of the semaphore that bounds its streams.\<close>

record node_tunnel = "unit tunnel" +
  nt_free_slots :: nat

definition node_send :: "node_tunnel \<Rightarrow> frame \<Rightarrow> (relay_error, node_tunnel) result" where
  "node_send t f = tn_send ''relay tunnel is closed'' ''relay tunnel writer stopped'' t f"

definition node_stream :: "node_tunnel \<Rightarrow> u64 \<Rightarrow> (relay_error, stream_end) result" where
  "node_stream t sid = find_stream ''relay used an invalid stream identifier'' t sid"

definition debit_window :: "stream_end \<Rightarrow> nat \<Rightarrow> (relay_error, stream_end) result" where
  "debit_window s bytes = debit ''relay exceeded the stream receive window'' s bytes"

definition new_node_stream :: "node_config \<Rightarrow> u32 \<Rightarrow> stream_end" where
  "new_node_stream c peer_window =
     \<lparr>se_inbound = [], se_capacity = nc_stream_buffer_frames c, se_receiver = True,
      se_receive_remaining = ucast (nc_initial_window_bytes c), se_send_credit = credit_new peer_window,
      se_cancelled = False\<rparr>"

text \<open>
  A refused reuse of an identifier returns after the table was overwritten; the permit is dropped then.
\<close>

definition node_open :: "node_config \<Rightarrow> node_tunnel \<Rightarrow> frame \<Rightarrow> node_tunnel \<times> (relay_error, unit) result" where
  "node_open c t f =
     (case parse_u32 f of
        Inl e \<Rightarrow> (t, Inl e)
      | Inr peer_window \<Rightarrow>
          if peer_window = 0 \<or> invalid_stream_id (stream_id f)
          then (t, Inl (Stable ProtocolInvalid ''relay sent an invalid stream open''))
          else if nt_free_slots t = 0
          then (case node_send t (frame_code OpenError (stream_id f) LimitReached) of
                  Inl e \<Rightarrow> (t, Inl e)
                | Inr t' \<Rightarrow> (t', Inr ()))
          else
            let t' = tn_insert t (stream_id f) (new_node_stream c peer_window) in
            if tn_lookup t (stream_id f) \<noteq> None
            then (t', Inl (Stable ProtocolInvalid ''relay reused an open stream identifier''))
            else (t'\<lparr>nt_free_slots := nt_free_slots t - 1\<rparr>, Inr ()))"

definition node_data :: "node_tunnel \<Rightarrow> frame \<Rightarrow> node_tunnel \<times> (relay_error, unit) result" where
  "node_data t f =
     (case node_stream t (stream_id f) of
        Inl e \<Rightarrow> (t, Inl e)
      | Inr s \<Rightarrow>
          (case debit_window s (length (payload f)) of
             Inl e \<Rightarrow> (t, Inl e)
           | Inr s1 \<Rightarrow>
               let t1 = tn_update t (stream_id f) s1 in
               (case try_send s1 (InData (payload f)) of
                  Some s2 \<Rightarrow> (tn_update t1 (stream_id f) s2, Inr ())
                | None \<Rightarrow>
                    (case node_send t1 (frame_code Close (stream_id f) LimitReached) of
                       Inl e \<Rightarrow> (t1, Inl e)
                     | Inr t2 \<Rightarrow> (remove_stream t2 (stream_id f), Inr ())))))"

definition node_fin :: "node_tunnel \<Rightarrow> frame \<Rightarrow> node_tunnel \<times> (relay_error, unit) result" where
  "node_fin t f =
     (case node_stream t (stream_id f) of
        Inl e \<Rightarrow> (t, Inl e)
      | Inr s \<Rightarrow>
          (case try_send s InFin of
             Some s' \<Rightarrow> (tn_update t (stream_id f) s', Inr ())
           | None \<Rightarrow> (remove_stream t (stream_id f), Inr ())))"

definition node_close :: "node_tunnel \<Rightarrow> frame \<Rightarrow> node_tunnel \<times> (relay_error, unit) result" where
  "node_close t f =
     (let t1 = (case node_stream t (stream_id f) of
                  Inl _ \<Rightarrow> t
                | Inr s \<Rightarrow> (case try_send s InClose of Some s' \<Rightarrow> tn_update t (stream_id f) s' | None \<Rightarrow> t))
      in (remove_stream t1 (stream_id f), Inr ()))"

definition node_window_update :: "node_tunnel \<Rightarrow> frame \<Rightarrow> node_tunnel \<times> (relay_error, unit) result" where
  "node_window_update t f =
     (case node_stream t (stream_id f) of
        Inl e \<Rightarrow> (t, Inl e)
      | Inr s \<Rightarrow>
          (case rbind (parse_u32 f) (credit_add (se_send_credit s)) of
             Inl e \<Rightarrow> (t, Inl e)
           | Inr c \<Rightarrow> (tn_update t (stream_id f) (s\<lparr>se_send_credit := c\<rparr>), Inr ())))"

definition node_dispatch ::
  "node_config \<Rightarrow> nat \<Rightarrow> node_tunnel \<Rightarrow> frame \<Rightarrow> node_tunnel \<times> (relay_error, unit) result" where
  "node_dispatch c now t f =
     (case kind f of
        Open \<Rightarrow> node_open c t f
      | Data \<Rightarrow> node_data t f
      | Fin \<Rightarrow> node_fin t f
      | Close \<Rightarrow> node_close t f
      | WindowUpdate \<Rightarrow> node_window_update t f
      | Ping \<Rightarrow>
          if heartbeat_invalid f then (t, Inl (Stable ProtocolInvalid ''relay heartbeat is invalid''))
          else (case node_send t (frame_new Pong 0 (payload f)) of Inl e \<Rightarrow> (t, Inl e) | Inr t' \<Rightarrow> (t', Inr ()))
      | Pong \<Rightarrow>
          if heartbeat_invalid f then (t, Inl (Stable ProtocolInvalid ''relay heartbeat is invalid''))
          else (t\<lparr>tn_last_pong := now\<rparr>, Inr ())
      | Error \<Rightarrow>
          (t, Inl (Stable (case from_wire (payload f) of None \<Rightarrow> Internal | Some code \<Rightarrow> code) ''relay closed the tunnel''))
      | _ \<Rightarrow> (t, Inl (Stable ProtocolInvalid ''frame kind is invalid in this direction'')))"

fun read_relay_frames ::
  "node_config \<Rightarrow> node_tunnel \<Rightarrow> read_event list \<Rightarrow> node_tunnel \<times> (relay_error, unit) result option" where
  "read_relay_frames c t [] = (t, None)"
| "read_relay_frames c t (ReadCancelled # es) = (t, Some (Inr ()))"
| "read_relay_frames c t (ReadOutcome now (Inl e) # es) = (t, Some (Inl e))"
| "read_relay_frames c t (ReadOutcome now (Inr None) # es) =
     (t, Some (Inl (Stable TunnelLost ''relay tunnel reached EOF'')))"
| "read_relay_frames c t (ReadOutcome now (Inr (Some f)) # es) =
     (case node_dispatch c now t f of
        (t', Inl e) \<Rightarrow> (t', Some (Inl e))
      | (t', Inr _) \<Rightarrow> read_relay_frames c t' es)"

text \<open>\<open>serve_node_tunnel\<close>: a fresh tunnel, the reader, and the teardown when the reader returns.\<close>

definition new_node_tunnel :: "node_config \<Rightarrow> nat \<Rightarrow> node_tunnel" where
  "new_node_tunnel c now =
     \<lparr>tn_outbox = [], tn_writer = True, tn_streams = {}, tn_store = Map.empty, tn_last_pong = now,
      tn_cancelled = False, nt_free_slots = nc_max_streams c\<rparr>"

definition serve_node_tunnel ::
  "node_config \<Rightarrow> nat \<Rightarrow> read_event list \<Rightarrow> node_tunnel \<times> (relay_error, unit) result option" where
  "serve_node_tunnel c now es =
     (case read_relay_frames c (new_node_tunnel c now) es of
        (t, None) \<Rightarrow> (t, None)
      | (t, Some r) \<Rightarrow> (cancel_all_streams (t\<lparr>tn_cancelled := True\<rparr>), Some r))"

definition node_heartbeat_pass :: "node_config \<Rightarrow> node_tunnel \<Rightarrow> u64 \<Rightarrow> nat \<Rightarrow> node_tunnel \<times> u64 \<times> bool" where
  "node_heartbeat_pass c t sequence now =
     (if from_secs (nc_heartbeat_timeout_secs c) < now - tn_last_pong t
      then (t\<lparr>tn_cancelled := True\<rparr>, sequence, False)
      else
        let sequence' = sequence + 1 in
        (case node_send t (frame_new Ping 0 (u64_be sequence')) of
           Inl _ \<Rightarrow> (t\<lparr>tn_cancelled := True\<rparr>, sequence', False)
         | Inr t' \<Rightarrow> (t', sequence', True)))"

section \<open>The task of a stream\<close>

text \<open>
  \<open>run_local_stream\<close> connects to the target, answers the relay, runs both pumps and closes the stream.
  The permit returns when the task ends.
\<close>

definition release_slot :: "node_tunnel \<Rightarrow> node_tunnel" where
  "release_slot t = t\<lparr>nt_free_slots := nt_free_slots t + 1\<rparr>"

definition local_refused :: "node_tunnel \<Rightarrow> u64 \<Rightarrow> node_tunnel" where
  "local_refused t sid =
     release_slot (remove_stream
       (case node_send t (frame_code OpenError sid RouteUnavailable) of Inl _ \<Rightarrow> t | Inr t' \<Rightarrow> t') sid)"

text \<open>\<open>true\<close>: the pumps run now.\<close>

definition local_connected :: "node_config \<Rightarrow> node_tunnel \<Rightarrow> u64 \<Rightarrow> (io_kind, unit) result \<Rightarrow> node_tunnel \<times> bool" where
  "local_connected c t sid nodelay =
     (case rbind (io_result nodelay) (\<lambda>_. node_send t (frame_u32 OpenOk sid (nc_initial_window_bytes c))) of
        Inl _ \<Rightarrow> (release_slot (remove_stream t sid), False)
      | Inr t' \<Rightarrow> (t', True))"

definition local_finished :: "node_tunnel \<Rightarrow> u64 \<Rightarrow> node_tunnel" where
  "local_finished t sid =
     (let t1 = remove_stream t sid in
      release_slot (case node_send t1 (frame_code Close sid TunnelLost) of Inl _ \<Rightarrow> t1 | Inr t2 \<Rightarrow> t2))"

text \<open>What \<open>pump_relay_to_target\<close> does with a block of data it took from the channel and wrote to the target.\<close>

definition upload_data ::
  "node_tunnel \<Rightarrow> u64 \<Rightarrow> stream_end \<Rightarrow> byte list \<Rightarrow> write_outcome \<Rightarrow> node_tunnel \<times> pass" where
  "upload_data t sid s bytes written =
     (case write_error written of
        Inl e \<Rightarrow> (t, Return (Inl e))
      | Inr _ \<Rightarrow>
          (case u32_try_from (length bytes) of
             None \<Rightarrow> (t, Return (Inl (Stable FrameTooLarge ''payload cannot update flow window'')))
           | Some amount \<Rightarrow>
               let t1 = tn_update t sid (s\<lparr>se_receive_remaining := se_receive_remaining s + ucast amount\<rparr>) in
               (case node_send t1 (frame_u32 WindowUpdate sid amount) of
                  Inl e \<Rightarrow> (t1, Return (Inl e))
                | Inr t2 \<Rightarrow> (t2, Continue))))"

text \<open>
  One pass of \<open>pump_relay_to_target\<close> for the stream object \<open>s\<close>, and the bytes that went to the target.
  \<open>written\<close> is the outcome of the write or of the shutdown of the socket, \<open>cancelled\<close> tells whether the wait
  ended by cancellation, and \<open>None\<close> that it has not ended.
\<close>

definition pump_relay_to_target ::
  "node_tunnel \<Rightarrow> u64 \<Rightarrow> stream_end \<Rightarrow> bool \<Rightarrow> write_outcome \<Rightarrow> (byte list \<times> node_tunnel \<times> pass) option" where
  "pump_relay_to_target t sid s cancelled written =
     (if cancelled then Some ([], t, Return (Inr ()))
      else
        (case se_inbound s of
           [] \<Rightarrow> None
         | InData bytes # rest \<Rightarrow>
             let s1 = s\<lparr>se_inbound := rest\<rparr> in
             Some (written_bytes bytes written, upload_data (tn_update t sid s1) sid s1 bytes written)
         | InFin # rest \<Rightarrow>
             Some ([], tn_update t sid (s\<lparr>se_inbound := rest\<rparr>), Return (write_error written))
         | InClose # rest \<Rightarrow> Some ([], tn_update t sid (s\<lparr>se_inbound := rest\<rparr>), Return (Inr ()))))"

text \<open>
  One pass of \<open>pump_target_to_relay\<close>: what the read of the target gave, and what wakes the wait for
  credit; \<open>None\<close> where it still waits.
\<close>

definition pump_target_to_relay ::
  "node_tunnel \<Rightarrow> u64 \<Rightarrow> stream_end \<Rightarrow> bool \<Rightarrow> (io_kind, byte list) result \<Rightarrow> credit_wake list \<Rightarrow>
   (node_tunnel \<times> pass) option" where
  "pump_target_to_relay t sid s cancelled target wakes =
     (if cancelled then Some (t, Return (Inr ()))
      else
        (case target of
           Inl k \<Rightarrow> Some (t, Return (Inl (Io k)))
         | Inr bytes \<Rightarrow>
             if bytes = []
             then (case node_send t (frame_new Fin sid []) of
                     Inl e \<Rightarrow> Some (t, Return (Inl e))
                   | Inr t' \<Rightarrow> Some (t', Return (Inr ())))
             else
               (case credit_consume (se_send_credit s) (length bytes) wakes of
                  None \<Rightarrow> None
                | Some (Inl e) \<Rightarrow> Some (t, Return (Inl e))
                | Some (Inr credit) \<Rightarrow>
                    let t1 = tn_update t sid (s\<lparr>se_send_credit := credit\<rparr>) in
                    (case node_send t1 (frame_new Data sid bytes) of
                       Inl e \<Rightarrow> Some (t1, Return (Inl e))
                     | Inr t2 \<Rightarrow> Some (t2, Continue)))))"

text \<open>One pass of \<open>watch_local_stream\<close>; \<open>activity\<close> is the clock reading of the last payload.\<close>

definition watch_local_stream :: "node_config \<Rightarrow> bool \<Rightarrow> nat \<Rightarrow> nat \<Rightarrow> pass" where
  "watch_local_stream c cancelled activity now =
     (if cancelled then Return (Inr ())
      else if from_secs (nc_idle_timeout_secs c) < now - activity
      then Return (Inl (Stable IdleTimeout ''local relay stream exceeded its idle timeout''))
      else Continue)"

section \<open>What a pass does\<close>

lemma pump_target_to_relay_effect:
  assumes pump: "pump_target_to_relay t sid s cancelled target wakes = Some (t', p)"
    and wakes: "set wakes \<subseteq> {CreditCancelled}"
  obtains (same) "t' = t"
  | (ended) a b where "tn_send a b t (frame_new Fin sid []) = Inr t'"
  | (lost) c e where "unat c \<le> unat (se_send_credit s)" "t' = tn_update t sid (s\<lparr>se_send_credit := c\<rparr>)" "p = Return (Inl e)"
  | (sent) c bs a b where "unat c + length bs = unat (se_send_credit s)" "bs \<noteq> []"
      "tn_send a b (tn_update t sid (s\<lparr>se_send_credit := c\<rparr>)) (frame_new Data sid bs) = Inr t'"
proof -
  consider "t' = t" | bytes where "\<not> cancelled" "target = Inr bytes" "t' \<noteq> t"
    using pump by (cases target) (auto simp: pump_target_to_relay_def split: if_splits)
  then show thesis
  proof cases
    case 1
    then show thesis by (rule same)
  next
    case (2 bytes)
    show thesis
    proof (cases "bytes = []")
      case True
      then show thesis using 2 pump ended
        by (auto simp: pump_target_to_relay_def node_send_def split: sum.splits)
    next
      case False
      then obtain c where cons: "credit_consume (se_send_credit s) (length bytes) wakes = Some (Inr c)"
        and snd: "(\<exists>e. p = Return (Inl e)) \<and> t' = tn_update t sid (s\<lparr>se_send_credit := c\<rparr>) \<or>
          node_send (tn_update t sid (s\<lparr>se_send_credit := c\<rparr>)) (frame_new Data sid bytes) = Inr t'"
        using 2 pump by (auto simp: pump_target_to_relay_def Let_def split: option.splits sum.splits)
      have c: "length bytes \<le> unat (se_send_credit s)" "unat c = unat (se_send_credit s) - length bytes"
        using credit_consume_final [OF wakes cons] by simp_all
      from snd show thesis
      proof
        assume "(\<exists>e. p = Return (Inl e)) \<and> t' = tn_update t sid (s\<lparr>se_send_credit := c\<rparr>)"
        then show thesis using c lost [of c] by auto
      next
        assume "node_send (tn_update t sid (s\<lparr>se_send_credit := c\<rparr>)) (frame_new Data sid bytes) = Inr t'"
        then show thesis using c sent [of c bytes] False by (auto simp: node_send_def)
      qed
    qed
  qed
qed

lemma pump_relay_to_target_effect:
  assumes pump: "pump_relay_to_target t sid s cancelled written = Some (out, t', p)"
  obtains (same) r where "t' = t" "out = []" "p = Return r"
  | (control) m rest r where "se_inbound s = m # rest" "inbound_data [m] = []" "out = []" "p = Return r"
      "t' = tn_update t sid (s\<lparr>se_inbound := rest\<rparr>)"
  | (stopped) bytes rest s' amount e where "se_inbound s = InData bytes # rest" "prefix out bytes" "p = Return (Inl e)"
      "s' = s\<lparr>se_inbound := rest, se_receive_remaining := se_receive_remaining s + ucast (amount :: u32)\<rparr>"
      "unat amount \<le> length bytes" "t' = tn_update t sid s'"
  | (told) bytes rest s' amount a b where "se_inbound s = InData bytes # rest"
      "s' = s\<lparr>se_inbound := rest, se_receive_remaining := se_receive_remaining s + ucast (amount :: u32)\<rparr>"
      "unat amount = length bytes" "out = bytes" "p = Continue"
      "tn_send a b (tn_update t sid s') (frame_u32 WindowUpdate sid amount) = Inr t'"
proof -
  have upd: "tn_update (tn_update t sid x) sid y = tn_update t sid y" for x y
    by (simp add: tn_update_def)
  consider "cancelled" | m rest where "\<not> cancelled" "se_inbound s = m # rest" "inbound_data [m] = []" "\<forall>bs. m \<noteq> InData bs"
    | bytes rest where "\<not> cancelled" "se_inbound s = InData bytes # rest"
    using pump by (cases "se_inbound s") (auto simp: pump_relay_to_target_def split: inbound.splits if_splits)
  then show thesis
  proof cases
    case 1
    then show thesis using pump same [of "Inr ()"] by (auto simp: pump_relay_to_target_def)
  next
    case (2 m rest)
    then show thesis using pump control by (cases m) (auto simp: pump_relay_to_target_def)
  next
    case (3 bytes rest)
    let ?s = "s\<lparr>se_inbound := rest\<rparr>"
    have up: "upload_data (tn_update t sid ?s) sid ?s bytes written = (t', p)" "out = written_bytes bytes written"
      using 3 pump by (simp_all add: pump_relay_to_target_def Let_def)
    show thesis
    proof (cases "write_error written = Inr () \<and> length bytes < 2 ^ 32")
      case False
      then have "prefix out bytes" "t' = tn_update t sid ?s" "\<exists>e. p = Return (Inl e)"
        using up by (auto simp: upload_data_def written_bytes_def write_error_def rust_int take_is_prefix
            split: option.splits sum.splits prod.splits)
      then show thesis using 3 stopped [of bytes rest _ ?s 0] by auto
    next
      case True
      then obtain amount where am: "u32_try_from (length bytes) = Some amount" "unat amount = length bytes"
        by (auto simp: u32_try_from_def unat_of_nat)
      have out: "out = bytes"
        using True up by (auto simp: written_bytes_def write_error_def split: sum.splits prod.splits)
      let ?s' = "s\<lparr>se_inbound := rest, se_receive_remaining := se_receive_remaining s + ucast amount\<rparr>"
      show thesis
      proof (cases "node_send (tn_update t sid ?s') (frame_u32 WindowUpdate sid amount)")
        case (Inl e)
        then have "t' = tn_update t sid ?s'" "p = Return (Inl e)"
          using True up am upd by (auto simp: upload_data_def Let_def)
        then show thesis using 3 stopped [of bytes rest e ?s' amount] out am by simp
      next
        case (Inr t2)
        then have "t' = t2" "p = Continue"
          using True up am upd by (auto simp: upload_data_def Let_def)
        then show thesis using 3 told [of bytes rest ?s' amount] out am Inr by (auto simp: node_send_def)
      qed
    qed
  qed
qed

section \<open>A configuration with the default values\<close>

definition demo_node :: node_config where
  "demo_node = \<lparr>nc_relay_address = demo_addr 7443, nc_relay_server_name = ''localhost'', nc_route_id = ''grant_0123456789abcdef'',
     nc_route_token_path = path_of ''/t'', nc_tls_cert_path = path_of ''/c'', nc_tls_key_path = path_of ''/k'',
     nc_relay_ca_path = path_of ''/a'', nc_local_target = demo_addr 443,
     nc_max_frame_bytes = node_default_max_frame_bytes, nc_command_queue_frames = node_default_command_queue_frames,
     nc_stream_buffer_frames = node_default_stream_buffer_frames, nc_initial_window_bytes = node_default_initial_window_bytes,
     nc_max_streams = node_default_max_streams, nc_connect_timeout_secs = node_default_connect_timeout_secs,
     nc_idle_timeout_secs = node_default_idle_timeout_secs, nc_heartbeat_interval_secs = node_default_heartbeat_interval_secs,
     nc_heartbeat_timeout_secs = node_default_heartbeat_timeout_secs,
     nc_reconnect_initial_ms = node_default_reconnect_initial_ms, nc_reconnect_max_secs = node_default_reconnect_max_secs\<rparr>"

lemmas node_default_defs =
  node_default_max_frame_bytes_def node_default_command_queue_frames_def node_default_stream_buffer_frames_def
  node_default_initial_window_bytes_def node_default_max_streams_def node_default_connect_timeout_secs_def
  node_default_idle_timeout_secs_def node_default_heartbeat_interval_secs_def node_default_heartbeat_timeout_secs_def
  node_default_reconnect_initial_ms_def node_default_reconnect_max_secs_def

lemma demo_node_valid: "validate_node demo_node = Inr ()"
  by (simp add: validate_node_def demo_node_def node_default_defs demo_addr_def
      NODE_MIN_FRAME_BYTES_def NODE_MAX_FRAME_BYTES_def is_url_safe_def ascii_class_defs)

end
