(* ===== verification/Relay_Metrics.thy ===== *)
theory Relay_Metrics
  imports Rust_Std Ordered_Map
begin

text \<open>
  The counters of the relay and their exposition (\<open>relay-server/src/metrics.rs\<close>). The objects behind
  \<open>Arc\<close> live in a store; the map of the routes holds their positions, so that a route that was removed
  and its running sessions keep the object they share.
\<close>

record route_metrics =
  rm_active_tunnels :: u64
  rm_active_streams :: u64
  rm_accepted_streams :: u64
  rm_refused_streams :: u64
  rm_bytes_member_to_node :: u64
  rm_bytes_node_to_member :: u64
  rm_tunnel_replacements :: u64

definition route_metrics_default :: route_metrics where
  "route_metrics_default =
     \<lparr>rm_active_tunnels = 0, rm_active_streams = 0, rm_accepted_streams = 0, rm_refused_streams = 0,
      rm_bytes_member_to_node = 0, rm_bytes_node_to_member = 0, rm_tunnel_replacements = 0\<rparr>"

record metrics =
  mx_routes :: "(string \<times> nat) list"
  mx_store :: "route_metrics list"
  mx_auth_failures :: u64
  mx_protocol_failures :: u64
  mx_config_reload_failures :: u64

definition metrics_default :: metrics where
  "metrics_default = \<lparr>mx_routes = [], mx_store = [], mx_auth_failures = 0, mx_protocol_failures = 0,
     mx_config_reload_failures = 0\<rparr>"

definition metrics_route :: "metrics \<Rightarrow> string \<Rightarrow> metrics \<times> nat" where
  "metrics_route m route_id =
     (case map_of (mx_routes m) route_id of
        Some a \<Rightarrow> (m, a)
      | None \<Rightarrow>
          let a = length (mx_store m) in
          (m\<lparr>mx_routes := bt_insert route_id a (mx_routes m), mx_store := mx_store m @ [route_metrics_default]\<rparr>, a))"

definition metrics_remove_route :: "metrics \<Rightarrow> string \<Rightarrow> metrics" where
  "metrics_remove_route m route_id = m\<lparr>mx_routes := bt_remove route_id (mx_routes m)\<rparr>"

definition record_auth_failure :: "metrics \<Rightarrow> metrics" where
  "record_auth_failure m = m\<lparr>mx_auth_failures := mx_auth_failures m + 1\<rparr>"

definition record_protocol_failure :: "metrics \<Rightarrow> metrics" where
  "record_protocol_failure m = m\<lparr>mx_protocol_failures := mx_protocol_failures m + 1\<rparr>"

definition record_reload_failure :: "metrics \<Rightarrow> metrics" where
  "record_reload_failure m = m\<lparr>mx_config_reload_failures := mx_config_reload_failures m + 1\<rparr>"

text \<open>An update through one of the shared objects.\<close>

definition metrics_at :: "metrics \<Rightarrow> nat \<Rightarrow> (route_metrics \<Rightarrow> route_metrics) \<Rightarrow> metrics" where
  "metrics_at m a f = m\<lparr>mx_store := (mx_store m)[a := f (mx_store m ! a)]\<rparr>"

section \<open>Labels\<close>

text \<open>\<open>char::escape_default\<close>.\<close>

definition escape_default :: "nat \<Rightarrow> string" where
  "escape_default n =
     (if n = 9 then [CHR 0x5C, CHR ''t'']
      else if n = 13 then [CHR 0x5C, CHR ''r'']
      else if n = 10 then [CHR 0x5C, CHR ''n'']
      else if n = 39 \<or> n = 34 \<or> n = 92 then [CHR 0x5C, char_of n]
      else if 32 \<le> n \<and> n \<le> 126 then [char_of n]
      else [CHR 0x5C, CHR ''u'', CHR ''{''] @ show_hex n @ [CHR ''}''])"

definition prometheus_label :: "string \<Rightarrow> string" where
  "prometheus_label v = concat (map escape_default (utf8_chars (str_bytes v)))"

section \<open>Exposition\<close>

definition line :: "string \<Rightarrow> string" where
  "line s = s @ [CHR 0x0A]"

definition global_lines :: "string \<Rightarrow> u64 \<Rightarrow> string" where
  "global_lines name v =
     line (''# TYPE '' @ name @ '' counter'') @ line (name @ '' '' @ show_nat (unat v))"

definition route_line :: "string \<Rightarrow> string \<times> u64 \<Rightarrow> string" where
  "route_line label nv =
     line (fst nv @ ''{route_id='' @ [CHR 0x22] @ label @ [CHR 0x22] @ ''} '' @ show_nat (unat (snd nv)))"

definition route_values :: "route_metrics \<Rightarrow> (string \<times> u64) list" where
  "route_values m =
     [(''relay_route_active_tunnels'', rm_active_tunnels m),
      (''relay_route_active_streams'', rm_active_streams m),
      (''relay_route_accepted_streams_total'', rm_accepted_streams m),
      (''relay_route_refused_streams_total'', rm_refused_streams m),
      (''relay_route_bytes_member_to_node_total'', rm_bytes_member_to_node m),
      (''relay_route_bytes_node_to_member_total'', rm_bytes_node_to_member m),
      (''relay_route_tunnel_replacements_total'', rm_tunnel_replacements m)]"

definition render :: "metrics \<Rightarrow> string" where
  "render m =
     global_lines ''relay_auth_failures_total'' (mx_auth_failures m)
     @ global_lines ''relay_protocol_failures_total'' (mx_protocol_failures m)
     @ global_lines ''relay_config_reload_failures_total'' (mx_config_reload_failures m)
     @ concat (map (\<lambda>(route_id, a).
         concat (map (route_line (prometheus_label route_id)) (route_values (mx_store m ! a)))) (mx_routes m))"

section \<open>The listener\<close>

definition trim_end_cr :: "string \<Rightarrow> string" where
  "trim_end_cr s = rev (dropWhile (\<lambda>c. c = CHR 0x0D) (rev s))"

text \<open>The first line of what one read of at most 2048 bytes gave.\<close>

definition request_line :: "byte list \<Rightarrow> string" where
  "request_line request =
     trim_end_cr (case from_utf8 (takeWhile (\<lambda>b. b \<noteq> 0x0A) request) of None \<Rightarrow> [] | Some l \<Rightarrow> l)"

definition CRLF :: string where "CRLF = [CHR 0x0D, CHR 0x0A]"

definition metrics_answer :: "metrics \<Rightarrow> string \<Rightarrow> string \<times> string \<times> string" where
  "metrics_answer m first_line =
     (if first_line = ''GET /metrics HTTP/1.1'' \<or> first_line = ''GET /metrics HTTP/1.0''
      then (''200 OK'', ''text/plain; version=0.0.4; charset=utf-8'', render m)
      else if first_line = ''GET /healthz HTTP/1.1'' \<or> first_line = ''GET /healthz HTTP/1.0''
      then (''200 OK'', ''text/plain; charset=utf-8'', line ''ok'')
      else (''404 Not Found'', ''text/plain; charset=utf-8'', line ''not found''))"

definition metrics_response :: "metrics \<Rightarrow> byte list \<Rightarrow> string" where
  "metrics_response m request =
     (case metrics_answer m (request_line request) of
        (status, content_type, body) \<Rightarrow>
          ''HTTP/1.1 '' @ status @ CRLF @ ''Content-Type: '' @ content_type @ CRLF
          @ ''Content-Length: '' @ show_nat (length body) @ CRLF @ ''Connection: close'' @ CRLF @ CRLF @ body)"

section \<open>The shape of the exposition\<close>

text \<open>Printable characters of ASCII, and the line feeds of a text.\<close>

definition printable :: "char \<Rightarrow> bool" where
  "printable c \<longleftrightarrow> 32 \<le> (of_char c :: nat) \<and> (of_char c :: nat) \<le> 126"

definition line_feeds :: "string \<Rightarrow> nat" where
  "line_feeds s = length (filter (\<lambda>c. c = CHR 0x0A) s)"

lemma line_feeds_append [simp]: "line_feeds (s @ t) = line_feeds s + line_feeds t"
  by (simp add: line_feeds_def)

lemma line_feeds_concat: "line_feeds (concat xs) = sum_list (map line_feeds xs)"
  by (induction xs) (simp_all add: line_feeds_def)

lemma line_feeds_printable: "list_all printable s \<Longrightarrow> line_feeds s = 0"
  by (auto simp: line_feeds_def list_all_iff filter_empty_conv printable_def)

lemma line_feeds_line: "list_all printable s \<Longrightarrow> line_feeds (line s) = 1"
  using line_feeds_printable [of s] by (simp add: line_def) (simp add: line_feeds_def)

lemma show_nat_printable: "list_all printable (show_nat n)"
  using show_nat_digits [of n] by (fastforce simp: list_all_iff printable_def is_ascii_digit_def Let_def)

lemma hex_digit_printable: "n < 16 \<Longrightarrow> printable (hex_digit n)"
  by (simp add: hex_digit_def printable_def)

lemma show_hex_printable: "list_all printable (show_hex n)"
proof (induction n rule: show_hex.induct)
  case (1 n)
  then show ?case by (cases "n < 16") (simp_all add: show_hex.simps [of n] hex_digit_printable)
qed

lemma escape_default_printable: "list_all printable (escape_default n)"
proof -
  have "list_all printable ([CHR 0x5C, CHR ''u'', CHR ''{''] @ show_hex n @ [CHR ''}''])"
    using show_hex_printable by (simp add: printable_def)
  then show ?thesis by (auto simp: escape_default_def printable_def)
qed

lemma prometheus_label_printable: "list_all printable (prometheus_label v)"
  using escape_default_printable by (auto simp: prometheus_label_def list_all_iff)

text \<open>A quotation mark in a label is always escaped, so that the label ends where the exposition ends it.\<close>

fun unescaped_quote :: "string \<Rightarrow> bool" where
  "unescaped_quote [] = False"
| "unescaped_quote (c # cs) =
     (if c = CHR 0x22 then True
      else if c = CHR 0x5C then (case cs of [] \<Rightarrow> True | d # ds \<Rightarrow> unescaped_quote ds)
      else unescaped_quote cs)"

lemma unescaped_quote_plain:
  "CHR 0x22 \<notin> set s \<Longrightarrow> CHR 0x5C \<notin> set s \<Longrightarrow> unescaped_quote (s @ t) = unescaped_quote t"
  by (induction s) auto

lemma show_hex_plain: "CHR 0x22 \<notin> set (show_hex n) \<and> CHR 0x5C \<notin> set (show_hex n)"
proof (induction n rule: show_hex.induct)
  case (1 n)
  have "CHR 0x22 \<noteq> hex_digit k \<and> CHR 0x5C \<noteq> hex_digit k" if "k < 16" for k
  proof -
    have "(of_char (hex_digit k) :: nat) \<noteq> 34 \<and> (of_char (hex_digit k) :: nat) \<noteq> 92" using that by (simp add: hex_digit_def)
    then show ?thesis by (auto dest!: arg_cong [of _ _ "of_char :: char \<Rightarrow> nat"])
  qed
  with 1 show ?case by (cases "n < 16") (simp_all add: show_hex.simps [of n])
qed

lemma unescaped_quote_escape: "unescaped_quote (escape_default n @ t) = unescaped_quote t"
proof (cases "n \<in> {9, 10, 13, 34, 39, 92}")
  case True
  then show ?thesis by (auto simp: escape_default_def)
next
  case False
  show ?thesis
  proof (cases "32 \<le> n \<and> n \<le> 126")
    case True
    then have "(of_char (char_of n :: char) :: nat) \<noteq> 34 \<and> (of_char (char_of n :: char) :: nat) \<noteq> 92" using False by simp
    then have "char_of n \<noteq> CHR 0x22" "char_of n \<noteq> CHR 0x5C"
      by (auto dest!: arg_cong [of _ _ "of_char :: char \<Rightarrow> nat"])
    then show ?thesis using True False by (auto simp: escape_default_def)
  next
    case plain: False
    have "unescaped_quote (show_hex n @ CHR ''}'' # t) = unescaped_quote t"
      using unescaped_quote_plain [of "show_hex n" "CHR ''}'' # t"] show_hex_plain [of n] by simp
    moreover have "escape_default n = [CHR 0x5C, CHR ''u'', CHR ''{''] @ show_hex n @ [CHR ''}'']"
      using False plain by (simp add: escape_default_def)
    ultimately show ?thesis by simp
  qed
qed

lemma prometheus_label_closed: "\<not> unescaped_quote (prometheus_label v)"
proof -
  have "\<not> unescaped_quote (concat (map escape_default ns))" for ns
    by (induction ns) (simp_all add: unescaped_quote_escape)
  then show ?thesis by (simp add: prometheus_label_def)
qed

lemma global_lines_shape:
  assumes "list_all printable name"
  shows "line_feeds (global_lines name v) = 2" and "list_all (\<lambda>c. c = CHR 0x0A \<or> printable c) (global_lines name v)"
proof -
  have "list_all printable (''# TYPE '' @ name @ '' counter'')" "list_all printable (name @ '' '' @ show_nat (unat v))"
    using assms show_nat_printable by (simp_all add: printable_def)
  note p = this
  show "line_feeds (global_lines name v) = 2"
    using line_feeds_line [OF p(1)] line_feeds_line [OF p(2)] unfolding global_lines_def by simp
  show "list_all (\<lambda>c. c = CHR 0x0A \<or> printable c) (global_lines name v)"
    using p unfolding global_lines_def line_def by (auto simp: list_all_iff)
qed

lemma route_line_shape:
  assumes "list_all printable label" and "list_all printable (fst nv)"
  shows "line_feeds (route_line label nv) = 1" and "list_all (\<lambda>c. c = CHR 0x0A \<or> printable c) (route_line label nv)"
proof -
  have p: "list_all printable (fst nv @ ''{route_id='' @ [CHR 0x22] @ label @ [CHR 0x22] @ ''} '' @ show_nat (unat (snd nv)))"
    using assms show_nat_printable by (simp add: printable_def)
  show "line_feeds (route_line label nv) = 1" using line_feeds_line [OF p] by (simp add: route_line_def)
  show "list_all (\<lambda>c. c = CHR 0x0A \<or> printable c) (route_line label nv)"
    using p unfolding route_line_def line_def by (auto simp: list_all_iff)
qed

lemma route_values_printable: "list_all (\<lambda>nv. list_all printable (fst nv)) (route_values m)" and
  route_values_length: "length (route_values m) = 7"
  by (simp_all add: route_values_def printable_def)

lemma route_values_line:
  assumes "nv \<in> set (route_values x)"
  shows "line_feeds (route_line (prometheus_label v) nv) = 1" and
    "list_all (\<lambda>c. c = CHR 0x0A \<or> printable c) (route_line (prometheus_label v) nv)"
proof -
  have "list_all printable (fst nv)" using assms route_values_printable [of x] by (simp add: list_all_iff)
  from route_line_shape [OF prometheus_label_printable this]
  show "line_feeds (route_line (prometheus_label v) nv) = 1" and
    "list_all (\<lambda>c. c = CHR 0x0A \<or> printable c) (route_line (prometheus_label v) nv)" by this+
qed

lemma route_block_shape:
  "line_feeds (concat (map (route_line (prometheus_label v)) (route_values x))) = 7"
  "list_all (\<lambda>c. c = CHR 0x0A \<or> printable c) (concat (map (route_line (prometheus_label v)) (route_values x)))"
proof -
  have "map (line_feeds \<circ> route_line (prometheus_label v)) (route_values x) = map (\<lambda>_. 1) (route_values x)"
    by (rule map_cong) (simp_all add: route_values_line(1))
  then have "sum_list (map (line_feeds \<circ> route_line (prometheus_label v)) (route_values x)) = 7"
    by (simp only: sum_list_triv route_values_length) simp
  then show "line_feeds (concat (map (route_line (prometheus_label v)) (route_values x))) = 7"
    by (simp add: line_feeds_concat)
  show "list_all (\<lambda>c. c = CHR 0x0A \<or> printable c) (concat (map (route_line (prometheus_label v)) (route_values x)))"
    using route_values_line(2) by (auto simp: list_all_iff)
qed


section \<open>Properties\<close>

text \<open>Claim C29: the exposition is well formed whatever the names of the routes. It consists of printable ASCII and
  line feeds, has exactly two lines for each of the three global counters and seven for each route, and no label
  contains a quotation mark that is not escaped: a route identifier can neither add a line nor end its label early.\<close>

theorem render_well_formed:
  "list_all (\<lambda>c. c = CHR 0x0A \<or> printable c) (render m)
   \<and> line_feeds (render m) = 6 + 7 * length (mx_routes m)
   \<and> list_all (\<lambda>(route_id, a). \<not> unescaped_quote (prometheus_label route_id)) (mx_routes m)"
proof -
  define block where "block = (\<lambda>(route_id, a). concat (map (route_line (prometheus_label route_id)) (route_values (mx_store m ! a))))"
  have block: "line_feeds (block r) = 7" "list_all (\<lambda>c. c = CHR 0x0A \<or> printable c) (block r)" for r
    using route_block_shape unfolding block_def by (cases r; simp)+
  have globals: "line_feeds (global_lines name v) = 2" "list_all (\<lambda>c. c = CHR 0x0A \<or> printable c) (global_lines name v)"
    if "name \<in> {''relay_auth_failures_total'', ''relay_protocol_failures_total'', ''relay_config_reload_failures_total''}" for name v
  proof -
    have "list_all printable name" using that by (auto simp: printable_def)
    from global_lines_shape [OF this, of v]
    show "line_feeds (global_lines name v) = 2" and
      "list_all (\<lambda>c. c = CHR 0x0A \<or> printable c) (global_lines name v)" by this+
  qed
  have "line_feeds (concat (map block rs)) = 7 * length rs" for rs
    using block(1) by (induction rs) (simp_all add: line_feeds_def)
  moreover have "list_all (\<lambda>c. c = CHR 0x0A \<or> printable c) (concat (map block rs))" for rs
    using block(2) by (auto simp: list_all_iff)
  ultimately show ?thesis
    using prometheus_label_closed
    by (simp add: render_def block_def [symmetric] globals) (auto simp: list_all_iff)
qed

end
