(* ===== verification/Relay_Stream.thy ===== *)
theory Relay_Stream
  imports Tunnel Relay_Metrics "HOL-Library.Sublist"
begin

text \<open>
  A member connection of the relay (\<open>relay-server/src/relay.rs\<close>): its admission, the two pumps between
  the socket and the tunnel with their limits, the watchdog, and the end of the stream.
\<close>

section \<open>The route and the connection\<close>

text \<open>
  \<open>RouteRuntime\<close>. The tunnel is named by the identifier of its session, the semaphore by its free
  permits, the metrics by the position of the shared object.
\<close>

record route_runtime =
  rr_config :: route_config
  rr_public_address :: socket_addr
  rr_server_config :: server_config
  rr_tunnel :: "u64 option"
  rr_free_slots :: nat
  rr_next_stream_id :: u64
  rr_rate_limiter :: rate_limiter
  rr_quota :: "route_quota option"
  rr_metrics :: nat
  rr_cancelled :: bool

record activity =
  ac_started :: nat
  ac_last_payload :: nat
  ac_bytes :: u64

text \<open>What the pumps of one connection share, with each other and with the other connections of the route.\<close>

record pump_state =
  ps_disk :: disk
  ps_store :: quota_store
  ps_limiter :: rate_limiter
  ps_metrics :: route_metrics
  ps_connection_bytes :: u64
  ps_activity :: activity

text \<open>What one pass of a pump meets outside: the quota file, the clocks and what ends its waits.\<close>

record pass_io =
  pi_quota_io :: write_io
  pi_joined :: bool
  pi_now_utc :: odt
  pi_acquire_at :: nat
  pi_rate_wakes :: "rate_wake list"
  pi_credit_wakes :: "credit_wake list"
  pi_done_at :: nat

definition month_limit_reached :: relay_error where
  "month_limit_reached = Stable LimitReached ''route monthly byte limit reached''"

definition account_connection_bytes :: "route_config \<Rightarrow> u64 \<Rightarrow> nat \<Rightarrow> (relay_error, u64) result" where
  "account_connection_bytes rc current amount =
     (case u64_try_from amount of
        None \<Rightarrow> Inl (Stable LimitReached ''connection byte count overflow'')
      | Some a \<Rightarrow>
          (case checked_add_u64 current a of
             None \<Rightarrow> Inl (Stable LimitReached ''connection byte limit reached'')
           | Some next \<Rightarrow>
               if next \<le> rc_max_bytes_per_connection rc then Inr next
               else Inl (Stable LimitReached ''connection byte limit reached'')))"

definition reserve_route_bytes ::
  "quota_env \<Rightarrow> pass_io \<Rightarrow> route_quota option \<Rightarrow> pump_state \<Rightarrow> nat \<Rightarrow> pump_state \<times> (relay_error, nat) result" where
  "reserve_route_bytes env pio quota ps requested =
     (case quota of
        None \<Rightarrow> (ps, Inr requested)
      | Some q \<Rightarrow>
          (case route_reserve env (pi_quota_io pio) (pi_joined pio) (ps_disk ps) (ps_store ps) q requested (pi_now_utc pio) of
             (d, s, r) \<Rightarrow> (ps\<lparr>ps_disk := d, ps_store := s\<rparr>, r)))"

definition record_activity :: "activity \<Rightarrow> nat \<Rightarrow> nat \<Rightarrow> activity" where
  "record_activity a amount now =
     a\<lparr>ac_bytes := ac_bytes a + (case u64_try_from amount of None \<Rightarrow> - 1 | Some w \<Rightarrow> w), ac_last_payload := now\<rparr>"

definition result_code :: "(relay_error, unit) result \<Rightarrow> error_code" where
  "result_code r = (case r of Inl e \<Rightarrow> relay_error_code e | Inr _ \<Rightarrow> TunnelLost)"

section \<open>The pumps\<close>

text \<open>
  The part both pumps share: the limits of the connection, of the month and of the rate, for a block of
  \<open>amount\<close> bytes. \<open>None\<close> where the limiter still waits; otherwise the bytes granted.
\<close>

definition admit_block ::
  "quota_env \<Rightarrow> pass_io \<Rightarrow> route_runtime \<Rightarrow> pump_state \<Rightarrow> nat \<Rightarrow> (pump_state \<times> (relay_error, nat) result) option" where
  "admit_block env pio rt ps amount =
     (case account_connection_bytes (rr_config rt) (ps_connection_bytes ps) amount of
        Inl e \<Rightarrow> Some (ps, Inl e)
      | Inr counted \<Rightarrow>
          (case reserve_route_bytes env pio (rr_quota rt) (ps\<lparr>ps_connection_bytes := counted\<rparr>) amount of
             (ps1, Inl e) \<Rightarrow> Some (ps1, Inl e)
           | (ps1, Inr granted) \<Rightarrow>
               if granted = 0 then Some (ps1, Inl month_limit_reached)
               else
                 (case rate_acquire (ps_limiter ps1) granted (pi_acquire_at pio) (pi_rate_wakes pio) of
                    (rl, None) \<Rightarrow> None
                  | (rl, Some (Inl e)) \<Rightarrow> Some (ps1\<lparr>ps_limiter := rl\<rparr>, Inl e)
                  | (rl, Some (Inr _)) \<Rightarrow> Some (ps1\<lparr>ps_limiter := rl\<rparr>, Inr granted))))"

text \<open>
  One pass of \<open>pump_member_to_node\<close> for the stream object \<open>d\<close>; \<open>member\<close> is what the read of the socket gave,
  \<open>cancelled\<close> whether the wait for it ended by cancellation. \<open>None\<close>: the pass still waits.
\<close>

definition pump_member_to_node ::
  "quota_env \<Rightarrow> pass_io \<Rightarrow> route_runtime \<Rightarrow> pump_state \<Rightarrow> tunnel_session \<Rightarrow> u64 \<Rightarrow> dispatch \<Rightarrow> bool \<Rightarrow>
   (io_kind, byte list) result \<Rightarrow> (pump_state \<times> tunnel_session \<times> pass) option" where
  "pump_member_to_node env pio rt ps t sid d cancelled member =
     (if cancelled then Some (ps, t, Return (Inr ()))
      else
        (case member of
           Inl k \<Rightarrow> Some (ps, t, Return (Inl (Io k)))
         | Inr bytes \<Rightarrow>
             if bytes = []
             then (case tunnel_send t (frame_new Fin sid []) of
                     Inl e \<Rightarrow> Some (ps, t, Return (Inl e))
                   | Inr t' \<Rightarrow> Some (ps, t', Return (Inr ())))
             else
               (case admit_block env pio rt ps (length bytes) of
                  None \<Rightarrow> None
                | Some (ps1, Inl e) \<Rightarrow> Some (ps1, t, Return (Inl e))
                | Some (ps1, Inr granted) \<Rightarrow>
                    (case credit_consume (se_send_credit d) granted (pi_credit_wakes pio) of
                       None \<Rightarrow> None
                     | Some (Inl e) \<Rightarrow> Some (ps1, t, Return (Inl e))
                     | Some (Inr credit) \<Rightarrow>
                         let t1 = tn_update t sid (d\<lparr>se_send_credit := credit\<rparr>) in
                         (case tunnel_send t1 (frame_new Data sid (take granted bytes)) of
                            Inl e \<Rightarrow> Some (ps1, t1, Return (Inl e))
                          | Inr t2 \<Rightarrow>
                              let m = ps_metrics ps1;
                                  ps2 = ps1\<lparr>ps_activity := record_activity (ps_activity ps1) granted (pi_done_at pio),
                                            ps_metrics := m\<lparr>rm_bytes_member_to_node := rm_bytes_member_to_node m
                                              + (case u64_try_from granted of None \<Rightarrow> - 1 | Some w \<Rightarrow> w)\<rparr>\<rparr> in
                              Some (ps2, t2,
                                if granted < length bytes then Return (Inl month_limit_reached) else Continue))))))"

text \<open>
  What \<open>pump_node_to_member\<close> does with a block it took from the channel; \<open>written\<close> is the outcome of
  writing the granted bytes to the socket. The first component is what went out.
\<close>

definition download_data ::
  "quota_env \<Rightarrow> pass_io \<Rightarrow> route_runtime \<Rightarrow> pump_state \<Rightarrow> tunnel_session \<Rightarrow> u64 \<Rightarrow> dispatch \<Rightarrow> byte list \<Rightarrow>
   write_outcome \<Rightarrow> (byte list \<times> pump_state \<times> tunnel_session \<times> pass) option" where
  "download_data env pio rt ps t sid d bytes written =
     (case admit_block env pio rt ps (length bytes) of
        None \<Rightarrow> None
      | Some (ps1, Inl e) \<Rightarrow> Some ([], ps1, t, Return (Inl e))
      | Some (ps1, Inr granted) \<Rightarrow>
          let out = written_bytes (take granted bytes) written in
          (case write_error written of
             Inl e \<Rightarrow> Some (out, ps1, t, Return (Inl e))
           | Inr _ \<Rightarrow>
               (case u32_try_from granted of
                  None \<Rightarrow> Some (out, ps1, t, Return (Inl (Stable FrameTooLarge ''payload cannot update flow window'')))
                | Some amount \<Rightarrow>
                    let t1 = tn_update t sid (d\<lparr>se_receive_remaining := se_receive_remaining d + ucast amount\<rparr>) in
                    (case tunnel_send t1 (frame_u32 WindowUpdate sid amount) of
                       Inl e \<Rightarrow> Some (out, ps1, t1, Return (Inl e))
                     | Inr t2 \<Rightarrow>
                         let m = ps_metrics ps1;
                             ps2 = ps1\<lparr>ps_activity := record_activity (ps_activity ps1) (length bytes) (pi_done_at pio),
                                       ps_metrics := m\<lparr>rm_bytes_node_to_member := rm_bytes_node_to_member m + ucast amount\<rparr>\<rparr> in
                         Some (out, ps2, t2,
                           if granted < length bytes then Return (Inl month_limit_reached) else Continue)))))"

definition pump_node_to_member ::
  "quota_env \<Rightarrow> pass_io \<Rightarrow> route_runtime \<Rightarrow> pump_state \<Rightarrow> tunnel_session \<Rightarrow> u64 \<Rightarrow> dispatch \<Rightarrow> bool \<Rightarrow>
   write_outcome \<Rightarrow> (byte list \<times> pump_state \<times> tunnel_session \<times> pass) option" where
  "pump_node_to_member env pio rt ps t sid d cancelled written =
     (if cancelled then Some ([], ps, t, Return (Inr ()))
      else
        (case se_inbound d of
           [] \<Rightarrow> None
         | InData bytes # rest \<Rightarrow>
             let d1 = d\<lparr>se_inbound := rest\<rparr> in download_data env pio rt ps (tn_update t sid d1) sid d1 bytes written
         | InFin # rest \<Rightarrow>
             Some ([], ps, tn_update t sid (d\<lparr>se_inbound := rest\<rparr>), Return (write_error written))
         | InClose # rest \<Rightarrow>
             Some ([], ps, tn_update t sid (d\<lparr>se_inbound := rest\<rparr>),
               Return (Inl (Stable TunnelLost ''node closed the logical stream'')))))"

section \<open>Watchdog\<close>

definition watch_stream ::
  "route_runtime \<Rightarrow> activity \<Rightarrow> bool \<Rightarrow> nat \<Rightarrow> odt \<Rightarrow> pass" where
  "watch_stream rt a cancelled now now_utc =
     (if cancelled then Return (Inr ())
      else if ac_bytes a = 0 \<and> from_secs (sc_no_payload_timeout_secs (rr_server_config rt)) < now - ac_started a
      then Return (Inl (Stable IdleTimeout ''stream sent no payload before the deadline''))
      else if from_secs (sc_idle_timeout_secs (rr_server_config rt)) < now - ac_last_payload a
      then Return (Inl (Stable IdleTimeout ''stream exceeded its idle timeout''))
      else if is_expired (rr_config rt) now_utc
      then Return (Inl (Stable GrantExpired ''route grant expired''))
      else Continue)"

section \<open>Admission and end of a member connection\<close>

text \<open>
  A connection the listener accepted: it takes a permit or is refused. \<open>shut\<close> is the outcome of shutting
  the socket down.
\<close>

definition route_accept ::
  "route_runtime \<Rightarrow> metrics \<Rightarrow> (io_kind, unit) result \<Rightarrow> route_runtime \<times> metrics \<times> (relay_error, bool) result" where
  "route_accept rt m shut =
     (if rr_free_slots rt = 0
      then (rt, metrics_at m (rr_metrics rt) (\<lambda>x. x\<lparr>rm_refused_streams := rm_refused_streams x + 1\<rparr>),
            case shut of Inl k \<Rightarrow> Inl (Io k) | Inr _ \<Rightarrow> Inr False)
      else (rt\<lparr>rr_free_slots := rr_free_slots rt - 1\<rparr>, m, Inr True))"

text \<open>The checks of \<open>handle_member\<close> up to the opening of the stream; \<open>tunnel\<close> is the current tunnel, if any.\<close>

definition admit_member ::
  "quota_env \<Rightarrow> write_io \<Rightarrow> bool \<Rightarrow> disk \<Rightarrow> quota_store \<Rightarrow> route_runtime \<Rightarrow> (io_kind, unit) result \<Rightarrow>
   (io_kind, unit) result \<Rightarrow> odt \<Rightarrow> odt \<Rightarrow> u64 option \<Rightarrow> disk \<times> quota_store \<times> (relay_error, u64) result" where
  "admit_member env qio joined dk s rt nodelay shut now quota_now tunnel =
     (case nodelay of
        Inl k \<Rightarrow> (dk, s, Inl (Io k))
      | Inr _ \<Rightarrow>
          if is_expired (rr_config rt) now
          then (dk, s, case shut of Inl k \<Rightarrow> Inl (Io k) | Inr _ \<Rightarrow> Inl (Stable GrantExpired ''route grant expired''))
          else
            (case (case rr_quota rt of
                     None \<Rightarrow> (dk, s, Inr True)
                   | Some q \<Rightarrow> route_permits_new_stream env qio joined dk s q quota_now) of
               (dk', s', Inl e) \<Rightarrow> (dk', s', Inl e)
             | (dk', s', Inr False) \<Rightarrow>
                 (dk', s', case shut of Inl k \<Rightarrow> Inl (Io k) | Inr _ \<Rightarrow> Inl month_limit_reached)
             | (dk', s', Inr True) \<Rightarrow>
                 (dk', s', case tunnel of
                             None \<Rightarrow> Inl (Stable RouteUnavailable ''node tunnel is unavailable'')
                           | Some tid \<Rightarrow> Inr tid)))"

definition member_started :: "metrics \<Rightarrow> nat \<Rightarrow> metrics" where
  "member_started m a =
     metrics_at m a (\<lambda>x. x\<lparr>rm_accepted_streams := rm_accepted_streams x + 1,
                          rm_active_streams := rm_active_streams x + 1\<rparr>)"

text \<open>The drop of the guard: the permit and the count of active streams.\<close>

definition member_dropped :: "route_runtime \<Rightarrow> metrics \<Rightarrow> route_runtime \<times> metrics" where
  "member_dropped rt m =
     (rt\<lparr>rr_free_slots := rr_free_slots rt + 1\<rparr>,
      metrics_at m (rr_metrics rt) (\<lambda>x. x\<lparr>rm_active_streams := rm_active_streams x - 1\<rparr>))"

text \<open>How \<open>relay_member_stream\<close> ends: both pumps, the watchdog, or the cancellation of the stream.\<close>

datatype member_outcome = PumpsJoined "(relay_error, unit) result" "(relay_error, unit) result"
  | WatchdogReturned "(relay_error, unit) result" | StreamCancelled

fun member_result :: "member_outcome \<Rightarrow> (relay_error, unit) result" where
  "member_result (PumpsJoined up down) = rbind up (\<lambda>_. down)"
| "member_result (WatchdogReturned r) = r"
| "member_result StreamCancelled = Inl (Stable TunnelLost ''logical stream was cancelled'')"

text \<open>The end of \<open>relay_member_stream\<close> and of \<open>handle_member\<close>: cancel, leave the table, tell the node.\<close>

definition member_finish :: "tunnel_session \<Rightarrow> u64 \<Rightarrow> dispatch \<Rightarrow> member_outcome \<Rightarrow> tunnel_session" where
  "member_finish t sid d out =
     (let t1 = remove_stream (tn_update t sid (d\<lparr>se_cancelled := True, se_receiver := False\<rparr>)) sid in
      (case tunnel_send t1 (frame_code Close sid (result_code (member_result out))) of
         Inl _ \<Rightarrow> t1
       | Inr t2 \<Rightarrow> t2))"

section \<open>What a pass does\<close>

lemma reserve_at_most: "reserve env io dk s rid limit requested now = (dk', s', Inr g) \<Longrightarrow> g \<le> requested"
  by (erule reserve_cases) (auto split: sum.splits)

lemma reserve_route_bytes_le:
  assumes "reserve_route_bytes env pio q ps n = (ps', Inr g)"
  shows "g \<le> n"
proof (cases q)
  case None
  then show ?thesis using assms by (simp add: reserve_route_bytes_def)
next
  case (Some rq)
  then obtain dk s where "route_reserve env (pi_quota_io pio) (pi_joined pio) (ps_disk ps) (ps_store ps) rq n (pi_now_utc pio)
      = (dk, s, Inr g)"
    using assms by (auto simp: reserve_route_bytes_def split: prod.splits)
  then obtain req w dk s where "u64_try_from n = Some req"
    "reserve env (pi_quota_io pio) (ps_disk ps) (ps_store ps) (rq_route_id rq) (rq_limit rq) req (pi_now_utc pio) = (dk, s, Inr w)"
    "g = unat w"
    by (auto simp: route_reserve_def split: option.splits if_splits prod.splits sum.splits)
  then show ?thesis using reserve_at_most by (fastforce simp: u64_try_from_Some word_le_nat_alt)
qed

lemma account_connection_bytes_Inr:
  "account_connection_bytes rc c n = Inr c' \<longleftrightarrow>
     unat c + n \<le> unat (rc_max_bytes_per_connection rc) \<and> unat c' = unat c + n"
proof
  assume "account_connection_bytes rc c n = Inr c'"
  then show "unat c + n \<le> unat (rc_max_bytes_per_connection rc) \<and> unat c' = unat c + n"
    by (auto simp: account_connection_bytes_def rust_int word_le_nat_alt split: option.splits if_splits)
next
  assume *: "unat c + n \<le> unat (rc_max_bytes_per_connection rc) \<and> unat c' = unat c + n"
  then have "unat c + n < 2 ^ 64"
    using order_le_less_trans [OF _ unat_u64_less, of "unat c + n" "rc_max_bytes_per_connection rc"] by simp
  moreover from this have "u64_try_from n = Some (of_nat n)" "unat (of_nat n :: u64) = n"
    by (simp_all add: u64_try_from_def unat_of_nat)
  moreover from calculation have "checked_add_u64 c (of_nat n) = Some c'"
    using * by (auto simp: checked_add_u64_Some word_unat_eq_iff unat_add_u64)
  ultimately show "account_connection_bytes rc c n = Inr c'"
    using * by (simp add: account_connection_bytes_def word_le_nat_alt)
qed

lemma admit_block_granted:
  "admit_block env pio rt ps n = Some (ps', Inr g) \<Longrightarrow> 0 < g \<and> g \<le> n"
  by (auto simp: admit_block_def dest: reserve_route_bytes_le
      split: sum.splits prod.splits if_splits option.splits)

text \<open>
  A pass of the upload pump leaves the tunnel, sends the end of the stream, loses the credit it took
  because the tunnel is gone, or sends a block it has credit for.
\<close>

lemma pump_member_to_node_effect:
  assumes pump: "pump_member_to_node env pio rt ps t sid d cancelled member = Some (ps', t', p)"
    and wakes: "set (pi_credit_wakes pio) \<subseteq> {CreditCancelled}"
  obtains (same) "t' = t"
  | (ended) a b where "tn_send a b t (frame_new Fin sid []) = Inr t'"
  | (lost) c e where "unat c \<le> unat (se_send_credit d)" "t' = tn_update t sid (d\<lparr>se_send_credit := c\<rparr>)" "p = Return (Inl e)"
  | (sent) c bs a b where "unat c + length bs = unat (se_send_credit d)" "bs \<noteq> []"
      "tn_send a b (tn_update t sid (d\<lparr>se_send_credit := c\<rparr>)) (frame_new Data sid bs) = Inr t'"
proof -
  consider "t' = t" | bytes where "\<not> cancelled" "member = Inr bytes" "t' \<noteq> t"
    using pump by (cases member) (auto simp: pump_member_to_node_def split: if_splits)
  then show thesis
  proof cases
    case 1
    then show thesis by (rule same)
  next
    case (2 bytes)
    show thesis
    proof (cases "bytes = []")
      case True
      then show thesis using 2 pump ended
        by (auto simp: pump_member_to_node_def tunnel_send_def split: sum.splits)
    next
      case False
      then obtain ps1 granted c where adm: "admit_block env pio rt ps (length bytes) = Some (ps1, Inr granted)"
        and cons: "credit_consume (se_send_credit d) granted (pi_credit_wakes pio) = Some (Inr c)"
        and snd: "(\<exists>e. p = Return (Inl e)) \<and> t' = tn_update t sid (d\<lparr>se_send_credit := c\<rparr>) \<or>
          tunnel_send (tn_update t sid (d\<lparr>se_send_credit := c\<rparr>)) (frame_new Data sid (take granted bytes)) = Inr t'"
        using 2 pump
        by (auto simp: pump_member_to_node_def Let_def split: option.splits prod.splits sum.splits if_splits)
      have g: "0 < granted" "granted \<le> length bytes" using admit_block_granted [OF adm] by simp_all
      have c: "granted \<le> unat (se_send_credit d)" "unat c = unat (se_send_credit d) - granted"
        using credit_consume_final [OF wakes cons] by simp_all
      from snd show thesis
      proof
        assume "(\<exists>e. p = Return (Inl e)) \<and> t' = tn_update t sid (d\<lparr>se_send_credit := c\<rparr>)"
        then show thesis using c lost [of c] by auto
      next
        assume "tunnel_send (tn_update t sid (d\<lparr>se_send_credit := c\<rparr>)) (frame_new Data sid (take granted bytes)) = Inr t'"
        then show thesis using c g sent [of c "take granted bytes"] False by (auto simp: tunnel_send_def)
      qed
    qed
  qed
qed

text \<open>
  A pass of the download pump takes at most the next message of the channel. What it writes is a prefix
  of the block; it goes on only after it wrote the whole block and told the node.
\<close>

lemma pump_node_to_member_effect:
  assumes pump: "pump_node_to_member env pio rt ps t sid d cancelled written = Some (out, ps', t', p)"
  obtains (same) r where "t' = t" "out = []" "p = Return r"
  | (control) m rest r where "se_inbound d = m # rest" "inbound_data [m] = []" "out = []" "p = Return r"
      "t' = tn_update t sid (d\<lparr>se_inbound := rest\<rparr>)"
  | (stopped) bytes rest d' amount e where "se_inbound d = InData bytes # rest" "prefix out bytes" "p = Return (Inl e)"
      "d' = d\<lparr>se_inbound := rest, se_receive_remaining := se_receive_remaining d + ucast (amount :: u32)\<rparr>"
      "unat amount \<le> length bytes" "t' = tn_update t sid d'"
  | (told) bytes rest d' amount a b where "se_inbound d = InData bytes # rest"
      "d' = d\<lparr>se_inbound := rest, se_receive_remaining := se_receive_remaining d + ucast (amount :: u32)\<rparr>"
      "0 < unat amount" "unat amount \<le> length bytes" "out = take (unat amount) bytes"
      "tn_send a b (tn_update t sid d') (frame_u32 WindowUpdate sid amount) = Inr t'"
      "p = Continue \<and> out = bytes \<or> (\<exists>e. p = Return (Inl e))"
proof -
  have upd: "tn_update (tn_update t sid x) sid y = tn_update t sid y" for x y
    by (simp add: tn_update_def)
  consider "cancelled" | m rest where "\<not> cancelled" "se_inbound d = m # rest" "inbound_data [m] = []" "\<forall>bs. m \<noteq> InData bs"
    | bytes rest where "\<not> cancelled" "se_inbound d = InData bytes # rest"
    using pump by (cases "se_inbound d") (auto simp: pump_node_to_member_def split: inbound.splits if_splits)
  then show thesis
  proof cases
    case 1
    then show thesis using pump same [of "Inr ()"] by (auto simp: pump_node_to_member_def)
  next
    case (2 m rest)
    then show thesis using pump control by (cases m) (auto simp: pump_node_to_member_def)
  next
    case (3 bytes rest)
    let ?d = "d\<lparr>se_inbound := rest\<rparr>"
    have down: "download_data env pio rt ps (tn_update t sid ?d) sid ?d bytes written = Some (out, ps', t', p)"
      using 3 pump by (simp add: pump_node_to_member_def Let_def)
    show thesis
    proof (cases "\<exists>ps1 granted. admit_block env pio rt ps (length bytes) = Some (ps1, Inr granted)")
      case False
      then have "out = []" "t' = tn_update t sid ?d" "\<exists>e. p = Return (Inl e)"
        using down by (auto simp: download_data_def split: option.splits prod.splits sum.splits)
      then show thesis using 3 stopped [of bytes rest _ ?d 0] by auto
    next
      case True
      then obtain ps1 granted where adm: "admit_block env pio rt ps (length bytes) = Some (ps1, Inr granted)" by blast
      have g: "0 < granted" "granted \<le> length bytes" using admit_block_granted [OF adm] by simp_all
      show thesis
      proof (cases "write_error written = Inr () \<and> granted < 2 ^ 32")
        case False
        then have "prefix out bytes" "t' = tn_update t sid ?d" "\<exists>e. p = Return (Inl e)"
          using down adm
          by (auto simp: download_data_def Let_def written_bytes_def write_error_def rust_int take_is_prefix
              split: option.splits sum.splits prod.splits)
        then show thesis using 3 stopped [of bytes rest _ ?d 0] by auto
      next
        case True
        then obtain amount where am: "u32_try_from granted = Some amount" "unat amount = granted"
          by (auto simp: u32_try_from_def unat_of_nat)
        have out: "out = take granted bytes"
          using True down adm am
          by (auto simp: download_data_def Let_def written_bytes_def write_error_def split: sum.splits prod.splits)
        let ?d' = "d\<lparr>se_inbound := rest, se_receive_remaining := se_receive_remaining d + ucast amount\<rparr>"
        show thesis
        proof (cases "tunnel_send (tn_update t sid ?d') (frame_u32 WindowUpdate sid amount)")
          case (Inl e)
          then have "t' = tn_update t sid ?d'" "p = Return (Inl e)"
            using True down adm am upd by (auto simp: download_data_def Let_def)
          then show thesis using 3 stopped [of bytes rest e ?d' amount] out g am by (simp add: take_is_prefix)
        next
          case (Inr t2)
          then have "t' = t2" "p = Continue \<and> granted = length bytes \<or> (\<exists>e. p = Return (Inl e))"
            using True down adm am upd g by (auto simp: download_data_def Let_def split: if_splits)
          then show thesis using 3 told [of bytes rest ?d' amount] out g am Inr by (auto simp: tunnel_send_def)
        qed
      qed
    qed
  qed
qed

end
