(* ===== verification/Tunnel_System.thy ===== *)
theory Tunnel_System
  imports Relay_Node Relay_Stream
begin

text \<open>
  A relay and a node at the two ends of one tunnel. Every step of \<open>task_step\<close> is a pass of one of their
  tasks as \<open>relay.rs\<close> and \<open>node.rs\<close> define it: opening and answering a stream, a pass of one of the four
  pumps, the end of a stream, a heartbeat, or a cancellation. The steps \<open>sys_step\<close> add the readers and the
  writers at the level of frames: the frames one end accepted for the other are read in order.
  \<open>Tunnel_Wire\<close> puts the frame codec and the bytes of the connection between the two ends.

  The quota store, the rate limiter, the clocks and the sockets of a pass are arbitrary, so that the
  results hold whatever they do.
\<close>

section \<open>The two ends\<close>

text \<open>How far the tasks of a stream are: \<open>handle_member\<close> at the relay and \<open>run_local_stream\<close> at the node.\<close>

datatype member_task = MOpening | MRelaying bool bool | MEnding

datatype local_task = LConnecting | LRelaying bool bool | LEnding

text \<open>
  \<open>sy_relay_reading\<close> and \<open>sy_node_reading\<close> tell whether the readers still run. The logs record, for each
  stream and direction, the bytes that the passes of the sending pump read from their socket, the bytes that
  were put into data frames, and the bytes that went to the socket at the other end.
\<close>

record system =
  sy_next :: u64
  sy_relay :: tunnel_session
  sy_node :: node_tunnel
  sy_members :: "u64 \<rightharpoonup> member_task"
  sy_locals :: "u64 \<rightharpoonup> local_task"
  sy_relay_reading :: bool
  sy_node_reading :: bool
  sy_relay_error :: "relay_error option"
  sy_node_error :: "relay_error option"
  sy_up_read :: "u64 \<Rightarrow> byte list"
  sy_up_sent :: "u64 \<Rightarrow> byte list"
  sy_up_done :: "u64 \<Rightarrow> byte list"
  sy_down_read :: "u64 \<Rightarrow> byte list"
  sy_down_sent :: "u64 \<Rightarrow> byte list"
  sy_down_done :: "u64 \<Rightarrow> byte list"

datatype sys_event =
    RelayOpen
  | RelayOpened u64 open_wait
  | RelayUpload u64 "byte list"
  | RelayDownload u64 "byte list"
  | RelayFinish u64
  | RelayBeat
  | RelayCancel
  | RelayStop
  | RelayRead frame
  | RelayFail relay_error
  | RelayWrite frame
  | RelayWriterEnd
  | NodeRefuse u64
  | NodeConnect u64
  | NodeUpload u64 "byte list"
  | NodeDownload u64 "byte list"
  | NodeFinish u64
  | NodeBeat
  | NodeCancel
  | NodeStop
  | NodeRead frame
  | NodeFail relay_error
  | NodeWrite frame
  | NodeWriterEnd

text \<open>The payload of the data frames that were added to an outbox.\<close>

definition data_of :: "frame list \<Rightarrow> byte list" where
  "data_of fs = concat (map payload (filter (\<lambda>f. kind f = Data) fs))"

definition new_data :: "('s, 'z) tunnel_scheme \<Rightarrow> ('s, 'z) tunnel_scheme \<Rightarrow> byte list" where
  "new_data t t' = data_of (drop (length (tn_outbox t)) (tn_outbox t'))"

text \<open>The bytes a pass took from its socket.\<close>

definition taken_bytes :: "bool \<Rightarrow> (io_kind, byte list) result \<Rightarrow> byte list" where
  "taken_bytes cancelled r = (if cancelled then [] else case r of Inl _ \<Rightarrow> [] | Inr bytes \<Rightarrow> bytes)"

fun upload_next :: "pass \<Rightarrow> bool \<Rightarrow> member_task" where
  "upload_next Continue dn = MRelaying True dn"
| "upload_next (Return (Inr _)) dn = MRelaying False dn"
| "upload_next (Return (Inl _)) dn = MEnding"

fun download_next :: "pass \<Rightarrow> bool \<Rightarrow> member_task" where
  "download_next Continue up = MRelaying up True"
| "download_next (Return (Inr _)) up = MRelaying up False"
| "download_next (Return (Inl _)) up = MEnding"

fun local_upload_next :: "pass \<Rightarrow> bool \<Rightarrow> local_task" where
  "local_upload_next Continue dn = LRelaying True dn"
| "local_upload_next (Return (Inr _)) dn = LRelaying False dn"
| "local_upload_next (Return (Inl _)) dn = LEnding"

fun local_download_next :: "pass \<Rightarrow> bool \<Rightarrow> local_task" where
  "local_download_next Continue up = LRelaying up True"
| "local_download_next (Return (Inr _)) up = LRelaying up False"
| "local_download_next (Return (Inl _)) up = LEnding"

text \<open>An answer ends the wait only if it was given.\<close>

definition wait_possible :: "dispatch \<Rightarrow> open_wait \<Rightarrow> bool" where
  "wait_possible d w \<longleftrightarrow> (case w of OpenAnswered r \<Rightarrow> sd_opened d = Some r | _ \<Rightarrow> True)"

text \<open>When a reader returns, its tunnel is cancelled with all its streams.\<close>

definition reader_returned ::
  "('s, 'z) tunnel_scheme \<Rightarrow> (relay_error, unit) result \<Rightarrow> ('s, 'z) tunnel_scheme" where
  "reader_returned t r = (case r of Inr _ \<Rightarrow> t | Inl _ \<Rightarrow> cancel_all_streams (t\<lparr>tn_cancelled := True\<rparr>))"

definition error_of :: "(relay_error, unit) result \<Rightarrow> relay_error option" where
  "error_of r = (case r of Inl e \<Rightarrow> Some e | Inr _ \<Rightarrow> None)"

text \<open>
  A pass of a pump that sends is one step at the moment it takes its credit: the wakes it has left are
  cancellations. The buffer it reads into has the size of a frame. When a stream ends, a pass that had read
  bytes and still waited for a limit, for credit or for the queue is dropped, and its bytes are lost. A reader
  that sees the cancellation of its tunnel returns, and cancels all streams.
\<close>

inductive task_step :: "server_config \<Rightarrow> node_config \<Rightarrow> system \<Rightarrow> sys_event \<Rightarrow> system \<Rightarrow> bool"
  for sc :: server_config and nc :: node_config where
  relay_opens:
    "open_request sc (sy_next s) (sy_relay s) = (next', t', r) \<Longrightarrow>
     task_step sc nc s RelayOpen
       (s\<lparr>sy_next := next', sy_relay := t',
          sy_members := (case r of Inl _ \<Rightarrow> sy_members s | Inr sid \<Rightarrow> (sy_members s)(sid \<mapsto> MOpening))\<rparr>)"
| relay_opened:
    "\<lbrakk>sy_members s sid = Some MOpening; tn_store (sy_relay s) sid = Some d; wait_possible d w;
      open_finish (sy_relay s) sid d w = (t', r)\<rbrakk> \<Longrightarrow>
     task_step sc nc s (RelayOpened sid w)
       (s\<lparr>sy_relay := t',
          sy_members := (sy_members s)(sid := (case r of Inl _ \<Rightarrow> None | Inr _ \<Rightarrow> Some (MRelaying True True)))\<rparr>)"
| relay_uploads:
    "\<lbrakk>sy_members s sid = Some (MRelaying True dn); tn_store (sy_relay s) sid = Some d;
      set (pi_credit_wakes pio) \<subseteq> {CreditCancelled};
      bytes = taken_bytes cancelled member; length bytes \<le> sc_max_frame_bytes sc;
      pump_member_to_node env pio rt ps (sy_relay s) sid d cancelled member = Some (ps', t', p);
      out = new_data (sy_relay s) t'\<rbrakk> \<Longrightarrow>
     task_step sc nc s (RelayUpload sid out)
       (s\<lparr>sy_relay := t', sy_members := (sy_members s)(sid \<mapsto> upload_next p dn),
          sy_up_sent := (sy_up_sent s)(sid := sy_up_sent s sid @ out),
          sy_up_read := (sy_up_read s)(sid := sy_up_read s sid @ bytes)\<rparr>)"
| relay_downloads:
    "\<lbrakk>sy_members s sid = Some (MRelaying up True); tn_store (sy_relay s) sid = Some d;
      pump_node_to_member env pio rt ps (sy_relay s) sid d cancelled written = Some (out, ps', t', p)\<rbrakk> \<Longrightarrow>
     task_step sc nc s (RelayDownload sid out)
       (s\<lparr>sy_relay := t', sy_members := (sy_members s)(sid \<mapsto> download_next p up),
          sy_down_done := (sy_down_done s)(sid := sy_down_done s sid @ out)\<rparr>)"
| relay_finishes:
    "\<lbrakk>sy_members s sid = Some m; m \<noteq> MOpening; tn_store (sy_relay s) sid = Some d\<rbrakk> \<Longrightarrow>
     task_step sc nc s (RelayFinish sid)
       (s\<lparr>sy_relay := member_finish (sy_relay s) sid d outcome, sy_members := (sy_members s)(sid := None),
          sy_up_read := (sy_up_read s)(sid := sy_up_read s sid @ lost)\<rparr>)"
| relay_beats:
    "heartbeat_pass sc rc (sy_relay s) n now now_utc = (t', n', b) \<Longrightarrow>
     task_step sc nc s RelayBeat (s\<lparr>sy_relay := t'\<rparr>)"
| relay_cancels:
    "task_step sc nc s RelayCancel (s\<lparr>sy_relay := (sy_relay s)\<lparr>tn_cancelled := True\<rparr>\<rparr>)"
| relay_stops:
    "\<lbrakk>sy_relay_reading s; tn_cancelled (sy_relay s)\<rbrakk> \<Longrightarrow>
     task_step sc nc s RelayStop (s\<lparr>sy_relay := cancel_all_streams (sy_relay s), sy_relay_reading := False\<rparr>)"
| node_refuses:
    "sy_locals s sid = Some LConnecting \<Longrightarrow>
     task_step sc nc s (NodeRefuse sid)
       (s\<lparr>sy_node := local_refused (sy_node s) sid, sy_locals := (sy_locals s)(sid := None)\<rparr>)"
| node_connects:
    "\<lbrakk>sy_locals s sid = Some LConnecting; local_connected nc (sy_node s) sid nodelay = (t', ok)\<rbrakk> \<Longrightarrow>
     task_step sc nc s (NodeConnect sid)
       (s\<lparr>sy_node := t', sy_locals := (sy_locals s)(sid := (if ok then Some (LRelaying True True) else None))\<rparr>)"
| node_uploads:
    "\<lbrakk>sy_locals s sid = Some (LRelaying True dn); tn_store (sy_node s) sid = Some st;
      pump_relay_to_target (sy_node s) sid st cancelled written = Some (out, t', p)\<rbrakk> \<Longrightarrow>
     task_step sc nc s (NodeUpload sid out)
       (s\<lparr>sy_node := t', sy_locals := (sy_locals s)(sid \<mapsto> local_upload_next p dn),
          sy_up_done := (sy_up_done s)(sid := sy_up_done s sid @ out)\<rparr>)"
| node_downloads:
    "\<lbrakk>sy_locals s sid = Some (LRelaying up True); tn_store (sy_node s) sid = Some st;
      set wakes \<subseteq> {CreditCancelled};
      bytes = taken_bytes cancelled target; length bytes \<le> nc_max_frame_bytes nc;
      pump_target_to_relay (sy_node s) sid st cancelled target wakes = Some (t', p);
      out = new_data (sy_node s) t'\<rbrakk> \<Longrightarrow>
     task_step sc nc s (NodeDownload sid out)
       (s\<lparr>sy_node := t', sy_locals := (sy_locals s)(sid \<mapsto> local_download_next p up),
          sy_down_sent := (sy_down_sent s)(sid := sy_down_sent s sid @ out),
          sy_down_read := (sy_down_read s)(sid := sy_down_read s sid @ bytes)\<rparr>)"
| node_finishes:
    "\<lbrakk>sy_locals s sid = Some m; m \<noteq> LConnecting\<rbrakk> \<Longrightarrow>
     task_step sc nc s (NodeFinish sid)
       (s\<lparr>sy_node := local_finished (sy_node s) sid, sy_locals := (sy_locals s)(sid := None),
          sy_down_read := (sy_down_read s)(sid := sy_down_read s sid @ lost)\<rparr>)"
| node_beats:
    "node_heartbeat_pass nc (sy_node s) n now = (t', n', b) \<Longrightarrow>
     task_step sc nc s NodeBeat (s\<lparr>sy_node := t'\<rparr>)"
| node_cancels:
    "task_step sc nc s NodeCancel (s\<lparr>sy_node := (sy_node s)\<lparr>tn_cancelled := True\<rparr>\<rparr>)"
| node_stops:
    "\<lbrakk>sy_node_reading s; tn_cancelled (sy_node s)\<rbrakk> \<Longrightarrow>
     task_step sc nc s NodeStop (s\<lparr>sy_node := cancel_all_streams (sy_node s), sy_node_reading := False\<rparr>)"

text \<open>
  What can end a reader that talks to this code: a frame for a stream that was just removed, a tunnel that is lost
  or closed, an error of the connection, and a frame of a peer whose frames may be larger than its own.
\<close>

definition reader_error :: "nat \<Rightarrow> nat \<Rightarrow> relay_error \<Rightarrow> bool" where
  "reader_error own_max peer_max e \<longleftrightarrow>
     e = Stable ProtocolInvalid ''stream is not open'' \<or> relay_error_code e = TunnelLost \<or> (\<exists>k. e = Io k)
     \<or> e = Stable FrameTooLarge ''frame exceeds configured maximum'' \<and> own_max < peer_max"

text \<open>
  Both ends with their readers and writers, at the level of frames: an outbox holds all frames that were
  accepted and not read yet, so that a write changes nothing here.
\<close>

inductive sys_step :: "server_config \<Rightarrow> node_config \<Rightarrow> system \<Rightarrow> sys_event \<Rightarrow> system \<Rightarrow> bool"
  for sc :: server_config and nc :: node_config where
  task: "task_step sc nc s l s' \<Longrightarrow> sys_step sc nc s l s'"
| relay_reads:
    "\<lbrakk>tn_outbox (sy_node s) = f # fs; sy_relay_reading s;
      relay_dispatch now (sy_relay s) f = (t', r)\<rbrakk> \<Longrightarrow>
     sys_step sc nc s (RelayRead f)
       (s\<lparr>sy_node := (sy_node s)\<lparr>tn_outbox := fs\<rparr>, sy_relay := reader_returned t' r, sy_relay_error := error_of r,
          sy_relay_reading := is_ok r\<rparr>)"
| relay_fails:
    "\<lbrakk>sy_relay_reading s; reader_error (sc_max_frame_bytes sc) (nc_max_frame_bytes nc) e\<rbrakk> \<Longrightarrow>
     sys_step sc nc s (RelayFail e)
       (s\<lparr>sy_relay := reader_returned (sy_relay s) (Inl e), sy_relay_error := Some e, sy_relay_reading := False\<rparr>)"
| relay_writes: "sys_step sc nc s (RelayWrite f) s"
| relay_writer_ends: "sys_step sc nc s RelayWriterEnd (s\<lparr>sy_relay := (sy_relay s)\<lparr>tn_writer := False\<rparr>\<rparr>)"
| node_reads:
    "\<lbrakk>tn_outbox (sy_relay s) = f # fs; sy_node_reading s;
      node_dispatch nc now (sy_node s) f = (t', r);
      ls = (if r = Inr () \<and> stream_id f \<in> tn_streams t' - tn_streams (sy_node s)
            then (sy_locals s)(stream_id f \<mapsto> LConnecting) else sy_locals s)\<rbrakk> \<Longrightarrow>
     sys_step sc nc s (NodeRead f)
       (s\<lparr>sy_relay := (sy_relay s)\<lparr>tn_outbox := fs\<rparr>, sy_node := reader_returned t' r, sy_locals := ls,
          sy_node_error := error_of r, sy_node_reading := is_ok r\<rparr>)"
| node_fails:
    "\<lbrakk>sy_node_reading s; reader_error (nc_max_frame_bytes nc) (sc_max_frame_bytes sc) e\<rbrakk> \<Longrightarrow>
     sys_step sc nc s (NodeFail e)
       (s\<lparr>sy_node := reader_returned (sy_node s) (Inl e), sy_node_error := Some e, sy_node_reading := False\<rparr>)"
| node_writes: "sys_step sc nc s (NodeWrite f) s"
| node_writer_ends: "sys_step sc nc s NodeWriterEnd (s\<lparr>sy_node := (sy_node s)\<lparr>tn_writer := False\<rparr>\<rparr>)"

text \<open>A tunnel that was just registered; the counter of identifiers is the one of the route.\<close>

definition fresh_system :: "node_config \<Rightarrow> u64 \<Rightarrow> nat \<Rightarrow> u64 \<Rightarrow> system" where
  "fresh_system nc session_id now next_stream_id =
     \<lparr>sy_next = next_stream_id, sy_relay = new_tunnel session_id now, sy_node = new_node_tunnel nc now,
      sy_members = Map.empty, sy_locals = Map.empty, sy_relay_reading = True, sy_node_reading = True,
      sy_relay_error = None, sy_node_error = None,
      sy_up_read = (\<lambda>_. []), sy_up_sent = (\<lambda>_. []), sy_up_done = (\<lambda>_. []),
      sy_down_read = (\<lambda>_. []), sy_down_sent = (\<lambda>_. []), sy_down_done = (\<lambda>_. [])\<rparr>"

section \<open>One stream of the system\<close>

definition of_stream :: "u64 \<Rightarrow> frame list \<Rightarrow> frame list" where
  "of_stream sid fs = filter (\<lambda>f. stream_id f = sid) fs"

definition amounts :: "frame_kind \<Rightarrow> frame list \<Rightarrow> nat" where
  "amounts k fs = sum_list (map (\<lambda>f. unat (u32_from_be (payload f))) (filter (\<lambda>f. kind f = k) fs))"

definition count_kinds :: "frame_kind set \<Rightarrow> frame list \<Rightarrow> nat" where
  "count_kinds ks fs = length (filter (\<lambda>f. kind f \<in> ks) fs)"

text \<open>The part of a state that belongs to one stream.\<close>

record view =
  v_relay :: "dispatch option"
  v_listed :: bool
  v_out :: "frame list"
  v_member :: "member_task option"
  v_node :: "stream_end option"
  v_node_listed :: bool
  v_node_out :: "frame list"
  v_local :: "local_task option"
  v_up_sent :: "byte list"
  v_up_done :: "byte list"
  v_down_sent :: "byte list"
  v_down_done :: "byte list"

definition view :: "system \<Rightarrow> u64 \<Rightarrow> view" where
  "view s sid =
     \<lparr>v_relay = tn_store (sy_relay s) sid, v_listed = (sid \<in> tn_streams (sy_relay s)),
      v_out = of_stream sid (tn_outbox (sy_relay s)), v_member = sy_members s sid,
      v_node = tn_store (sy_node s) sid, v_node_listed = (sid \<in> tn_streams (sy_node s)),
      v_node_out = of_stream sid (tn_outbox (sy_node s)), v_local = sy_locals s sid,
      v_up_sent = sy_up_sent s sid, v_up_done = sy_up_done s sid,
      v_down_sent = sy_down_sent s sid, v_down_done = sy_down_done s sid\<rparr>"

definition credit_of :: "'s stream_end_scheme option \<Rightarrow> nat" where
  "credit_of x = (case x of None \<Rightarrow> 0 | Some d \<Rightarrow> unat (se_send_credit d))"

text \<open>The window the node granted that the opening task has not added to the credit yet.\<close>

definition pending :: "dispatch option \<Rightarrow> member_task option \<Rightarrow> nat" where
  "pending x m =
     (case x of Some d \<Rightarrow> (case sd_opened d of Some (Inr w) \<Rightarrow> if m = Some MOpening then unat w else 0 | _ \<Rightarrow> 0)
      | None \<Rightarrow> 0)"

text \<open>
  The bytes that the sender of a direction may still have received at the other end: its credit, the
  credit under way to it, and the data under way from it.
\<close>

definition up_total :: "view \<Rightarrow> nat" where
  "up_total v = credit_of (v_relay v) + pending (v_relay v) (v_member v) + amounts OpenOk (v_node_out v)
     + length (data_of (v_out v)) + amounts WindowUpdate (v_node_out v)"

definition down_total :: "view \<Rightarrow> nat" where
  "down_total v = credit_of (v_node v) + amounts Open (v_out v) + length (data_of (v_node_out v))
     + amounts WindowUpdate (v_out v)"

text \<open>The receiver has room for them, and holds no more than its window.\<close>

definition flow_ok :: "nat \<Rightarrow> nat \<Rightarrow> 's stream_end_scheme \<Rightarrow> bool" where
  "flow_ok w n d \<longleftrightarrow> n \<le> unat (se_receive_remaining d)
     \<and> unat (se_receive_remaining d) + length (inbound_data (se_inbound d)) \<le> w
     \<and> InData [] \<notin> set (se_inbound d)"

text \<open>
  What reached the socket, what waits for it and what is under way are what was sent, as long as the
  receiver is in the table and its pump runs; and what reached the socket is a prefix of it in any case.
\<close>

definition logs_ok :: "bool \<Rightarrow> bool \<Rightarrow> byte list \<Rightarrow> byte list \<Rightarrow> byte list \<Rightarrow> byte list \<Rightarrow> bool" where
  "logs_ok active listed finished waiting flying sent \<longleftrightarrow>
     prefix finished sent \<and> (active \<longrightarrow> prefix (finished @ waiting) sent)
     \<and> (active \<and> listed \<longrightarrow> finished @ waiting @ flying = sent)"

fun member_active :: "member_task option \<Rightarrow> bool" where
  "member_active (Some MOpening) = True"
| "member_active (Some (MRelaying up dn)) = dn"
| "member_active _ = False"

fun local_active :: "local_task option \<Rightarrow> bool" where
  "local_active (Some LConnecting) = True"
| "local_active (Some (LRelaying up dn)) = up"
| "local_active _ = False"

definition waiting_data :: "'s stream_end_scheme option \<Rightarrow> byte list" where
  "waiting_data x = (case x of None \<Rightarrow> [] | Some d \<Rightarrow> inbound_data (se_inbound d))"

text \<open>The frames each end sends on a stream.\<close>

definition amount_ok :: "frame \<Rightarrow> bool" where
  "amount_ok f \<longleftrightarrow> length (payload f) = 4 \<and> u32_from_be (payload f) \<noteq> 0"

definition relay_frame_ok :: "frame \<Rightarrow> bool" where
  "relay_frame_ok f \<longleftrightarrow>
     (case kind f of Open \<Rightarrow> amount_ok f | WindowUpdate \<Rightarrow> amount_ok f | Data \<Rightarrow> payload f \<noteq> []
      | Fin \<Rightarrow> True | Close \<Rightarrow> True | _ \<Rightarrow> False)"

definition node_frame_ok :: "frame \<Rightarrow> bool" where
  "node_frame_ok f \<longleftrightarrow>
     (case kind f of OpenOk \<Rightarrow> length (payload f) = 4 | WindowUpdate \<Rightarrow> amount_ok f | Data \<Rightarrow> payload f \<noteq> []
      | OpenError \<Rightarrow> True | Fin \<Rightarrow> True | Close \<Rightarrow> True | _ \<Rightarrow> False)"

text \<open>A stream is answered at most once, and only while its answer is awaited.\<close>

definition answers :: "view \<Rightarrow> nat" where
  "answers v = count_kinds {Open} (v_out v) + of_bool (v_local v = Some LConnecting)
     + count_kinds {OpenOk, OpenError} (v_node_out v)"

definition awaited :: "dispatch option \<Rightarrow> nat" where
  "awaited x = (case x of None \<Rightarrow> 0 | Some d \<Rightarrow> of_bool (sd_open_tx d))"

definition vinv :: "nat \<Rightarrow> nat \<Rightarrow> view \<Rightarrow> bool" where
  "vinv wr wn v \<longleftrightarrow>
     list_all relay_frame_ok (v_out v) \<and> list_all node_frame_ok (v_node_out v)
     \<and> (v_relay v = None \<longrightarrow> \<not> v_listed v \<and> v_out v = [] \<and> v_member v = None \<and> v_node v = None
          \<and> v_node_out v = [] \<and> v_down_sent v = [] \<and> v_down_done v = [])
     \<and> (v_node v = None \<longrightarrow> \<not> v_node_listed v \<and> v_local v = None \<and> up_total v = 0
          \<and> v_up_sent v = [] \<and> v_up_done v = [])
     \<and> (\<forall>d. v_relay v = Some d \<longrightarrow> flow_ok wr (down_total v) d)
     \<and> (\<forall>st. v_node v = Some st \<longrightarrow> flow_ok wn (up_total v) st \<and> count_kinds {Open} (v_out v) = 0
          \<and> (v_local v = Some LConnecting \<longrightarrow> up_total v = 0 \<and> unat (se_receive_remaining st) = wn))
     \<and> answers v \<le> awaited (v_relay v)
     \<and> logs_ok (local_active (v_local v)) (v_node_listed v) (v_up_done v) (waiting_data (v_node v))
         (data_of (v_out v)) (v_up_sent v)
     \<and> logs_ok (member_active (v_member v)) (v_listed v) (v_down_done v) (waiting_data (v_relay v))
         (data_of (v_node_out v)) (v_down_sent v)"

text \<open>What holds of the tunnel as a whole.\<close>

definition frame_id_ok :: "frame \<Rightarrow> bool" where
  "frame_id_ok f \<longleftrightarrow>
     (if stream_id f = 0 then kind f \<in> {Ping, Pong} \<and> length (payload f) = 8 else odd (unat (stream_id f)))"

definition ids_ok :: "system \<Rightarrow> bool" where
  "ids_ok s \<longleftrightarrow> odd (unat (sy_next s)) \<and> sy_locals s 0 = None
     \<and> (\<forall>sid. tn_store (sy_relay s) sid \<noteq> None \<longrightarrow> odd (unat sid) \<and> unat sid < unat (sy_next s))
     \<and> list_all frame_id_ok (tn_outbox (sy_relay s)) \<and> list_all frame_id_ok (tn_outbox (sy_node s))"

definition sys_wf :: "nat \<Rightarrow> nat \<Rightarrow> system \<Rightarrow> bool" where
  "sys_wf wr wn s \<longleftrightarrow> ids_ok s \<and> (\<forall>sid. sid \<noteq> 0 \<longrightarrow> vinv wr wn (view s sid))"

section \<open>Lemmas on the frames of a stream\<close>

lemma of_stream_simps [simp]:
  "of_stream sid [] = []" "of_stream sid (fs @ gs) = of_stream sid fs @ of_stream sid gs"
  "of_stream sid (f # fs) = (if stream_id f = sid then f # of_stream sid fs else of_stream sid fs)"
  by (simp_all add: of_stream_def)

lemma amounts_simps [simp]:
  "amounts k [] = 0" "amounts k (fs @ gs) = amounts k fs + amounts k gs"
  "amounts k (f # fs) = (if kind f = k then unat (u32_from_be (payload f)) else 0) + amounts k fs"
  by (simp_all add: amounts_def)

lemma data_of_simps [simp]:
  "data_of [] = []" "data_of (fs @ gs) = data_of fs @ data_of gs"
  "data_of (f # fs) = (if kind f = Data then payload f else []) @ data_of fs"
  by (simp_all add: data_of_def)

lemma count_kinds_simps [simp]:
  "count_kinds ks [] = 0" "count_kinds ks (fs @ gs) = count_kinds ks fs + count_kinds ks gs"
  "count_kinds ks (f # fs) = of_bool (kind f \<in> ks) + count_kinds ks fs"
  by (simp_all add: count_kinds_def)

section \<open>How a step changes a stream\<close>

lemmas view_defs = up_total_def down_total_def answers_def

lemma logs_ok_step:
  assumes "logs_ok active listed finished waiting flying sent"
    and "active' \<longrightarrow> active" and "listed' \<longrightarrow> listed" and "active" and "prefix out waiting"
    and "active' \<longrightarrow> out @ waiting' = waiting"
  shows "logs_ok active' listed' (finished @ out) waiting' flying sent"
proof -
  have p: "prefix (finished @ waiting) sent" using assms(1,4) by (simp add: logs_ok_def)
  moreover have "prefix (finished @ out) (finished @ waiting)" using assms(5) by simp
  ultimately have "prefix (finished @ out) sent" by (rule prefix_order.trans [rotated])
  moreover have "prefix ((finished @ out) @ waiting') sent" if active' using p assms(6) that by auto
  moreover have "(finished @ out) @ waiting' @ flying = sent" if active' listed'
  proof -
    have "out @ waiting' = waiting" using assms(6) that by simp
    then have "(finished @ out) @ waiting' @ flying = finished @ waiting @ flying" by (metis append.assoc)
    also have "\<dots> = sent" using assms(1-4) that by (simp add: logs_ok_def)
    finally show ?thesis .
  qed
  ultimately show ?thesis by (simp add: logs_ok_def)
qed

lemma logs_ok_idle:
  assumes "logs_ok active listed finished waiting flying sent"
    and "active' \<longrightarrow> active" and "listed' \<longrightarrow> listed" and "active' \<longrightarrow> waiting' = waiting"
  shows "logs_ok active' listed' finished waiting' flying sent"
  using assms by (auto simp: logs_ok_def)

lemma logs_ok_send:
  "logs_ok active listed finished waiting flying sent \<Longrightarrow>
   logs_ok active listed finished waiting (flying @ bs) (sent @ bs)"
  by (auto simp: logs_ok_def)

lemma logs_ok_receive:
  "logs_ok active True finished waiting (bs @ flying) sent \<Longrightarrow>
   logs_ok active True finished (waiting @ bs) flying sent"
  by (auto simp: logs_ok_def)

lemma logs_ok_lose:
  "logs_ok active listed finished waiting (bs @ flying) sent \<Longrightarrow>
   logs_ok active False finished waiting flying sent"
  by (auto simp: logs_ok_def)

text \<open>A step of the relay that reads no frame: \<open>fs\<close> are the frames it sends, \<open>out\<close> what goes to the member.\<close>

lemma vinv_relay_step:
  assumes inv: "vinv wr wn v" and d: "v_relay v = Some d"
    and fs: "list_all relay_frame_ok fs" "count_kinds {Open} fs = 0" "amounts Open fs = 0"
    and up: "credit_of (Some d') + pending (Some d') m + length (data_of fs) \<le> credit_of (Some d) + pending (Some d) (v_member v)"
    and tx: "sd_open_tx d' = sd_open_tx d"
    and recv: "unat (se_receive_remaining d) + amounts WindowUpdate fs \<le> unat (se_receive_remaining d')"
    and held: "unat (se_receive_remaining d') + length (inbound_data (se_inbound d')) \<le>
        unat (se_receive_remaining d) + length (inbound_data (se_inbound d))"
    and sub: "set (se_inbound d') \<subseteq> set (se_inbound d)"
    and logs: "logs_ok (member_active m) l (v_down_done v @ out) (inbound_data (se_inbound d'))
        (data_of (v_node_out v)) (v_down_sent v)"
  shows "vinv wr wn (v\<lparr>v_relay := Some d', v_listed := l, v_out := v_out v @ fs, v_member := m,
           v_up_sent := v_up_sent v @ data_of fs, v_down_done := v_down_done v @ out\<rparr>)"
  (is "vinv wr wn ?v")
proof -
  have ut: "up_total ?v \<le> up_total v" using up d by (simp add: up_total_def)
  have dt: "down_total ?v = down_total v + amounts WindowUpdate fs" using fs by (simp add: down_total_def)
  have an: "answers ?v = answers v" using fs by (simp add: answers_def)
  have none: "data_of fs = []" if "v_node v = None"
  proof -
    have "up_total v = 0" using inv that by (simp add: vinv_def)
    then show ?thesis using up d by (simp add: up_total_def)
  qed
  have flow: "flow_ok wr (down_total ?v) d'"
  proof -
    have "flow_ok wr (down_total v) d" using inv d by (simp add: vinv_def)
    then show ?thesis using recv held sub dt by (auto simp: flow_ok_def)
  qed
  have nflow: "flow_ok wn (up_total ?v) st" if "v_node v = Some st" for st
  proof -
    have "flow_ok wn (up_total v) st" using inv that by (simp add: vinv_def)
    then show ?thesis using ut by (auto simp: flow_ok_def)
  qed
  have ulogs: "logs_ok (local_active (v_local v)) (v_node_listed v) (v_up_done v) (waiting_data (v_node v))
         (data_of (v_out v) @ data_of fs) (v_up_sent v @ data_of fs)"
    using inv by (intro logs_ok_send) (simp add: vinv_def)
  show ?thesis
    using inv d fs tx ut an none flow nflow ulogs logs
    by (auto simp: vinv_def awaited_def waiting_data_def)
qed

text \<open>The same for the node, whose answer to the opening of the stream is among its frames.\<close>

lemma vinv_node_step:
  assumes inv: "vinv wr wn v" and st: "v_node v = Some st"
    and fs: "list_all node_frame_ok fs"
    and ans: "count_kinds {OpenOk, OpenError} fs + of_bool (l = Some LConnecting) \<le> of_bool (v_local v = Some LConnecting)"
    and conn: "l \<noteq> Some LConnecting"
    and down: "unat (se_send_credit st') + length (data_of fs) \<le> unat (se_send_credit st)"
    and room: "up_total v + amounts OpenOk fs + amounts WindowUpdate fs \<le> unat (se_receive_remaining st')"
    and held: "unat (se_receive_remaining st') + length (inbound_data (se_inbound st')) \<le> wn"
    and sub: "set (se_inbound st') \<subseteq> set (se_inbound st)"
    and logs: "logs_ok (local_active l) n (v_up_done v @ out) (inbound_data (se_inbound st'))
        (data_of (v_out v)) (v_up_sent v)"
  shows "vinv wr wn (v\<lparr>v_node := Some st', v_node_listed := n, v_node_out := v_node_out v @ fs, v_local := l,
           v_down_sent := v_down_sent v @ data_of fs, v_up_done := v_up_done v @ out\<rparr>)"
  (is "vinv wr wn ?v")
proof -
  have ut: "up_total ?v = up_total v + amounts OpenOk fs + amounts WindowUpdate fs" by (simp add: up_total_def)
  have dt: "down_total ?v \<le> down_total v" using down st by (simp add: down_total_def credit_of_def)
  have an: "answers ?v \<le> answers v" using ans by (simp add: answers_def)
  have some: "v_relay v \<noteq> None" using inv st by (auto simp: vinv_def)
  have flow: "flow_ok wr (down_total ?v) d" if "v_relay v = Some d" for d
  proof -
    have "flow_ok wr (down_total v) d" using inv that by (simp add: vinv_def)
    then show ?thesis using dt by (auto simp: flow_ok_def)
  qed
  have nflow: "flow_ok wn (up_total ?v) st'"
  proof -
    have "flow_ok wn (up_total v) st" using inv st by (simp add: vinv_def)
    then show ?thesis using room held sub ut by (auto simp: flow_ok_def)
  qed
  have dlogs: "logs_ok (member_active (v_member v)) (v_listed v) (v_down_done v) (waiting_data (v_relay v))
         (data_of (v_node_out v) @ data_of fs) (v_down_sent v @ data_of fs)"
    using inv by (intro logs_ok_send) (simp add: vinv_def)
  have aw: "answers ?v \<le> awaited (v_relay v)" using inv an by (simp add: vinv_def)
  show ?thesis
    using inv st fs conn some flow nflow dlogs logs aw
    by (auto simp: vinv_def waiting_data_def)
qed

text \<open>The relay reads the next frame of the stream; \<open>gs\<close> is the notice it may send.\<close>

definition frame_data :: "frame \<Rightarrow> byte list" where
  "frame_data f = (if kind f = Data then payload f else [])"

definition frame_amount :: "frame_kind \<Rightarrow> frame \<Rightarrow> nat" where
  "frame_amount k f = (if kind f = k then unat (u32_from_be (payload f)) else 0)"

lemma vinv_relay_read:
  assumes inv: "vinv wr wn v" and d: "v_relay v = Some d" and f: "v_node_out v = f # fs"
    and gs: "list_all (\<lambda>g. kind g = Close) gs"
    and up: "credit_of (Some d') + pending (Some d') (v_member v) \<le>
        credit_of (Some d) + pending (Some d) (v_member v) + frame_amount OpenOk f + frame_amount WindowUpdate f"
    and tx: "of_bool (sd_open_tx d) \<le> (of_bool (sd_open_tx d') :: nat) + of_bool (kind f \<in> {OpenOk, OpenError})"
    and recv: "unat (se_receive_remaining d) \<le> unat (se_receive_remaining d') + length (frame_data f)"
    and held: "unat (se_receive_remaining d') + length (inbound_data (se_inbound d')) \<le>
        unat (se_receive_remaining d) + length (inbound_data (se_inbound d))"
    and sub: "InData [] \<notin> set (se_inbound d')"
    and logs: "logs_ok (member_active (v_member v)) l (v_down_done v) (inbound_data (se_inbound d'))
        (data_of fs) (v_down_sent v)"
  shows "vinv wr wn (v\<lparr>v_relay := Some d', v_listed := l, v_out := v_out v @ gs, v_node_out := fs\<rparr>)"
  (is "vinv wr wn ?v")
proof -
  have gs': "amounts k gs = 0" "data_of gs = []" "count_kinds {Open} gs = 0" "list_all relay_frame_ok gs"
    if "k \<noteq> Close" for k
    using gs that by (induction gs) (auto simp: relay_frame_ok_def)
  have ut: "up_total ?v \<le> up_total v"
    using up d f gs' [of Data] by (auto simp: up_total_def frame_amount_def split: if_splits)
  have dt: "down_total v = down_total ?v + length (frame_data f)"
    using d f gs' by (auto simp: down_total_def frame_data_def)
  have an: "answers v = answers ?v + of_bool (kind f \<in> {OpenOk, OpenError})"
    using f gs' [of Data] by (auto simp: answers_def)
  have flow: "flow_ok wr (down_total ?v) d'"
  proof -
    have "flow_ok wr (down_total v) d" using inv d by (simp add: vinv_def)
    then show ?thesis using recv held sub dt by (auto simp: flow_ok_def)
  qed
  have nflow: "flow_ok wn (up_total ?v) st" if "v_node v = Some st" for st
  proof -
    have "flow_ok wn (up_total v) st" using inv that by (simp add: vinv_def)
    then show ?thesis using ut by (auto simp: flow_ok_def)
  qed
  have "answers v \<le> awaited (v_relay v)" using inv by (simp add: vinv_def)
  then have aw: "answers ?v \<le> awaited (Some d')"
    using an tx d by (auto simp: awaited_def split: if_splits)
  show ?thesis
    using inv d f gs' [of Data] ut flow nflow aw logs
    by (auto simp: vinv_def waiting_data_def)
qed

lemma vinv_node_read:
  assumes inv: "vinv wr wn v" and st: "v_node v = Some st" and f: "v_out v = f # fs"
    and gs: "list_all (\<lambda>g. kind g = Close) gs"
    and credit: "unat (se_send_credit st') \<le> unat (se_send_credit st) + frame_amount WindowUpdate f"
    and recv: "unat (se_receive_remaining st) \<le> unat (se_receive_remaining st') + length (frame_data f)"
    and held: "unat (se_receive_remaining st') + length (inbound_data (se_inbound st')) \<le>
        unat (se_receive_remaining st) + length (inbound_data (se_inbound st))"
    and sub: "InData [] \<notin> set (se_inbound st')"
    and logs: "logs_ok (local_active (v_local v)) n (v_up_done v) (inbound_data (se_inbound st'))
        (data_of fs) (v_up_sent v)"
  shows "vinv wr wn (v\<lparr>v_node := Some st', v_node_listed := n, v_node_out := v_node_out v @ gs, v_out := fs\<rparr>)"
  (is "vinv wr wn ?v")
proof -
  have gs': "amounts k gs = 0" "data_of gs = []" "count_kinds {OpenOk, OpenError} gs = 0" "list_all node_frame_ok gs"
    if "k \<noteq> Close" for k
    using gs that by (induction gs) (auto simp: node_frame_ok_def)
  have some: "v_relay v \<noteq> None" using inv st by (auto simp: vinv_def)
  have ut: "up_total v = up_total ?v + length (frame_data f)"
    using f gs' by (auto simp: up_total_def frame_data_def)
  have dt: "down_total ?v \<le> down_total v"
    using credit st f gs' [of Data] by (auto simp: down_total_def credit_of_def frame_amount_def split: if_splits)
  have an: "answers ?v \<le> answers v" using f gs' [of Data] by (auto simp: answers_def)
  have flow: "flow_ok wr (down_total ?v) d" if "v_relay v = Some d" for d
  proof -
    have "flow_ok wr (down_total v) d" using inv that by (simp add: vinv_def)
    then show ?thesis using dt by (auto simp: flow_ok_def)
  qed
  have nflow: "flow_ok wn (up_total ?v) st'"
  proof -
    have "flow_ok wn (up_total v) st" using inv st by (simp add: vinv_def)
    then show ?thesis using recv held sub ut by (auto simp: flow_ok_def)
  qed
  have conn: "up_total ?v = 0 \<and> unat (se_receive_remaining st') = wn" if "v_local v = Some LConnecting"
  proof -
    have "up_total v = 0" "unat (se_receive_remaining st) = wn" using inv st that by (simp_all add: vinv_def)
    with ut recv nflow show ?thesis by (simp add: flow_ok_def)
  qed
  have aw: "answers ?v \<le> awaited (v_relay v)" using inv an by (simp add: vinv_def)
  show ?thesis
    using inv st f gs' [of Data] some conn flow nflow aw logs
    by (auto simp: vinv_def waiting_data_def)
qed

text \<open>The node reads a frame of a stream it does not know: it may answer the opening of one it has no room for.\<close>

lemma vinv_node_absent:
  assumes inv: "vinv wr wn v" and st: "v_node v = None" and f: "v_out v = f # fs"
    and gs: "list_all (\<lambda>g. kind g = OpenError) gs" "length gs \<le> of_bool (kind f = Open)"
  shows "vinv wr wn (v\<lparr>v_node_out := v_node_out v @ gs, v_out := fs\<rparr>)"
  (is "vinv wr wn ?v")
proof -
  have gs': "amounts k gs = 0" "data_of gs = []" "list_all node_frame_ok gs"
      "count_kinds {OpenOk, OpenError} gs = length gs" if "k \<noteq> OpenError" for k
    using gs(1) that by (induction gs) (auto simp: node_frame_ok_def)
  have some: "v_relay v \<noteq> None" using inv f by (auto simp: vinv_def)
  have "up_total v = 0" using inv st by (simp add: vinv_def)
  then have ut: "up_total ?v = 0" "data_of fs = []" using f gs' by (auto simp: up_total_def)
  have dt: "down_total ?v \<le> down_total v" using f gs' [of Data] by (auto simp: down_total_def gs')
  have flow: "flow_ok wr (down_total ?v) d" if "v_relay v = Some d" for d
  proof -
    have "flow_ok wr (down_total v) d" using inv that by (simp add: vinv_def)
    then show ?thesis using dt by (auto simp: flow_ok_def)
  qed
  have an: "answers ?v \<le> answers v" using f gs' [of Data] gs(2) by (auto simp: answers_def)
  have aw: "answers ?v \<le> awaited (v_relay v)" using inv an by (simp add: vinv_def)
  have logs: "logs_ok (local_active (v_local v)) (v_node_listed v) (v_up_done v) (waiting_data (v_node v))
      (data_of fs) (v_up_sent v)"
    using inv st ut by (simp add: vinv_def logs_ok_def waiting_data_def)
  show ?thesis
    using inv st f gs' [of Data] some ut(1) flow aw logs by (auto simp: vinv_def)
qed

lemma vinv_node_open:
  assumes inv: "vinv wr wn v" and st: "v_node v = None" and f: "v_out v = f # fs" and op: "kind f = Open"
    and new: "unat (se_send_credit st) = frame_amount Open f" "unat (se_receive_remaining st) = wn" "se_inbound st = []"
  shows "vinv wr wn (v\<lparr>v_node := Some st, v_node_listed := True, v_local := Some LConnecting, v_out := fs\<rparr>)"
  (is "vinv wr wn ?v")
proof -
  have some: "v_relay v \<noteq> None" using inv f by (auto simp: vinv_def)
  have z: "up_total v = 0" "v_up_sent v = []" "v_up_done v = []" "v_local v = None"
    using inv st by (simp_all add: vinv_def)
  then have ut: "up_total ?v = 0" "data_of fs = []" using f by (auto simp: up_total_def)
  have dt: "down_total ?v = down_total v"
    using st f op new by (auto simp: down_total_def credit_of_def frame_amount_def)
  have flow: "flow_ok wr (down_total ?v) d" if "v_relay v = Some d" for d
    using inv that dt by (simp add: vinv_def)
  have an: "answers ?v = answers v" using f op z by (auto simp: answers_def)
  have le: "answers v \<le> awaited (v_relay v)" using inv by (simp add: vinv_def)
  then have "answers v \<le> 1" by (auto simp: awaited_def of_bool_def split: option.splits if_splits)
  then have "count_kinds {Open} fs = 0" using f op by (auto simp: answers_def)
  then show ?thesis
    using inv f some z ut flow an le new
    by (auto simp: vinv_def logs_ok_def waiting_data_def flow_ok_def)
qed

text \<open>The relay opens the stream, or fails to tell the node.\<close>

lemma vinv_relay_open:
  assumes inv: "vinv wr wn v" and none: "v_relay v = None"
    and d: "se_inbound d = []" "se_send_credit d = 0" "sd_opened d = None" "sd_open_tx d"
      "unat (se_receive_remaining d) = wr"
    and fs: "fs = [] \<and> m = None \<and> \<not> l \<or> fs = [frame_u32 Open sid w] \<and> w \<noteq> 0 \<and> unat w = wr \<and> m = Some MOpening"
  shows "vinv wr wn (v\<lparr>v_relay := Some d, v_listed := l, v_out := v_out v @ fs, v_member := m\<rparr>)"
  (is "vinv wr wn ?v")
proof -
  have z: "v_out v = []" "v_node_out v = []" "v_node v = None" "v_down_sent v = []" "v_down_done v = []"
    "v_member v = None" "v_local v = None" "\<not> v_node_listed v" "v_up_sent v = []" "v_up_done v = []"
    using inv none by (auto simp: vinv_def)
  have "up_total ?v = 0" "down_total ?v \<le> wr" "answers ?v \<le> 1" "list_all relay_frame_ok fs"
    "data_of fs = []"
    using z d fs by (auto simp: view_defs credit_of_def pending_def relay_frame_ok_def amount_ok_def)
  then show ?thesis
    using z d by (auto simp: vinv_def flow_ok_def awaited_def logs_ok_def waiting_data_def)
qed

section \<open>Steps of the system\<close>

text \<open>A tunnel that changed at one stream only: its object, its place in the table, and the frames it accepted.\<close>

definition touched ::
  "('s, 'z) tunnel_scheme \<Rightarrow> ('s, 'z) tunnel_scheme \<Rightarrow> u64 \<Rightarrow> 's stream_end_scheme \<Rightarrow> bool \<Rightarrow> frame list \<Rightarrow> bool" where
  "touched t t' sid d l fs \<longleftrightarrow>
     tn_store t' = (tn_store t)(sid \<mapsto> d) \<and> tn_outbox t' = tn_outbox t @ fs \<and> list_all (\<lambda>f. stream_id f = sid) fs
     \<and> (sid \<in> tn_streams t' \<longleftrightarrow> l) \<and> (\<forall>i. i \<noteq> sid \<longrightarrow> (i \<in> tn_streams t' \<longleftrightarrow> i \<in> tn_streams t))"

lemma of_stream_own: "list_all (\<lambda>f. stream_id f = sid) fs \<Longrightarrow> of_stream i fs = (if i = sid then fs else [])"
  by (induction fs) auto

lemma touched_outbox:
  "touched t t' sid d l fs \<Longrightarrow> of_stream i (tn_outbox t') = of_stream i (tn_outbox t) @ (if i = sid then fs else [])"
  by (simp add: touched_def of_stream_own)

lemma frame_id_ok_own:
  "list_all (\<lambda>f. stream_id f = sid) fs \<Longrightarrow> odd (unat sid) \<Longrightarrow> list_all frame_id_ok fs"
  by (induction fs) (auto simp: frame_id_ok_def)

lemma sys_wf_stream:
  assumes "sys_wf wr wn s" and "ids_ok s'"
    and "vinv wr wn (view s' sid)" and "\<And>i. i \<noteq> sid \<Longrightarrow> i \<noteq> 0 \<Longrightarrow> view s' i = view s i"
  shows "sys_wf wr wn s'"
  using assms unfolding sys_wf_def by metis

lemma sys_wf_ids:
  assumes "sys_wf wr wn s" and "tn_store (sy_relay s) sid = Some d"
  shows "odd (unat sid)" and "sid \<noteq> 0" and "vinv wr wn (view s sid)"
proof -
  show odd: "odd (unat sid)" using assms by (auto simp: sys_wf_def ids_ok_def)
  then show "sid \<noteq> 0" by auto
  with assms show "vinv wr wn (view s sid)" by (simp add: sys_wf_def)
qed

lemma sys_wf_relay_step:
  assumes wf: "sys_wf wr wn s" and d: "tn_store (sy_relay s) sid = Some d"
    and t': "touched (sy_relay s) t' sid d' l fs"
    and fs: "list_all relay_frame_ok fs" "count_kinds {Open} fs = 0" "amounts Open fs = 0"
    and up: "credit_of (Some d') + pending (Some d') m + length (data_of fs) \<le>
        credit_of (Some d) + pending (Some d) (sy_members s sid)"
    and tx: "sd_open_tx d' = sd_open_tx d"
    and recv: "unat (se_receive_remaining d) + amounts WindowUpdate fs \<le> unat (se_receive_remaining d')"
    and held: "unat (se_receive_remaining d') + length (inbound_data (se_inbound d')) \<le>
        unat (se_receive_remaining d) + length (inbound_data (se_inbound d))"
    and sub: "set (se_inbound d') \<subseteq> set (se_inbound d)"
    and logs: "member_active m \<longrightarrow> member_active (sy_members s sid) \<and> out @ inbound_data (se_inbound d') = inbound_data (se_inbound d)"
      "l \<longrightarrow> sid \<in> tn_streams (sy_relay s)"
      "out = [] \<or> member_active (sy_members s sid) \<and> prefix out (inbound_data (se_inbound d))"
  shows "sys_wf wr wn (s\<lparr>sy_relay := t', sy_members := (sy_members s)(sid := m),
           sy_up_sent := (sy_up_sent s)(sid := sy_up_sent s sid @ data_of fs),
           sy_down_done := (sy_down_done s)(sid := sy_down_done s sid @ out)\<rparr>)"
  (is "sys_wf wr wn ?s")
proof (rule sys_wf_stream [OF wf, of _ sid])
  note inv = sys_wf_ids [OF wf d]
  have old: "logs_ok (member_active (sy_members s sid)) (sid \<in> tn_streams (sy_relay s)) (sy_down_done s sid)
      (inbound_data (se_inbound d)) (data_of (of_stream sid (tn_outbox (sy_node s)))) (sy_down_sent s sid)"
    using inv(3) d by (simp add: vinv_def view_def waiting_data_def)
  have new: "logs_ok (member_active m) l (sy_down_done s sid @ out) (inbound_data (se_inbound d'))
      (data_of (of_stream sid (tn_outbox (sy_node s)))) (sy_down_sent s sid)"
  proof (cases "out = []")
    case True
    then show ?thesis using logs old by (auto intro: logs_ok_idle)
  next
    case False
    then show ?thesis using logs by (intro logs_ok_step [OF old]) auto
  qed
  have "vinv wr wn ((view s sid)\<lparr>v_relay := Some d', v_listed := l, v_out := v_out (view s sid) @ fs, v_member := m,
           v_up_sent := v_up_sent (view s sid) @ data_of fs, v_down_done := v_down_done (view s sid) @ out\<rparr>)"
    using inv(3) d fs up tx recv held sub new by (intro vinv_relay_step) (simp_all add: view_def)
  moreover have "view ?s sid = (view s sid)\<lparr>v_relay := Some d', v_listed := l, v_out := v_out (view s sid) @ fs, v_member := m,
           v_up_sent := v_up_sent (view s sid) @ data_of fs, v_down_done := v_down_done (view s sid) @ out\<rparr>"
    using t' touched_outbox [OF t'] by (simp add: view_def touched_def)
  ultimately show "vinv wr wn (view ?s sid)" by simp
  show "view ?s i = view s i" if "i \<noteq> sid" for i
    using t' touched_outbox [OF t'] that by (simp add: view_def touched_def)
  show "ids_ok ?s"
    using wf t' d inv(1) frame_id_ok_own [of sid fs] by (auto simp: sys_wf_def ids_ok_def touched_def)
qed

lemma touched_refl: "tn_store t sid = Some d \<Longrightarrow> touched t t sid d (sid \<in> tn_streams t) []"
  by (auto simp: touched_def)

lemma touched_update: "touched t t1 sid d l fs \<Longrightarrow> touched t (tn_update t1 sid d') sid d' l fs"
  by (auto simp: touched_def)

lemma touched_send:
  "touched t t1 sid d l fs \<Longrightarrow> tn_send a b t1 f = Inr t2 \<Longrightarrow> stream_id f = sid \<Longrightarrow> touched t t2 sid d l (fs @ [f])"
  by (auto simp: touched_def tn_send_Inr)

lemma touched_remove:
  "touched t t1 sid d l fs \<Longrightarrow>
   touched t (remove_stream t1 sid) sid (d\<lparr>se_cancelled := (l \<or> se_cancelled d)\<rparr>) False fs"
  by (auto simp: touched_def remove_stream_def tn_lookup_def split: option.splits)

lemma pending_simps [simp]:
  "pending x None = 0" "pending x (Some (MRelaying up dn)) = 0" "pending x (Some MEnding) = 0"
  by (simp_all add: pending_def split: option.splits sum.splits)

lemma pending_opened: "sd_opened d = Some (Inr w) \<Longrightarrow> pending (Some d) (Some MOpening) = unat w"
  by (simp add: pending_def)

lemma open_result_Inr: "open_result w = Inr window \<longleftrightarrow> w = OpenAnswered (Inr window)"
  by (cases w rule: open_result.cases) auto

lemma sys_wf_relay_opened:
  assumes wf: "sys_wf wr wn s" and m: "sy_members s sid = Some MOpening" and d: "tn_store (sy_relay s) sid = Some d"
    and w: "wait_possible d w" and fin: "open_finish (sy_relay s) sid d w = (t', r)"
  shows "sys_wf wr wn (s\<lparr>sy_relay := t',
    sy_members := (sy_members s)(sid := (case r of Inl _ \<Rightarrow> None | Inr _ \<Rightarrow> Some (MRelaying True True)))\<rparr>)"
proof -
  let ?t = "sy_relay s"
  note refl = touched_refl [OF d]
  have step: "sys_wf wr wn (s\<lparr>sy_relay := t', sy_members := (sy_members s)(sid := m')\<rparr>)"
    if "touched ?t t' sid d' l []" and "l \<longrightarrow> sid \<in> tn_streams ?t"
      and "credit_of (Some d') + pending (Some d') m' \<le> credit_of (Some d) + pending (Some d) (Some MOpening)"
      and "sd_open_tx d' = sd_open_tx d" and "se_receive_remaining d' = se_receive_remaining d"
      and "se_inbound d' = se_inbound d" for d' l m'
    using sys_wf_relay_step [OF wf d that(1), of m' "[]"] that m by simp
  have fail: "sys_wf wr wn (s\<lparr>sy_relay := remove_stream ?t sid, sy_members := (sy_members s)(sid := None)\<rparr>)"
    if "t' = remove_stream ?t sid"
    using step [of "d\<lparr>se_cancelled := (sid \<in> tn_streams ?t \<or> se_cancelled d)\<rparr>" False None]
      touched_remove [OF refl] that by (simp add: credit_of_def)
  show ?thesis
  proof (cases "\<exists>window c. w = OpenAnswered (Inr window) \<and> window \<noteq> 0 \<and> credit_add (se_send_credit d) window = Inr c")
    case True
    then obtain window c where ok: "w = OpenAnswered (Inr window)" "window \<noteq> 0" "credit_add (se_send_credit d) window = Inr c"
      by blast
    then have t': "t' = tn_update ?t sid (d\<lparr>se_send_credit := c\<rparr>)" "r = Inr ()"
      using fin by (auto simp: open_finish_def)
    have "unat c = unat (se_send_credit d) + unat window" using ok(3) by (rule unat_credit_add)
    moreover have "sd_opened d = Some (Inr window)" using w ok(1) by (simp add: wait_possible_def)
    ultimately show ?thesis
      using step [of "d\<lparr>se_send_credit := c\<rparr>" "sid \<in> tn_streams ?t" "Some (MRelaying True True)"]
        touched_update [OF refl] t' by (simp add: credit_of_def pending_opened)
  next
    case False
    then consider "t' = remove_stream ?t sid" "\<exists>e. r = Inl e"
      | e where "t' = tn_update ?t sid (d\<lparr>se_receiver := False\<rparr>)" "r = Inl e"
      using fin by (auto simp: open_finish_def open_result_Inr split: sum.splits if_splits)
    then show ?thesis
    proof cases
      case 1
      then show ?thesis using fail by auto
    next
      case 2
      then show ?thesis
        using step [of "d\<lparr>se_receiver := False\<rparr>" "sid \<in> tn_streams ?t" None] touched_update [OF refl]
        by (simp add: credit_of_def)
    qed
  qed
qed

lemma upload_next_simps [simp]:
  "member_active (Some (upload_next p dn)) \<Longrightarrow> dn" "pending x (Some (upload_next p dn)) = 0"
  by (cases "(p, dn)" rule: upload_next.cases; simp add: pending_def split: option.splits sum.splits)+

lemma download_next_simps [simp]:
  "member_active (Some (download_next p up)) \<longleftrightarrow> p = Continue" "pending x (Some (download_next p up)) = 0"
  by (cases "(p, up)" rule: download_next.cases; simp add: pending_def split: option.splits sum.splits)+

lemma sys_wf_relay_uploads:
  assumes wf: "sys_wf wr wn s" and m: "sy_members s sid = Some (MRelaying True dn)"
    and d: "tn_store (sy_relay s) sid = Some d" and wakes: "set (pi_credit_wakes pio) \<subseteq> {CreditCancelled}"
    and pump: "pump_member_to_node env pio rt ps (sy_relay s) sid d cancelled member = Some (ps', t', p)"
  shows "sys_wf wr wn (s\<lparr>sy_relay := t', sy_members := (sy_members s)(sid \<mapsto> upload_next p dn),
    sy_up_sent := (sy_up_sent s)(sid := sy_up_sent s sid @ new_data (sy_relay s) t')\<rparr>)"
proof -
  let ?t = "sy_relay s"
  note refl = touched_refl [OF d]
  have step: "sys_wf wr wn (s\<lparr>sy_relay := t', sy_members := (sy_members s)(sid \<mapsto> upload_next p dn),
      sy_up_sent := (sy_up_sent s)(sid := sy_up_sent s sid @ new_data ?t t')\<rparr>)"
    if t': "touched ?t t' sid (d\<lparr>se_send_credit := c\<rparr>) (sid \<in> tn_streams ?t) fs"
      and fs: "fs = [] \<or> fs = [frame_new Fin sid []] \<or> (\<exists>bs. fs = [frame_new Data sid bs] \<and> bs \<noteq> [])"
      and c: "unat c + length (data_of fs) \<le> unat (se_send_credit d)" for c fs
  proof -
    have "new_data ?t t' = data_of fs" using t' by (simp add: new_data_def touched_def)
    moreover have "list_all relay_frame_ok fs" "count_kinds {Open} fs = 0" "amounts Open fs = 0"
      "amounts WindowUpdate fs = 0"
      using fs by (auto simp: relay_frame_ok_def)
    ultimately show ?thesis
      using sys_wf_relay_step [OF wf d t', of "Some (upload_next p dn)" "[]"] m c upload_next_simps(1)
      by (auto simp: credit_of_def)
  qed
  from pump wakes show ?thesis
  proof (cases rule: pump_member_to_node_effect)
    case same
    then show ?thesis using step [of "se_send_credit d" "[]"] refl by simp
  next
    case (ended a b)
    then show ?thesis
      using step [of "se_send_credit d" "[frame_new Fin sid []]"] touched_send [OF refl] by simp
  next
    case (lost c e)
    then show ?thesis using step [of c "[]"] touched_update [OF refl] by simp
  next
    case (sent c bs a b)
    then show ?thesis
      using step [of c "[frame_new Data sid bs]"] touched_send [OF touched_update [OF refl]] by auto
  qed
qed

lemma unat_window_add:
  "unat (r :: u64) + unat (a :: u32) < 2 ^ 64 \<Longrightarrow> unat (r + ucast a) = unat r + unat a"
  by (simp add: unat_add_u64)

lemma sys_wf_relay_downloads:
  assumes wf: "sys_wf wr wn s" and wr: "wr < 2 ^ 32" and m: "sy_members s sid = Some (MRelaying up True)"
    and d: "tn_store (sy_relay s) sid = Some d"
    and pump: "pump_node_to_member env pio rt ps (sy_relay s) sid d cancelled written = Some (out, ps', t', p)"
  shows "sys_wf wr wn (s\<lparr>sy_relay := t', sy_members := (sy_members s)(sid \<mapsto> download_next p up),
    sy_down_done := (sy_down_done s)(sid := sy_down_done s sid @ out)\<rparr>)"
proof -
  let ?t = "sy_relay s"
  note refl = touched_refl [OF d]
  have "flow_ok wr (down_total (view s sid)) d"
    using sys_wf_ids(3) [OF wf d] d by (simp add: vinv_def view_def)
  then have held: "unat (se_receive_remaining d) + length (inbound_data (se_inbound d)) < 2 ^ 64"
    using wr by (simp add: flow_ok_def)
  have step: "sys_wf wr wn (s\<lparr>sy_relay := t', sy_members := (sy_members s)(sid \<mapsto> download_next p up),
      sy_down_done := (sy_down_done s)(sid := sy_down_done s sid @ out)\<rparr>)"
    if t': "touched ?t t' sid d' (sid \<in> tn_streams ?t) fs" and inb: "se_inbound d = xs @ se_inbound d'"
      and same: "se_send_credit d' = se_send_credit d" "sd_open_tx d' = sd_open_tx d" "sd_opened d' = sd_opened d"
      and out: "prefix out (inbound_data xs)" "p = Continue \<longrightarrow> out = inbound_data xs"
      and fs: "fs = [] \<or> fs = [frame_u32 WindowUpdate sid amount] \<and> 0 < unat amount"
      and rr: "unat (se_receive_remaining d') = unat (se_receive_remaining d) + unat amount"
      and am: "unat amount \<le> length (inbound_data xs)" for d' xs fs amount
  proof -
    have "data_of fs = []" "list_all relay_frame_ok fs" "count_kinds {Open} fs = 0" "amounts Open fs = 0"
      "amounts WindowUpdate fs \<le> unat amount"
      using fs by (auto simp: relay_frame_ok_def amount_ok_def)
    then show ?thesis
      using sys_wf_relay_step [OF wf d t', of "Some (download_next p up)" out] m same inb out rr am
      by (auto simp: credit_of_def)
  qed
  from pump show ?thesis
  proof (cases rule: pump_node_to_member_effect)
    case (same r)
    then show ?thesis using step [of d "[]" "[]" 0] refl by simp
  next
    case (control x rest r)
    then show ?thesis
      using step [of "d\<lparr>se_inbound := rest\<rparr>" "[]" "[x]" 0] touched_update [OF refl] by simp
  next
    case (stopped bytes rest d' amount e)
    then show ?thesis
      using step [of d' "[]" "[InData bytes]" amount] touched_update [OF refl, of d'] held
      by (simp add: unat_window_add)
  next
    case (told bytes rest d' amount a b)
    then show ?thesis
      using step [of d' "[frame_u32 WindowUpdate sid amount]" "[InData bytes]" amount]
        touched_send [OF touched_update [OF refl], of a b d' _ t'] held
      by (auto simp: unat_window_add take_is_prefix)
  qed
qed

lemma sys_wf_relay_finishes:
  assumes wf: "sys_wf wr wn s" and m: "sy_members s sid = Some m" "m \<noteq> MOpening"
    and d: "tn_store (sy_relay s) sid = Some d"
  shows "sys_wf wr wn (s\<lparr>sy_relay := member_finish (sy_relay s) sid d outcome, sy_members := (sy_members s)(sid := None)\<rparr>)"
proof -
  let ?t = "sy_relay s"
  define d' where "d' = d\<lparr>se_cancelled := True, se_receiver := False\<rparr>"
  let ?t1 = "remove_stream (tn_update ?t sid d') sid"
  have eq: "d'\<lparr>se_cancelled := (sid \<in> tn_streams ?t \<or> se_cancelled d')\<rparr> = d'" by (simp add: d'_def)
  have t1: "touched ?t ?t1 sid d' False []"
    using touched_remove [OF touched_update [OF touched_refl [OF d], of d']] unfolding eq .
  obtain fs where "touched ?t (member_finish ?t sid d outcome) sid d' False fs"
    and fs: "fs = [] \<or> (\<exists>c. fs = [frame_code Close sid c])"
  proof (cases "tunnel_send ?t1 (frame_code Close sid (result_code (member_result outcome)))")
    case (Inl e)
    then show thesis using t1 that [of "[]"] by (simp add: member_finish_def Let_def d'_def)
  next
    case (Inr t2)
    then have "touched ?t t2 sid d' False [frame_code Close sid (result_code (member_result outcome))]"
      using touched_send [OF t1] by (simp add: tunnel_send_def)
    with Inr show thesis
      using that [of "[frame_code Close sid (result_code (member_result outcome))]"]
      by (auto simp: member_finish_def Let_def d'_def)
  qed
  moreover have "list_all relay_frame_ok fs" "count_kinds {Open} fs = 0" "data_of fs = []"
    "amounts Open fs = 0" "amounts WindowUpdate fs = 0"
    using fs by (auto simp: relay_frame_ok_def)
  ultimately show ?thesis
    using sys_wf_relay_step [OF wf d, of "member_finish ?t sid d outcome" d' False fs None "[]"] m
    by (simp add: credit_of_def d'_def)
qed

lemma sys_wf_relay_opens:
  assumes wf: "sys_wf wr wn s" and w: "wr = unat (sc_initial_window_bytes sc)" "sc_initial_window_bytes sc \<noteq> 0"
    and bound: "unat (sy_next s) + 2 < 2 ^ 64"
    and req: "open_request sc (sy_next s) (sy_relay s) = (next', t', r)"
  shows "sys_wf wr wn (s\<lparr>sy_next := next', sy_relay := t',
    sy_members := (case r of Inl _ \<Rightarrow> sy_members s | Inr sid \<Rightarrow> (sy_members s)(sid \<mapsto> MOpening))\<rparr>)"
    (is "sys_wf wr wn ?s")
proof -
  let ?t = "sy_relay s" and ?sid = "sy_next s"
  have odd: "odd (unat ?sid)" and none: "tn_store ?t ?sid = None"
    using wf by (auto simp: sys_wf_def ids_ok_def)
  then have valid: "\<not> invalid_stream_id ?sid" "?sid \<noteq> 0" by (auto simp: invalid_stream_id_def)
  have nx: "next' = ?sid + 2" "unat next' = unat ?sid + 2"
    using req bound by (auto simp: open_request_def Let_def unat_add_u64 split: if_splits sum.splits)
  have inv: "vinv wr wn (view s ?sid)" using wf valid by (simp add: sys_wf_def)
  then have mem: "sy_members s ?sid = None" using none by (simp add: vinv_def view_def)
  define d where "d = (case r of Inr _ \<Rightarrow> new_dispatch sc | Inl _ \<Rightarrow> (new_dispatch sc)\<lparr>se_cancelled := True\<rparr>)"
  define fs where "fs = (case r of Inr _ \<Rightarrow> [frame_u32 Open ?sid (sc_initial_window_bytes sc)] | Inl _ \<Rightarrow> [])"
  define m where "m = (case r of Inr _ \<Rightarrow> Some MOpening | Inl _ \<Rightarrow> None)"
  define l where "l = (case r of Inr _ \<Rightarrow> True | Inl _ \<Rightarrow> False)"
  have r: "r = Inr ?sid \<or> (\<exists>e. r = Inl e)"
    using req valid by (auto simp: open_request_def Let_def split: sum.splits)
  have touched: "touched ?t t' ?sid d l fs"
    using req valid r none
    by (auto simp: open_request_def Let_def d_def fs_def l_def touched_def tunnel_send_def tn_send_Inr
        remove_stream_def tn_lookup_def split: sum.splits)
  have d: "se_inbound d = []" "se_send_credit d = 0" "sd_opened d = None" "sd_open_tx d"
      "unat (se_receive_remaining d) = wr"
    using r w by (auto simp: d_def new_dispatch_def credit_new_def)
  have fs: "fs = [] \<and> m = None \<and> \<not> l \<or> fs = [frame_u32 Open ?sid (sc_initial_window_bytes sc)]
      \<and> sc_initial_window_bytes sc \<noteq> 0 \<and> unat (sc_initial_window_bytes sc) = wr \<and> m = Some MOpening"
    using r w by (auto simp: fs_def m_def l_def)
  show ?thesis
  proof (rule sys_wf_stream [OF wf, of _ ?sid])
    have "vinv wr wn ((view s ?sid)\<lparr>v_relay := Some d, v_listed := l, v_out := v_out (view s ?sid) @ fs, v_member := m\<rparr>)"
      by (rule vinv_relay_open [OF inv _ d fs]) (simp add: view_def none)
    moreover have "view ?s ?sid = (view s ?sid)\<lparr>v_relay := Some d, v_listed := l, v_out := v_out (view s ?sid) @ fs, v_member := m\<rparr>"
      using touched touched_outbox [OF touched] r mem by (auto simp: view_def touched_def m_def)
    ultimately show "vinv wr wn (view ?s ?sid)" by simp
    show "view ?s i = view s i" if "i \<noteq> ?sid" for i
      using touched touched_outbox [OF touched] that r by (auto simp: view_def touched_def)
    show "ids_ok ?s"
      using wf touched nx odd frame_id_ok_own [of ?sid fs]
      by (fastforce simp: sys_wf_def ids_ok_def touched_def)
  qed
qed

text \<open>A step that concerns no stream: the frames it sends, if any, belong to the tunnel.\<close>

definition quiet :: "('s, 'z) tunnel_scheme \<Rightarrow> ('s, 'z) tunnel_scheme \<Rightarrow> bool" where
  "quiet t t' \<longleftrightarrow> tn_store t' = tn_store t \<and> tn_streams t' = tn_streams t
     \<and> (\<exists>fs. tn_outbox t' = tn_outbox t @ fs \<and> list_all (\<lambda>f. stream_id f = 0 \<and> frame_id_ok f) fs)"

lemma quiet_outbox:
  assumes "quiet t t'"
  shows "i \<noteq> 0 \<Longrightarrow> of_stream i (tn_outbox t') = of_stream i (tn_outbox t)"
    and "list_all frame_id_ok (tn_outbox t) \<Longrightarrow> list_all frame_id_ok (tn_outbox t')"
proof -
  obtain fs where fs: "tn_outbox t' = tn_outbox t @ fs" "list_all (\<lambda>f. stream_id f = 0 \<and> frame_id_ok f) fs"
    using assms by (auto simp: quiet_def)
  from fs(2) have "of_stream i fs = []" if "i \<noteq> 0" using that by (induction fs) auto
  with fs show "i \<noteq> 0 \<Longrightarrow> of_stream i (tn_outbox t') = of_stream i (tn_outbox t)" by simp
  show "list_all frame_id_ok (tn_outbox t) \<Longrightarrow> list_all frame_id_ok (tn_outbox t')"
    using fs by (auto simp: list_all_iff)
qed

lemma quiet_simps [simp]:
  "quiet t (t\<lparr>tn_cancelled := b\<rparr>)" "quiet t (t\<lparr>tn_writer := w\<rparr>)" "quiet t (t\<lparr>tn_last_pong := n\<rparr>)" "quiet t t"
  by (auto simp: quiet_def)

lemma quiet_send: "tn_send a b t f = Inr t' \<Longrightarrow> stream_id f = 0 \<Longrightarrow> frame_id_ok f \<Longrightarrow> quiet t t'"
  by (auto simp: quiet_def tn_send_Inr)

lemma sys_wf_relay_quiet: "sys_wf wr wn s \<Longrightarrow> quiet (sy_relay s) t' \<Longrightarrow> sys_wf wr wn (s\<lparr>sy_relay := t'\<rparr>)"
  using quiet_outbox [of "sy_relay s" t'] by (auto simp: sys_wf_def ids_ok_def view_def quiet_def)

lemma sys_wf_node_quiet: "sys_wf wr wn s \<Longrightarrow> quiet (sy_node s) t' \<Longrightarrow> sys_wf wr wn (s\<lparr>sy_node := t'\<rparr>)"
  using quiet_outbox [of "sy_node s" t'] by (auto simp: sys_wf_def ids_ok_def view_def quiet_def)

lemma heartbeat_quiet: "heartbeat_pass sc rc t n now now_utc = (t', n', b) \<Longrightarrow> quiet t t'"
  by (auto simp: heartbeat_pass_def Let_def tunnel_send_def frame_id_ok_def intro: quiet_send split: if_splits sum.splits)

lemma node_heartbeat_quiet: "node_heartbeat_pass nc t n now = (t', n', b) \<Longrightarrow> quiet t t'"
  by (auto simp: node_heartbeat_pass_def Let_def node_send_def frame_id_ok_def intro: quiet_send split: if_splits sum.splits)

lemma sys_wf_node_ids:
  assumes "sys_wf wr wn s" and "sid \<noteq> 0" and "tn_store (sy_node s) sid = Some st"
  shows "odd (unat sid)" and "vinv wr wn (view s sid)"
proof -
  show v: "vinv wr wn (view s sid)" using assms by (simp add: sys_wf_def)
  have "tn_store (sy_relay s) sid \<noteq> None" using v assms(3) by (auto simp: vinv_def view_def)
  then show "odd (unat sid)" using assms(1) by (auto simp: sys_wf_def ids_ok_def)
qed

lemma sys_wf_node_step:
  assumes wf: "sys_wf wr wn s" and nz: "sid \<noteq> 0" and st: "tn_store (sy_node s) sid = Some st"
    and t': "touched (sy_node s) t' sid st' n fs"
    and fs: "list_all node_frame_ok fs"
    and ans: "count_kinds {OpenOk, OpenError} fs \<le> of_bool (sy_locals s sid = Some LConnecting)"
    and conn: "l \<noteq> Some LConnecting"
    and down: "unat (se_send_credit st') + length (data_of fs) \<le> unat (se_send_credit st)"
    and room: "up_total (view s sid) + amounts OpenOk fs + amounts WindowUpdate fs \<le> unat (se_receive_remaining st')"
    and held: "unat (se_receive_remaining st') + length (inbound_data (se_inbound st')) \<le> wn"
    and sub: "set (se_inbound st') \<subseteq> set (se_inbound st)"
    and logs: "local_active l \<longrightarrow> local_active (sy_locals s sid) \<and> out @ inbound_data (se_inbound st') = inbound_data (se_inbound st)"
      "n \<longrightarrow> sid \<in> tn_streams (sy_node s)"
      "out = [] \<or> local_active (sy_locals s sid) \<and> prefix out (inbound_data (se_inbound st))"
  shows "sys_wf wr wn (s\<lparr>sy_node := t', sy_locals := (sy_locals s)(sid := l),
           sy_down_sent := (sy_down_sent s)(sid := sy_down_sent s sid @ data_of fs),
           sy_up_done := (sy_up_done s)(sid := sy_up_done s sid @ out)\<rparr>)"
  (is "sys_wf wr wn ?s")
proof (rule sys_wf_stream [OF wf, of _ sid])
  note inv = sys_wf_node_ids [OF wf nz st]
  have old: "logs_ok (local_active (sy_locals s sid)) (sid \<in> tn_streams (sy_node s)) (sy_up_done s sid)
      (inbound_data (se_inbound st)) (data_of (of_stream sid (tn_outbox (sy_relay s)))) (sy_up_sent s sid)"
    using inv(2) st by (simp add: vinv_def view_def waiting_data_def)
  have new: "logs_ok (local_active l) n (sy_up_done s sid @ out) (inbound_data (se_inbound st'))
      (data_of (of_stream sid (tn_outbox (sy_relay s)))) (sy_up_sent s sid)"
  proof (cases "out = []")
    case True
    then show ?thesis using logs old by (auto intro: logs_ok_idle)
  next
    case False
    then show ?thesis using logs by (intro logs_ok_step [OF old]) auto
  qed
  have "vinv wr wn ((view s sid)\<lparr>v_node := Some st', v_node_listed := n, v_node_out := v_node_out (view s sid) @ fs,
           v_local := l, v_down_sent := v_down_sent (view s sid) @ data_of fs, v_up_done := v_up_done (view s sid) @ out\<rparr>)"
    using inv(2) st fs ans conn down room held sub new by (intro vinv_node_step) (simp_all add: view_def)
  moreover have "view ?s sid = (view s sid)\<lparr>v_node := Some st', v_node_listed := n, v_node_out := v_node_out (view s sid) @ fs,
           v_local := l, v_down_sent := v_down_sent (view s sid) @ data_of fs, v_up_done := v_up_done (view s sid) @ out\<rparr>"
    using t' touched_outbox [OF t'] by (simp add: view_def touched_def)
  ultimately show "vinv wr wn (view ?s sid)" by simp
  show "view ?s i = view s i" if "i \<noteq> sid" for i
    using t' touched_outbox [OF t'] that by (simp add: view_def touched_def)
  show "ids_ok ?s"
    using wf nz t' inv(1) frame_id_ok_own [of sid fs] by (auto simp: sys_wf_def ids_ok_def touched_def)
qed

lemma touched_slots: "touched t (release_slot t1) sid d l fs \<longleftrightarrow> touched t t1 sid d l fs"
  by (simp add: touched_def release_slot_def)

text \<open>A task of the node has its object.\<close>

lemma local_object:
  assumes "sys_wf wr wn s" and "sid \<noteq> 0" and "sy_locals s sid = Some l"
  obtains st where "tn_store (sy_node s) sid = Some st"
proof -
  have "vinv wr wn (view s sid)" using assms by (simp add: sys_wf_def)
  then have "tn_store (sy_node s) sid \<noteq> None" using assms(3) by (auto simp: vinv_def view_def)
  then show thesis using that by blast
qed

lemma node_room:
  assumes "sys_wf wr wn s" and "sid \<noteq> 0" and "tn_store (sy_node s) sid = Some st"
  shows "up_total (view s sid) \<le> unat (se_receive_remaining st)"
    and "unat (se_receive_remaining st) + length (inbound_data (se_inbound st)) \<le> wn"
    and "sy_locals s sid = Some LConnecting \<Longrightarrow> up_total (view s sid) = 0 \<and> unat (se_receive_remaining st) = wn"
  using sys_wf_node_ids(2) [OF assms] assms(3) by (auto simp: vinv_def view_def flow_ok_def)

text \<open>The end of a task: its stream leaves the table, and the relay is told.\<close>

lemma sys_wf_node_ends:
  assumes wf: "sys_wf wr wn s" and nz: "sid \<noteq> 0" and st: "tn_store (sy_node s) sid = Some st"
    and t': "touched (sy_node s) t' sid st' False fs"
    and st': "se_inbound st' = se_inbound st" "se_receive_remaining st' = se_receive_remaining st"
      "se_send_credit st' = se_send_credit st"
    and fs: "fs = [] \<or> (\<exists>c. fs = [frame_code Close sid c])
       \<or> (\<exists>c. fs = [frame_code OpenError sid c]) \<and> sy_locals s sid = Some LConnecting"
  shows "sys_wf wr wn (s\<lparr>sy_node := t', sy_locals := (sy_locals s)(sid := None)\<rparr>)"
proof -
  have "list_all node_frame_ok fs" "data_of fs = []" "amounts OpenOk fs = 0" "amounts WindowUpdate fs = 0"
    "count_kinds {OpenOk, OpenError} fs \<le> of_bool (sy_locals s sid = Some LConnecting)"
    using fs by (auto simp: node_frame_ok_def)
  then show ?thesis
    using sys_wf_node_step [OF wf nz st t', of None "[]"] node_room [OF wf nz st] st' by simp
qed

lemma sys_wf_node_refuses:
  assumes wf: "sys_wf wr wn s" and nz: "sid \<noteq> 0" and l: "sy_locals s sid = Some LConnecting"
  shows "sys_wf wr wn (s\<lparr>sy_node := local_refused (sy_node s) sid, sy_locals := (sy_locals s)(sid := None)\<rparr>)"
proof -
  obtain st where st: "tn_store (sy_node s) sid = Some st" using local_object [OF wf nz l] .
  let ?f = "frame_code OpenError sid RouteUnavailable"
  let ?t = "case node_send (sy_node s) ?f of Inl _ \<Rightarrow> sy_node s | Inr t' \<Rightarrow> t'"
  obtain fs where fs: "touched (sy_node s) ?t sid st (sid \<in> tn_streams (sy_node s)) fs" "fs = [] \<or> fs = [?f]"
    using touched_refl [OF st] touched_send [OF touched_refl [OF st], of _ _ ?f]
    by (cases "node_send (sy_node s) ?f") (auto simp: node_send_def)
  let ?st = "st\<lparr>se_cancelled := (sid \<in> tn_streams (sy_node s) \<or> se_cancelled st)\<rparr>"
  have t': "touched (sy_node s) (local_refused (sy_node s) sid) sid ?st False fs"
    using touched_remove [OF fs(1)] by (simp add: local_refused_def touched_slots)
  show ?thesis
    using fs(2) l by (intro sys_wf_node_ends [OF wf nz st t']) auto
qed

lemma sys_wf_node_connects:
  assumes wf: "sys_wf wr wn s" and wn: "wn = unat (nc_initial_window_bytes nc)" and nz: "sid \<noteq> 0"
    and l: "sy_locals s sid = Some LConnecting" and con: "local_connected nc (sy_node s) sid nodelay = (t', ok)"
  shows "sys_wf wr wn (s\<lparr>sy_node := t', sy_locals := (sy_locals s)(sid := (if ok then Some (LRelaying True True) else None))\<rparr>)"
proof -
  obtain st where st: "tn_store (sy_node s) sid = Some st" using local_object [OF wf nz l] .
  note refl = touched_refl [OF st]
  let ?f = "frame_u32 OpenOk sid (nc_initial_window_bytes nc)"
  show ?thesis
  proof (cases ok)
    case True
    then have "node_send (sy_node s) ?f = Inr t'"
      using con by (auto simp: local_connected_def rbind_eq_Inr split: sum.splits)
    then have t': "touched (sy_node s) t' sid st (sid \<in> tn_streams (sy_node s)) [?f]"
      using touched_send [OF refl] by (simp add: node_send_def)
    have "sys_wf wr wn (s\<lparr>sy_node := t', sy_locals := (sy_locals s)(sid := Some (LRelaying True True))\<rparr>)"
      using sys_wf_node_step [OF wf nz st t', of "Some (LRelaying True True)" "[]"] node_room [OF wf nz st] wn l
      by (simp add: node_frame_ok_def)
    then show ?thesis using True by simp
  next
    case False
    then have "t' = release_slot (remove_stream (sy_node s) sid)"
      using con by (auto simp: local_connected_def split: sum.splits)
    then have "touched (sy_node s) t' sid (st\<lparr>se_cancelled := (sid \<in> tn_streams (sy_node s) \<or> se_cancelled st)\<rparr>) False []"
      using touched_remove [OF refl] by (simp add: touched_slots)
    then show ?thesis using sys_wf_node_ends [OF wf nz st] False by simp
  qed
qed

lemma sys_wf_node_finishes:
  assumes wf: "sys_wf wr wn s" and nz: "sid \<noteq> 0" and l: "sy_locals s sid = Some l"
  shows "sys_wf wr wn (s\<lparr>sy_node := local_finished (sy_node s) sid, sy_locals := (sy_locals s)(sid := None)\<rparr>)"
proof -
  obtain st where st: "tn_store (sy_node s) sid = Some st" using local_object [OF wf nz l] .
  let ?f = "frame_code Close sid TunnelLost" and ?t1 = "remove_stream (sy_node s) sid"
  let ?st = "st\<lparr>se_cancelled := (sid \<in> tn_streams (sy_node s) \<or> se_cancelled st)\<rparr>"
  have t1: "touched (sy_node s) ?t1 sid ?st False []" by (rule touched_remove [OF touched_refl [OF st]])
  obtain fs where t': "touched (sy_node s) (local_finished (sy_node s) sid) sid ?st False fs" and fs: "fs = [] \<or> fs = [?f]"
    using t1 touched_send [OF t1, of _ _ ?f]
    by (cases "node_send ?t1 ?f") (auto simp: node_send_def local_finished_def touched_slots)
  show ?thesis using fs by (intro sys_wf_node_ends [OF wf nz st t']) auto
qed

lemma local_upload_next_simps [simp]:
  "local_active (Some (local_upload_next p dn)) \<longleftrightarrow> p = Continue" "local_upload_next p dn \<noteq> LConnecting"
  by (cases "(p, dn)" rule: local_upload_next.cases; simp)+

lemma local_download_next_simps [simp]:
  "local_active (Some (local_download_next p up)) \<Longrightarrow> up" "local_download_next p up \<noteq> LConnecting"
  by (cases "(p, up)" rule: local_download_next.cases; simp)+

lemma sys_wf_node_downloads:
  assumes wf: "sys_wf wr wn s" and nz: "sid \<noteq> 0" and l: "sy_locals s sid = Some (LRelaying up True)"
    and st: "tn_store (sy_node s) sid = Some st" and wakes: "set wakes \<subseteq> {CreditCancelled}"
    and pump: "pump_target_to_relay (sy_node s) sid st cancelled target wakes = Some (t', p)"
  shows "sys_wf wr wn (s\<lparr>sy_node := t', sy_locals := (sy_locals s)(sid \<mapsto> local_download_next p up),
    sy_down_sent := (sy_down_sent s)(sid := sy_down_sent s sid @ new_data (sy_node s) t')\<rparr>)"
proof -
  let ?t = "sy_node s"
  note refl = touched_refl [OF st]
  have step: "sys_wf wr wn (s\<lparr>sy_node := t', sy_locals := (sy_locals s)(sid \<mapsto> local_download_next p up),
      sy_down_sent := (sy_down_sent s)(sid := sy_down_sent s sid @ new_data ?t t')\<rparr>)"
    if t': "touched ?t t' sid (st\<lparr>se_send_credit := c\<rparr>) (sid \<in> tn_streams ?t) fs"
      and fs: "fs = [] \<or> fs = [frame_new Fin sid []] \<or> (\<exists>bs. fs = [frame_new Data sid bs] \<and> bs \<noteq> [])"
      and c: "unat c + length (data_of fs) \<le> unat (se_send_credit st)" for c fs
  proof -
    have "new_data ?t t' = data_of fs" using t' by (simp add: new_data_def touched_def)
    moreover have "list_all node_frame_ok fs" "count_kinds {OpenOk, OpenError} fs = 0" "amounts OpenOk fs = 0"
      "amounts WindowUpdate fs = 0"
      using fs by (auto simp: node_frame_ok_def)
    ultimately show ?thesis
      using sys_wf_node_step [OF wf nz st t', of "Some (local_download_next p up)" "[]"] l c
        node_room [OF wf nz st] local_download_next_simps(1) by auto
  qed
  from pump wakes show ?thesis
  proof (cases rule: pump_target_to_relay_effect)
    case same
    then show ?thesis using step [of "se_send_credit st" "[]"] refl by simp
  next
    case (ended a b)
    then show ?thesis
      using step [of "se_send_credit st" "[frame_new Fin sid []]"] touched_send [OF refl] by simp
  next
    case (lost c e)
    then show ?thesis using step [of c "[]"] touched_update [OF refl] by simp
  next
    case (sent c bs a b)
    then show ?thesis
      using step [of c "[frame_new Data sid bs]"] touched_send [OF touched_update [OF refl]] by auto
  qed
qed

lemma sys_wf_node_uploads:
  assumes wf: "sys_wf wr wn s" and wn: "wn < 2 ^ 32" and nz: "sid \<noteq> 0"
    and l: "sy_locals s sid = Some (LRelaying True dn)" and st: "tn_store (sy_node s) sid = Some st"
    and pump: "pump_relay_to_target (sy_node s) sid st cancelled written = Some (out, t', p)"
  shows "sys_wf wr wn (s\<lparr>sy_node := t', sy_locals := (sy_locals s)(sid \<mapsto> local_upload_next p dn),
    sy_up_done := (sy_up_done s)(sid := sy_up_done s sid @ out)\<rparr>)"
proof -
  let ?t = "sy_node s"
  note refl = touched_refl [OF st]
  note room = node_room(1,2) [OF wf nz st]
  have nonempty: "InData [] \<notin> set (se_inbound st)"
    using sys_wf_node_ids(2) [OF wf nz st] st by (simp add: vinv_def view_def flow_ok_def)
  have held: "unat (se_receive_remaining st) + length (inbound_data (se_inbound st)) < 2 ^ 64"
    using room wn by simp
  have step: "sys_wf wr wn (s\<lparr>sy_node := t', sy_locals := (sy_locals s)(sid \<mapsto> local_upload_next p dn),
      sy_up_done := (sy_up_done s)(sid := sy_up_done s sid @ out)\<rparr>)"
    if t': "touched ?t t' sid st' (sid \<in> tn_streams ?t) fs" and inb: "se_inbound st = xs @ se_inbound st'"
      and same: "se_send_credit st' = se_send_credit st"
      and out: "prefix out (inbound_data xs)" "p = Continue \<longrightarrow> out = inbound_data xs"
      and fs: "fs = [] \<or> fs = [frame_u32 WindowUpdate sid amount] \<and> 0 < unat amount"
      and rr: "unat (se_receive_remaining st') = unat (se_receive_remaining st) + unat amount"
      and am: "unat amount \<le> length (inbound_data xs)" for st' xs fs amount
  proof -
    have "data_of fs = []" "list_all node_frame_ok fs" "count_kinds {OpenOk, OpenError} fs = 0" "amounts OpenOk fs = 0"
      "amounts WindowUpdate fs \<le> unat amount"
      using fs by (auto simp: node_frame_ok_def amount_ok_def)
    then show ?thesis
      using sys_wf_node_step [OF wf nz st t', of "Some (local_upload_next p dn)" out] l same inb out rr am room
      by auto
  qed
  from pump show ?thesis
  proof (cases rule: pump_relay_to_target_effect)
    case (same r)
    then show ?thesis using step [of st "[]" "[]" 0] refl by simp
  next
    case (control x rest r)
    then show ?thesis
      using step [of "st\<lparr>se_inbound := rest\<rparr>" "[]" "[x]" 0] touched_update [OF refl] by simp
  next
    case (stopped bytes rest st' amount e)
    then show ?thesis
      using step [of st' "[]" "[InData bytes]" amount] touched_update [OF refl, of st'] held
      by (simp add: unat_window_add)
  next
    case (told bytes rest st' amount a b)
    moreover have "bytes \<noteq> []" using told nonempty by auto
    ultimately show ?thesis
      using step [of st' "[frame_u32 WindowUpdate sid amount]" "[InData bytes]" amount]
        touched_send [OF touched_update [OF refl], of a b st' _ t'] held
      by (auto simp: unat_window_add)
  qed
qed

section \<open>Reading a frame\<close>

text \<open>The relay reads a frame of a stream; \<open>t'\<close> is what dispatching it leaves.\<close>

lemma sys_wf_relay_read:
  assumes wf: "sys_wf wr wn s" and ob: "tn_outbox (sy_node s) = f # fs" and sid: "stream_id f = sid" "sid \<noteq> 0"
    and d: "tn_store (sy_relay s) sid = Some d"
    and t': "touched (sy_relay s) t' sid d' l gs"
    and gs: "list_all (\<lambda>g. kind g = Close) gs"
    and up: "credit_of (Some d') + pending (Some d') (sy_members s sid) \<le>
        credit_of (Some d) + pending (Some d) (sy_members s sid) + frame_amount OpenOk f + frame_amount WindowUpdate f"
    and tx: "of_bool (sd_open_tx d) \<le> (of_bool (sd_open_tx d') :: nat) + of_bool (kind f \<in> {OpenOk, OpenError})"
    and recv: "unat (se_receive_remaining d) \<le> unat (se_receive_remaining d') + length (frame_data f)"
    and held: "unat (se_receive_remaining d') + length (inbound_data (se_inbound d')) \<le>
        unat (se_receive_remaining d) + length (inbound_data (se_inbound d))"
    and sub: "InData [] \<notin> set (se_inbound d')"
    and logs: "l \<and> sid \<in> tn_streams (sy_relay s) \<and> inbound_data (se_inbound d') = inbound_data (se_inbound d) @ frame_data f
      \<or> \<not> l \<and> inbound_data (se_inbound d') = inbound_data (se_inbound d)"
  shows "sys_wf wr wn (s\<lparr>sy_node := (sy_node s)\<lparr>tn_outbox := fs\<rparr>, sy_relay := t'\<rparr>)"
  (is "sys_wf wr wn ?s")
proof (rule sys_wf_stream [OF wf, of _ sid])
  note inv = sys_wf_ids [OF wf d]
  let ?fs = "of_stream sid fs"
  have old: "logs_ok (member_active (sy_members s sid)) (sid \<in> tn_streams (sy_relay s)) (sy_down_done s sid)
      (inbound_data (se_inbound d)) (frame_data f @ data_of ?fs) (sy_down_sent s sid)"
    using inv(3) d ob sid by (simp add: vinv_def view_def waiting_data_def frame_data_def)
  have new: "logs_ok (member_active (sy_members s sid)) l (sy_down_done s sid) (inbound_data (se_inbound d'))
      (data_of ?fs) (sy_down_sent s sid)"
    using logs old by (auto intro: logs_ok_receive logs_ok_lose)
  have "vinv wr wn ((view s sid)\<lparr>v_relay := Some d', v_listed := l, v_out := v_out (view s sid) @ gs, v_node_out := ?fs\<rparr>)"
    using inv(3) d ob sid gs up tx recv held sub new
    by (intro vinv_relay_read [where d = d and f = f]) (simp_all add: view_def)
  moreover have "view ?s sid = (view s sid)\<lparr>v_relay := Some d', v_listed := l, v_out := v_out (view s sid) @ gs, v_node_out := ?fs\<rparr>"
    using t' touched_outbox [OF t'] by (simp add: view_def touched_def)
  ultimately show "vinv wr wn (view ?s sid)" by simp
  show "view ?s i = view s i" if "i \<noteq> sid" for i
    using t' touched_outbox [OF t'] that ob sid by (simp add: view_def touched_def)
  show "ids_ok ?s"
    using wf t' d ob inv(1) frame_id_ok_own [of sid gs] by (auto simp: sys_wf_def ids_ok_def touched_def)
qed

text \<open>What is known of a frame of the node that the relay reads on a stream.\<close>

lemma node_frame_known:
  assumes wf: "sys_wf wr wn s" and ob: "tn_outbox (sy_node s) = f # fs" and nz: "stream_id f \<noteq> 0"
  obtains d where "tn_store (sy_relay s) (stream_id f) = Some d" and "\<not> invalid_stream_id (stream_id f)"
    and "node_frame_ok f" and "length (frame_data f) \<le> unat (se_receive_remaining d)"
    and "InData [] \<notin> set (se_inbound d)"
    and "kind f \<in> {OpenOk, OpenError} \<longrightarrow> sd_open_tx d"
    and "unat (se_send_credit d) + frame_amount WindowUpdate f \<le> wn"
proof -
  let ?v = "view s (stream_id f)"
  have inv: "vinv wr wn ?v" using wf nz by (simp add: sys_wf_def)
  have out: "v_node_out ?v = f # of_stream (stream_id f) fs" using ob by (simp add: view_def)
  obtain d where d: "v_relay ?v = Some d" using inv out by (cases "v_relay ?v") (auto simp: vinv_def)
  have id: "frame_id_ok f" using wf ob by (simp add: sys_wf_def ids_ok_def)
  have flow: "flow_ok wr (down_total ?v) d" using inv d by (simp add: vinv_def)
  have "answers ?v \<le> awaited (Some d)" using inv d by (simp add: vinv_def)
  then have tx: "kind f \<in> {OpenOk, OpenError} \<longrightarrow> sd_open_tx d"
    using out by (auto simp: answers_def awaited_def of_bool_def split: if_splits)
  have total: "unat (se_send_credit d) + frame_amount WindowUpdate f \<le> up_total ?v"
    using d out by (auto simp: up_total_def credit_of_def frame_amount_def)
  also have "up_total ?v \<le> wn"
    using inv by (cases "v_node ?v") (auto simp: vinv_def flow_ok_def)
  finally have "unat (se_send_credit d) + frame_amount WindowUpdate f \<le> wn" .
  moreover have "node_frame_ok f" using inv out by (simp add: vinv_def)
  moreover have "length (frame_data f) \<le> unat (se_receive_remaining d)"
    using flow out by (auto simp: flow_ok_def down_total_def frame_data_def)
  ultimately show thesis
    using that [of d] d tx nz id flow by (simp add: view_def invalid_stream_id_def frame_id_ok_def flow_ok_def)
qed

lemma sys_wf_node_pop:
  assumes wf: "sys_wf wr wn s" and ob: "tn_outbox (sy_node s) = f # fs" and z: "stream_id f = 0"
  shows "sys_wf wr wn (s\<lparr>sy_node := (sy_node s)\<lparr>tn_outbox := fs\<rparr>\<rparr>)"
  using wf ob z by (simp add: sys_wf_def ids_ok_def view_def)

lemma sys_wf_relay_pop:
  assumes wf: "sys_wf wr wn s" and ob: "tn_outbox (sy_relay s) = f # fs" and z: "stream_id f = 0"
  shows "sys_wf wr wn (s\<lparr>sy_relay := (sy_relay s)\<lparr>tn_outbox := fs\<rparr>\<rparr>)"
  using wf ob z by (simp add: sys_wf_def ids_ok_def view_def)

text \<open>The relay reads a frame of a stream it has an object for.\<close>

definition relay_reading :: "system \<Rightarrow> frame \<Rightarrow> frame list \<Rightarrow> dispatch \<Rightarrow> bool" where
  "relay_reading s f fs d \<longleftrightarrow> tn_outbox (sy_node s) = f # fs \<and> stream_id f \<noteq> 0 \<and> \<not> invalid_stream_id (stream_id f)
     \<and> tn_store (sy_relay s) (stream_id f) = Some d \<and> InData [] \<notin> set (se_inbound d)
     \<and> length (frame_data f) \<le> unat (se_receive_remaining d)"

lemma relay_reading_known:
  assumes "sys_wf wr wn s" and "tn_outbox (sy_node s) = f # fs" and "stream_id f \<noteq> 0"
  shows "\<exists>d. relay_reading s f fs d \<and> node_frame_ok f"
  by (rule node_frame_known [OF assms]) (use assms in \<open>auto simp: relay_reading_def\<close>)

abbreviation relay_read_state :: "system \<Rightarrow> frame list \<Rightarrow> tunnel_session \<Rightarrow> system" where
  "relay_read_state s fs t' \<equiv> s\<lparr>sy_node := (sy_node s)\<lparr>tn_outbox := fs\<rparr>, sy_relay := t'\<rparr>"

lemmas read_simps = credit_of_def pending_def frame_amount_def frame_data_def

lemma relay_read_listed:
  assumes wf: "sys_wf wr wn s" and rd: "relay_reading s f fs d" and l: "stream_id f \<in> tn_streams (sy_relay s)"
    and up: "credit_of (Some d') + pending (Some d') (sy_members s (stream_id f)) \<le>
        credit_of (Some d) + pending (Some d) (sy_members s (stream_id f)) + frame_amount OpenOk f + frame_amount WindowUpdate f"
    and tx: "of_bool (sd_open_tx d) \<le> (of_bool (sd_open_tx d') :: nat) + of_bool (kind f \<in> {OpenOk, OpenError})"
    and recv: "unat (se_receive_remaining d) = unat (se_receive_remaining d') + length (frame_data f)"
    and inb: "inbound_data (se_inbound d') = inbound_data (se_inbound d) @ frame_data f" "InData [] \<notin> set (se_inbound d')"
    and t': "touched (sy_relay s) t' (stream_id f) d' True []"
  shows "sys_wf wr wn (relay_read_state s fs t')"
  using sys_wf_relay_read [OF wf _ refl _ _ t', where fs = fs and d = d] rd l up tx recv inb
  by (simp add: relay_reading_def)

lemma relay_read_unlisted:
  assumes wf: "sys_wf wr wn s" and rd: "relay_reading s f fs d"
    and t': "touched (sy_relay s) t' (stream_id f) d' False gs" and gs: "list_all (\<lambda>g. kind g = Close) gs"
    and d': "se_send_credit d' = se_send_credit d" "sd_opened d' = sd_opened d" "sd_open_tx d' = sd_open_tx d"
      "inbound_data (se_inbound d') = inbound_data (se_inbound d)" "InData [] \<notin> set (se_inbound d')"
      "unat (se_receive_remaining d') \<le> unat (se_receive_remaining d)"
      "unat (se_receive_remaining d) \<le> unat (se_receive_remaining d') + length (frame_data f)"
  shows "sys_wf wr wn (relay_read_state s fs t')"
  using sys_wf_relay_read [OF wf _ refl _ _ t' gs, where fs = fs and d = d] rd d'
  by (simp add: relay_reading_def credit_of_def pending_def)

lemma relay_read_open_ok:
  assumes wf: "sys_wf wr wn s" and rd: "relay_reading s f fs d" and k: "kind f = OpenOk" "length (payload f) = 4"
    and open_ok: "relay_open_ok (sy_relay s) f = (t', Inr ())"
  shows "sys_wf wr wn (relay_read_state s fs t')"
proof -
  let ?sid = "stream_id f" and ?d = "answer_open d (Inr (u32_from_be (payload f)))"
  have "?sid \<in> tn_streams (sy_relay s)" "t' = tn_update (sy_relay s) ?sid ?d" "sd_open_tx d"
    using open_ok rd k
    by (auto simp: relay_open_ok_def parse_u32_def stream_dispatch_def find_stream_Inr relay_reading_def
        split: sum.splits if_splits)
  then show ?thesis
    using rd k touched_update [OF touched_refl, of "sy_relay s" ?sid d ?d]
    by (intro relay_read_listed [OF wf rd, of ?d]) (auto simp: relay_reading_def answer_open_def read_simps)
qed

lemma relay_read_open_error:
  assumes wf: "sys_wf wr wn s" and rd: "relay_reading s f fs d" and k: "kind f = OpenError"
    and open_error: "relay_open_error (sy_relay s) f = (t', Inr ())"
  shows "sys_wf wr wn (relay_read_state s fs t')"
proof -
  let ?sid = "stream_id f" and ?d = "answer_open d (Inl RouteUnavailable)"
  have d: "tn_store (sy_relay s) ?sid = Some d" using rd by (simp add: relay_reading_def)
  have l: "?sid \<in> tn_streams (sy_relay s)"
    and t': "t' = (if sd_open_tx d then tn_update (sy_relay s) ?sid ?d else sy_relay s)"
    using open_error rd
    by (auto simp: relay_open_error_def stream_dispatch_def find_stream_Inr relay_reading_def
        split: sum.splits if_splits)
  show ?thesis
  proof (cases "sd_open_tx d")
    case True
    then show ?thesis
      using rd k t' l touched_update [OF touched_refl [OF d], of ?d]
      by (intro relay_read_listed [OF wf rd, of ?d]) (auto simp: relay_reading_def answer_open_def read_simps)
  next
    case False
    then show ?thesis
      using rd k t' l touched_refl [OF d]
      by (intro relay_read_listed [OF wf rd, of d]) (auto simp: relay_reading_def read_simps)
  qed
qed

lemma relay_read_data:
  assumes wf: "sys_wf wr wn s" and rd: "relay_reading s f fs d" and k: "kind f = Data" "payload f \<noteq> []"
    and data: "relay_data (sy_relay s) f = (t', Inr ())"
  shows "sys_wf wr wn (relay_read_state s fs t')"
proof -
  let ?t = "sy_relay s" and ?sid = "stream_id f"
  have d: "tn_store ?t ?sid = Some d" and len: "length (payload f) \<le> unat (se_receive_remaining d)"
    and ne: "InData [] \<notin> set (se_inbound d)"
    using rd k by (simp_all add: relay_reading_def frame_data_def)
  obtain r where r: "unat r = unat (se_receive_remaining d) - length (payload f)" "?sid \<in> tn_streams ?t"
    and t': "(case try_send (d\<lparr>se_receive_remaining := r\<rparr>) (InData (payload f)) of
        Some d2 \<Rightarrow> t' = tn_update (tn_update ?t ?sid (d\<lparr>se_receive_remaining := r\<rparr>)) ?sid d2
      | None \<Rightarrow> (\<exists>t2. tunnel_send (tn_update ?t ?sid (d\<lparr>se_receive_remaining := r\<rparr>)) (frame_code Close ?sid LimitReached) = Inr t2
          \<and> t' = remove_stream t2 ?sid))"
    using data d by (auto simp: relay_data_def stream_dispatch_def find_stream_Inr debit_receive_window_def
        debit_Inr Let_def split: sum.splits option.splits)
  note t1 = touched_update [OF touched_refl [OF d], of "d\<lparr>se_receive_remaining := r\<rparr>"]
  show ?thesis
  proof (cases "try_send (d\<lparr>se_receive_remaining := r\<rparr>) (InData (payload f))")
    case None
    then obtain t2 where "tunnel_send (tn_update ?t ?sid (d\<lparr>se_receive_remaining := r\<rparr>)) (frame_code Close ?sid LimitReached) = Inr t2"
      "t' = remove_stream t2 ?sid" using t' by auto
    then have "touched ?t t' ?sid (d\<lparr>se_receive_remaining := r, se_cancelled := (?sid \<in> tn_streams ?t \<or> se_cancelled d)\<rparr>) False
        [frame_code Close ?sid LimitReached]"
      using touched_remove [OF touched_send [OF t1, of _ _ "frame_code Close ?sid LimitReached" t2]]
      by (simp add: tunnel_send_def)
    then show ?thesis using k ne r len relay_read_unlisted [OF wf rd] by (simp add: frame_data_def)
  next
    case (Some d2)
    then have "touched ?t t' ?sid d2 True []" using t' r touched_update [OF t1, of d2] by simp
    then show ?thesis
      using k ne r len Some by (intro relay_read_listed [OF wf rd, of d2]) (auto simp: try_send_Some read_simps)
  qed
qed

lemma relay_read_fin:
  assumes wf: "sys_wf wr wn s" and rd: "relay_reading s f fs d" and k: "kind f = Fin"
    and fin: "relay_fin (sy_relay s) f = (t', Inr ())"
  shows "sys_wf wr wn (relay_read_state s fs t')"
proof -
  let ?t = "sy_relay s" and ?sid = "stream_id f"
  have d: "tn_store ?t ?sid = Some d" and ne: "InData [] \<notin> set (se_inbound d)"
    using rd by (simp_all add: relay_reading_def)
  consider d' where "t' = tn_update ?t ?sid d'" "try_send d InFin = Some d'" "?sid \<in> tn_streams ?t"
    | "t' = remove_stream ?t ?sid"
    using fin d by (auto simp: relay_fin_def stream_dispatch_def find_stream_Inr split: sum.splits option.splits)
  then show ?thesis
  proof cases
    case (1 d')
    then have "touched ?t t' ?sid d' True []" using touched_update [OF touched_refl [OF d], of d'] by simp
    with 1 show ?thesis
      using k ne by (intro relay_read_listed [OF wf rd, of d']) (auto simp: try_send_Some read_simps)
  next
    case 2
    then show ?thesis using touched_remove [OF touched_refl [OF d]] relay_read_unlisted [OF wf rd] ne by simp
  qed
qed

lemma relay_read_close:
  assumes wf: "sys_wf wr wn s" and rd: "relay_reading s f fs d"
    and close: "relay_close (sy_relay s) f = (t', Inr ())"
  shows "sys_wf wr wn (relay_read_state s fs t')"
proof -
  let ?t = "sy_relay s" and ?sid = "stream_id f"
  have d: "tn_store ?t ?sid = Some d" and ne: "InData [] \<notin> set (se_inbound d)" and valid: "\<not> invalid_stream_id ?sid"
    using rd by (simp_all add: relay_reading_def)
  define d' where "d' = (if ?sid \<in> tn_streams ?t then (case try_send d InClose of Some d' \<Rightarrow> d' | None \<Rightarrow> d) else d)"
  have "touched ?t t' ?sid (d'\<lparr>se_cancelled := (?sid \<in> tn_streams ?t \<or> se_cancelled d')\<rparr>) False []"
    using close d valid touched_remove [OF touched_refl [OF d]] touched_remove [OF touched_update [OF touched_refl [OF d]]]
    by (auto simp: relay_close_def Let_def stream_dispatch_def find_stream_def tn_lookup_def d'_def split: option.splits)
  moreover have "inbound_data (se_inbound d') = inbound_data (se_inbound d)" "InData [] \<notin> set (se_inbound d')"
    "se_send_credit d' = se_send_credit d" "sd_opened d' = sd_opened d" "sd_open_tx d' = sd_open_tx d"
    "se_receive_remaining d' = se_receive_remaining d"
    using ne by (auto simp: d'_def try_send_Some split: option.splits)
  ultimately show ?thesis using relay_read_unlisted [OF wf rd] by simp
qed

lemma relay_read_window_update:
  assumes wf: "sys_wf wr wn s" and rd: "relay_reading s f fs d" and k: "kind f = WindowUpdate" "amount_ok f"
    and upd: "relay_window_update (sy_relay s) f = (t', Inr ())"
  shows "sys_wf wr wn (relay_read_state s fs t')"
proof -
  let ?t = "sy_relay s" and ?sid = "stream_id f"
  have d: "tn_store ?t ?sid = Some d" and ne: "InData [] \<notin> set (se_inbound d)"
    using rd by (simp_all add: relay_reading_def)
  obtain c where c: "credit_add (se_send_credit d) (u32_from_be (payload f)) = Inr c" "?sid \<in> tn_streams ?t"
    "t' = tn_update ?t ?sid (d\<lparr>se_send_credit := c\<rparr>)"
    using upd d k by (auto simp: relay_window_update_def stream_dispatch_def find_stream_Inr
        amount_ok_def parse_u32_def split: sum.splits)
  then have "touched ?t t' ?sid (d\<lparr>se_send_credit := c\<rparr>) True []"
    using touched_update [OF touched_refl [OF d], of "d\<lparr>se_send_credit := c\<rparr>"] by simp
  then show ?thesis
    using k ne c unat_credit_add [OF c(1)]
    by (intro relay_read_listed [OF wf rd, of "d\<lparr>se_send_credit := c\<rparr>"]) (auto simp: read_simps)
qed

lemma sys_wf_relay_dispatched:
  assumes wf: "sys_wf wr wn s" and ob: "tn_outbox (sy_node s) = f # fs"
    and disp: "relay_dispatch now (sy_relay s) f = (t', Inr ())"
  shows "sys_wf wr wn (relay_read_state s fs t')"
proof (cases "stream_id f = 0")
  case True
  then have k: "kind f = Ping \<or> kind f = Pong" "length (payload f) = 8"
    using wf ob by (auto simp: sys_wf_def ids_ok_def frame_id_ok_def)
  have "quiet (sy_relay s) t'"
    using disp k True
    by (auto simp: relay_dispatch_def heartbeat_invalid_def tunnel_send_def frame_id_ok_def
        intro: quiet_send split: if_splits sum.splits)
  then show ?thesis using sys_wf_relay_quiet [OF sys_wf_node_pop [OF wf ob True], of t'] by simp
next
  case nz: False
  obtain d where rd: "relay_reading s f fs d" and ok: "node_frame_ok f"
    using relay_reading_known [OF wf ob nz] by blast
  from ok consider "kind f = OpenOk" "length (payload f) = 4" | "kind f = OpenError" | "kind f = Data" "payload f \<noteq> []"
    | "kind f = Fin" | "kind f = Close" | "kind f = WindowUpdate" "amount_ok f"
    by (auto simp: node_frame_ok_def split: frame_kind.splits)
  then show ?thesis
  proof cases
    case 1
    with disp show ?thesis by (intro relay_read_open_ok [OF wf rd]) (simp_all add: relay_dispatch_def)
  next
    case 2
    with disp show ?thesis by (intro relay_read_open_error [OF wf rd]) (simp_all add: relay_dispatch_def)
  next
    case 3
    with disp show ?thesis by (intro relay_read_data [OF wf rd]) (simp_all add: relay_dispatch_def)
  next
    case 4
    with disp show ?thesis by (intro relay_read_fin [OF wf rd]) (simp_all add: relay_dispatch_def)
  next
    case 5
    with disp show ?thesis by (intro relay_read_close [OF wf rd]) (simp_all add: relay_dispatch_def)
  next
    case 6
    with disp show ?thesis by (intro relay_read_window_update [OF wf rd]) (simp_all add: relay_dispatch_def)
  qed
qed

text \<open>When a reader fails, the tunnel is cancelled with all its streams.\<close>

lemma cancel_all_simps [simp]:
  "tn_streams (cancel_all_streams t) = {}" "tn_outbox (cancel_all_streams t) = tn_outbox t"
  "tn_cancelled (cancel_all_streams t) = tn_cancelled t"
  "tn_store (cancel_all_streams t) sid =
     map_option (\<lambda>d. if sid \<in> tn_streams t then d\<lparr>se_cancelled := True\<rparr> else d) (tn_store t sid)"
  by (simp_all add: cancel_all_streams_def)

lemma sys_wf_relay_cancel_all:
  assumes wf: "sys_wf wr wn s"
  shows "sys_wf wr wn (s\<lparr>sy_relay := cancel_all_streams ((sy_relay s)\<lparr>tn_cancelled := True\<rparr>)\<rparr>)"
  (is "sys_wf wr wn ?s")
proof -
  have "vinv wr wn (view ?s sid)" if nz: "sid \<noteq> 0" for sid
  proof (cases "tn_store (sy_relay s) sid")
    case None
    then have "view ?s sid = view s sid" using wf nz by (auto simp: sys_wf_def vinv_def view_def)
    then show ?thesis using wf nz by (simp add: sys_wf_def)
  next
    case (Some d)
    let ?d = "if sid \<in> tn_streams (sy_relay s) then d\<lparr>se_cancelled := True\<rparr> else d"
    have inv: "vinv wr wn (view s sid)" using wf nz by (simp add: sys_wf_def)
    then have "logs_ok (member_active (sy_members s sid)) False (sy_down_done s sid) (inbound_data (se_inbound d))
        (data_of (of_stream sid (tn_outbox (sy_node s)))) (sy_down_sent s sid)"
      using Some by (auto simp: vinv_def view_def waiting_data_def intro: logs_ok_idle)
    then have "vinv wr wn ((view s sid)\<lparr>v_relay := Some ?d, v_listed := False, v_out := v_out (view s sid) @ [],
        v_member := v_member (view s sid), v_up_sent := v_up_sent (view s sid) @ data_of [],
        v_down_done := v_down_done (view s sid) @ []\<rparr>)"
      using Some by (intro vinv_relay_step [OF inv, where d = d]) (auto simp: view_def credit_of_def pending_def)
    moreover have "view ?s sid = (view s sid)\<lparr>v_relay := Some ?d, v_listed := False, v_out := v_out (view s sid) @ [],
        v_member := v_member (view s sid), v_up_sent := v_up_sent (view s sid) @ data_of [],
        v_down_done := v_down_done (view s sid) @ []\<rparr>"
      using Some by (simp add: view_def)
    ultimately show ?thesis by simp
  qed
  then show ?thesis using wf by (auto simp: sys_wf_def ids_ok_def)
qed

lemma find_stream_stale: "find_stream a t sid = Inl e \<Longrightarrow> \<not> invalid_stream_id sid \<Longrightarrow> reader_error m n e"
  by (auto simp: reader_error_def dest: find_stream_Inl)

lemma tn_send_lost: "tn_send a b t f = Inl e \<Longrightarrow> reader_error m n e"
  by (auto simp: reader_error_def dest: tn_send_Inl)

lemma debit_fits: "n \<le> unat (se_receive_remaining d) \<Longrightarrow> debit a d n \<noteq> Inl e"
proof
  assume n: "n \<le> unat (se_receive_remaining d)" and e: "debit a d n = Inl e"
  let ?r = "se_receive_remaining d - of_nat n"
  have "unat (of_nat n :: u64) = n"
    using n order_le_less_trans [OF n unat_u64_less] by (simp add: unat_of_nat)
  then have "debit a d n = Inr (d\<lparr>se_receive_remaining := ?r\<rparr>)"
    using n by (auto simp: debit_Inr unat_sub_u64 word_le_nat_alt intro!: exI [of _ ?r])
  with e show False by simp
qed

lemma credit_add_fits: "w \<noteq> 0 \<Longrightarrow> unat c + unat w < 2 ^ 64 \<Longrightarrow> credit_add c w \<noteq> Inl e"
  using credit_add_Inr [of c w "c + ucast w"] by auto

text \<open>What is left of a dispatch that fails: the tunnel, but for a window that was debited.\<close>

definition only_debited :: "('s, 'z) tunnel_scheme \<Rightarrow> frame \<Rightarrow> ('s, 'z) tunnel_scheme \<Rightarrow> bool" where
  "only_debited t f t' \<longleftrightarrow> t' = t \<or> (\<exists>d r. stream_id f \<noteq> 0 \<and> tn_store t (stream_id f) = Some d
      \<and> t' = tn_update t (stream_id f) (d\<lparr>se_receive_remaining := r\<rparr>)
      \<and> unat r + length (frame_data f) = unat (se_receive_remaining d))"

lemma relay_dispatch_error:
  assumes wf: "sys_wf wr wn s" and wn: "wn < 2 ^ 32" and ob: "tn_outbox (sy_node s) = f # fs"
    and disp: "relay_dispatch now (sy_relay s) f = (t', Inl e)"
  shows "reader_error m n e \<and> only_debited (sy_relay s) f t'"
proof (cases "stream_id f = 0")
  case True
  then have "kind f = Ping \<or> kind f = Pong" "length (payload f) = 8"
    using wf ob by (auto simp: sys_wf_def ids_ok_def frame_id_ok_def)
  then show ?thesis
    using disp True by (auto simp: relay_dispatch_def heartbeat_invalid_def only_debited_def tunnel_send_def
        dest: tn_send_lost split: sum.splits)
next
  case nz: False
  let ?t = "sy_relay s" and ?sid = "stream_id f"
  obtain d where d: "tn_store ?t ?sid = Some d" and valid: "\<not> invalid_stream_id ?sid" and ok: "node_frame_ok f"
    and len: "length (frame_data f) \<le> unat (se_receive_remaining d)" and "InData [] \<notin> set (se_inbound d)"
    and tx: "kind f \<in> {OpenOk, OpenError} \<longrightarrow> sd_open_tx d"
    and credit: "unat (se_send_credit d) + frame_amount WindowUpdate f \<le> wn"
    by (rule node_frame_known [OF wf ob nz])
  have stale: "stream_dispatch ?t ?sid = Inl x \<Longrightarrow> reader_error m n x" for x
    using find_stream_stale valid by (simp add: stream_dispatch_def)
  have found: "stream_dispatch ?t ?sid = Inr x \<Longrightarrow> x = d" for x
    using d by (simp add: stream_dispatch_def find_stream_Inr)
  from ok consider "kind f = OpenOk" "length (payload f) = 4" | "kind f = OpenError" | "kind f = Data" "payload f \<noteq> []"
    | "kind f = Fin" | "kind f = Close" | "kind f = WindowUpdate" "amount_ok f"
    by (auto simp: node_frame_ok_def split: frame_kind.splits)
  then show ?thesis
  proof cases
    case 1
    then show ?thesis using disp stale found tx
      by (auto simp: relay_dispatch_def relay_open_ok_def parse_u32_def only_debited_def split: sum.splits if_splits)
  next
    case 2
    then show ?thesis using disp stale
      by (auto simp: relay_dispatch_def relay_open_error_def only_debited_def split: sum.splits if_splits)
  next
    case 3
    then show ?thesis using disp stale found debit_fits len d nz
      by (auto simp: relay_dispatch_def relay_data_def Let_def frame_data_def debit_receive_window_def debit_Inr
          tunnel_send_def only_debited_def dest: tn_send_lost split: sum.splits option.splits)
  next
    case 4
    then show ?thesis using disp stale
      by (auto simp: relay_dispatch_def relay_fin_def only_debited_def split: sum.splits option.splits)
  next
    case 5
    then show ?thesis using disp by (simp add: relay_dispatch_def relay_close_def Let_def)
  next
    case 6
    then show ?thesis using disp stale found credit_add_fits credit wn
      by (auto simp: relay_dispatch_def relay_window_update_def parse_u32_def amount_ok_def frame_amount_def only_debited_def
          split: sum.splits)
  qed
qed

lemma sys_wf_relay_failed:
  assumes wf: "sys_wf wr wn s" and wn: "wn < 2 ^ 32" and ob: "tn_outbox (sy_node s) = f # fs"
    and disp: "relay_dispatch now (sy_relay s) f = (t', Inl e)"
  shows "sys_wf wr wn (relay_read_state s fs (cancel_all_streams (t'\<lparr>tn_cancelled := True\<rparr>)))"
proof -
  let ?c = "\<lambda>t :: tunnel_session. cancel_all_streams (t\<lparr>tn_cancelled := True\<rparr>)"
  let ?s = "s\<lparr>sy_relay := ?c (sy_relay s)\<rparr>" and ?sid = "stream_id f"
  have wf': "sys_wf wr wn ?s" by (rule sys_wf_relay_cancel_all [OF wf])
  have ob': "tn_outbox (sy_node ?s) = f # fs" using ob by simp
  show ?thesis
  proof (cases "?sid = 0")
    case True
    then have "t' = sy_relay s" using relay_dispatch_error [OF wf wn ob disp] by (simp add: only_debited_def)
    then show ?thesis using sys_wf_relay_cancel_all [OF sys_wf_node_pop [OF wf ob True]] by simp
  next
    case nz: False
    obtain d where rd: "relay_reading ?s f fs d" using relay_reading_known [OF wf' ob' nz] by blast
    then have d: "tn_store (?c (sy_relay s)) ?sid = Some d" and ne: "InData [] \<notin> set (se_inbound d)"
      by (simp_all add: relay_reading_def)
    obtain r where t: "touched (?c (sy_relay s)) (?c t') ?sid (d\<lparr>se_receive_remaining := r\<rparr>) False []"
      and r: "unat r \<le> unat (se_receive_remaining d)" "unat (se_receive_remaining d) \<le> unat r + length (frame_data f)"
    proof -
      consider "t' = sy_relay s" | d0 r where "tn_store (sy_relay s) ?sid = Some d0"
        "t' = tn_update (sy_relay s) ?sid (d0\<lparr>se_receive_remaining := r\<rparr>)"
        "unat r + length (frame_data f) = unat (se_receive_remaining d0)"
        using relay_dispatch_error [OF wf wn ob disp, THEN conjunct2] by (auto simp: only_debited_def)
      then show thesis
      proof cases
        case 1
        then show thesis using that [of "se_receive_remaining d"] touched_refl [OF d] by simp
      next
        case (2 d0 r)
        then show thesis using that [of r] d by (auto simp: touched_def fun_eq_iff)
      qed
    qed
    then show ?thesis using relay_read_unlisted [OF wf' rd, of "?c t'" "d\<lparr>se_receive_remaining := r\<rparr>" "[]"] ne by simp
  qed
qed

text \<open>The node reads a frame of a stream; first what is known of it.\<close>

definition node_reading :: "system \<Rightarrow> frame \<Rightarrow> frame list \<Rightarrow> stream_end \<Rightarrow> bool" where
  "node_reading s f fs st \<longleftrightarrow> tn_outbox (sy_relay s) = f # fs \<and> stream_id f \<noteq> 0 \<and> \<not> invalid_stream_id (stream_id f)
     \<and> tn_store (sy_node s) (stream_id f) = Some st \<and> InData [] \<notin> set (se_inbound st)
     \<and> length (frame_data f) \<le> unat (se_receive_remaining st)"

abbreviation node_read_state :: "system \<Rightarrow> frame list \<Rightarrow> node_tunnel \<Rightarrow> system" where
  "node_read_state s fs t' \<equiv> s\<lparr>sy_relay := (sy_relay s)\<lparr>tn_outbox := fs\<rparr>, sy_node := t'\<rparr>"

lemma relay_frame_known:
  assumes wf: "sys_wf wr wn s" and ob: "tn_outbox (sy_relay s) = f # fs" and nz: "stream_id f \<noteq> 0"
  shows "relay_frame_ok f" and "\<not> invalid_stream_id (stream_id f)" and "odd (unat (stream_id f))"
    and "tn_store (sy_node s) (stream_id f) = Some st \<Longrightarrow>
       kind f \<noteq> Open \<and> node_reading s f fs st \<and> unat (se_send_credit st) + frame_amount WindowUpdate f \<le> wr"
    and "tn_store (sy_node s) (stream_id f) = None \<Longrightarrow> stream_id f \<notin> tn_streams (sy_node s) \<and> frame_data f = []"
proof -
  let ?v = "view s (stream_id f)"
  have inv: "vinv wr wn ?v" using wf nz by (simp add: sys_wf_def)
  have out: "v_out ?v = f # of_stream (stream_id f) fs" using ob by (simp add: view_def)
  have "frame_id_ok f" using wf ob by (simp add: sys_wf_def ids_ok_def)
  then show id: "odd (unat (stream_id f))" "\<not> invalid_stream_id (stream_id f)"
    using nz by (auto simp: invalid_stream_id_def frame_id_ok_def)
  show "relay_frame_ok f" using inv out by (simp add: vinv_def)
  show "kind f \<noteq> Open \<and> node_reading s f fs st \<and> unat (se_send_credit st) + frame_amount WindowUpdate f \<le> wr"
    if "tn_store (sy_node s) (stream_id f) = Some st"
  proof -
    have st: "v_node ?v = Some st" using that by (simp add: view_def)
    have flow: "flow_ok wn (up_total ?v) st" and "count_kinds {Open} (v_out ?v) = 0" using inv st by (simp_all add: vinv_def)
    then have "kind f \<noteq> Open" using out by auto
    moreover have "length (frame_data f) \<le> unat (se_receive_remaining st)"
      using flow out by (auto simp: flow_ok_def up_total_def frame_data_def)
    moreover have "unat (se_send_credit st) + frame_amount WindowUpdate f \<le> down_total ?v"
      using st out by (auto simp: down_total_def credit_of_def frame_amount_def)
    moreover have "down_total ?v \<le> wr"
      using inv out by (cases "v_relay ?v") (auto simp: vinv_def flow_ok_def)
    ultimately show ?thesis using that ob nz id flow by (simp add: node_reading_def flow_ok_def)
  qed
  show "stream_id f \<notin> tn_streams (sy_node s) \<and> frame_data f = []" if "tn_store (sy_node s) (stream_id f) = None"
  proof -
    have "v_node ?v = None" using that by (simp add: view_def)
    then have "\<not> v_node_listed ?v" "up_total ?v = 0" using inv by (simp_all add: vinv_def)
    then show ?thesis using out by (auto simp: up_total_def frame_data_def view_def)
  qed
qed

lemma sys_wf_node_read:
  assumes wf: "sys_wf wr wn s" and rd: "node_reading s f fs st"
    and t': "touched (sy_node s) t' (stream_id f) st' n gs"
    and gs: "list_all (\<lambda>g. kind g = Close) gs"
    and credit: "unat (se_send_credit st') \<le> unat (se_send_credit st) + frame_amount WindowUpdate f"
    and recv: "unat (se_receive_remaining st) \<le> unat (se_receive_remaining st') + length (frame_data f)"
    and held: "unat (se_receive_remaining st') + length (inbound_data (se_inbound st')) \<le>
        unat (se_receive_remaining st) + length (inbound_data (se_inbound st))"
    and sub: "InData [] \<notin> set (se_inbound st')"
    and logs: "n \<and> stream_id f \<in> tn_streams (sy_node s) \<and> inbound_data (se_inbound st') = inbound_data (se_inbound st) @ frame_data f
      \<or> \<not> n \<and> inbound_data (se_inbound st') = inbound_data (se_inbound st)"
  shows "sys_wf wr wn (node_read_state s fs t')"
  (is "sys_wf wr wn ?s")
proof (rule sys_wf_stream [OF wf, of _ "stream_id f"])
  let ?sid = "stream_id f" and ?fs = "of_stream (stream_id f) fs"
  have ob: "tn_outbox (sy_relay s) = f # fs" and nz: "?sid \<noteq> 0" and st: "tn_store (sy_node s) ?sid = Some st"
    using rd by (simp_all add: node_reading_def)
  note inv = sys_wf_node_ids [OF wf nz st]
  have old: "logs_ok (local_active (sy_locals s ?sid)) (?sid \<in> tn_streams (sy_node s)) (sy_up_done s ?sid)
      (inbound_data (se_inbound st)) (frame_data f @ data_of ?fs) (sy_up_sent s ?sid)"
    using inv(2) st ob by (simp add: vinv_def view_def waiting_data_def frame_data_def)
  have new: "logs_ok (local_active (sy_locals s ?sid)) n (sy_up_done s ?sid) (inbound_data (se_inbound st'))
      (data_of ?fs) (sy_up_sent s ?sid)"
    using logs old by (auto intro: logs_ok_receive logs_ok_lose)
  have "vinv wr wn ((view s ?sid)\<lparr>v_node := Some st', v_node_listed := n, v_node_out := v_node_out (view s ?sid) @ gs, v_out := ?fs\<rparr>)"
    using inv(2) st ob gs credit recv held sub new
    by (intro vinv_node_read [where st = st and f = f]) (simp_all add: view_def)
  moreover have "view ?s ?sid = (view s ?sid)\<lparr>v_node := Some st', v_node_listed := n, v_node_out := v_node_out (view s ?sid) @ gs, v_out := ?fs\<rparr>"
    using t' touched_outbox [OF t'] by (simp add: view_def touched_def)
  ultimately show "vinv wr wn (view ?s ?sid)" by simp
  show "view ?s i = view s i" if "i \<noteq> ?sid" for i
    using t' touched_outbox [OF t'] that ob by (simp add: view_def touched_def)
  show "ids_ok ?s"
    using wf t' ob inv(1) frame_id_ok_own [of ?sid gs] by (auto simp: sys_wf_def ids_ok_def touched_def)
qed

lemma node_read_listed:
  assumes wf: "sys_wf wr wn s" and rd: "node_reading s f fs st" and l: "stream_id f \<in> tn_streams (sy_node s)"
    and credit: "unat (se_send_credit st') \<le> unat (se_send_credit st) + frame_amount WindowUpdate f"
    and recv: "unat (se_receive_remaining st) = unat (se_receive_remaining st') + length (frame_data f)"
    and inb: "inbound_data (se_inbound st') = inbound_data (se_inbound st) @ frame_data f" "InData [] \<notin> set (se_inbound st')"
    and t': "touched (sy_node s) t' (stream_id f) st' True []"
  shows "sys_wf wr wn (node_read_state s fs t')"
  using sys_wf_node_read [OF wf rd t'] l credit recv inb by simp

lemma node_read_unlisted:
  assumes wf: "sys_wf wr wn s" and rd: "node_reading s f fs st"
    and t': "touched (sy_node s) t' (stream_id f) st' False gs" and gs: "list_all (\<lambda>g. kind g = Close) gs"
    and st': "se_send_credit st' = se_send_credit st"
      "inbound_data (se_inbound st') = inbound_data (se_inbound st)" "InData [] \<notin> set (se_inbound st')"
      "unat (se_receive_remaining st') \<le> unat (se_receive_remaining st)"
      "unat (se_receive_remaining st) \<le> unat (se_receive_remaining st') + length (frame_data f)"
  shows "sys_wf wr wn (node_read_state s fs t')"
  using sys_wf_node_read [OF wf rd t' gs] st' by simp

lemma node_read_absent:
  assumes wf: "sys_wf wr wn s" and ob: "tn_outbox (sy_relay s) = f # fs" and nz: "stream_id f \<noteq> 0"
    and st: "tn_store (sy_node s) (stream_id f) = None"
    and t': "tn_store t' = tn_store (sy_node s)" "tn_streams t' = tn_streams (sy_node s)"
      "tn_outbox t' = tn_outbox (sy_node s) @ gs"
    and gs: "gs = [] \<or> (\<exists>c. gs = [frame_code OpenError (stream_id f) c]) \<and> kind f = Open"
  shows "sys_wf wr wn (node_read_state s fs t')"
  (is "sys_wf wr wn ?s")
proof (rule sys_wf_stream [OF wf, of _ "stream_id f"])
  let ?sid = "stream_id f" and ?fs = "of_stream (stream_id f) fs"
  have inv: "vinv wr wn (view s ?sid)" using wf nz by (simp add: sys_wf_def)
  have own: "list_all (\<lambda>f. stream_id f = ?sid) gs" "list_all (\<lambda>g. kind g = OpenError) gs" "length gs \<le> of_bool (kind f = Open)"
    using gs by auto
  have "vinv wr wn ((view s ?sid)\<lparr>v_node_out := v_node_out (view s ?sid) @ gs, v_out := ?fs\<rparr>)"
    using inv st ob own by (intro vinv_node_absent [where f = f]) (simp_all add: view_def)
  moreover have "view ?s ?sid = (view s ?sid)\<lparr>v_node_out := v_node_out (view s ?sid) @ gs, v_out := ?fs\<rparr>"
    using t' of_stream_own [OF own(1)] by (simp add: view_def)
  ultimately show "vinv wr wn (view ?s ?sid)" by simp
  show "view ?s i = view s i" if "i \<noteq> ?sid" for i
    using t' of_stream_own [OF own(1)] that ob by (simp add: view_def)
  show "ids_ok ?s"
    using wf t' ob relay_frame_known(3) [OF wf ob nz] frame_id_ok_own [OF own(1)] by (auto simp: sys_wf_def ids_ok_def)
qed

lemma node_read_data:
  assumes wf: "sys_wf wr wn s" and rd: "node_reading s f fs st" and k: "kind f = Data" "payload f \<noteq> []"
    and data: "node_data (sy_node s) f = (t', Inr ())"
  shows "sys_wf wr wn (node_read_state s fs t')"
proof -
  let ?t = "sy_node s" and ?sid = "stream_id f"
  have st: "tn_store ?t ?sid = Some st" and len: "length (payload f) \<le> unat (se_receive_remaining st)"
    and ne: "InData [] \<notin> set (se_inbound st)"
    using rd k by (simp_all add: node_reading_def frame_data_def)
  obtain r where r: "unat r = unat (se_receive_remaining st) - length (payload f)" "?sid \<in> tn_streams ?t"
    and t': "(case try_send (st\<lparr>se_receive_remaining := r\<rparr>) (InData (payload f)) of
        Some s2 \<Rightarrow> t' = tn_update (tn_update ?t ?sid (st\<lparr>se_receive_remaining := r\<rparr>)) ?sid s2
      | None \<Rightarrow> (\<exists>t2. node_send (tn_update ?t ?sid (st\<lparr>se_receive_remaining := r\<rparr>)) (frame_code Close ?sid LimitReached) = Inr t2
          \<and> t' = remove_stream t2 ?sid))"
    using data st by (auto simp: node_data_def node_stream_def find_stream_Inr debit_window_def
        debit_Inr Let_def split: sum.splits option.splits)
  note t1 = touched_update [OF touched_refl [OF st], of "st\<lparr>se_receive_remaining := r\<rparr>"]
  show ?thesis
  proof (cases "try_send (st\<lparr>se_receive_remaining := r\<rparr>) (InData (payload f))")
    case None
    then obtain t2 where "node_send (tn_update ?t ?sid (st\<lparr>se_receive_remaining := r\<rparr>)) (frame_code Close ?sid LimitReached) = Inr t2"
      "t' = remove_stream t2 ?sid" using t' by auto
    then have "touched ?t t' ?sid (st\<lparr>se_receive_remaining := r, se_cancelled := (?sid \<in> tn_streams ?t \<or> se_cancelled st)\<rparr>) False
        [frame_code Close ?sid LimitReached]"
      using touched_remove [OF touched_send [OF t1, of _ _ "frame_code Close ?sid LimitReached" t2]]
      by (simp add: node_send_def)
    then show ?thesis using k ne r len node_read_unlisted [OF wf rd] by (simp add: frame_data_def)
  next
    case (Some s2)
    then have "touched ?t t' ?sid s2 True []" using t' r touched_update [OF t1, of s2] by simp
    then show ?thesis
      using k ne r len Some by (intro node_read_listed [OF wf rd, of s2]) (auto simp: try_send_Some read_simps)
  qed
qed

lemma node_read_fin:
  assumes wf: "sys_wf wr wn s" and rd: "node_reading s f fs st" and k: "kind f = Fin"
    and fin: "node_fin (sy_node s) f = (t', Inr ())"
  shows "sys_wf wr wn (node_read_state s fs t')"
proof -
  let ?t = "sy_node s" and ?sid = "stream_id f"
  have st: "tn_store ?t ?sid = Some st" and ne: "InData [] \<notin> set (se_inbound st)"
    using rd by (simp_all add: node_reading_def)
  consider s' where "t' = tn_update ?t ?sid s'" "try_send st InFin = Some s'" "?sid \<in> tn_streams ?t"
    | "t' = remove_stream ?t ?sid"
    using fin st by (auto simp: node_fin_def node_stream_def find_stream_Inr split: sum.splits option.splits)
  then show ?thesis
  proof cases
    case (1 s')
    then have "touched ?t t' ?sid s' True []" using touched_update [OF touched_refl [OF st], of s'] by simp
    with 1 show ?thesis
      using k ne by (intro node_read_listed [OF wf rd, of s']) (auto simp: try_send_Some read_simps)
  next
    case 2
    then show ?thesis using touched_remove [OF touched_refl [OF st]] node_read_unlisted [OF wf rd] ne by simp
  qed
qed

lemma node_read_close:
  assumes wf: "sys_wf wr wn s" and rd: "node_reading s f fs st"
    and close: "node_close (sy_node s) f = (t', Inr ())"
  shows "sys_wf wr wn (node_read_state s fs t')"
proof -
  let ?t = "sy_node s" and ?sid = "stream_id f"
  have st: "tn_store ?t ?sid = Some st" and ne: "InData [] \<notin> set (se_inbound st)" and valid: "\<not> invalid_stream_id ?sid"
    using rd by (simp_all add: node_reading_def)
  define s' where "s' = (if ?sid \<in> tn_streams ?t then (case try_send st InClose of Some s' \<Rightarrow> s' | None \<Rightarrow> st) else st)"
  have "touched ?t t' ?sid (s'\<lparr>se_cancelled := (?sid \<in> tn_streams ?t \<or> se_cancelled s')\<rparr>) False []"
    using close st valid touched_remove [OF touched_refl [OF st]] touched_remove [OF touched_update [OF touched_refl [OF st]]]
    by (auto simp: node_close_def Let_def node_stream_def find_stream_def tn_lookup_def s'_def split: option.splits)
  moreover have "inbound_data (se_inbound s') = inbound_data (se_inbound st)" "InData [] \<notin> set (se_inbound s')"
    "se_send_credit s' = se_send_credit st" "se_receive_remaining s' = se_receive_remaining st"
    using ne by (auto simp: s'_def try_send_Some split: option.splits)
  ultimately show ?thesis using node_read_unlisted [OF wf rd] by simp
qed

lemma node_read_window_update:
  assumes wf: "sys_wf wr wn s" and rd: "node_reading s f fs st" and k: "kind f = WindowUpdate" "amount_ok f"
    and upd: "node_window_update (sy_node s) f = (t', Inr ())"
  shows "sys_wf wr wn (node_read_state s fs t')"
proof -
  let ?t = "sy_node s" and ?sid = "stream_id f"
  have st: "tn_store ?t ?sid = Some st" and ne: "InData [] \<notin> set (se_inbound st)"
    using rd by (simp_all add: node_reading_def)
  obtain c where c: "credit_add (se_send_credit st) (u32_from_be (payload f)) = Inr c" "?sid \<in> tn_streams ?t"
    "t' = tn_update ?t ?sid (st\<lparr>se_send_credit := c\<rparr>)"
    using upd st k by (auto simp: node_window_update_def node_stream_def find_stream_Inr
        amount_ok_def parse_u32_def split: sum.splits)
  then have "touched ?t t' ?sid (st\<lparr>se_send_credit := c\<rparr>) True []"
    using touched_update [OF touched_refl [OF st], of "st\<lparr>se_send_credit := c\<rparr>"] by simp
  then show ?thesis
    using k ne c unat_credit_add [OF c(1)]
    by (intro node_read_listed [OF wf rd, of "st\<lparr>se_send_credit := c\<rparr>"]) (auto simp: read_simps)
qed

text \<open>The opening of a stream: there is no room, or the task of the stream starts.\<close>

lemma node_read_open:
  assumes wf: "sys_wf wr wn s" and wn: "wn = unat (nc_initial_window_bytes nc)"
    and ob: "tn_outbox (sy_relay s) = f # fs" and nz: "stream_id f \<noteq> 0" and k: "kind f = Open"
    and op: "node_open nc (sy_node s) f = (t', Inr ())"
  shows "sys_wf wr wn ((node_read_state s fs t')\<lparr>sy_locals :=
    (if stream_id f \<in> tn_streams t' - tn_streams (sy_node s) then (sy_locals s)(stream_id f \<mapsto> LConnecting) else sy_locals s)\<rparr>)"
proof -
  let ?t = "sy_node s" and ?sid = "stream_id f" and ?w = "u32_from_be (payload f)"
  note known = relay_frame_known [OF wf ob nz]
  have len: "length (payload f) = 4" using known(1) k by (simp add: relay_frame_ok_def amount_ok_def)
  have none: "tn_store ?t ?sid = None" using known(4) k by (cases "tn_store ?t ?sid") auto
  have unlisted: "?sid \<notin> tn_streams ?t" using known(5) none by simp
  show ?thesis
  proof (cases "nt_free_slots ?t = 0")
    case True
    then have "node_send ?t (frame_code OpenError ?sid LimitReached) = Inr t'"
      using op len known(1,2) by (auto simp: node_open_def parse_u32_def split: if_splits sum.splits)
    then have "t' = ?t\<lparr>tn_outbox := tn_outbox ?t @ [frame_code OpenError ?sid LimitReached]\<rparr>"
      by (simp add: node_send_def tn_send_Inr)
    then show ?thesis
      using node_read_absent [OF wf ob nz none, of t' "[frame_code OpenError ?sid LimitReached]"] k unlisted by auto
  next
    case False
    then have t': "t' = (tn_insert ?t ?sid (new_node_stream nc ?w))\<lparr>nt_free_slots := nt_free_slots ?t - 1\<rparr>"
      using op len known(1,2) by (auto simp: node_open_def parse_u32_def Let_def split: if_splits)
    let ?s = "(node_read_state s fs t')\<lparr>sy_locals := (sy_locals s)(?sid \<mapsto> LConnecting)\<rparr>"
    let ?st = "new_node_stream nc ?w" and ?fs = "of_stream ?sid fs"
    have "sys_wf wr wn ?s"
    proof (rule sys_wf_stream [OF wf, of _ ?sid])
      have inv: "vinv wr wn (view s ?sid)" using wf nz by (simp add: sys_wf_def)
      have "vinv wr wn ((view s ?sid)\<lparr>v_node := Some ?st, v_node_listed := True, v_local := Some LConnecting, v_out := ?fs\<rparr>)"
        using none ob k wn
        by (intro vinv_node_open [OF inv, where f = f]) (simp_all add: view_def new_node_stream_def frame_amount_def)
      moreover have "view ?s ?sid = (view s ?sid)\<lparr>v_node := Some ?st, v_node_listed := True, v_local := Some LConnecting, v_out := ?fs\<rparr>"
        using t' by (simp add: view_def)
      ultimately show "vinv wr wn (view ?s ?sid)" by simp
      show "view ?s i = view s i" if "i \<noteq> ?sid" for i
        using t' that ob by (simp add: view_def)
      show "ids_ok ?s" using wf t' ob nz by (auto simp: sys_wf_def ids_ok_def)
    qed
    then show ?thesis using t' unlisted by simp
  qed
qed

lemma remove_stream_subset: "tn_streams (remove_stream t sid) \<subseteq> tn_streams t"
  by (auto simp: remove_stream_def split: option.splits)

lemma node_dispatch_listed:
  assumes "node_dispatch nc now t f = (t', r)" and "kind f \<noteq> Open"
  shows "tn_streams t' \<subseteq> tn_streams t"
  using assms remove_stream_subset
  by (auto simp: node_dispatch_def node_data_def node_fin_def node_close_def node_window_update_def Let_def node_send_def tn_send_Inr
      split: frame_kind.splits sum.splits option.splits if_splits dest!: subsetD [OF remove_stream_subset])

lemma node_dispatch_unknown:
  assumes disp: "node_dispatch nc now t f = (t', Inr ())" and "\<not> invalid_stream_id (stream_id f)"
    and "stream_id f \<notin> tn_streams t" and "kind f = Data \<or> kind f = Fin \<or> kind f = Close \<or> kind f = WindowUpdate"
  shows "t' = t"
proof -
  have "node_stream t (stream_id f) = Inl (Stable ProtocolInvalid ''stream is not open'')"
    "remove_stream t (stream_id f) = t"
    using assms(2,3) by (simp_all add: node_stream_def find_stream_def tn_lookup_def remove_stream_def)
  then show ?thesis
    using disp assms(4)
    by (elim disjE) (simp_all add: node_dispatch_def node_data_def node_fin_def node_close_def node_window_update_def Let_def)
qed

lemma sys_wf_node_dispatched:
  assumes wf: "sys_wf wr wn s" and wn: "wn = unat (nc_initial_window_bytes nc)"
    and ob: "tn_outbox (sy_relay s) = f # fs" and disp: "node_dispatch nc now (sy_node s) f = (t', Inr ())"
  shows "sys_wf wr wn ((node_read_state s fs t')\<lparr>sy_locals :=
    (if stream_id f \<in> tn_streams t' - tn_streams (sy_node s) then (sy_locals s)(stream_id f \<mapsto> LConnecting) else sy_locals s)\<rparr>)"
proof (cases "kind f = Open \<and> stream_id f \<noteq> 0")
  case True
  then show ?thesis
    using disp by (intro node_read_open [OF wf wn ob]) (simp_all add: node_dispatch_def)
next
  case other: False
  have z: "kind f = Ping \<or> kind f = Pong" "length (payload f) = 8" if "stream_id f = 0"
    using wf ob that by (auto simp: sys_wf_def ids_ok_def frame_id_ok_def)
  then have "kind f \<noteq> Open" using other by auto
  then have "stream_id f \<notin> tn_streams t' - tn_streams (sy_node s)" using node_dispatch_listed [OF disp] by blast
  moreover have "sys_wf wr wn (node_read_state s fs t')"
  proof (cases "stream_id f = 0")
    case True
    have "quiet (sy_node s) t'"
      using disp z True
      by (auto simp: node_dispatch_def heartbeat_invalid_def node_send_def frame_id_ok_def
          intro: quiet_send split: if_splits sum.splits)
    then show ?thesis using sys_wf_node_quiet [OF sys_wf_relay_pop [OF wf ob True], of t'] by simp
  next
    case nz: False
    note known = relay_frame_known [OF wf ob nz]
    from known(1) other nz consider "kind f = Data" "payload f \<noteq> []" | "kind f = Fin" | "kind f = Close"
      | "kind f = WindowUpdate" "amount_ok f"
      by (auto simp: relay_frame_ok_def split: frame_kind.splits)
    note kinds = this
    show ?thesis
    proof (cases "tn_store (sy_node s) (stream_id f)")
      case None
      then have "stream_id f \<notin> tn_streams (sy_node s)" using known(5) by simp
      then have "t' = sy_node s" using node_dispatch_unknown [OF disp known(2)] kinds by blast
      then show ?thesis using node_read_absent [OF wf ob nz None, of "sy_node s" "[]"] by simp
    next
      case (Some st)
      then have rd: "node_reading s f fs st" using known(4) by simp
      from kinds show ?thesis
      proof cases
        case 1
        with disp show ?thesis by (intro node_read_data [OF wf rd]) (simp_all add: node_dispatch_def)
      next
        case 2
        with disp show ?thesis by (intro node_read_fin [OF wf rd]) (simp_all add: node_dispatch_def)
      next
        case 3
        with disp show ?thesis by (intro node_read_close [OF wf rd]) (simp_all add: node_dispatch_def)
      next
        case 4
        with disp show ?thesis by (intro node_read_window_update [OF wf rd]) (simp_all add: node_dispatch_def)
      qed
    qed
  qed
  ultimately show ?thesis by auto
qed

lemma vinv_node_unlist:
  assumes inv: "vinv wr wn v" and st: "v_node v = Some st"
    and same: "se_inbound st' = se_inbound st" "se_receive_remaining st' = se_receive_remaining st"
      "se_send_credit st' = se_send_credit st"
  shows "vinv wr wn (v\<lparr>v_node := Some st', v_node_listed := False\<rparr>)"
  (is "vinv wr wn ?v")
proof -
  have eq: "up_total ?v = up_total v" "down_total ?v = down_total v" "answers ?v = answers v"
    using st same by (simp_all add: view_defs credit_of_def)
  have flow: "flow_ok wn n st' = flow_ok wn n st" for n using same by (simp add: flow_ok_def)
  have "logs_ok (local_active (v_local v)) False (v_up_done v) (inbound_data (se_inbound st)) (data_of (v_out v)) (v_up_sent v)"
    using inv st by (auto simp: vinv_def waiting_data_def intro: logs_ok_idle)
  then show ?thesis
    using inv st same unfolding vinv_def eq by (simp add: flow waiting_data_def)
qed

lemma sys_wf_node_cancel_all:
  assumes wf: "sys_wf wr wn s"
  shows "sys_wf wr wn (s\<lparr>sy_node := cancel_all_streams ((sy_node s)\<lparr>tn_cancelled := True\<rparr>)\<rparr>)"
  (is "sys_wf wr wn ?s")
proof -
  have "vinv wr wn (view ?s sid)" if nz: "sid \<noteq> 0" for sid
  proof -
    have inv: "vinv wr wn (view s sid)" using wf nz by (simp add: sys_wf_def)
    show ?thesis
    proof (cases "tn_store (sy_node s) sid")
      case None
      then have "v_node (view s sid) = None" by (simp add: view_def)
      then have "\<not> v_node_listed (view s sid)" using inv by (simp add: vinv_def)
      then have "view ?s sid = view s sid" using None by (simp add: view_def)
      then show ?thesis using inv by simp
    next
      case (Some st)
      let ?st = "if sid \<in> tn_streams (sy_node s) then st\<lparr>se_cancelled := True\<rparr> else st"
      have "view ?s sid = (view s sid)\<lparr>v_node := Some ?st, v_node_listed := False\<rparr>"
        using Some by (simp add: view_def)
      then show ?thesis using vinv_node_unlist [OF inv, of st ?st] Some by (simp add: view_def)
    qed
  qed
  then show ?thesis using wf by (auto simp: sys_wf_def ids_ok_def)
qed

lemma node_dispatch_error:
  assumes wf: "sys_wf wr wn s" and wr: "wr < 2 ^ 32" and ob: "tn_outbox (sy_relay s) = f # fs"
    and disp: "node_dispatch nc now (sy_node s) f = (t', Inl e)"
  shows "reader_error m n e \<and> only_debited (sy_node s) f t'"
proof (cases "stream_id f = 0")
  case True
  then have "kind f = Ping \<or> kind f = Pong" "length (payload f) = 8"
    using wf ob by (auto simp: sys_wf_def ids_ok_def frame_id_ok_def)
  then show ?thesis
    using disp True by (auto simp: node_dispatch_def heartbeat_invalid_def only_debited_def node_send_def
        dest: tn_send_lost split: sum.splits)
next
  case nz: False
  let ?t = "sy_node s" and ?sid = "stream_id f"
  note known = relay_frame_known [OF wf ob nz]
  have stale: "node_stream ?t ?sid = Inl x \<Longrightarrow> reader_error m n x" for x
    using find_stream_stale known(2) by (simp add: node_stream_def)
  have found: "tn_store ?t ?sid = Some st \<and> length (frame_data f) \<le> unat (se_receive_remaining st)
      \<and> unat (se_send_credit st) + frame_amount WindowUpdate f \<le> wr" if "node_stream ?t ?sid = Inr st" for st
    using that known(4) by (simp add: node_stream_def find_stream_Inr node_reading_def)
  from known(1) consider "kind f = Open" "amount_ok f" | "kind f = Data" "payload f \<noteq> []" | "kind f = Fin" | "kind f = Close"
    | "kind f = WindowUpdate" "amount_ok f"
    by (auto simp: relay_frame_ok_def split: frame_kind.splits)
  then show ?thesis
  proof cases
    case 1
    have "tn_store ?t ?sid = None" using known(4) 1 by (cases "tn_store ?t ?sid") auto
    then show ?thesis using disp 1 known(2)
      by (auto simp: node_dispatch_def node_open_def parse_u32_def amount_ok_def only_debited_def node_send_def tn_lookup_def Let_def
          dest: tn_send_lost split: sum.splits if_splits)
  next
    case 2
    show ?thesis
    proof (cases "node_stream ?t ?sid")
      case (Inl x)
      then show ?thesis using disp stale 2 by (simp add: node_dispatch_def node_data_def only_debited_def)
    next
      case (Inr st)
      then have st: "tn_store ?t ?sid = Some st" "length (payload f) \<le> unat (se_receive_remaining st)"
        using found 2 by (simp_all add: frame_data_def)
      then show ?thesis using disp Inr 2 nz debit_fits [OF st(2)]
        by (auto simp: node_dispatch_def node_data_def Let_def frame_data_def debit_window_def debit_Inr
            node_send_def only_debited_def dest: tn_send_lost split: sum.splits option.splits)
    qed
  next
    case 3
    then show ?thesis using disp stale
      by (auto simp: node_dispatch_def node_fin_def only_debited_def split: sum.splits option.splits)
  next
    case 4
    then show ?thesis using disp by (simp add: node_dispatch_def node_close_def Let_def)
  next
    case 5
    have "credit_add (se_send_credit st) (u32_from_be (payload f)) \<noteq> Inl x" if "node_stream ?t ?sid = Inr st" for st x
      using found [OF that] 5 wr by (intro credit_add_fits) (simp_all add: amount_ok_def frame_amount_def)
    then show ?thesis using disp stale 5
      by (auto simp: node_dispatch_def node_window_update_def parse_u32_def amount_ok_def only_debited_def split: sum.splits)
  qed
qed

lemma sys_wf_node_failed:
  assumes wf: "sys_wf wr wn s" and wr: "wr < 2 ^ 32" and ob: "tn_outbox (sy_relay s) = f # fs"
    and disp: "node_dispatch nc now (sy_node s) f = (t', Inl e)"
  shows "sys_wf wr wn (node_read_state s fs (cancel_all_streams (t'\<lparr>tn_cancelled := True\<rparr>)))"
proof -
  let ?c = "\<lambda>t :: node_tunnel. cancel_all_streams (t\<lparr>tn_cancelled := True\<rparr>)"
  let ?s = "s\<lparr>sy_node := ?c (sy_node s)\<rparr>" and ?sid = "stream_id f"
  have wf': "sys_wf wr wn ?s" by (rule sys_wf_node_cancel_all [OF wf])
  have ob': "tn_outbox (sy_relay ?s) = f # fs" using ob by simp
  have left: "only_debited (sy_node s) f t'" using node_dispatch_error [OF wf wr ob disp] by simp
  show ?thesis
  proof (cases "?sid = 0 \<or> tn_store (sy_node s) ?sid = None")
    case True
    then have t': "t' = sy_node s" using left by (auto simp: only_debited_def)
    show ?thesis
    proof (cases "?sid = 0")
      case z: True
      then show ?thesis using sys_wf_node_cancel_all [OF sys_wf_relay_pop [OF wf ob z]] t' by simp
    next
      case False
      have "sys_wf wr wn (node_read_state ?s fs (?c (sy_node s)))"
        by (rule node_read_absent [OF wf' ob' False, where gs = "[]"]) (use True False in simp_all)
      then show ?thesis using t' by simp
    qed
  next
    case False
    then have nz: "?sid \<noteq> 0" and "tn_store (?c (sy_node s)) ?sid \<noteq> None" by simp_all
    then obtain st where st: "tn_store (?c (sy_node s)) ?sid = Some st" by blast
    have "tn_store (sy_node ?s) ?sid = Some st" using st by simp
    then have rd: "node_reading ?s f fs st" using relay_frame_known(4) [OF wf' ob' nz] by blast
    then have ne: "InData [] \<notin> set (se_inbound st)" by (simp add: node_reading_def)
    obtain r where t: "touched (?c (sy_node s)) (?c t') ?sid (st\<lparr>se_receive_remaining := r\<rparr>) False []"
      and r: "unat r \<le> unat (se_receive_remaining st)" "unat (se_receive_remaining st) \<le> unat r + length (frame_data f)"
    proof -
      consider "t' = sy_node s" | s0 r where "tn_store (sy_node s) ?sid = Some s0"
        "t' = tn_update (sy_node s) ?sid (s0\<lparr>se_receive_remaining := r\<rparr>)"
        "unat r + length (frame_data f) = unat (se_receive_remaining s0)"
        using left unfolding only_debited_def by blast
      then show thesis
      proof cases
        case 1
        then show thesis using that [of "se_receive_remaining st"] touched_refl [OF st] by simp
      next
        case (2 s0 r)
        then show thesis using that [of r] st by (auto simp: touched_def fun_eq_iff)
      qed
    qed
    then show ?thesis using node_read_unlisted [OF wf' rd, of "?c t'" "st\<lparr>se_receive_remaining := r\<rparr>" "[]"] ne by simp
  qed
qed

section \<open>Every step keeps the invariant\<close>

text \<open>The logs of what was read and the state of the readers are not part of it.\<close>

lemma sys_wf_logs [simp]:
  "sys_wf wr wn (s\<lparr>sy_relay_error := e\<rparr>) = sys_wf wr wn s" "sys_wf wr wn (s\<lparr>sy_node_error := e\<rparr>) = sys_wf wr wn s"
  "sys_wf wr wn (s\<lparr>sy_relay_reading := b\<rparr>) = sys_wf wr wn s" "sys_wf wr wn (s\<lparr>sy_node_reading := b\<rparr>) = sys_wf wr wn s"
  "sys_wf wr wn (s\<lparr>sy_up_read := log\<rparr>) = sys_wf wr wn s" "sys_wf wr wn (s\<lparr>sy_down_read := log\<rparr>) = sys_wf wr wn s"
  by (simp_all add: sys_wf_def ids_ok_def view_def)

lemma sys_wf_relay_reads:
  assumes wf: "sys_wf wr wn s" and wn: "wn < 2 ^ 32" and ob: "tn_outbox (sy_node s) = f # fs"
    and disp: "relay_dispatch now (sy_relay s) f = (t', r)"
  shows "sys_wf wr wn (s\<lparr>sy_node := (sy_node s)\<lparr>tn_outbox := fs\<rparr>, sy_relay := reader_returned t' r\<rparr>)"
  using sys_wf_relay_failed [OF wf wn ob] sys_wf_relay_dispatched [OF wf ob] disp
  by (cases r) (simp_all add: reader_returned_def)

lemma sys_wf_node_reads:
  assumes wf: "sys_wf wr wn s" and w: "wr < 2 ^ 32" "wn = unat (nc_initial_window_bytes nc)"
    and ob: "tn_outbox (sy_relay s) = f # fs" and disp: "node_dispatch nc now (sy_node s) f = (t', r)"
    and ls: "ls = (if r = Inr () \<and> stream_id f \<in> tn_streams t' - tn_streams (sy_node s)
            then (sy_locals s)(stream_id f \<mapsto> LConnecting) else sy_locals s)"
  shows "sys_wf wr wn (s\<lparr>sy_relay := (sy_relay s)\<lparr>tn_outbox := fs\<rparr>, sy_node := reader_returned t' r, sy_locals := ls\<rparr>)"
proof (cases r)
  case (Inl e)
  then show ?thesis using sys_wf_node_failed [OF wf w(1) ob] disp ls by (simp add: reader_returned_def)
next
  case (Inr u)
  then have "sys_wf wr wn ((node_read_state s fs t')\<lparr>sy_locals := ls\<rparr>)"
    using sys_wf_node_dispatched [OF wf w(2) ob, of now t'] disp unfolding ls by simp
  then show ?thesis using Inr by (simp add: reader_returned_def)
qed

text \<open>The counter of identifiers grows by two with every stream, so it does not wrap for the first \<open>2 ^ 62\<close> steps.\<close>

lemma task_step_wf:
  assumes step: "task_step sc nc s l s'" and wf: "sys_wf wr wn s"
    and w: "wr = unat (sc_initial_window_bytes sc)" "wn = unat (nc_initial_window_bytes nc)" "sc_initial_window_bytes sc \<noteq> 0"
    and bound: "unat (sy_next s) + 2 < 2 ^ 64"
  shows "sys_wf wr wn s'"
proof -
  have lim: "wr < 2 ^ 32" "wn < 2 ^ 32" using w by simp_all
  have nz: "sid \<noteq> 0" if "sy_locals s sid = Some x" for sid x
    using wf that by (auto simp: sys_wf_def ids_ok_def)
  have same: "t\<lparr>tn_cancelled := True\<rparr> = t" if "tn_cancelled t" for t :: "('s, 'z) tunnel_scheme"
    using that by simp
  from step show ?thesis
  proof cases
    case relay_opens
    then show ?thesis using sys_wf_relay_opens [OF wf w(1,3) bound] by simp
  next
    case relay_opened
    then show ?thesis using sys_wf_relay_opened [OF wf] by simp
  next
    case relay_uploads
    then show ?thesis using sys_wf_relay_uploads [OF wf] by simp
  next
    case relay_downloads
    then show ?thesis using sys_wf_relay_downloads [OF wf lim(1)] by simp
  next
    case relay_finishes
    then show ?thesis using sys_wf_relay_finishes [OF wf] by simp
  next
    case relay_beats
    then show ?thesis using sys_wf_relay_quiet [OF wf] heartbeat_quiet by simp
  next
    case relay_cancels
    then show ?thesis using sys_wf_relay_quiet [OF wf] by simp
  next
    case relay_stops
    then show ?thesis using sys_wf_relay_cancel_all [OF wf] same [of "sy_relay s"] by simp
  next
    case node_refuses
    then show ?thesis using sys_wf_node_refuses [OF wf] nz by simp
  next
    case node_connects
    then show ?thesis using sys_wf_node_connects [OF wf w(2)] nz by simp
  next
    case node_uploads
    then show ?thesis using sys_wf_node_uploads [OF wf lim(2)] nz by simp
  next
    case node_downloads
    then show ?thesis using sys_wf_node_downloads [OF wf] nz by simp
  next
    case node_finishes
    then show ?thesis using sys_wf_node_finishes [OF wf] nz by simp
  next
    case node_beats
    then show ?thesis using sys_wf_node_quiet [OF wf] node_heartbeat_quiet by simp
  next
    case node_cancels
    then show ?thesis using sys_wf_node_quiet [OF wf] by simp
  next
    case node_stops
    then show ?thesis using sys_wf_node_cancel_all [OF wf] same [of "sy_node s"] by simp
  qed
qed

lemma sys_step_wf:
  assumes step: "sys_step sc nc s l s'" and wf: "sys_wf wr wn s"
    and w: "wr = unat (sc_initial_window_bytes sc)" "wn = unat (nc_initial_window_bytes nc)" "sc_initial_window_bytes sc \<noteq> 0"
    and bound: "unat (sy_next s) + 2 < 2 ^ 64"
  shows "sys_wf wr wn s'"
proof -
  have lim: "wr < 2 ^ 32" "wn < 2 ^ 32" using w by simp_all
  from step show ?thesis
  proof cases
    case task
    then show ?thesis by (rule task_step_wf [OF _ wf w bound])
  next
    case relay_reads
    then show ?thesis using sys_wf_relay_reads [OF wf lim(2)] by simp
  next
    case relay_fails
    then show ?thesis using sys_wf_relay_cancel_all [OF wf] by (simp add: reader_returned_def)
  next
    case relay_writer_ends
    then show ?thesis using sys_wf_relay_quiet [OF wf] by simp
  next
    case node_reads
    then show ?thesis using sys_wf_node_reads [OF wf lim(1) w(2)] by simp
  next
    case node_fails
    then show ?thesis using sys_wf_node_cancel_all [OF wf] by (simp add: reader_returned_def)
  next
    case node_writer_ends
    then show ?thesis using sys_wf_node_quiet [OF wf] by simp
  qed (use wf in simp_all)
qed

end
