(* ===== verification/Tunnel_Wire.thy ===== *)
theory Tunnel_Wire
  imports Tunnel_System
begin

text \<open>
  The two ends of a tunnel and the connection between them. What one end accepted for the other waits in the queue of
  its writer; the writer encodes it with \<open>Frame::write_to\<close>, and the reader of the other end decodes the bytes with
  \<open>Frame::read_from\<close>, each with the maximum of its own configuration. A run at this level is a run of \<open>sys_step\<close>.
\<close>

section \<open>How a tunnel ends\<close>

definition errors_ok :: "server_config \<Rightarrow> node_config \<Rightarrow> system \<Rightarrow> bool" where
  "errors_ok sc nc s \<longleftrightarrow>
     (\<forall>e. sy_relay_error s = Some e \<longrightarrow> reader_error (sc_max_frame_bytes sc) (nc_max_frame_bytes nc) e)
     \<and> (\<forall>e. sy_node_error s = Some e \<longrightarrow> reader_error (nc_max_frame_bytes nc) (sc_max_frame_bytes sc) e)"

lemma task_step_errors:
  "task_step sc nc s l s' \<Longrightarrow> sy_relay_error s' = sy_relay_error s \<and> sy_node_error s' = sy_node_error s"
  by (induction rule: task_step.cases) simp_all

lemma error_of_Some [simp]: "error_of r = Some e \<longleftrightarrow> r = Inl e"
  by (auto simp: error_of_def split: sum.splits)

lemma sys_step_errors:
  assumes step: "sys_step sc nc s l s'" and wf: "sys_wf wr wn s" and w: "wr < 2 ^ 32" "wn < 2 ^ 32"
    and ok: "errors_ok sc nc s"
  shows "errors_ok sc nc s'"
  using step
proof cases
  case task
  then show ?thesis using ok task_step_errors [OF task] by (simp add: errors_ok_def)
next
  case (relay_reads f fs now t' r)
  then show ?thesis using ok relay_dispatch_error [OF wf w(2) relay_reads(3)] by (auto simp: errors_ok_def)
next
  case (node_reads f fs now t' r ls)
  then show ?thesis using ok node_dispatch_error [OF wf w(1) node_reads(3)] by (auto simp: errors_ok_def)
qed (use ok in \<open>simp_all add: errors_ok_def\<close>)

section \<open>What was read from a socket\<close>

lemma new_data_simps [simp]:
  "new_data t t = []" "new_data t (tn_update t sid d) = []"
  "tn_outbox t' = tn_outbox t @ fs \<Longrightarrow> new_data t t' = data_of fs"
  by (simp_all add: new_data_def)

lemma pump_member_to_node_data:
  assumes "pump_member_to_node env pio rt ps t sid d cancelled member = Some (ps', t', p)"
  shows "prefix (new_data t t') (taken_bytes cancelled member) \<and> (p = Continue \<longrightarrow> new_data t t' = taken_bytes cancelled member)"
proof (cases "cancelled \<or> \<not> is_ok member")
  case True
  then show ?thesis using assms by (auto simp: pump_member_to_node_def taken_bytes_def split: sum.splits if_splits)
next
  case False
  then obtain bytes where b: "\<not> cancelled" "member = Inr bytes" by (auto simp: is_ok_iff)
  show ?thesis
  proof (cases "bytes = []")
    case True
    then show ?thesis using assms b
      by (auto simp: pump_member_to_node_def taken_bytes_def tunnel_send_def tn_send_def split: sum.splits if_splits)
  next
    case False
    with assms b show ?thesis
      by (auto simp: pump_member_to_node_def taken_bytes_def tunnel_send_def tn_send_def Let_def take_is_prefix
          split: option.splits prod.splits sum.splits if_splits)
  qed
qed

lemma pump_target_to_relay_data:
  assumes "pump_target_to_relay t sid st cancelled target wakes = Some (t', p)"
  shows "prefix (new_data t t') (taken_bytes cancelled target) \<and> (p = Continue \<longrightarrow> new_data t t' = taken_bytes cancelled target)"
  using assms
  by (auto simp: pump_target_to_relay_def taken_bytes_def node_send_def tn_send_def Let_def
      split: option.splits sum.splits if_splits)

text \<open>No operation revives the writer of a tunnel, and none forgets the object of a stream.\<close>

definition tn_keeps :: "('s, 'z) tunnel_scheme \<Rightarrow> ('s, 'z) tunnel_scheme \<Rightarrow> bool" where
  "tn_keeps t t' \<longleftrightarrow> tn_writer t' = tn_writer t \<and> (\<forall>sid. tn_store t' sid = None \<longrightarrow> tn_store t sid = None)"

lemma tn_keeps_simps [simp]:
  "tn_keeps t t" "tn_keeps t t1 \<Longrightarrow> tn_keeps t (tn_update t1 sid d)" "tn_keeps t t1 \<Longrightarrow> tn_keeps t (tn_insert t1 sid d)"
  "tn_keeps t t1 \<Longrightarrow> tn_keeps t (remove_stream t1 sid)" "tn_keeps t t1 \<Longrightarrow> tn_keeps t (cancel_all_streams t1)"
  "tn_keeps t t1 \<Longrightarrow> tn_keeps t (t1\<lparr>tn_outbox := fs\<rparr>)" "tn_keeps t t1 \<Longrightarrow> tn_keeps t (t1\<lparr>tn_cancelled := b\<rparr>)"
  "tn_keeps t t1 \<Longrightarrow> tn_keeps t (t1\<lparr>tn_last_pong := n\<rparr>)"
  by (auto simp: tn_keeps_def remove_stream_store cancel_all_streams_def)

lemma tn_keeps_slots [simp]: "tn_keeps t t1 \<Longrightarrow> tn_keeps t (t1\<lparr>nt_free_slots := n\<rparr>)"
  by (simp add: tn_keeps_def)

lemma tn_keeps_case [simp]:
  "tn_keeps t t1 \<Longrightarrow> tn_keeps t (case tn_send a b t1 f of Inl e \<Rightarrow> t1 | Inr t2 \<Rightarrow> t2)"
  by (simp add: tn_send_def)

lemmas keeps_defs = tunnel_send_def node_send_def tn_send_def Let_def

lemma relay_keeps:
  "open_request sc n t = (n', t', r) \<Longrightarrow> tn_keeps t t'"
  "open_finish t sid d w = (t', r') \<Longrightarrow> tn_keeps t t'"
  "tn_keeps t (member_finish t sid d outcome)"
  "heartbeat_pass sc rc t k now now_utc = (t', k', b) \<Longrightarrow> tn_keeps t t'"
  "relay_dispatch now t f = (t', u) \<Longrightarrow> tn_keeps t t'"
proof -
  show "open_request sc n t = (n', t', r) \<Longrightarrow> tn_keeps t t'"
    by (auto simp: open_request_def keeps_defs split: if_splits)
  show "open_finish t sid d w = (t', r') \<Longrightarrow> tn_keeps t t'"
    by (auto simp: open_finish_def split: if_splits sum.splits)
  show "tn_keeps t (member_finish t sid d outcome)"
    by (simp add: member_finish_def keeps_defs)
  show "heartbeat_pass sc rc t k now now_utc = (t', k', b) \<Longrightarrow> tn_keeps t t'"
    by (auto simp: heartbeat_pass_def keeps_defs split: if_splits)
  show "relay_dispatch now t f = (t', u) \<Longrightarrow> tn_keeps t t'"
    by (auto simp: relay_dispatch_def relay_open_ok_def relay_open_error_def relay_data_def relay_fin_def relay_close_def
        relay_window_update_def keeps_defs split: frame_kind.splits sum.splits option.splits if_splits)
qed

lemma node_keeps:
  "tn_keeps t (local_refused t sid)" "tn_keeps t (local_finished t sid)"
  "local_connected nc t sid nodelay = (t', ok) \<Longrightarrow> tn_keeps t t'"
  "node_heartbeat_pass nc t k now = (t', k', b) \<Longrightarrow> tn_keeps t t'"
  "node_dispatch nc now t f = (t', u) \<Longrightarrow> tn_keeps t t'"
proof -
  show "tn_keeps t (local_refused t sid)" "tn_keeps t (local_finished t sid)"
    by (simp_all add: local_refused_def local_finished_def release_slot_def keeps_defs)
  show "local_connected nc t sid nodelay = (t', ok) \<Longrightarrow> tn_keeps t t'"
    by (auto simp: local_connected_def release_slot_def keeps_defs rbind_def split: if_splits sum.splits)
  show "node_heartbeat_pass nc t k now = (t', k', b) \<Longrightarrow> tn_keeps t t'"
    by (auto simp: node_heartbeat_pass_def keeps_defs split: if_splits)
  show "node_dispatch nc now t f = (t', u) \<Longrightarrow> tn_keeps t t'"
    by (auto simp: node_dispatch_def node_open_def node_data_def node_fin_def node_close_def
        node_window_update_def keeps_defs split: frame_kind.splits sum.splits option.splits if_splits)
qed

lemma pump_keeps:
  "pump_member_to_node env pio rt ps t sid d cancelled member = Some (ps', t', p) \<Longrightarrow> tn_keeps t t'"
  "pump_node_to_member env pio rt ps t sid d cancelled written = Some (out, ps', t', p) \<Longrightarrow> tn_keeps t t'"
  "pump_relay_to_target u sid st cancelled written = Some (out, u', p) \<Longrightarrow> tn_keeps u u'"
  "pump_target_to_relay u sid st cancelled target wakes = Some (u', p) \<Longrightarrow> tn_keeps u u'"
proof -
  show "pump_member_to_node env pio rt ps t sid d cancelled member = Some (ps', t', p) \<Longrightarrow> tn_keeps t t'"
    by (auto simp: pump_member_to_node_def keeps_defs split: if_splits sum.splits option.splits prod.splits)
  show "pump_node_to_member env pio rt ps t sid d cancelled written = Some (out, ps', t', p) \<Longrightarrow> tn_keeps t t'"
    by (erule pump_node_to_member_effect) (auto simp: tn_send_Inr)
  show "pump_relay_to_target u sid st cancelled written = Some (out, u', p) \<Longrightarrow> tn_keeps u u'"
    by (erule pump_relay_to_target_effect) (auto simp: tn_send_Inr)
  show "pump_target_to_relay u sid st cancelled target wakes = Some (u', p) \<Longrightarrow> tn_keeps u u'"
    by (auto simp: pump_target_to_relay_def keeps_defs split: if_splits sum.splits option.splits)
qed

lemma task_step_keeps:
  assumes "task_step sc nc s l s'"
  shows "tn_keeps (sy_relay s) (sy_relay s') \<and> tn_keeps (sy_node s) (sy_node s')"
  using assms by cases (simp_all add: relay_keeps node_keeps pump_keeps)

text \<open>What was sent is a prefix of what was read, and all of it until the pump that sends returns.\<close>

definition relay_sending :: "system \<Rightarrow> u64 \<Rightarrow> bool" where
  "relay_sending s sid \<longleftrightarrow> unat (sy_next s) \<le> unat sid \<or> sy_members s sid = Some MOpening
     \<or> (\<exists>dn. sy_members s sid = Some (MRelaying True dn))"

definition node_sending :: "system \<Rightarrow> u64 \<Rightarrow> bool" where
  "node_sending s sid \<longleftrightarrow> tn_store (sy_node s) sid = None \<or> sy_locals s sid = Some LConnecting
     \<or> (\<exists>up. sy_locals s sid = Some (LRelaying up True))"

definition reads_ok :: "system \<Rightarrow> bool" where
  "reads_ok s \<longleftrightarrow>
     (\<forall>sid. prefix (sy_up_sent s sid) (sy_up_read s sid) \<and> (relay_sending s sid \<longrightarrow> sy_up_sent s sid = sy_up_read s sid))
     \<and> (\<forall>sid. prefix (sy_down_sent s sid) (sy_down_read s sid) \<and> (node_sending s sid \<longrightarrow> sy_down_sent s sid = sy_down_read s sid))"

lemma sending_next [simp]:
  "upload_next p dn = MRelaying True dn' \<longleftrightarrow> p = Continue \<and> dn' = dn" "upload_next p dn \<noteq> MOpening"
  "local_download_next p up = LRelaying up' True \<longleftrightarrow> p = Continue \<and> up' = up" "download_next p up \<noteq> MOpening"
  by (cases "(p, dn)" rule: upload_next.cases; cases "(p, up)" rule: download_next.cases; auto)+

lemma sending_other:
  "download_next p up = MRelaying up' dn \<Longrightarrow> up' = up" "local_upload_next p dn = LRelaying up dn' \<Longrightarrow> dn' = dn"
  by (cases "(p, up)" rule: download_next.cases; cases "(p, dn)" rule: local_upload_next.cases; auto)+

lemma reads_ok_idle:
  assumes "reads_ok s" and "sy_up_sent s' = sy_up_sent s" "sy_up_read s' = sy_up_read s"
    and "sy_down_sent s' = sy_down_sent s" "sy_down_read s' = sy_down_read s"
    and "\<And>sid. relay_sending s' sid \<Longrightarrow> relay_sending s sid" "\<And>sid. node_sending s' sid \<Longrightarrow> node_sending s sid"
  shows "reads_ok s'"
  using assms by (simp add: reads_ok_def)

lemma reads_ok_uploads:
  assumes ok: "reads_ok s" and m: "sy_members s sid = Some (MRelaying True dn)"
    and old: "unat sid < unat (sy_next s)" and data: "prefix out bytes" "p = Continue \<Longrightarrow> out = bytes"
  shows "reads_ok (s\<lparr>sy_relay := t', sy_members := (sy_members s)(sid \<mapsto> upload_next p dn),
          sy_up_sent := (sy_up_sent s)(sid := sy_up_sent s sid @ out),
          sy_up_read := (sy_up_read s)(sid := sy_up_read s sid @ bytes)\<rparr>)"
  using assms by (auto simp: reads_ok_def relay_sending_def node_sending_def)

lemma reads_ok_downloads:
  assumes ok: "reads_ok s" and m: "sy_locals s sid = Some (LRelaying up True)" and st: "tn_store (sy_node s) sid \<noteq> None"
    and kept: "tn_keeps (sy_node s) t'" and data: "prefix out bytes" "p = Continue \<Longrightarrow> out = bytes"
  shows "reads_ok (s\<lparr>sy_node := t', sy_locals := (sy_locals s)(sid \<mapsto> local_download_next p up),
          sy_down_sent := (sy_down_sent s)(sid := sy_down_sent s sid @ out),
          sy_down_read := (sy_down_read s)(sid := sy_down_read s sid @ bytes)\<rparr>)"
proof -
  have "tn_store t' i = None \<Longrightarrow> tn_store (sy_node s) i = None" for i
    using kept by (simp add: tn_keeps_def)
  moreover have "tn_store t' sid \<noteq> None" using calculation [of sid] st by auto
  ultimately show ?thesis using assms by (auto simp: reads_ok_def relay_sending_def node_sending_def)
qed

lemma reads_ok_lost:
  "reads_ok s \<Longrightarrow> unat sid < unat (sy_next s) \<Longrightarrow>
   reads_ok (s\<lparr>sy_relay := t, sy_members := (sy_members s)(sid := None), sy_up_read := (sy_up_read s)(sid := sy_up_read s sid @ lost)\<rparr>)"
  "reads_ok s \<Longrightarrow> tn_store (sy_node s) sid \<noteq> None \<Longrightarrow> tn_keeps (sy_node s) t' \<Longrightarrow>
   reads_ok (s\<lparr>sy_node := t', sy_locals := (sy_locals s)(sid := None), sy_down_read := (sy_down_read s)(sid := sy_down_read s sid @ lost)\<rparr>)"
  by (auto simp: reads_ok_def relay_sending_def node_sending_def tn_keeps_def intro: prefix_order.trans)

lemma task_step_reads:
  assumes step: "task_step sc nc s l s'" and wf: "sys_wf wr wn s" and bound: "unat (sy_next s) + 2 < 2 ^ 64"
    and ok: "reads_ok s"
  shows "reads_ok s'"
proof -
  note kept = task_step_keeps [OF step]
  have idle: "reads_ok s'" if "sy_up_sent s' = sy_up_sent s" "sy_up_read s' = sy_up_read s" "sy_down_sent s' = sy_down_sent s"
      "sy_down_read s' = sy_down_read s" "\<And>sid. relay_sending s' sid \<Longrightarrow> relay_sending s sid"
      "\<And>sid. node_sending s' sid \<Longrightarrow> node_sending s sid"
    by (rule reads_ok_idle [OF ok that])
  have gone: "tn_store (sy_node s') i = None \<Longrightarrow> tn_store (sy_node s) i = None" for i
    using kept by (simp add: tn_keeps_def)
  have old: "unat sid < unat (sy_next s)" if "tn_store (sy_relay s) sid = Some d" for sid d
    using wf that by (auto simp: sys_wf_def ids_ok_def)
  have object: "tn_store (sy_node s) sid \<noteq> None" if "sy_locals s sid = Some x" for sid x
    using wf that by (cases "sid = 0") (auto simp: sys_wf_def ids_ok_def vinv_def view_def)
  from step show ?thesis
  proof cases
    case (relay_opens next' t' r)
    have n: "next' = sy_next s + 2" and r: "r = Inr sid \<Longrightarrow> sid = sy_next s" for sid
      using relay_opens(3) by (auto simp: open_request_def Let_def split: if_splits sum.splits)
    have "unat next' = unat (sy_next s) + 2" using bound n by (simp add: unat_add_u64)
    then show ?thesis using relay_opens r
      by (intro idle) (auto simp: relay_sending_def node_sending_def split: sum.splits if_splits)
  next
    case (relay_uploads sid dn d pio bytes cancelled member env rt ps ps' t' p out)
    then show ?thesis using pump_member_to_node_data reads_ok_uploads [OF ok relay_uploads(3) old] by simp
  next
    case (relay_finishes sid m d lost outcome)
    then show ?thesis using reads_ok_lost(1) [OF ok old] by simp
  next
    case (node_downloads sid up st wakes bytes cancelled target t' p out)
    then show ?thesis
      using pump_target_to_relay_data reads_ok_downloads [OF ok node_downloads(3)] object kept by auto
  next
    case (node_finishes sid m lost)
    then show ?thesis using reads_ok_lost(2) [OF ok object] kept by simp
  qed (rule idle; insert gone; auto simp: relay_sending_def node_sending_def split: if_splits sum.splits dest: sending_other)+
qed

lemma node_opens_fresh:
  assumes wf: "sys_wf wr wn s" and ob: "tn_outbox (sy_relay s) = f # fs" and disp: "node_dispatch nc now (sy_node s) f = (t', r)"
    and new: "stream_id f \<in> tn_streams t' - tn_streams (sy_node s)"
  shows "tn_store (sy_node s) (stream_id f) = None"
proof -
  have k: "kind f = Open" using node_dispatch_listed [OF disp] new by blast
  have "stream_id f \<noteq> 0" using wf ob k by (auto simp: sys_wf_def ids_ok_def frame_id_ok_def)
  then have "vinv wr wn (view s (stream_id f))" using wf by (simp add: sys_wf_def)
  then show ?thesis using k ob by (auto simp: vinv_def view_def)
qed

lemma reader_returned_keeps [simp]: "tn_keeps t t' \<Longrightarrow> tn_keeps t (reader_returned t' r)"
  by (simp add: reader_returned_def split: sum.split)

lemma sys_step_reads:
  assumes step: "sys_step sc nc s l s'" and wf: "sys_wf wr wn s" and bound: "unat (sy_next s) + 2 < 2 ^ 64"
    and ok: "reads_ok s"
  shows "reads_ok s'"
proof -
  have idle: "reads_ok s'" if "sy_up_sent s' = sy_up_sent s" "sy_up_read s' = sy_up_read s" "sy_down_sent s' = sy_down_sent s"
      "sy_down_read s' = sy_down_read s" "\<And>sid. relay_sending s' sid \<Longrightarrow> relay_sending s sid"
      "\<And>sid. node_sending s' sid \<Longrightarrow> node_sending s sid"
    by (rule reads_ok_idle [OF ok that])
  from step show ?thesis
  proof cases
    case task
    then show ?thesis by (rule task_step_reads [OF _ wf bound ok])
  next
    case (node_reads f fs now t' r ls)
    have "tn_keeps (sy_node s) (reader_returned t' r)" using node_keeps(5) [OF node_reads(5)] by simp
    then have gone: "tn_store (reader_returned t' r) i = None \<Longrightarrow> tn_store (sy_node s) i = None" for i
      by (simp add: tn_keeps_def)
    show ?thesis
      by (rule idle; use node_reads node_opens_fresh [OF wf node_reads(3,5)] gone in
          \<open>auto simp: relay_sending_def node_sending_def split: if_splits\<close>)
  qed (rule idle; auto simp: relay_sending_def node_sending_def reader_returned_def)+
qed

section \<open>The connection\<close>

text \<open>
  The two ends, and what each wrote to the connection that the other has not read yet. The outbox of an end is the
  queue of its writer.
\<close>

record tunnel_run =
  tr_ends :: system
  tr_relay_wire :: "byte list"
  tr_node_wire :: "byte list"

text \<open>The queues between the tasks and the writers are bounded; a pass that sends is taken when there is room.\<close>

definition queues_fit :: "server_config \<Rightarrow> node_config \<Rightarrow> system \<Rightarrow> bool" where
  "queues_fit sc nc s \<longleftrightarrow> length (tn_outbox (sy_relay s)) \<le> sc_command_queue_frames sc
     \<and> length (tn_outbox (sy_node s)) \<le> nc_command_queue_frames nc"

text \<open>How a failed or ended read ends a reader; \<open>eof\<close> is the message of its end of file.\<close>

definition read_failure ::
  "string \<Rightarrow> (relay_error, (frame \<times> byte list) option) result \<Rightarrow> relay_error option" where
  "read_failure eof r =
     (case r of Inl e \<Rightarrow> Some e | Inr None \<Rightarrow> Some (Stable TunnelLost eof) | Inr (Some _) \<Rightarrow> None)"

text \<open>
  A writer ends when its tunnel is cancelled, when the oldest frame of its queue is too large for it, or when the
  connection fails, after any part \<open>torn\<close> of that frame.
\<close>

definition writer_ends :: "nat \<Rightarrow> ('s, 'z) tunnel_scheme \<Rightarrow> byte list \<Rightarrow> bool" where
  "writer_ends m t torn \<longleftrightarrow> tn_cancelled t \<and> torn = []
     \<or> (\<exists>f fs e. tn_outbox t = f # fs \<and> write_to f m = Inl e \<and> torn = [])
     \<or> (\<exists>f fs bs. tn_outbox t = f # fs \<and> write_to f m = Inr bs \<and> strict_prefix torn bs)"

text \<open>
  The writer takes the oldest frame of its queue and writes it; what it did not write before it ended stays in the queue.
  A reader fails on the bytes it got, which are any part of those written, followed by the end \<open>k\<close> of the connection.
\<close>

inductive tunnel_step :: "server_config \<Rightarrow> node_config \<Rightarrow> tunnel_run \<Rightarrow> sys_event \<Rightarrow> tunnel_run \<Rightarrow> bool"
  for sc :: server_config and nc :: node_config where
  passes:
    "\<lbrakk>task_step sc nc (tr_ends x) l s'; queues_fit sc nc s'\<rbrakk> \<Longrightarrow> tunnel_step sc nc x l (x\<lparr>tr_ends := s'\<rparr>)"
| relay_writer:
    "\<lbrakk>s = tr_ends x; tn_writer (sy_relay s); tn_outbox (sy_relay s) = f # fs; write_to f (sc_max_frame_bytes sc) = Inr bs\<rbrakk> \<Longrightarrow>
     tunnel_step sc nc x (RelayWrite f)
       (x\<lparr>tr_ends := s\<lparr>sy_relay := (sy_relay s)\<lparr>tn_outbox := fs\<rparr>\<rparr>, tr_relay_wire := tr_relay_wire x @ bs\<rparr>)"
| relay_writer_stops:
    "\<lbrakk>s = tr_ends x; tn_writer (sy_relay s); writer_ends (sc_max_frame_bytes sc) (sy_relay s) torn\<rbrakk> \<Longrightarrow>
     tunnel_step sc nc x RelayWriterEnd
       (x\<lparr>tr_ends := s\<lparr>sy_relay := (sy_relay s)\<lparr>tn_writer := False\<rparr>\<rparr>, tr_relay_wire := tr_relay_wire x @ torn\<rparr>)"
| relay_reader:
    "\<lbrakk>s = tr_ends x; sy_relay_reading s;
      read_from (sc_max_frame_bytes sc) k (tr_node_wire x) = Inr (Some (f, rest));
      relay_dispatch now (sy_relay s) f = (t', r);
      s' = s\<lparr>sy_relay := reader_returned t' r, sy_relay_error := error_of r, sy_relay_reading := is_ok r\<rparr>;
      queues_fit sc nc s'\<rbrakk> \<Longrightarrow>
     tunnel_step sc nc x (RelayRead f) (x\<lparr>tr_ends := s', tr_node_wire := rest\<rparr>)"
| relay_reader_fails:
    "\<lbrakk>s = tr_ends x; sy_relay_reading s;
      read_failure ''node tunnel reached EOF'' (read_from (sc_max_frame_bytes sc) k (take n (tr_node_wire x))) = Some e\<rbrakk> \<Longrightarrow>
     tunnel_step sc nc x (RelayFail e)
       (x\<lparr>tr_ends := s\<lparr>sy_relay := reader_returned (sy_relay s) (Inl e), sy_relay_error := Some e, sy_relay_reading := False\<rparr>\<rparr>)"
| node_writer:
    "\<lbrakk>s = tr_ends x; tn_writer (sy_node s); tn_outbox (sy_node s) = f # fs; write_to f (nc_max_frame_bytes nc) = Inr bs\<rbrakk> \<Longrightarrow>
     tunnel_step sc nc x (NodeWrite f)
       (x\<lparr>tr_ends := s\<lparr>sy_node := (sy_node s)\<lparr>tn_outbox := fs\<rparr>\<rparr>, tr_node_wire := tr_node_wire x @ bs\<rparr>)"
| node_writer_stops:
    "\<lbrakk>s = tr_ends x; tn_writer (sy_node s); writer_ends (nc_max_frame_bytes nc) (sy_node s) torn\<rbrakk> \<Longrightarrow>
     tunnel_step sc nc x NodeWriterEnd
       (x\<lparr>tr_ends := s\<lparr>sy_node := (sy_node s)\<lparr>tn_writer := False\<rparr>\<rparr>, tr_node_wire := tr_node_wire x @ torn\<rparr>)"
| node_reader:
    "\<lbrakk>s = tr_ends x; sy_node_reading s;
      read_from (nc_max_frame_bytes nc) k (tr_relay_wire x) = Inr (Some (f, rest));
      node_dispatch nc now (sy_node s) f = (t', r);
      ls = (if r = Inr () \<and> stream_id f \<in> tn_streams t' - tn_streams (sy_node s)
            then (sy_locals s)(stream_id f \<mapsto> LConnecting) else sy_locals s);
      s' = s\<lparr>sy_node := reader_returned t' r, sy_locals := ls, sy_node_error := error_of r, sy_node_reading := is_ok r\<rparr>;
      queues_fit sc nc s'\<rbrakk> \<Longrightarrow>
     tunnel_step sc nc x (NodeRead f) (x\<lparr>tr_ends := s', tr_relay_wire := rest\<rparr>)"
| node_reader_fails:
    "\<lbrakk>s = tr_ends x; sy_node_reading s;
      read_failure ''relay tunnel reached EOF'' (read_from (nc_max_frame_bytes nc) k (take n (tr_relay_wire x))) = Some e\<rbrakk> \<Longrightarrow>
     tunnel_step sc nc x (NodeFail e)
       (x\<lparr>tr_ends := s\<lparr>sy_node := reader_returned (sy_node s) (Inl e), sy_node_error := Some e, sy_node_reading := False\<rparr>\<rparr>)"

definition fresh_tunnel :: "node_config \<Rightarrow> u64 \<Rightarrow> nat \<Rightarrow> u64 \<Rightarrow> tunnel_run" where
  "fresh_tunnel nc session_id now next_stream_id =
     \<lparr>tr_ends = fresh_system nc session_id now next_stream_id, tr_relay_wire = [], tr_node_wire = []\<rparr>"

section \<open>What is on the wire\<close>

text \<open>Whole frames that the writer accepted, and part of one more if it failed while writing it.\<close>

definition torn_frame :: "nat \<Rightarrow> byte list \<Rightarrow> bool" where
  "torn_frame m torn \<longleftrightarrow> (\<exists>f. frame_fits m f \<and> strict_prefix torn (frame_wire f))"

definition wire_ok :: "nat \<Rightarrow> bool \<Rightarrow> byte list \<Rightarrow> bool" where
  "wire_ok m writing w \<longleftrightarrow>
     (\<exists>fs torn. list_all (frame_fits m) fs \<and> w = concat (map frame_wire fs) @ torn
        \<and> (torn = [] \<or> \<not> writing \<and> torn_frame m torn))"

text \<open>The frames that are on the wire in full.\<close>

definition wire_frames :: "byte list \<Rightarrow> frame list" where
  "wire_frames w = fst (read_frames (2 ^ 32) UnexpectedEof w)"

lemma frame_fits_any: "frame_fits m f \<Longrightarrow> frame_fits (2 ^ 32) f"
  by (simp add: frame_fits_def)

lemma torn_not_read:
  assumes "torn = [] \<or> torn_frame m torn"
  shows "read_from n e torn \<noteq> Inr (Some x)"
proof
  assume "read_from n e torn = Inr (Some x)"
  then obtain f rest where f: "frame_fits n f" "torn = frame_wire f @ rest"
    by (cases x) (auto simp: read_from_Some_iff)
  then have "torn \<noteq> []" by (simp add: frame_wire_def)
  then obtain g u where g: "frame_fits m g" "frame_wire g = torn @ u" "u \<noteq> []"
    using assms by (auto simp: torn_frame_def strict_prefix_def prefix_def)
  have "read_from (2 ^ 32) e (frame_wire g @ []) = Inr (Some (g, []))"
    by (rule read_from_frame_wire [OF frame_fits_any [OF g(1)]])
  moreover have "read_from (2 ^ 32) e (frame_wire f @ rest @ u) = Inr (Some (f, rest @ u))"
    by (rule read_from_frame_wire [OF frame_fits_any [OF f(1)]])
  ultimately show False using g f by simp
qed

lemma wire_frames_parts:
  assumes "list_all (frame_fits m) fs" and "torn = [] \<or> torn_frame m torn"
  shows "wire_frames (concat (map frame_wire fs) @ torn) = fs"
proof -
  have "read_from (2 ^ 32) UnexpectedEof torn \<noteq> Inr (Some x)" for x
    by (rule torn_not_read [OF assms(2)])
  then have "fst (read_frames (2 ^ 32) UnexpectedEof torn) = []"
    by (subst read_frames.simps) (auto split: sum.splits option.splits)
  moreover have "list_all (frame_fits (2 ^ 32)) fs" using assms(1) frame_fits_any by (auto simp: list_all_iff)
  ultimately show ?thesis by (simp add: wire_frames_def read_frames_wire split_def Let_def)
qed

lemma wire_ok_Nil [simp]: "wire_ok m b []" "wire_frames [] = []"
  using wire_frames_parts [of m "[]" "[]"] by (auto simp: wire_ok_def intro: exI [of _ "[]"])

lemma wire_write:
  assumes "wire_ok m True w" and "write_to f m = Inr bs"
  shows "wire_ok m b (w @ bs)" and "wire_frames (w @ bs) = wire_frames w @ [f]"
proof -
  obtain fs where fs: "list_all (frame_fits m) fs" "w = concat (map frame_wire fs)"
    using assms(1) by (auto simp: wire_ok_def)
  have f: "list_all (frame_fits m) (fs @ [f])" "w @ bs = concat (map frame_wire (fs @ [f])) @ []"
    using fs assms(2) by (simp_all add: write_to_fits)
  then show "wire_ok m b (w @ bs)" unfolding wire_ok_def by blast
  show "wire_frames (w @ bs) = wire_frames w @ [f]"
    using wire_frames_parts [OF f(1), of "[]"] wire_frames_parts [OF fs(1), of "[]"] f(2) fs(2) by simp
qed

lemma wire_torn:
  assumes "wire_ok m True w" and ends: "writer_ends m t torn"
  shows "wire_ok m False (w @ torn)" and "wire_frames (w @ torn) = wire_frames w"
proof -
  obtain fs where fs: "list_all (frame_fits m) fs" "w = concat (map frame_wire fs)"
    using assms(1) by (auto simp: wire_ok_def)
  from ends consider "torn = []" | f bs where "write_to f m = Inr bs" "strict_prefix torn bs"
    by (auto simp: writer_ends_def)
  then have torn: "torn = [] \<or> torn_frame m torn" by cases (auto simp: write_to_fits torn_frame_def)
  then show "wire_ok m False (w @ torn)" using fs unfolding wire_ok_def by blast
  show "wire_frames (w @ torn) = wire_frames w"
    using wire_frames_parts [OF fs(1) torn] wire_frames_parts [OF fs(1), of "[]"] fs(2) by simp
qed

lemma wire_read:
  assumes ok: "wire_ok m b w" and read: "read_from n e w = Inr (Some (f, rest))"
  shows "wire_ok m b rest" and "wire_frames w = f # wire_frames rest"
proof -
  obtain fs torn where w: "list_all (frame_fits m) fs" "w = concat (map frame_wire fs) @ torn"
    and torn: "torn = [] \<or> \<not> b \<and> torn_frame m torn" using ok by (auto simp: wire_ok_def)
  have "fs \<noteq> []" using w(2) torn read torn_not_read [of torn m n e "(f, rest)"] by auto
  then obtain g gs where fs: "fs = g # gs" by (cases fs) auto
  have "read_from (2 ^ 32) e w = Inr (Some (g, concat (map frame_wire gs) @ torn))"
    using w fs frame_fits_any by (auto intro: read_from_frame_wire)
  moreover have "read_from (2 ^ 32) e w = Inr (Some (f, rest))"
    using read frame_fits_any by (auto simp: read_from_Some_iff)
  ultimately have eq: "f = g" "rest = concat (map frame_wire gs) @ torn" by simp_all
  then show "wire_ok m b rest" using w fs torn unfolding wire_ok_def by auto
  show "wire_frames w = f # wire_frames rest"
    using wire_frames_parts [OF w(1), of torn] wire_frames_parts [of m gs torn] w fs torn eq by auto
qed

text \<open>A reader that does not get a whole frame it accepts fails on the connection or on the size of the frame.\<close>

lemma read_from_part:
  assumes fits: "frame_fits m g" and part: "prefix u (frame_wire g @ rest)" and fails: "read_from n k u = Inl e"
  shows "e = Io k \<or> e = Stable FrameTooLarge ''frame exceeds configured maximum'' \<and> n < m"
proof (cases "length u < 4")
  case True
  then show ?thesis using fails by (auto simp: read_from_def split: if_splits)
next
  case False
  let ?len = "10 + length (payload g)"
  obtain v where v: "frame_wire g @ rest = u @ v" using part by (auto simp: prefix_def)
  have "take 4 u = take 4 (frame_wire g @ rest)" unfolding v using False by simp
  then have len: "unat (u32_from_be (take 4 u)) = ?len"
    using fits by (simp add: frame_wire_def frame_fits_def from_be_to_be)
  show ?thesis
  proof (cases "n < length (payload g)")
    case True
    then show ?thesis using fails False len fits by (auto simp: read_from_def Let_def HEADER_BYTES_def frame_fits_def)
  next
    case small: False
    show ?thesis
    proof (cases "length u < 4 + ?len")
      case True
      then have "length u - 4 < ?len" by linarith
      then show ?thesis using fails False len small by (auto simp: read_from_def Let_def HEADER_BYTES_def)
    next
      case whole: False
      have "length (frame_wire g) = 4 + ?len" by (simp add: frame_wire_def)
      then have "take (length (frame_wire g)) u = frame_wire g" using v whole
        by (metis append_eq_conv_conj le_eq_less_or_eq linorder_not_less take_all_iff take_append append.right_neutral
            diff_is_0_eq take0)
      then have "u = frame_wire g @ drop (length (frame_wire g)) u" by (metis append_take_drop_id)
      then show ?thesis using fails read_from_frame_wire [of n g k "drop (length (frame_wire g)) u"] small fits
        by (simp add: frame_fits_def)
    qed
  qed
qed

lemma wire_read_failure:
  assumes ok: "wire_ok m b w" and fails: "read_failure eof (read_from n k (take i w)) = Some e"
  shows "reader_error n m e"
proof (cases "read_from n k (take i w)")
  case (Inr x)
  then show ?thesis using fails by (auto simp: read_failure_def reader_error_def split: option.splits)
next
  case (Inl e')
  obtain fs torn where w: "list_all (frame_fits m) fs" "w = concat (map frame_wire fs) @ torn"
    and torn: "torn = [] \<or> torn_frame m torn" using ok by (auto simp: wire_ok_def)
  consider "w = []" | g rest where "frame_fits m g" "prefix w (frame_wire g @ rest)"
  proof (cases fs)
    case Nil
    then show thesis using w(2) torn that by (auto simp: torn_frame_def strict_prefix_def prefix_def)
  next
    case (Cons g gs)
    then show thesis using w that(2) [of g "concat (map frame_wire gs) @ torn"] by simp
  qed
  then have "e' = Io k \<or> e' = Stable FrameTooLarge ''frame exceeds configured maximum'' \<and> n < m"
  proof cases
    case 1
    then show ?thesis using Inl by (auto simp: read_from_def split: if_splits)
  next
    case (2 g rest)
    then show ?thesis using read_from_part [OF 2(1) _ Inl] take_is_prefix prefix_order.trans by blast
  qed
  then show ?thesis using fails Inl by (auto simp: read_failure_def reader_error_def)
qed

section \<open>From bytes to frames\<close>

text \<open>At the level of frames, the frames on the wire are still in the outbox.\<close>

definition shift :: "frame list \<Rightarrow> ('s, 'z) tunnel_scheme \<Rightarrow> ('s, 'z) tunnel_scheme" where
  "shift w t = t\<lparr>tn_outbox := w @ tn_outbox t\<rparr>"

lemma shift_simps [simp]:
  "tn_outbox (shift w t) = w @ tn_outbox t" "tn_writer (shift w t) = tn_writer t" "tn_streams (shift w t) = tn_streams t"
  "tn_store (shift w t) = tn_store t" "tn_last_pong (shift w t) = tn_last_pong t" "tn_cancelled (shift w t) = tn_cancelled t"
  by (simp_all add: shift_def)

lemma new_data_shift [simp]: "new_data (shift w t) (shift w t') = new_data t t'"
  by (simp add: new_data_def)

lemmas shift_defs = shift_def tunnel_send_def node_send_def tn_send_def tn_update_def tn_insert_def tn_lookup_def remove_stream_def
  stream_dispatch_def node_stream_def find_stream_def Let_def release_slot_def

lemma relay_shift:
  "open_request sc n (shift w t) = (case open_request sc n t of (n', t', r) \<Rightarrow> (n', shift w t', r))"
  "open_finish (shift w t) sid d x = (case open_finish t sid d x of (t', r) \<Rightarrow> (shift w t', r))"
  "member_finish (shift w t) sid d outcome = shift w (member_finish t sid d outcome)"
  "heartbeat_pass sc rc (shift w t) k now now_utc = (case heartbeat_pass sc rc t k now now_utc of (t', k', b) \<Rightarrow> (shift w t', k', b))"
  "relay_dispatch now (shift w t) f = (case relay_dispatch now t f of (t', r) \<Rightarrow> (shift w t', r))"
proof -
  show "open_request sc n (shift w t) = (case open_request sc n t of (n', t', r) \<Rightarrow> (n', shift w t', r))"
    by (simp add: open_request_def shift_defs)
  show "open_finish (shift w t) sid d x = (case open_finish t sid d x of (t', r) \<Rightarrow> (shift w t', r))"
    by (auto simp: open_finish_def shift_defs split: sum.split option.split)
  show "member_finish (shift w t) sid d outcome = shift w (member_finish t sid d outcome)"
    by (auto simp: member_finish_def shift_defs split: option.split)
  show "heartbeat_pass sc rc (shift w t) k now now_utc = (case heartbeat_pass sc rc t k now now_utc of (t', k', b) \<Rightarrow> (shift w t', k', b))"
    by (simp add: heartbeat_pass_def shift_defs)
  show "relay_dispatch now (shift w t) f = (case relay_dispatch now t f of (t', r) \<Rightarrow> (shift w t', r))"
    by (cases "kind f") (auto simp: relay_dispatch_def relay_open_ok_def relay_open_error_def relay_data_def relay_fin_def relay_close_def
        relay_window_update_def shift_defs split: sum.split option.split)
qed

lemma node_shift:
  "local_refused (shift w t) sid = shift w (local_refused t sid)" "local_finished (shift w t) sid = shift w (local_finished t sid)"
  "local_connected nc (shift w t) sid nodelay = (case local_connected nc t sid nodelay of (t', ok) \<Rightarrow> (shift w t', ok))"
  "node_heartbeat_pass nc (shift w t) k now = (case node_heartbeat_pass nc t k now of (t', k', b) \<Rightarrow> (shift w t', k', b))"
  "node_dispatch nc now (shift w t) f = (case node_dispatch nc now t f of (t', r) \<Rightarrow> (shift w t', r))"
proof -
  show "local_refused (shift w t) sid = shift w (local_refused t sid)" "local_finished (shift w t) sid = shift w (local_finished t sid)"
    by (auto simp: local_refused_def local_finished_def shift_defs split: option.split)
  show "local_connected nc (shift w t) sid nodelay = (case local_connected nc t sid nodelay of (t', ok) \<Rightarrow> (shift w t', ok))"
    by (auto simp: local_connected_def rbind_def shift_defs split: sum.split option.split)
  show "node_heartbeat_pass nc (shift w t) k now = (case node_heartbeat_pass nc t k now of (t', k', b) \<Rightarrow> (shift w t', k', b))"
    by (simp add: node_heartbeat_pass_def shift_defs)
  show "node_dispatch nc now (shift w t) f = (case node_dispatch nc now t f of (t', r) \<Rightarrow> (shift w t', r))"
    by (cases "kind f") (auto simp: node_dispatch_def node_open_def node_data_def node_fin_def node_close_def node_window_update_def
        shift_defs split: sum.split option.split)
qed

lemma pump_shift:
  "pump_member_to_node env pio rt ps (shift w t) sid d cancelled member =
     map_option (\<lambda>(ps', t', p). (ps', shift w t', p)) (pump_member_to_node env pio rt ps t sid d cancelled member)"
  "pump_node_to_member env pio rt ps (shift w t) sid d cancelled written =
     map_option (\<lambda>(out, ps', t', p). (out, ps', shift w t', p)) (pump_node_to_member env pio rt ps t sid d cancelled written)"
  "pump_relay_to_target (shift w u) sid st cancelled written =
     map_option (\<lambda>(out, u', p). (out, shift w u', p)) (pump_relay_to_target u sid st cancelled written)"
  "pump_target_to_relay (shift w u) sid st cancelled target wakes =
     map_option (\<lambda>(u', p). (shift w u', p)) (pump_target_to_relay u sid st cancelled target wakes)"
proof -
  show "pump_member_to_node env pio rt ps (shift w t) sid d cancelled member =
     map_option (\<lambda>(ps', t', p). (ps', shift w t', p)) (pump_member_to_node env pio rt ps t sid d cancelled member)"
    by (auto simp: pump_member_to_node_def shift_defs split: sum.split option.split prod.split)
  show "pump_node_to_member env pio rt ps (shift w t) sid d cancelled written =
     map_option (\<lambda>(out, ps', t', p). (out, ps', shift w t', p)) (pump_node_to_member env pio rt ps t sid d cancelled written)"
    by (auto simp: pump_node_to_member_def download_data_def shift_defs split: sum.split option.split prod.split list.split inbound.split)
  show "pump_relay_to_target (shift w u) sid st cancelled written =
     map_option (\<lambda>(out, u', p). (out, shift w u', p)) (pump_relay_to_target u sid st cancelled written)"
    by (auto simp: pump_relay_to_target_def upload_data_def shift_defs split: sum.split option.split prod.split list.split inbound.split)
  show "pump_target_to_relay (shift w u) sid st cancelled target wakes =
     map_option (\<lambda>(u', p). (shift w u', p)) (pump_target_to_relay u sid st cancelled target wakes)"
    by (auto simp: pump_target_to_relay_def shift_defs split: sum.split option.split)
qed

lemma reader_returned_shift [simp]: "reader_returned (shift w t) r = shift w (reader_returned t r)"
  by (simp add: reader_returned_def shift_def cancel_all_streams_def split: sum.split)

lemma shift_updates [simp]:
  "(shift w t)\<lparr>tn_cancelled := b\<rparr> = shift w (t\<lparr>tn_cancelled := b\<rparr>)" "(shift w t)\<lparr>tn_writer := b\<rparr> = shift w (t\<lparr>tn_writer := b\<rparr>)"
  "cancel_all_streams (shift w t) = shift w (cancel_all_streams t)"
  by (simp_all add: shift_def cancel_all_streams_def)

definition shift_system :: "frame list \<Rightarrow> frame list \<Rightarrow> system \<Rightarrow> system" where
  "shift_system v w s = s\<lparr>sy_relay := shift v (sy_relay s), sy_node := shift w (sy_node s)\<rparr>"

lemma shift_system_simps [simp]:
  "sy_relay (shift_system v w s) = shift v (sy_relay s)" "sy_node (shift_system v w s) = shift w (sy_node s)"
  "sy_next (shift_system v w s) = sy_next s" "sy_members (shift_system v w s) = sy_members s"
  "sy_locals (shift_system v w s) = sy_locals s" "sy_relay_reading (shift_system v w s) = sy_relay_reading s"
  "sy_node_reading (shift_system v w s) = sy_node_reading s" "sy_relay_error (shift_system v w s) = sy_relay_error s"
  "sy_node_error (shift_system v w s) = sy_node_error s" "sy_up_read (shift_system v w s) = sy_up_read s"
  "sy_up_sent (shift_system v w s) = sy_up_sent s" "sy_up_done (shift_system v w s) = sy_up_done s"
  "sy_down_read (shift_system v w s) = sy_down_read s" "sy_down_sent (shift_system v w s) = sy_down_sent s"
  "sy_down_done (shift_system v w s) = sy_down_done s"
  by (simp_all add: shift_system_def)

lemma system_eqI:
  "\<lbrakk>sy_next s = sy_next s'; sy_relay s = sy_relay s'; sy_node s = sy_node s'; sy_members s = sy_members s';
    sy_locals s = sy_locals s'; sy_relay_reading s = sy_relay_reading s'; sy_node_reading s = sy_node_reading s';
    sy_relay_error s = sy_relay_error s'; sy_node_error s = sy_node_error s'; sy_up_read s = sy_up_read s';
    sy_up_sent s = sy_up_sent s'; sy_up_done s = sy_up_done s'; sy_down_read s = sy_down_read s';
    sy_down_sent s = sy_down_sent s'; sy_down_done s = sy_down_done s'\<rbrakk> \<Longrightarrow> s = s'" for s s' :: system
  by simp

lemma task_step_to:
  assumes "task_step sc nc s l s1" and "s1 = s'"
  shows "task_step sc nc s l s'"
  using assms by simp

lemmas task_step_fields = task_step_to [OF _ system_eqI]

lemma task_step_shift:
  assumes "task_step sc nc s l s'"
  shows "task_step sc nc (shift_system v w s) l (shift_system v w s')"
  using assms
proof cases
  case (relay_opens next' t' r)
  show ?thesis unfolding relay_opens(1)
    by (rule task_step_fields [OF task_step.relay_opens [where next' = next' and t' = "shift v t'" and r = r]])
      (use relay_opens in \<open>simp_all add: relay_shift split: sum.split\<close>)
next
  case (relay_opened sid d w' t' r)
  show ?thesis unfolding relay_opened(1)
    by (rule task_step_fields [OF task_step.relay_opened [where d = d and t' = "shift v t'" and r = r]])
      (use relay_opened in \<open>simp_all add: relay_shift\<close>)
next
  case (relay_uploads sid dn d pio bytes cancelled member env rt ps ps' t' p out)
  show ?thesis unfolding relay_uploads(1)
    by (rule task_step_fields [OF task_step.relay_uploads [where dn = dn and d = d and pio = pio and bytes = bytes and
          cancelled = cancelled and member = member and env = env and rt = rt and ps = ps and ps' = ps' and
          t' = "shift v t'" and p = p]])
      (use relay_uploads in \<open>simp_all add: pump_shift\<close>)
next
  case (relay_downloads sid up d env pio rt ps cancelled written out ps' t' p)
  show ?thesis unfolding relay_downloads(1)
    by (rule task_step_fields [OF task_step.relay_downloads [where up = up and d = d and pio = pio and
          cancelled = cancelled and written = written and env = env and rt = rt and ps = ps and ps' = ps' and
          t' = "shift v t'" and p = p]])
      (use relay_downloads in \<open>simp_all add: pump_shift\<close>)
next
  case (relay_finishes sid m d lost outcome)
  show ?thesis unfolding relay_finishes(1)
    by (rule task_step_fields [OF task_step.relay_finishes [where m = m and d = d and outcome = outcome and lost = lost]])
      (use relay_finishes in \<open>simp_all add: relay_shift\<close>)
next
  case (relay_beats rc n now now_utc t' n' b)
  show ?thesis unfolding relay_beats(1)
    by (rule task_step_fields [OF task_step.relay_beats [where rc = rc and n = n and now = now and now_utc = now_utc and
          t' = "shift v t'" and n' = n' and b = b]])
      (use relay_beats in \<open>simp_all add: relay_shift\<close>)
next
  case relay_cancels
  show ?thesis unfolding relay_cancels(1)
    by (rule task_step_fields [OF task_step.relay_cancels]) (simp_all add: relay_cancels)
next
  case relay_stops
  show ?thesis unfolding relay_stops(1)
    by (rule task_step_fields [OF task_step.relay_stops]) (use relay_stops in \<open>simp_all\<close>)
next
  case (node_refuses sid)
  show ?thesis unfolding node_refuses(1)
    by (rule task_step_fields [OF task_step.node_refuses]) (use node_refuses in \<open>simp_all add: node_shift\<close>)
next
  case (node_connects sid nodelay t' ok)
  show ?thesis unfolding node_connects(1)
    by (rule task_step_fields [OF task_step.node_connects [where nodelay = nodelay and t' = "shift w t'" and ok = ok]])
      (use node_connects in \<open>simp_all add: node_shift\<close>)
next
  case (node_uploads sid dn st cancelled written out t' p)
  show ?thesis unfolding node_uploads(1)
    by (rule task_step_fields [OF task_step.node_uploads [where dn = dn and st = st and cancelled = cancelled and
          written = written and t' = "shift w t'" and p = p]])
      (use node_uploads in \<open>simp_all add: pump_shift\<close>)
next
  case (node_downloads sid up st wakes bytes cancelled target t' p out)
  show ?thesis unfolding node_downloads(1)
    by (rule task_step_fields [OF task_step.node_downloads [where up = up and st = st and wakes = wakes and bytes = bytes and
          cancelled = cancelled and target = target and t' = "shift w t'" and p = p]])
      (use node_downloads in \<open>simp_all add: pump_shift\<close>)
next
  case (node_finishes sid m lost)
  show ?thesis unfolding node_finishes(1)
    by (rule task_step_fields [OF task_step.node_finishes [where m = m and lost = lost]])
      (use node_finishes in \<open>simp_all add: node_shift\<close>)
next
  case (node_beats n now t' n' b)
  show ?thesis unfolding node_beats(1)
    by (rule task_step_fields [OF task_step.node_beats [where n = n and now = now and t' = "shift w t'" and n' = n' and b = b]])
      (use node_beats in \<open>simp_all add: node_shift\<close>)
next
  case node_cancels
  show ?thesis unfolding node_cancels(1)
    by (rule task_step_fields [OF task_step.node_cancels]) (simp_all add: node_cancels)
next
  case node_stops
  show ?thesis unfolding node_stops(1)
    by (rule task_step_fields [OF task_step.node_stops]) (use node_stops in \<open>simp_all\<close>)
qed

definition flatten :: "tunnel_run \<Rightarrow> system" where
  "flatten x = shift_system (wire_frames (tr_relay_wire x)) (wire_frames (tr_node_wire x)) (tr_ends x)"

definition wire_inv :: "server_config \<Rightarrow> node_config \<Rightarrow> tunnel_run \<Rightarrow> bool" where
  "wire_inv sc nc x \<longleftrightarrow> wire_ok (sc_max_frame_bytes sc) (tn_writer (sy_relay (tr_ends x))) (tr_relay_wire x)
     \<and> wire_ok (nc_max_frame_bytes nc) (tn_writer (sy_node (tr_ends x))) (tr_node_wire x)"

lemma keeps_writer: "tn_keeps t t' \<Longrightarrow> tn_writer t' = tn_writer t"
  by (simp add: tn_keeps_def)

lemma tunnel_step_wire:
  assumes step: "tunnel_step sc nc x l y" and inv: "wire_inv sc nc x"
  shows "wire_inv sc nc y"
  using step
proof cases
  case (passes s')
  then show ?thesis using inv task_step_keeps [OF passes(2)] by (simp add: wire_inv_def tn_keeps_def)
next
  case (relay_writer s f fs bs)
  then show ?thesis using inv wire_write(1) by (simp add: wire_inv_def)
next
  case (relay_writer_stops s torn)
  then show ?thesis using inv wire_torn(1) by (auto simp: wire_inv_def)
next
  case (relay_reader s k f rest now t' r s')
  have "tn_writer (reader_returned t' r) = tn_writer (sy_relay s)"
    by (rule keeps_writer) (simp add: relay_keeps(5) [OF relay_reader(6)])
  then show ?thesis using inv relay_reader wire_read(1) by (auto simp: wire_inv_def)
next
  case (relay_reader_fails s k n e)
  then show ?thesis using inv by (simp add: wire_inv_def reader_returned_def cancel_all_streams_def)
next
  case (node_writer s f fs bs)
  then show ?thesis using inv wire_write(1) by (simp add: wire_inv_def)
next
  case (node_writer_stops s torn)
  then show ?thesis using inv wire_torn(1) by (auto simp: wire_inv_def)
next
  case (node_reader s k f rest now t' r ls s')
  have "tn_writer (reader_returned t' r) = tn_writer (sy_node s)"
    by (rule keeps_writer) (simp add: node_keeps(5) [OF node_reader(6)])
  then show ?thesis using inv node_reader wire_read(1) by (auto simp: wire_inv_def)
next
  case (node_reader_fails s k n e)
  then show ?thesis using inv by (simp add: wire_inv_def reader_returned_def cancel_all_streams_def)
qed

lemma sys_step_to:
  assumes "sys_step sc nc s l s1" and "s1 = s'"
  shows "sys_step sc nc s l s'"
  using assms by simp

lemmas sys_step_fields = sys_step_to [OF _ system_eqI]

lemma shift_append: "tn_outbox t = f # fs \<Longrightarrow> shift (v @ [f]) (t\<lparr>tn_outbox := fs\<rparr>) = shift v t"
  by (simp add: shift_def)

lemma shift_pop: "(shift (f # v) t)\<lparr>tn_outbox := v @ tn_outbox t\<rparr> = shift v t"
  by (simp add: shift_def)

lemma tunnel_step_flatten:
  assumes step: "tunnel_step sc nc x l y" and inv: "wire_inv sc nc x"
  shows "sys_step sc nc (flatten x) l (flatten y)"
  using step
proof cases
  case (passes s')
  then show ?thesis using task_step_shift by (simp add: flatten_def sys_step.task)
next
  case (relay_writer s f fs bs)
  have w: "wire_frames (tr_relay_wire y) = wire_frames (tr_relay_wire x) @ [f]"
    using inv relay_writer wire_write(2) by (auto simp: wire_inv_def)
  show ?thesis unfolding relay_writer(1)
    by (rule sys_step_fields [OF sys_step.relay_writes]) (use relay_writer w in \<open>simp_all add: flatten_def shift_append\<close>)
next
  case (relay_writer_stops s torn)
  have w: "wire_frames (tr_relay_wire y) = wire_frames (tr_relay_wire x)"
    using inv relay_writer_stops wire_torn(2) by (auto simp: wire_inv_def)
  show ?thesis unfolding relay_writer_stops(1)
    by (rule sys_step_fields [OF sys_step.relay_writer_ends]) (use relay_writer_stops w in \<open>simp_all add: flatten_def\<close>)
next
  case (relay_reader s k f rest now t' r s')
  have w: "wire_frames (tr_node_wire x) = f # wire_frames rest"
    using inv relay_reader wire_read(2) by (auto simp: wire_inv_def)
  show ?thesis unfolding relay_reader(1)
    by (rule sys_step_fields [OF sys_step.relay_reads [where fs = "wire_frames rest @ tn_outbox (sy_node s)" and
          t' = "shift (wire_frames (tr_relay_wire x)) t'" and r = r and now = now]])
      (use relay_reader w in \<open>simp_all add: flatten_def relay_shift shift_pop\<close>)
next
  case (relay_reader_fails s k n e)
  have "reader_error (sc_max_frame_bytes sc) (nc_max_frame_bytes nc) e"
    using inv relay_reader_fails wire_read_failure by (auto simp: wire_inv_def)
  then show ?thesis unfolding relay_reader_fails(1)
    by (rule sys_step_fields [OF sys_step.relay_fails, rotated]) (use relay_reader_fails in \<open>simp_all add: flatten_def\<close>)
next
  case (node_writer s f fs bs)
  have w: "wire_frames (tr_node_wire y) = wire_frames (tr_node_wire x) @ [f]"
    using inv node_writer wire_write(2) by (auto simp: wire_inv_def)
  show ?thesis unfolding node_writer(1)
    by (rule sys_step_fields [OF sys_step.node_writes]) (use node_writer w in \<open>simp_all add: flatten_def shift_append\<close>)
next
  case (node_writer_stops s torn)
  have w: "wire_frames (tr_node_wire y) = wire_frames (tr_node_wire x)"
    using inv node_writer_stops wire_torn(2) by (auto simp: wire_inv_def)
  show ?thesis unfolding node_writer_stops(1)
    by (rule sys_step_fields [OF sys_step.node_writer_ends]) (use node_writer_stops w in \<open>simp_all add: flatten_def\<close>)
next
  case (node_reader s k f rest now t' r ls s')
  have w: "wire_frames (tr_relay_wire x) = f # wire_frames rest"
    using inv node_reader wire_read(2) by (auto simp: wire_inv_def)
  show ?thesis unfolding node_reader(1)
    by (rule sys_step_fields [OF sys_step.node_reads [where fs = "wire_frames rest @ tn_outbox (sy_relay s)" and
          t' = "shift (wire_frames (tr_node_wire x)) t'" and r = r and now = now and ls = ls]])
      (use node_reader w in \<open>simp_all add: flatten_def node_shift shift_pop\<close>)
next
  case (node_reader_fails s k n e)
  have "reader_error (nc_max_frame_bytes nc) (sc_max_frame_bytes sc) e"
    using inv node_reader_fails wire_read_failure by (auto simp: wire_inv_def)
  then show ?thesis unfolding node_reader_fails(1)
    by (rule sys_step_fields [OF sys_step.node_fails, rotated]) (use node_reader_fails in \<open>simp_all add: flatten_def\<close>)
qed

text \<open>Every run with the bytes of the connection is a run with frames.\<close>

interpretation tw: simulation "tunnel_step sc nc" "wire_inv sc nc" "sys_step sc nc" flatten "\<lambda>l. l" for sc nc
  by unfold_locales (rule tunnel_step_wire tunnel_step_flatten; assumption)+

lemma fresh_tunnel_wire [simp]:
  "wire_inv sc nc (fresh_tunnel nc session_id now n)"
  "flatten (fresh_tunnel nc session_id now n) = fresh_system nc session_id now n"
  by (simp_all add: wire_inv_def fresh_tunnel_def flatten_def shift_system_def shift_def)

end
