(* ===== verification/Tunnel_Properties.thy ===== *)
theory Tunnel_Properties
  imports Tunnel_Wire
begin

text \<open>
  What a run of a relay and a node guarantees: flow control is never violated between the two, and each
  stream is a pair of pipes that deliver in order. The runs are those of \<open>Tunnel_Wire\<close>, over the bytes of a
  connection; the proofs go through the runs of \<open>Tunnel_System\<close> over frames.
\<close>

section \<open>Runs of the tunnel\<close>

text \<open>A step before the counter of identifiers wraps, and the invariant with the windows of both ends.\<close>

definition counted_step :: "server_config \<Rightarrow> node_config \<Rightarrow> system \<Rightarrow> sys_event \<Rightarrow> system \<Rightarrow> bool" where
  "counted_step sc nc s l s' \<longleftrightarrow> sys_step sc nc s l s' \<and> unat (sy_next s) + 2 < 2 ^ 64"

definition tunnel_inv :: "server_config \<Rightarrow> node_config \<Rightarrow> system \<Rightarrow> bool" where
  "tunnel_inv sc nc s \<longleftrightarrow> sc_initial_window_bytes sc \<noteq> 0
     \<and> sys_wf (unat (sc_initial_window_bytes sc)) (unat (nc_initial_window_bytes nc)) s
     \<and> errors_ok sc nc s \<and> reads_ok s"

text \<open>
  What the tunnel promises of a stream: two pipes, from the member to the target and back. A pipe is
  what was written to it and what was read from it.
\<close>

datatype direction = Up | Down

datatype pipe_event = PipeWrite direction u64 "byte list" | PipeRead direction u64 "byte list" | PipeIdle

type_synonym pipes = "direction \<Rightarrow> u64 \<Rightarrow> byte list \<times> byte list"

definition pipe_set :: "pipes \<Rightarrow> direction \<Rightarrow> u64 \<Rightarrow> byte list \<times> byte list \<Rightarrow> pipes" where
  "pipe_set p dir sid x = p(dir := (p dir)(sid := x))"

inductive pipe_step :: "pipes \<Rightarrow> pipe_event \<Rightarrow> pipes \<Rightarrow> bool" where
  pipe_write: "p dir sid = (written, done) \<Longrightarrow>
     pipe_step p (PipeWrite dir sid bs) (pipe_set p dir sid (written @ bs, done))"
| pipe_read: "p dir sid = (written, done) \<Longrightarrow> prefix (done @ bs) written \<Longrightarrow>
     pipe_step p (PipeRead dir sid bs) (pipe_set p dir sid (written, done @ bs))"
| pipe_idle: "pipe_step p PipeIdle p"

definition abs_pipes :: "system \<Rightarrow> pipes" where
  "abs_pipes s dir sid =
     (case dir of Up \<Rightarrow> (sy_up_sent s sid, sy_up_done s sid) | Down \<Rightarrow> (sy_down_sent s sid, sy_down_done s sid))"

fun abs_event :: "sys_event \<Rightarrow> pipe_event" where
  "abs_event (RelayUpload sid bs) = PipeWrite Up sid bs"
| "abs_event (NodeUpload sid bs) = PipeRead Up sid bs"
| "abs_event (NodeDownload sid bs) = PipeWrite Down sid bs"
| "abs_event (RelayDownload sid bs) = PipeRead Down sid bs"
| "abs_event _ = PipeIdle"

lemma abs_pipes_set:
  "abs_pipes (s\<lparr>sy_up_sent := (sy_up_sent s)(sid := x)\<rparr>) = pipe_set (abs_pipes s) Up sid (x, sy_up_done s sid)"
  "abs_pipes (s\<lparr>sy_up_done := (sy_up_done s)(sid := x)\<rparr>) = pipe_set (abs_pipes s) Up sid (sy_up_sent s sid, x)"
  "abs_pipes (s\<lparr>sy_down_sent := (sy_down_sent s)(sid := x)\<rparr>) = pipe_set (abs_pipes s) Down sid
      (x, sy_down_done s sid)"
  "abs_pipes (s\<lparr>sy_down_done := (sy_down_done s)(sid := x)\<rparr>) = pipe_set (abs_pipes s) Down sid
      (sy_down_sent s sid, x)"
  by (auto simp: fun_eq_iff abs_pipes_def pipe_set_def split: direction.splits)

lemma abs_pipes_cong:
  "sy_up_sent s' = sy_up_sent s \<Longrightarrow> sy_up_done s' = sy_up_done s \<Longrightarrow> sy_down_sent s' = sy_down_sent s \<Longrightarrow>
   sy_down_done s' = sy_down_done s \<Longrightarrow> abs_pipes s' = abs_pipes s"
  by (intro ext) (simp add: abs_pipes_def split: direction.splits)

text \<open>In every state the bytes read are a prefix of the bytes written.\<close>

lemma sys_wf_prefix:
  assumes "sys_wf wr wn s" and "sid \<noteq> 0"
  shows "prefix (sy_up_done s sid) (sy_up_sent s sid)" and "prefix (sy_down_done s sid) (sy_down_sent s sid)"
  using assms by (auto simp: sys_wf_def vinv_def view_def logs_ok_def)

lemma counted_step_inv:
  assumes "counted_step sc nc s l s'" and "tunnel_inv sc nc s"
  shows "tunnel_inv sc nc s'"
  using assms sys_step_wf [of sc nc s l s'] sys_step_errors [of sc nc s l s'] sys_step_reads [of sc nc s l s']
  by (auto simp: counted_step_def tunnel_inv_def)

lemma task_step_pipes:
  assumes step: "task_step sc nc s l s'" and wf: "sys_wf wr wn s" and wf': "sys_wf wr wn s'"
  shows "pipe_step (abs_pipes s) (abs_event l) (abs_pipes s')"
  using step
proof cases
  case (relay_uploads sid dn d pio bytes cancelled member env rt ps ps' t' p out)
  have "abs_pipes s' = pipe_set (abs_pipes s) Up sid (sy_up_sent s sid @ out, sy_up_done s sid)"
    unfolding relay_uploads(2) abs_pipes_set [symmetric] by (rule abs_pipes_cong) simp_all
  then show ?thesis using pipe_write [of "abs_pipes s" Up sid] relay_uploads(1) by (simp add: abs_pipes_def)
next
  case (relay_downloads sid up d env pio rt ps cancelled written out ps' t' p)
  have nz: "sid \<noteq> 0" using sys_wf_ids(2) [OF wf relay_downloads(4)] .
  have eq: "abs_pipes s' = pipe_set (abs_pipes s) Down sid (sy_down_sent s sid, sy_down_done s sid @ out)"
    unfolding relay_downloads(2) abs_pipes_set [symmetric] by (rule abs_pipes_cong) simp_all
  have "prefix (sy_down_done s sid @ out) (sy_down_sent s sid)"
    using sys_wf_prefix(2) [OF wf' nz] relay_downloads(2) by simp
  then show ?thesis using pipe_read [of "abs_pipes s" Down sid] relay_downloads(1) eq by (simp add: abs_pipes_def)
next
  case (node_uploads sid dn st cancelled written out t' p)
  have nz: "sid \<noteq> 0" using wf node_uploads(3) by (auto simp: sys_wf_def ids_ok_def)
  have eq: "abs_pipes s' = pipe_set (abs_pipes s) Up sid (sy_up_sent s sid, sy_up_done s sid @ out)"
    unfolding node_uploads(2) abs_pipes_set [symmetric] by (rule abs_pipes_cong) simp_all
  have "prefix (sy_up_done s sid @ out) (sy_up_sent s sid)"
    using sys_wf_prefix(1) [OF wf' nz] node_uploads(2) by simp
  then show ?thesis using pipe_read [of "abs_pipes s" Up sid] node_uploads(1) eq by (simp add: abs_pipes_def)
next
  case (node_downloads sid up st wakes bytes cancelled target t' p out)
  have "abs_pipes s' = pipe_set (abs_pipes s) Down sid (sy_down_sent s sid @ out, sy_down_done s sid)"
    unfolding node_downloads(2) abs_pipes_set [symmetric] by (rule abs_pipes_cong) simp_all
  then show ?thesis using pipe_write [of "abs_pipes s" Down sid] node_downloads(1) by (simp add: abs_pipes_def)
qed (use abs_pipes_cong [of s' s] pipe_idle in simp_all)

lemma counted_step_sim:
  assumes step: "counted_step sc nc s l s'" and inv: "tunnel_inv sc nc s"
  shows "pipe_step (abs_pipes s) (abs_event l) (abs_pipes s')"
proof -
  have "sys_step sc nc s l s'" using step by (simp add: counted_step_def)
  then show ?thesis
  proof cases
    case task
    then show ?thesis
      using task_step_pipes counted_step_inv [OF step inv] inv unfolding tunnel_inv_def by blast
  qed (use abs_pipes_cong [of s' s] pipe_idle in simp_all)
qed

interpretation ts: simulation "counted_step sc nc" "tunnel_inv sc nc" pipe_step abs_pipes abs_event for sc nc
  by unfold_locales (rule counted_step_inv counted_step_sim; assumption)+

lemma fresh_system_inv:
  "sc_initial_window_bytes sc \<noteq> 0 \<Longrightarrow> odd (unat n) \<Longrightarrow> tunnel_inv sc nc (fresh_system nc k now n)"
  by (auto simp: tunnel_inv_def sys_wf_def ids_ok_def fresh_system_def new_tunnel_def new_node_tunnel_def errors_ok_def
      reads_ok_def view_def vinv_def view_defs credit_of_def pending_def awaited_def logs_ok_def waiting_data_def)

text \<open>A run that opens fewer streams than there are identifiers never meets the wrap.\<close>

lemma sys_step_next:
  assumes "sys_step sc nc s l s'"
  shows "sy_next s' = sy_next s \<or> sy_next s' = sy_next s + 2"
  using assms
proof cases
  case task
  then show ?thesis by cases (auto simp: open_request_def Let_def split: if_splits sum.splits)
qed simp_all

lemma reaches_counted_step:
  assumes "reaches (sys_step sc nc) s ls t" and "unat (sy_next s) + 2 * length ls < 2 ^ 64"
  shows "reaches (counted_step sc nc) s ls t \<and> unat (sy_next t) \<le> unat (sy_next s) + 2 * length ls"
  using assms
proof (induction rule: reaches.induct)
  case (reaches_Nil s)
  then show ?case by (simp add: reaches.reaches_Nil)
next
  case (reaches_snoc s ls t l u)
  then have run: "reaches (counted_step sc nc) s ls t" and le: "unat (sy_next t) \<le> unat (sy_next s) + 2 * length ls"
    by simp_all
  then have bound: "unat (sy_next t) + 2 < 2 ^ 64" using reaches_snoc.prems by simp
  then have "counted_step sc nc t l u" using reaches_snoc.hyps by (simp add: counted_step_def)
  moreover have "unat (sy_next u) \<le> unat (sy_next t) + 2"
    using sys_step_next [OF reaches_snoc.hyps(2)] bound by (auto simp: unat_add_u64)
  ultimately show ?case using run le by (auto intro: reaches.reaches_snoc)
qed

text \<open>A run over the bytes of the connection, seen at the level of frames.\<close>

lemma tunnel_run_inv:
  assumes run: "reaches (tunnel_step sc nc) (fresh_tunnel nc session_id now next_id) ls x"
    and "odd (unat next_id)" and "unat next_id + 2 * length ls < 2 ^ 64" and "sc_initial_window_bytes sc \<noteq> 0"
  shows "reaches (counted_step sc nc) (fresh_system nc session_id now next_id) ls (flatten x)" and "tunnel_inv sc nc (flatten x)"
proof -
  have "reaches (sys_step sc nc) (fresh_system nc session_id now next_id) ls (flatten x)"
    using tw.reaches_sim [OF run] by simp
  moreover have "unat (sy_next (fresh_system nc session_id now next_id)) + 2 * length ls < 2 ^ 64"
    using assms(3) by (simp add: fresh_system_def)
  ultimately show counted: "reaches (counted_step sc nc) (fresh_system nc session_id now next_id) ls (flatten x)"
    using reaches_counted_step by blast
  show "tunnel_inv sc nc (flatten x)"
    by (rule ts.reaches_inv [OF counted fresh_system_inv [OF assms(4,2)]])
qed

lemma flatten_simps [simp]:
  "tn_store (sy_relay (flatten x)) = tn_store (sy_relay (tr_ends x))" "tn_store (sy_node (flatten x)) = tn_store (sy_node (tr_ends x))"
  "tn_streams (sy_relay (flatten x)) = tn_streams (sy_relay (tr_ends x))"
  "tn_streams (sy_node (flatten x)) = tn_streams (sy_node (tr_ends x))"
  "tn_outbox (sy_relay (flatten x)) = wire_frames (tr_relay_wire x) @ tn_outbox (sy_relay (tr_ends x))"
  "tn_outbox (sy_node (flatten x)) = wire_frames (tr_node_wire x) @ tn_outbox (sy_node (tr_ends x))"
  "sy_members (flatten x) = sy_members (tr_ends x)" "sy_locals (flatten x) = sy_locals (tr_ends x)"
  "sy_relay_error (flatten x) = sy_relay_error (tr_ends x)" "sy_node_error (flatten x) = sy_node_error (tr_ends x)"
  "sy_up_read (flatten x) = sy_up_read (tr_ends x)" "sy_up_sent (flatten x) = sy_up_sent (tr_ends x)"
  "sy_up_done (flatten x) = sy_up_done (tr_ends x)" "sy_down_read (flatten x) = sy_down_read (tr_ends x)"
  "sy_down_sent (flatten x) = sy_down_sent (tr_ends x)" "sy_down_done (flatten x) = sy_down_done (tr_ends x)"
  by (simp_all add: flatten_def)

lemma flatten_pipes [simp]: "abs_pipes (flatten x) = abs_pipes (tr_ends x)"
  by (rule abs_pipes_cong) simp_all

section \<open>A stream that is closed in the regular way\<close>

text \<open>
  A run with one stream: the member sends nothing and closes its side, the target answers one byte and
  closes its side, and the relay hands the byte to the member.
\<close>

definition demo_dispatch :: "inbound list \<Rightarrow> u64 \<Rightarrow> u64 \<Rightarrow> (error_code, u32) result option \<Rightarrow> dispatch" where
  "demo_dispatch inb recv credit opened =
     \<lparr>se_inbound = inb, se_capacity = 16, se_receiver = True, se_receive_remaining = recv, se_send_credit = credit,
      se_cancelled = False, sd_open_tx = (opened = None), sd_opened = opened\<rparr>"

definition demo_stream :: "inbound list \<Rightarrow> u64 \<Rightarrow> bool \<Rightarrow> stream_end" where
  "demo_stream inb credit cancelled =
     \<lparr>se_inbound = inb, se_capacity = 16, se_receiver = True, se_receive_remaining = 262144, se_send_credit = credit,
      se_cancelled = cancelled\<rparr>"

definition demo_relay :: "frame list \<Rightarrow> dispatch \<Rightarrow> tunnel_session" where
  "demo_relay out d = \<lparr>tn_outbox = out, tn_writer = True, tn_streams = {1}, tn_store = [1 \<mapsto> d], tn_last_pong = 0,
     tn_cancelled = False, ts_id = 1\<rparr>"

definition demo_node_end :: "frame list \<Rightarrow> u64 set \<Rightarrow> stream_end \<Rightarrow> nat \<Rightarrow> bool \<Rightarrow> node_tunnel" where
  "demo_node_end out listed st slots cancelled = \<lparr>tn_outbox = out, tn_writer = True, tn_streams = listed,
     tn_store = [1 \<mapsto> st], tn_last_pong = 0, tn_cancelled = cancelled, nt_free_slots = slots\<rparr>"

definition demo_system ::
  "tunnel_session \<Rightarrow> node_tunnel \<Rightarrow> member_task \<Rightarrow> local_task option \<Rightarrow> byte list \<Rightarrow> byte list \<Rightarrow> system" where
  "demo_system r n m l sent delivered =
     \<lparr>sy_next = 3, sy_relay = r, sy_node = n, sy_members = [1 \<mapsto> m],
      sy_locals = (\<lambda>i. if i = 1 then l else None), sy_relay_reading = True, sy_node_reading = True,
      sy_relay_error = None, sy_node_error = None, sy_up_read = (\<lambda>_. []), sy_up_sent = (\<lambda>_. []), sy_up_done = (\<lambda>_. []),
      sy_down_read = (\<lambda>i. if i = 1 then sent else []), sy_down_sent = (\<lambda>i. if i = 1 then sent else []),
      sy_down_done = (\<lambda>i. if i = 1 then delivered else [])\<rparr>"

definition demo_runtime :: route_runtime where
  "demo_runtime = \<lparr>rr_config = demo_route_config, rr_public_address = demo_addr 8443, rr_server_config = demo_server,
     rr_tunnel = Some 1, rr_free_slots = 15, rr_next_stream_id = 3, rr_rate_limiter = rate_limiter_new 2500000 0,
     rr_quota = None, rr_metrics = 0, rr_cancelled = False\<rparr>"

definition demo_pump :: pump_state where
  "demo_pump = \<lparr>ps_disk = demo_disk None, ps_store = demo_store [], ps_limiter = rate_limiter_new 2500000 0,
     ps_metrics = route_metrics_default, ps_connection_bytes = 0,
     ps_activity = \<lparr>ac_started = 0, ac_last_payload = 0, ac_bytes = 0\<rparr>\<rparr>"

definition demo_pass :: pass_io where
  "demo_pass = \<lparr>pi_quota_io = demo_io, pi_joined = True, pi_now_utc = demo_now, pi_acquire_at = 0, pi_rate_wakes = [],
     pi_credit_wakes = [], pi_done_at = 0\<rparr>"

definition close_run :: "sys_event list" where
  "close_run =
     [RelayOpen, RelayWrite (frame_u32 Open 1 262144), NodeRead (frame_u32 Open 1 262144), NodeConnect 1,
      NodeWrite (frame_u32 OpenOk 1 262144), RelayRead (frame_u32 OpenOk 1 262144),
      RelayOpened 1 (OpenAnswered (Inr 262144)), RelayUpload 1 [], RelayWrite (frame_new Fin 1 []), NodeRead (frame_new Fin 1 []),
      NodeUpload 1 [], NodeDownload 1 [7], NodeDownload 1 [], NodeFinish 1, NodeWrite (frame_new Data 1 [7]),
      RelayRead (frame_new Data 1 [7]), RelayDownload 1 [7]]"

lemmas demo_end_defs = demo_system_def demo_relay_def demo_node_end_def demo_dispatch_def demo_stream_def

lemma demo_windows [simp]:
  "sc_max_frame_bytes demo_server = 65536" "nc_max_frame_bytes demo_node = 65536" "sc_command_queue_frames demo_server = 256"
  "nc_command_queue_frames demo_node = 256"
  "sc_initial_window_bytes demo_server = 262144" "sc_stream_buffer_frames demo_server = 16"
  "nc_initial_window_bytes demo_node = 262144" "nc_stream_buffer_frames demo_node = 16" "nc_max_streams
      demo_node = 16"
  by (simp_all add: demo_server_def default_defs demo_node_def node_default_defs)

lemma odd_one [simp]: "\<not> invalid_stream_id 1"
  by (simp add: invalid_stream_id_def)

abbreviation close_dispatch_1 :: dispatch where
  "close_dispatch_1 \<equiv> demo_dispatch [] 262144 0 None"

abbreviation close_relay_1 :: tunnel_session where
  "close_relay_1 \<equiv> demo_relay [frame_u32 Open 1 262144] close_dispatch_1"

abbreviation close_1 :: system where
  "close_1 \<equiv> demo_system close_relay_1 (new_node_tunnel demo_node 0) MOpening None [] []"

abbreviation close_relay_2 :: tunnel_session where
  "close_relay_2 \<equiv> demo_relay [] close_dispatch_1"

abbreviation close_stream_2 :: stream_end where
  "close_stream_2 \<equiv> demo_stream [] 262144 False"

abbreviation close_node_2 :: node_tunnel where
  "close_node_2 \<equiv> demo_node_end [] {1} close_stream_2 15 False"

abbreviation close_2 :: system where
  "close_2 \<equiv> demo_system close_relay_2 close_node_2 MOpening (Some LConnecting) [] []"

abbreviation close_node_3 :: node_tunnel where
  "close_node_3 \<equiv> demo_node_end [frame_u32 OpenOk 1 262144] {1} close_stream_2 15 False"

abbreviation close_3 :: system where
  "close_3 \<equiv> demo_system close_relay_2 close_node_3 MOpening (Some (LRelaying True True)) [] []"

abbreviation close_dispatch_4 :: dispatch where
  "close_dispatch_4 \<equiv> demo_dispatch [] 262144 0 (Some (Inr 262144))"

abbreviation close_relay_4 :: tunnel_session where
  "close_relay_4 \<equiv> demo_relay [] close_dispatch_4"

abbreviation close_4 :: system where
  "close_4 \<equiv> demo_system close_relay_4 close_node_2 MOpening (Some (LRelaying True True)) [] []"

abbreviation close_dispatch_5 :: dispatch where
  "close_dispatch_5 \<equiv> demo_dispatch [] 262144 262144 (Some (Inr 262144))"

abbreviation close_relay_5 :: tunnel_session where
  "close_relay_5 \<equiv> demo_relay [] close_dispatch_5"

abbreviation close_5 :: system where
  "close_5 \<equiv> demo_system close_relay_5 close_node_2 (MRelaying True True) (Some (LRelaying True True)) [] []"

abbreviation close_relay_6 :: tunnel_session where
  "close_relay_6 \<equiv> demo_relay [frame_new Fin 1 []] close_dispatch_5"

abbreviation close_6 :: system where
  "close_6 \<equiv> demo_system close_relay_6 close_node_2 (MRelaying False True) (Some (LRelaying True True)) [] []"

abbreviation close_stream_7 :: stream_end where
  "close_stream_7 \<equiv> demo_stream [InFin] 262144 False"

abbreviation close_node_7 :: node_tunnel where
  "close_node_7 \<equiv> demo_node_end [] {1} close_stream_7 15 False"

abbreviation close_7 :: system where
  "close_7 \<equiv> demo_system close_relay_5 close_node_7 (MRelaying False True) (Some (LRelaying True True)) [] []"

abbreviation close_8 :: system where
  "close_8 \<equiv> demo_system close_relay_5 close_node_2 (MRelaying False True) (Some (LRelaying False True)) [] []"

abbreviation close_stream_9 :: stream_end where
  "close_stream_9 \<equiv> demo_stream [] 262143 False"

abbreviation close_node_9 :: node_tunnel where
  "close_node_9 \<equiv> demo_node_end [frame_new Data 1 [7]] {1} close_stream_9 15 False"

abbreviation close_9 :: system where
  "close_9 \<equiv> demo_system close_relay_5 close_node_9 (MRelaying False True) (Some (LRelaying False True)) [7] []"

abbreviation close_node_10 :: node_tunnel where
  "close_node_10 \<equiv> demo_node_end [frame_new Data 1 [7], frame_new Fin 1 []] {1} close_stream_9 15 False"

abbreviation close_10 :: system where
  "close_10 \<equiv> demo_system close_relay_5 close_node_10 (MRelaying False True) (Some (LRelaying False False)) [7] []"

abbreviation close_stream_11 :: stream_end where
  "close_stream_11 \<equiv> demo_stream [] 262143 True"

abbreviation close_node_11 :: node_tunnel where
  "close_node_11 \<equiv> demo_node_end [frame_new Data 1 [7], frame_new Fin 1 [], frame_code Close 1
      TunnelLost] {} close_stream_11 16 False"

abbreviation close_11 :: system where
  "close_11 \<equiv> demo_system close_relay_5 close_node_11 (MRelaying False True) None [7] []"

abbreviation close_dispatch_12 :: dispatch where
  "close_dispatch_12 \<equiv> demo_dispatch [InData [7]] 262143 262144 (Some (Inr 262144))"

abbreviation close_relay_12 :: tunnel_session where
  "close_relay_12 \<equiv> demo_relay [] close_dispatch_12"

abbreviation close_node_12 :: node_tunnel where
  "close_node_12 \<equiv> demo_node_end [frame_new Fin 1 [], frame_code Close 1 TunnelLost] {} close_stream_11 16 False"

abbreviation close_12 :: system where
  "close_12 \<equiv> demo_system close_relay_12 close_node_12 (MRelaying False True) None [7] []"

abbreviation close_relay_13 :: tunnel_session where
  "close_relay_13 \<equiv> demo_relay [frame_u32 WindowUpdate 1 1] close_dispatch_5"

abbreviation close_13 :: system where
  "close_13 \<equiv> demo_system close_relay_13 close_node_12 (MRelaying False True) None [7] [7]"

abbreviation close_node_14 :: node_tunnel where
  "close_node_14 \<equiv> demo_node_end [frame_new Fin 1 [], frame_code Close 1 TunnelLost] {} close_stream_11 16 True"

abbreviation close_14 :: system where
  "close_14 \<equiv> (demo_system close_relay_5 close_node_14 (MRelaying False True) None [7] [7])
     \<lparr>sy_node_error := Some (Stable ProtocolInvalid ''stream is not open''), sy_node_reading := False\<rparr>"

lemma close_eval_1:
  "open_request demo_server 1 (new_tunnel 1 0) = (3, close_relay_1, Inr 1)"
  by (simp add: open_request_def new_tunnel_def Let_def tn_insert_def tn_update_def tunnel_send_def tn_send_def
    new_dispatch_def credit_new_def demo_end_defs)

lemma close_eval_2:
  "node_dispatch demo_node 0 (new_node_tunnel demo_node 0) (frame_u32 Open 1 262144) = (close_node_2, Inr ())"
  by (simp add: node_dispatch_def node_open_def node_fin_def node_stream_def find_stream_def tn_lookup_def
    new_node_stream_def try_send_def tn_update_def tn_insert_def new_node_tunnel_def credit_new_def
    Let_def demo_end_defs)

lemma close_eval_3:
  "local_connected demo_node close_node_2 1 (Inr ()) = (close_node_3, True)"
  by (simp add: local_connected_def io_result_def node_send_def tn_send_def demo_end_defs)

lemma close_eval_4:
  "relay_dispatch 0 close_relay_2 (frame_u32 OpenOk 1 262144) = (close_relay_4, Inr ())"
  by (simp add: relay_dispatch_def relay_open_ok_def relay_data_def stream_dispatch_def find_stream_def
    tn_lookup_def answer_open_def debit_receive_window_def debit_def try_send_def tn_update_def
    parse_u32_def demo_end_defs)

lemma close_eval_5:
  "open_finish close_relay_4 1 close_dispatch_4 (OpenAnswered (Inr 262144)) = (close_relay_5, Inr ())"
  by (simp add: open_finish_def credit_add_def checked_add_u64_def tn_update_def demo_end_defs)

lemma close_eval_6:
  "pump_member_to_node demo_env demo_pass demo_runtime demo_pump close_relay_5 1 close_dispatch_5 False (Inr
      []) = Some (demo_pump, close_relay_6, Return (Inr ()))"
  by (simp add: pump_member_to_node_def tunnel_send_def tn_send_def demo_end_defs)

lemma close_eval_7:
  "node_dispatch demo_node 0 close_node_2 (frame_new Fin 1 []) = (close_node_7, Inr ())"
  by (simp add: node_dispatch_def node_open_def node_fin_def node_stream_def find_stream_def tn_lookup_def
    new_node_stream_def try_send_def tn_update_def tn_insert_def demo_end_defs)

lemma close_eval_8:
  "pump_relay_to_target close_node_7 1 close_stream_7 False (Inr ()) = Some ([], close_node_2, Return (Inr ()))"
  by (simp add: pump_relay_to_target_def write_error_def tn_update_def demo_end_defs)

lemma close_eval_9:
  "pump_target_to_relay close_node_2 1 close_stream_2 False (Inr [7]) [] = Some (close_node_9, Continue)"
  by (simp add: pump_target_to_relay_def credit_consume_def u64_try_from_def consume_loop.simps node_send_def
    tn_send_def tn_update_def Let_def demo_end_defs)

lemma close_eval_10:
  "pump_target_to_relay close_node_9 1 close_stream_9 False (Inr []) [] = Some (close_node_10, Return (Inr ()))"
  by (simp add: pump_target_to_relay_def node_send_def tn_send_def demo_end_defs)

lemma close_eval_11:
  "local_finished close_node_10 1 = close_node_11"
  by (simp add: local_finished_def remove_stream_def tn_lookup_def tn_update_def release_slot_def node_send_def
    tn_send_def Let_def demo_end_defs)

lemma close_eval_12:
  "relay_dispatch 0 close_relay_5 (frame_new Data 1 [7]) = (close_relay_12, Inr ())"
  by (simp add: relay_dispatch_def relay_open_ok_def relay_data_def stream_dispatch_def find_stream_def
    tn_lookup_def answer_open_def debit_receive_window_def debit_def try_send_def tn_update_def
    parse_u32_def u64_try_from_def checked_sub_u64_def Let_def demo_end_defs)

lemma close_eval_13:
  "\<exists>ps. pump_node_to_member demo_env demo_pass demo_runtime demo_pump close_relay_12 1
     close_dispatch_12 False (Inr ()) = Some ([7], ps, close_relay_13, Continue)"
proof -
  obtain ps1 where ps1: "admit_block demo_env demo_pass demo_runtime demo_pump (Suc 0) = Some (ps1, Inr (Suc 0))"
    by (simp add: admit_block_def account_connection_bytes_def u64_try_from_def checked_add_u64_def demo_pump_def
        demo_runtime_def demo_route_config_def default_max_bytes_per_connection_def reserve_route_bytes_def
            demo_pass_def rate_acquire_def
        acquire_loop.simps rate_attempt_def replenished_def rate_limiter_new_def saturating_add_u64_def
            u64_saturate_def Let_def)
  show ?thesis
    by (simp add: pump_node_to_member_def download_data_def ps1 write_error_def written_bytes_def u32_try_from_def
        tunnel_send_def tn_send_def tn_update_def Let_def demo_end_defs)
qed

lemmas close_defs = demo_end_defs fresh_system_def fun_eq_iff reader_returned_def error_of_def wait_possible_def
  new_data_def new_node_tunnel_def new_tunnel_def demo_pass_def taken_bytes_def queues_fit_def frame_fits_def

definition idle_wire :: "system \<Rightarrow> tunnel_run" where
  "idle_wire s = \<lparr>tr_ends = s, tr_relay_wire = [], tr_node_wire = []\<rparr>"

lemma pass_on_wire:
  assumes "task_step sc nc s l s'" and "queues_fit sc nc s'" and "reaches (tunnel_step sc nc) (idle_wire s') ls x"
  shows "reaches (tunnel_step sc nc) (idle_wire s) (l # ls) x"
  using reaches_Cons [where step = "tunnel_step sc nc", OF _ assms(3)] tunnel_step.passes [of sc nc "idle_wire s" l s'] assms(1,2)
  by (simp add: idle_wire_def)

text \<open>A frame that both ends accept is written by one and read by the other.\<close>

lemma relay_frame_crosses:
  assumes "tn_outbox (sy_relay s) = f # fs" and "tn_writer (sy_relay s)" and "sy_node_reading s"
    and fits: "frame_fits (sc_max_frame_bytes sc) f" "frame_fits (nc_max_frame_bytes nc) f"
    and "node_dispatch nc now (sy_node s) f = (t', r)"
    and "s' = s\<lparr>sy_relay := (sy_relay s)\<lparr>tn_outbox := fs\<rparr>, sy_node := reader_returned t' r,
      sy_locals := (if r = Inr () \<and> stream_id f \<in> tn_streams t' - tn_streams (sy_node s)
            then (sy_locals s)(stream_id f \<mapsto> LConnecting) else sy_locals s),
      sy_node_error := error_of r, sy_node_reading := is_ok r\<rparr>" and "queues_fit sc nc s'"
  shows "reaches (tunnel_step sc nc) (idle_wire s) [RelayWrite f, NodeRead f] (idle_wire s')"
proof -
  let ?s = "s\<lparr>sy_relay := (sy_relay s)\<lparr>tn_outbox := fs\<rparr>\<rparr>"
  let ?x = "\<lparr>tr_ends = ?s, tr_relay_wire = frame_wire f, tr_node_wire = []\<rparr>"
  have "tunnel_step sc nc (idle_wire s) (RelayWrite f) ?x"
    using tunnel_step.relay_writer [of s "idle_wire s" f fs sc "frame_wire f" nc] assms by (simp add: idle_wire_def write_to_fits)
  moreover have "read_from (nc_max_frame_bytes nc) UnexpectedEof (frame_wire f) = Inr (Some (f, []))"
    using read_from_frame_wire [OF fits(2), of _ "[]"] by simp
  then have "tunnel_step sc nc ?x (NodeRead f) (idle_wire s')"
    using tunnel_step.node_reader [of ?s ?x nc UnexpectedEof f "[]" now t' r _ s' sc] assms by (simp add: idle_wire_def)
  ultimately show ?thesis by (rule reaches_Cons [where step = "tunnel_step sc nc", OF _ reaches_single])
qed

lemma node_frame_crosses:
  assumes "tn_outbox (sy_node s) = f # fs" and "tn_writer (sy_node s)" and "sy_relay_reading s"
    and fits: "frame_fits (nc_max_frame_bytes nc) f" "frame_fits (sc_max_frame_bytes sc) f"
    and "relay_dispatch now (sy_relay s) f = (t', r)"
    and "s' = s\<lparr>sy_node := (sy_node s)\<lparr>tn_outbox := fs\<rparr>, sy_relay := reader_returned t' r,
      sy_relay_error := error_of r, sy_relay_reading := is_ok r\<rparr>" and "queues_fit sc nc s'"
  shows "reaches (tunnel_step sc nc) (idle_wire s) [NodeWrite f, RelayRead f] (idle_wire s')"
proof -
  let ?s = "s\<lparr>sy_node := (sy_node s)\<lparr>tn_outbox := fs\<rparr>\<rparr>"
  let ?x = "\<lparr>tr_ends = ?s, tr_relay_wire = [], tr_node_wire = frame_wire f\<rparr>"
  have "tunnel_step sc nc (idle_wire s) (NodeWrite f) ?x"
    using tunnel_step.node_writer [of s "idle_wire s" f fs nc "frame_wire f" sc] assms by (simp add: idle_wire_def write_to_fits)
  moreover have "read_from (sc_max_frame_bytes sc) UnexpectedEof (frame_wire f) = Inr (Some (f, []))"
    using read_from_frame_wire [OF fits(2), of _ "[]"] by simp
  then have "tunnel_step sc nc ?x (RelayRead f) (idle_wire s')"
    using tunnel_step.relay_reader [of ?s ?x sc UnexpectedEof f "[]" now t' r s' nc] assms by (simp add: idle_wire_def)
  ultimately show ?thesis by (rule reaches_Cons [where step = "tunnel_step sc nc", OF _ reaches_single])
qed

lemma close_step_1:
  "task_step demo_server demo_node (fresh_system demo_node 1 0 1) RelayOpen close_1"
  by (rule task_step_to [OF task_step.relay_opens [where s = "(fresh_system demo_node 1 0 1)" and next' = 3 and t' =
      close_relay_1 and r = "Inr 1"]])
    (use close_eval_1 in \<open>simp_all add: close_defs\<close>)

lemma close_step_2:
  "reaches (tunnel_step demo_server demo_node) (idle_wire close_1)
     [RelayWrite (frame_u32 Open 1 262144), NodeRead (frame_u32 Open 1 262144)] (idle_wire close_2)"
  by (rule relay_frame_crosses [where fs = "[]" and now = 0 and t' = close_node_2 and r = "Inr ()"])
    (use close_eval_2 in \<open>simp_all add: close_defs cancel_all_streams_def\<close>)

lemma close_step_3:
  "task_step demo_server demo_node close_2 (NodeConnect 1) close_3"
  by (rule task_step_to [OF task_step.node_connects [where s = close_2 and nodelay = "Inr ()" and t' = close_node_3 and
      ok = True]])
    (use close_eval_3 in \<open>simp_all add: close_defs\<close>)

lemma close_step_4:
  "reaches (tunnel_step demo_server demo_node) (idle_wire close_3)
     [NodeWrite (frame_u32 OpenOk 1 262144), RelayRead (frame_u32 OpenOk 1 262144)] (idle_wire close_4)"
  by (rule node_frame_crosses [where fs = "[]" and now = 0 and t' = close_relay_4 and r = "Inr ()"])
    (use close_eval_4 in \<open>simp_all add: close_defs cancel_all_streams_def\<close>)

lemma close_step_5:
  "task_step demo_server demo_node close_4 (RelayOpened 1 (OpenAnswered (Inr 262144))) close_5"
  by (rule task_step_to [OF task_step.relay_opened [where s = close_4 and d = close_dispatch_4 and t' = close_relay_5 and
      r = "Inr ()"]])
    (use close_eval_5 in \<open>simp_all add: close_defs\<close>)

lemma close_step_6:
  "task_step demo_server demo_node close_5 (RelayUpload 1 []) close_6"
  by (rule task_step_to [OF task_step.relay_uploads [where s = close_5 and pio = demo_pass and rt = demo_runtime and ps =
      demo_pump and env = demo_env and cancelled = False and member = "Inr []" and bytes = "[]" and d = close_dispatch_5 and dn
      = True and ps' = demo_pump and t' = close_relay_6 and p = "Return (Inr ())" and out = "[]"]])
    (use close_eval_6 in \<open>simp_all add: close_defs\<close>)

lemma close_step_7:
  "reaches (tunnel_step demo_server demo_node) (idle_wire close_6)
     [RelayWrite (frame_new Fin 1 []), NodeRead (frame_new Fin 1 [])] (idle_wire close_7)"
  by (rule relay_frame_crosses [where fs = "[]" and now = 0 and t' = close_node_7 and r = "Inr ()"])
    (use close_eval_7 in \<open>simp_all add: close_defs cancel_all_streams_def\<close>)

lemma close_step_8:
  "task_step demo_server demo_node close_7 (NodeUpload 1 []) close_8"
  by (rule task_step_to [OF task_step.node_uploads [where s = close_7 and cancelled = False and written = "Inr ()" and st
      = close_stream_7 and dn = True and out = "[]" and t' = close_node_2 and p = "Return (Inr ())"]])
    (use close_eval_8 in \<open>simp_all add: close_defs\<close>)

lemma close_step_9:
  "task_step demo_server demo_node close_8 (NodeDownload 1 [7]) close_9"
  by (rule task_step_to [OF task_step.node_downloads [where s = close_8 and cancelled = False and target = "Inr [7]" and bytes = "[7]" and
      wakes = "[]" and st = close_stream_2 and up = False and out = "[7]" and t' = close_node_9 and p =
      Continue]])
    (use close_eval_9 in \<open>simp_all add: close_defs\<close>)

lemma close_step_10:
  "task_step demo_server demo_node close_9 (NodeDownload 1 []) close_10"
  by (rule task_step_to [OF task_step.node_downloads [where s = close_9 and cancelled = False and target = "Inr []" and bytes = "[]" and
      wakes = "[]" and st = close_stream_9 and up = False and out = "[]" and t' = close_node_10 and p =
      "Return (Inr ())"]])
    (use close_eval_10 in \<open>simp_all add: close_defs\<close>)

lemma close_step_11:
  "task_step demo_server demo_node close_10 (NodeFinish 1) close_11"
  by (rule task_step_to [OF task_step.node_finishes [where s = close_10 and m = "LRelaying False False" and lost = "[]"]])
    (use close_eval_11 in \<open>simp_all add: close_defs\<close>)

lemma close_step_12:
  "reaches (tunnel_step demo_server demo_node) (idle_wire close_11)
     [NodeWrite (frame_new Data 1 [7]), RelayRead (frame_new Data 1 [7])] (idle_wire close_12)"
  by (rule node_frame_crosses [where fs = "[frame_new Fin 1 [], frame_code Close 1 TunnelLost]" and now = 0 and t' = close_relay_12 and r = "Inr ()"])
    (use close_eval_12 in \<open>simp_all add: close_defs cancel_all_streams_def\<close>)

lemma close_step_13:
  "task_step demo_server demo_node close_12 (RelayDownload 1 [7]) close_13"
proof -
  obtain ps where ps: "pump_node_to_member demo_env demo_pass demo_runtime demo_pump close_relay_12 1
      close_dispatch_12 False (Inr ()) = Some ([7], ps, close_relay_13, Continue)"
    using close_eval_13 by blast
  show ?thesis
    by (rule task_step_to [OF task_step.relay_downloads [where s = close_12 and d = close_dispatch_12 and up = False and
        cancelled = False and env = demo_env and pio = demo_pass and rt = demo_runtime and ps = demo_pump and
        written = "Inr ()" and ps' = ps and p = Continue]])
      (use ps in \<open>simp_all add: close_defs\<close>)
qed

lemma close_eval_14:
  "node_dispatch demo_node 0 close_node_12 (frame_u32 WindowUpdate 1 1) =
     (close_node_12, Inl (Stable ProtocolInvalid ''stream is not open''))"
  by (simp add: node_dispatch_def node_window_update_def node_stream_def find_stream_def tn_lookup_def
    parse_u32_def demo_end_defs)

lemma close_step_14:
  "reaches (tunnel_step demo_server demo_node) (idle_wire close_13)
     [RelayWrite (frame_u32 WindowUpdate 1 1), NodeRead (frame_u32 WindowUpdate 1 1)] (idle_wire close_14)"
  by (rule relay_frame_crosses [where fs = "[]" and now = 0 and t' = close_node_12 and r = "Inl (Stable ProtocolInvalid ''stream is not open'')"])
    (use close_eval_14 in \<open>simp_all add: close_defs cancel_all_streams_def\<close>)

lemma close_queues:
  "queues_fit demo_server demo_node close_1" "queues_fit demo_server demo_node close_3" "queues_fit demo_server demo_node close_5"
  "queues_fit demo_server demo_node close_6" "queues_fit demo_server demo_node close_8" "queues_fit demo_server demo_node close_9"
  "queues_fit demo_server demo_node close_10" "queues_fit demo_server demo_node close_11" "queues_fit demo_server demo_node close_13"
  by (simp_all add: queues_fit_def demo_system_def demo_relay_def demo_node_end_def new_node_tunnel_def)

lemma close_run_reaches:
  "reaches (tunnel_step demo_server demo_node) (fresh_tunnel demo_node 1 0 1) close_run (idle_wire close_13)"
proof -
  note pass = pass_on_wire and cross = reaches_append [rotated]
  have "reaches (tunnel_step demo_server demo_node) (idle_wire close_8)
      [NodeDownload 1 [7], NodeDownload 1 [], NodeFinish 1] (idle_wire close_11)"
    by (intro pass [OF close_step_9] pass [OF close_step_10] pass [OF close_step_11] close_queues reaches_Nil)
  note a = cross [OF this close_step_12]
  note b = pass [OF close_step_8 close_queues(5) a]
  note c = pass [OF close_step_5 close_queues(3) pass [OF close_step_6 close_queues(4) cross [OF close_step_7 b]]]
  note d = pass [OF close_step_3 close_queues(2) cross [OF close_step_4 c]]
  note e = pass [OF close_step_1 close_queues(1) cross [OF close_step_2 d]]
  have "reaches (tunnel_step demo_server demo_node) (idle_wire close_12) [RelayDownload 1 [7]] (idle_wire close_13)"
    by (intro pass [OF close_step_13] close_queues reaches_Nil)
  from cross [OF e this] show ?thesis by (simp add: close_run_def fresh_tunnel_def idle_wire_def)
qed

section \<open>Properties\<close>

text \<open>Claim C2: flow control between a relay and a node. In every run of the two ends over one connection, from
  the registration of the tunnel and with any schedule, the bytes that wait in the queue of a stream and the window
  that is left never exceed the window the configuration sets for it, on both ends. And the reader of neither end
  fails on a window, on a malformed frame or on an answer nobody awaits: the only errors that end a reader are a frame
  for a stream that was just removed, a lost or closed tunnel, an error of the connection, and, only if the maximum
  frame of the other end is configured larger than its own, a frame that exceeds it.\<close>

theorem tunnel_flow_control:
  assumes run: "reaches (tunnel_step sc nc) (fresh_tunnel nc session_id now next_id) ls x"
    and ids: "odd (unat next_id)" "unat next_id + 2 * length ls < 2 ^ 64"
    and window: "sc_initial_window_bytes sc \<noteq> 0" and sid: "sid \<noteq> 0"
  shows "(\<forall>d. tn_store (sy_relay (tr_ends x)) sid = Some d \<longrightarrow>
       length (inbound_data (se_inbound d)) + unat (se_receive_remaining d) \<le> unat (sc_initial_window_bytes sc))
    \<and> (\<forall>st. tn_store (sy_node (tr_ends x)) sid = Some st \<longrightarrow>
       length (inbound_data (se_inbound st)) + unat (se_receive_remaining st) \<le> unat (nc_initial_window_bytes nc))
    \<and> (\<forall>e. sy_relay_error (tr_ends x) = Some e \<longrightarrow> reader_error (sc_max_frame_bytes sc) (nc_max_frame_bytes nc) e)
    \<and> (\<forall>e. sy_node_error (tr_ends x) = Some e \<longrightarrow> reader_error (nc_max_frame_bytes nc) (sc_max_frame_bytes sc) e)"
  using tunnel_run_inv(2) [OF run ids window] sid
  by (auto simp: tunnel_inv_def sys_wf_def errors_ok_def vinv_def view_def flow_ok_def)

theorem tunnel_flow_control_witness:
  "\<exists>x. reaches (tunnel_step demo_server demo_node) (fresh_tunnel demo_node 1 0 1) close_run x
     \<and> (\<forall>d. tn_store (sy_relay (tr_ends x)) 1 = Some d \<longrightarrow>
          length (inbound_data (se_inbound d)) + unat (se_receive_remaining d) \<le> 262144)
     \<and> sy_down_done (tr_ends x) 1 = [7]"
  using tunnel_flow_control [OF close_run_reaches, of 1] close_run_reaches
  by (intro exI [of _ "idle_wire close_13"]) (simp add: close_run_def demo_system_def idle_wire_def)

text \<open>Claim C8: a tunnel loses and reorders nothing. In every run of the two ends the bytes that reached the
  target are a prefix of those the relay read from the member, and the bytes that reached the member are a
  prefix of those the node read from the target. While the receiving pump of a stream runs and the stream is in
  the table, what was delivered, what waits in its queue, and what is on the wire or in the queue of the writer are
  exactly what was read, up to a rest that was never sent; and there is no such rest while the sending pump runs.\<close>

theorem tunnel_delivers_in_order:
  assumes run: "reaches (tunnel_step sc nc) (fresh_tunnel nc session_id now next_id) ls x"
    and ids: "odd (unat next_id)" "unat next_id + 2 * length ls < 2 ^ 64"
    and window: "sc_initial_window_bytes sc \<noteq> 0" and sid: "sid \<noteq> 0" and s: "s = tr_ends x"
  shows "prefix (sy_up_done s sid) (sy_up_read s sid) \<and> prefix (sy_down_done s sid) (sy_down_read s sid)
    \<and> (\<forall>st dn. tn_store (sy_node s) sid = Some st \<and> sid \<in> tn_streams (sy_node s)
          \<and> sy_locals s sid = Some (LRelaying True dn) \<longrightarrow>
        (\<exists>unsent. sy_up_read s sid = sy_up_done s sid @ inbound_data (se_inbound st)
             @ data_of (of_stream sid (wire_frames (tr_relay_wire x) @ tn_outbox (sy_relay s))) @ unsent
           \<and> (\<forall>dn. sy_members s sid = Some (MRelaying True dn) \<longrightarrow> unsent = [])))
    \<and> (\<forall>d up. tn_store (sy_relay s) sid = Some d \<and> sid \<in> tn_streams (sy_relay s)
          \<and> sy_members s sid = Some (MRelaying up True) \<longrightarrow>
        (\<exists>unsent. sy_down_read s sid = sy_down_done s sid @ inbound_data (se_inbound d)
             @ data_of (of_stream sid (wire_frames (tr_node_wire x) @ tn_outbox (sy_node s))) @ unsent
           \<and> (\<forall>up. sy_locals s sid = Some (LRelaying up True) \<longrightarrow> unsent = [])))"
proof -
  note inv = tunnel_run_inv(2) [OF run ids window]
  have v: "vinv (unat (sc_initial_window_bytes sc)) (unat (nc_initial_window_bytes nc)) (view (flatten x) sid)"
    using inv sid by (simp add: tunnel_inv_def sys_wf_def)
  have reads: "reads_ok (flatten x)" using inv by (simp add: tunnel_inv_def)
  have sent: "prefix (sy_up_sent s sid) (sy_up_read s sid)" "prefix (sy_down_sent s sid) (sy_down_read s sid)"
    "sy_members s sid = Some (MRelaying True dn) \<Longrightarrow> sy_up_sent s sid = sy_up_read s sid"
    "sy_locals s sid = Some (LRelaying up True) \<Longrightarrow> sy_down_sent s sid = sy_down_read s sid" for dn up
    using reads s by (auto simp: reads_ok_def relay_sending_def node_sending_def)
  then obtain up_rest down_rest where rests: "sy_up_read s sid = sy_up_sent s sid @ up_rest"
    "sy_down_read s sid = sy_down_sent s sid @ down_rest" by (auto simp: prefix_def)
  have logs: "prefix (sy_up_done s sid) (sy_up_sent s sid)" "prefix (sy_down_done s sid) (sy_down_sent s sid)"
    "\<lbrakk>tn_store (sy_node s) sid = Some st; sid \<in> tn_streams (sy_node s); sy_locals s sid = Some (LRelaying True dn)\<rbrakk> \<Longrightarrow>
       sy_up_sent s sid = sy_up_done s sid @ inbound_data (se_inbound st)
         @ data_of (of_stream sid (wire_frames (tr_relay_wire x) @ tn_outbox (sy_relay s)))"
    "\<lbrakk>tn_store (sy_relay s) sid = Some d; sid \<in> tn_streams (sy_relay s); sy_members s sid = Some (MRelaying up True)\<rbrakk> \<Longrightarrow>
       sy_down_sent s sid = sy_down_done s sid @ inbound_data (se_inbound d)
         @ data_of (of_stream sid (wire_frames (tr_node_wire x) @ tn_outbox (sy_node s)))" for st dn d up
    using v s by (auto simp: vinv_def view_def logs_ok_def waiting_data_def)
  show ?thesis using logs sent rests by (fastforce intro: prefix_order.trans)
qed

theorem tunnel_delivers_in_order_witness:
  "\<exists>x. reaches (tunnel_step demo_server demo_node) (fresh_tunnel demo_node 1 0 1) close_run x
     \<and> prefix (sy_down_done (tr_ends x) 1) (sy_down_read (tr_ends x) 1) \<and> sy_down_done (tr_ends x) 1 = [7]"
  using tunnel_delivers_in_order [OF close_run_reaches, of 1] close_run_reaches
  by (intro exI [of _ "idle_wire close_13"]) (simp add: close_run_def demo_system_def idle_wire_def)

text \<open>Claim C7: a tunnel refines a set of pipes. Every run of the two ends, with its frames and their bytes, its
  windows, answers and failures, is a run of the specification in which each stream is two pipes that take bytes at one
  side and give them back in order at the other.\<close>

theorem tunnel_refines_pipes:
  assumes run: "reaches (tunnel_step sc nc) (fresh_tunnel nc session_id now next_id) ls x"
    and ids: "odd (unat next_id)" "unat next_id + 2 * length ls < 2 ^ 64"
    and window: "sc_initial_window_bytes sc \<noteq> 0"
  shows "reaches pipe_step (\<lambda>_ _. ([], [])) (map abs_event ls) (abs_pipes (tr_ends x))"
proof -
  have "abs_pipes (fresh_system nc session_id now next_id) = (\<lambda>_ _. ([], []))"
    by (simp add: fun_eq_iff abs_pipes_def fresh_system_def split: direction.splits)
  then show ?thesis
    using ts.reaches_sim [OF tunnel_run_inv(1) [OF run ids window] fresh_system_inv [OF window ids(1)]] by simp
qed

theorem tunnel_refines_pipes_witness:
  "\<exists>s. reaches pipe_step (\<lambda>_ _. ([], [])) (map abs_event close_run) (abs_pipes s)
     \<and> abs_pipes s Down 1 = ([7], [7])"
  using tunnel_refines_pipes [OF close_run_reaches]
  by (intro exI [of _ close_13]) (simp add: close_run_def abs_pipes_def demo_system_def idle_wire_def)

text \<open>Claim C14: a stream that is closed in the regular way can end the whole tunnel. In this run the member and
  the target both close their sides and every byte is delivered; the node removes the stream, and the window
  update that the relay sends for the last byte is then a frame for a stream that is not open: the reader of
  the node fails, and with it the tunnel and every other stream on it.\<close>

theorem regular_close_ends_tunnel:
  "\<exists>x. reaches (tunnel_step demo_server demo_node) (fresh_tunnel demo_node 1 0 1)
         (close_run @ [RelayWrite (frame_u32 WindowUpdate 1 1), NodeRead (frame_u32 WindowUpdate 1 1)]) x
     \<and> sy_relay_error (tr_ends x) = None \<and> sy_down_sent (tr_ends x) 1 = [7] \<and> sy_down_done (tr_ends x) 1 = [7]
     \<and> sy_node_error (tr_ends x) = Some (Stable ProtocolInvalid ''stream is not open'') \<and> tn_cancelled (sy_node (tr_ends x))"
  using reaches_append [OF close_step_14 close_run_reaches]
  by (intro exI [of _ "idle_wire close_14"]) (simp add: demo_system_def demo_node_end_def idle_wire_def)

end
