(* ===== verification/Relay_Bounds.thy ===== *)
theory Relay_Bounds
  imports Tunnel_Properties
begin

text \<open>
  The memory a node can make the relay hold. Here the peer is arbitrary: the reader of the relay is given
  any frame at any time, while the tasks of the relay run as the code has them.
\<close>

section \<open>A relay with an arbitrary peer\<close>

record relay_side =
  rs_next :: u64
  rs_tunnel :: tunnel_session

datatype relay_event =
    PeerFrame frame
  | StreamOpen
  | StreamOpened u64 open_wait
  | StreamUpload u64
  | StreamDownload u64 "byte list"
  | StreamFinish u64
  | TunnelBeat
  | TunnelStop

inductive relay_step :: "server_config \<Rightarrow> relay_side \<Rightarrow> relay_event \<Rightarrow> relay_side \<Rightarrow> bool"
  for sc :: server_config where
  peer_frame:
    "relay_dispatch now (rs_tunnel s) f = (t', r) \<Longrightarrow>
     relay_step sc s (PeerFrame f) (s\<lparr>rs_tunnel := reader_returned t' r\<rparr>)"
| stream_open:
    "open_request sc (rs_next s) (rs_tunnel s) = (next', t', r) \<Longrightarrow>
     relay_step sc s StreamOpen (s\<lparr>rs_next := next', rs_tunnel := t'\<rparr>)"
| stream_opened:
    "\<lbrakk>tn_store (rs_tunnel s) sid = Some d; open_finish (rs_tunnel s) sid d w = (t', r)\<rbrakk> \<Longrightarrow>
     relay_step sc s (StreamOpened sid w) (s\<lparr>rs_tunnel := t'\<rparr>)"
| stream_upload:
    "\<lbrakk>tn_store (rs_tunnel s) sid = Some d; set (pi_credit_wakes pio) \<subseteq> {CreditCancelled};
      pump_member_to_node env pio rt ps (rs_tunnel s) sid d cancelled member = Some (ps', t', p)\<rbrakk> \<Longrightarrow>
     relay_step sc s (StreamUpload sid) (s\<lparr>rs_tunnel := t'\<rparr>)"
| stream_download:
    "\<lbrakk>tn_store (rs_tunnel s) sid = Some d;
      pump_node_to_member env pio rt ps (rs_tunnel s) sid d cancelled written = Some (out, ps', t', p)\<rbrakk> \<Longrightarrow>
     relay_step sc s (StreamDownload sid out) (s\<lparr>rs_tunnel := t'\<rparr>)"
| stream_finish:
    "tn_store (rs_tunnel s) sid = Some d \<Longrightarrow>
     relay_step sc s (StreamFinish sid) (s\<lparr>rs_tunnel := member_finish (rs_tunnel s) sid d outcome\<rparr>)"
| tunnel_beat:
    "heartbeat_pass sc rc (rs_tunnel s) n now now_utc = (t', n', b) \<Longrightarrow>
     relay_step sc s TunnelBeat (s\<lparr>rs_tunnel := t'\<rparr>)"
| tunnel_stop:
    "relay_step sc s TunnelStop (s\<lparr>rs_tunnel := (rs_tunnel s)\<lparr>tn_cancelled := True, tn_writer := w\<rparr>\<rparr>)"

section \<open>What is held for a stream\<close>

definition within :: "server_config \<Rightarrow> dispatch \<Rightarrow> bool" where
  "within sc d \<longleftrightarrow>
     length (inbound_data (se_inbound d)) + unat (se_receive_remaining d) \<le> unat (sc_initial_window_bytes sc)
     \<and> length (se_inbound d) \<le> sc_stream_buffer_frames sc \<and> se_capacity d = sc_stream_buffer_frames sc"

definition all_within :: "server_config \<Rightarrow> tunnel_session \<Rightarrow> bool" where
  "all_within sc t \<longleftrightarrow> (\<forall>sid d. tn_store t sid = Some d \<longrightarrow> within sc d)"

lemma within_frame [simp]:
  "within sc (d\<lparr>se_send_credit := c\<rparr>) = within sc d" "within sc (d\<lparr>se_cancelled := b\<rparr>) = within sc d"
  "within sc (d\<lparr>se_receiver := b\<rparr>) = within sc d" "within sc (answer_open d r) = within sc d"
  by (simp_all add: within_def answer_open_def)

lemma all_withinD: "all_within sc t \<Longrightarrow> tn_store t sid = Some d \<Longrightarrow> within sc d"
  by (simp add: all_within_def)

lemma all_within_update: "all_within sc t \<Longrightarrow> within sc d \<Longrightarrow> all_within sc (tn_update t sid d)"
  by (simp add: all_within_def)

lemma all_within_frame [simp]:
  "all_within sc (t\<lparr>tn_outbox := fs\<rparr>) = all_within sc t" "all_within sc (t\<lparr>tn_cancelled := b\<rparr>) = all_within sc t"
  "all_within sc (t\<lparr>tn_last_pong := n\<rparr>) = all_within sc t" "all_within sc (t\<lparr>tn_writer := b\<rparr>) = all_within sc t"
  by (simp_all add: all_within_def)

lemma all_within_send: "tunnel_send t f = Inr t' \<Longrightarrow> all_within sc t' = all_within sc t"
  by (auto simp: tunnel_send_def tn_send_Inr)

lemma all_within_tn_send: "tn_send a b t f = Inr t' \<Longrightarrow> all_within sc t' = all_within sc t"
  by (auto simp: tn_send_Inr)

lemma all_within_remove: "all_within sc t \<Longrightarrow> all_within sc (remove_stream t sid)"
  by (auto simp: all_within_def remove_stream_store split: if_splits)

lemma all_within_cancel: "all_within sc t \<Longrightarrow> all_within sc (cancel_all_streams t)"
  by (auto simp: all_within_def cancel_all_streams_def)

lemma within_new: "within sc (new_dispatch sc)"
  by (simp add: within_def new_dispatch_def)

lemma within_debit: "debit a d n = Inr d' \<Longrightarrow> within sc d \<Longrightarrow>
   within sc d' \<and> length (inbound_data (se_inbound d')) + n + unat (se_receive_remaining d') \<le> unat (sc_initial_window_bytes sc)"
  by (auto simp: debit_Inr within_def)

lemma within_send:
  "try_send d m = Some d' \<Longrightarrow> within sc d \<Longrightarrow>
   length (inbound_data (se_inbound d)) + length (inbound_data [m]) + unat (se_receive_remaining d)
     \<le> unat (sc_initial_window_bytes sc) \<Longrightarrow> within sc d'"
  by (auto simp: try_send_Some within_def)

section \<open>Every operation keeps the bound\<close>

lemma stream_dispatch_within:
  "stream_dispatch t sid = Inr d \<Longrightarrow> all_within sc t \<Longrightarrow> within sc d"
  by (auto simp: stream_dispatch_def find_stream_Inr intro: all_withinD)

lemma all_within_data:
  assumes "all_within sc t" and "relay_data t f = (t', r)"
  shows "all_within sc t'"
proof (cases "stream_dispatch t (stream_id f)")
  case (Inl e)
  then show ?thesis using assms by (simp add: relay_data_def)
next
  case (Inr d)
  have d: "within sc d" by (rule stream_dispatch_within [OF Inr assms(1)])
  show ?thesis
  proof (cases "debit_receive_window d (length (payload f))")
    case (Inl e)
    then show ?thesis using assms Inr by (simp add: relay_data_def)
  next
    case debited: (Inr d1)
    then have d1: "within sc d1"
      "length (inbound_data (se_inbound d1)) + length (payload f) + unat (se_receive_remaining d1)
        \<le> unat (sc_initial_window_bytes sc)"
      using within_debit [OF _ d] by (simp_all add: debit_receive_window_def)
    have t1: "all_within sc (tn_update t (stream_id f) d1)" by (rule all_within_update [OF assms(1) d1(1)])
    show ?thesis
    proof (cases "try_send d1 (InData (payload f))")
      case None
      then show ?thesis
        using assms(2) Inr debited t1 all_within_send [of "tn_update t (stream_id f) d1" _ _ sc]
        by (auto simp: relay_data_def Let_def intro: all_within_remove split: sum.splits)
    next
      case (Some d2)
      then have "within sc d2" using within_send [OF Some d1(1)] d1(2) by simp
      then show ?thesis using assms(2) Inr debited Some t1 by (auto simp: relay_data_def Let_def intro: all_within_update)
    qed
  qed
qed

lemma within_control: "try_send d m = Some d' \<Longrightarrow> inbound_data [m] = [] \<Longrightarrow> within sc d \<Longrightarrow> within sc d'"
  by (rule within_send) (auto simp: within_def)

lemma all_within_dispatch:
  assumes t: "all_within sc t" and disp: "relay_dispatch now t f = (t', r)"
  shows "all_within sc t'"
proof -
  note sd = stream_dispatch_within [OF _ t]
  note upd = all_within_update [OF t]
  have "all_within sc (fst (relay_open_ok t f))" "all_within sc (fst (relay_open_error t f))"
    "all_within sc (fst (relay_window_update t f))"
    using t by (auto simp: relay_open_ok_def relay_open_error_def relay_window_update_def split: sum.splits
        intro!: upd dest: sd)
  moreover have "all_within sc (fst (relay_fin t f))"
    using t by (auto simp: relay_fin_def split: sum.splits option.splits intro!: upd all_within_remove
        dest: sd within_control [where m = InFin and sc = sc])
  moreover have "all_within sc (fst (relay_close t f))"
    using t by (auto simp: relay_close_def Let_def split: sum.splits option.splits intro!: all_within_remove upd
        dest: sd within_control [where m = InClose and sc = sc])
  moreover have "all_within sc (fst (relay_data t f))"
    using all_within_data [OF t] by (metis prod.collapse)
  moreover have "all_within sc t" if "tunnel_send t x = Inr t'" for x using t by simp
  ultimately show ?thesis
    using disp t by (auto simp: relay_dispatch_def split: frame_kind.splits if_splits sum.splits dest: all_within_send [where sc = sc])
qed

lemma all_within_open:
  "all_within sc t \<Longrightarrow> open_request sc n t = (n', t', r) \<Longrightarrow> all_within sc t'"
  using all_within_update [OF _ within_new, of sc "t\<lparr>tn_streams := insert n (tn_streams t)\<rparr>" n]
  by (auto simp: open_request_def Let_def tn_insert_def all_within_def tunnel_send_def tn_send_Inr remove_stream_store
      within_new split: if_splits sum.splits)

lemma all_within_opened:
  "all_within sc t \<Longrightarrow> tn_store t sid = Some d \<Longrightarrow> open_finish t sid d w = (t', r) \<Longrightarrow> all_within sc t'"
  by (auto simp: open_finish_def all_withinD split: sum.splits if_splits intro!: all_within_remove all_within_update)

lemma all_within_upload:
  assumes "all_within sc t" and "tn_store t sid = Some d" and "set (pi_credit_wakes pio) \<subseteq> {CreditCancelled}"
    and "pump_member_to_node env pio rt ps t sid d cancelled member = Some (ps', t', p)"
  shows "all_within sc t'"
proof -
  have d: "all_within sc (tn_update t sid (d\<lparr>se_send_credit := c\<rparr>))" for c
    using all_within_update [OF assms(1)] all_withinD [OF assms(1,2)] by simp
  show ?thesis
    using assms(4,3) by (cases rule: pump_member_to_node_effect) (use assms(1) d all_within_tn_send in auto)
qed

lemma within_download:
  assumes "within sc d" and "se_inbound d = InData bytes # rest" and "unat amount \<le> length bytes"
  shows "within sc (d\<lparr>se_inbound := rest, se_receive_remaining := se_receive_remaining d + ucast (amount :: u32)\<rparr>)"
proof -
  have "unat (se_receive_remaining d) + unat (ucast amount :: u64) < 2 ^ 64"
    using assms unat_u32_less [of "sc_initial_window_bytes sc"]
    by (simp add: within_def del: unat_u32_less)
  then show ?thesis using assms by (auto simp: within_def unat_add_u64)
qed

lemma all_within_download:
  assumes "all_within sc t" and "tn_store t sid = Some d"
    and "pump_node_to_member env pio rt ps t sid d cancelled written = Some (out, ps', t', p)"
  shows "all_within sc t'"
  using assms(3)
proof (cases rule: pump_node_to_member_effect)
  case (control m rest r)
  then have "within sc (d\<lparr>se_inbound := rest\<rparr>)"
    using all_withinD [OF assms(1,2)] by (cases m) (auto simp: within_def)
  then show ?thesis using control(5) all_within_update [OF assms(1)] by simp
next
  case (stopped bytes rest d' amount e)
  then show ?thesis
    using all_within_update [OF assms(1)] within_download [OF all_withinD [OF assms(1,2)]] by simp
next
  case (told bytes rest d' amount a b)
  then show ?thesis
    using all_within_update [OF assms(1)] within_download [OF all_withinD [OF assms(1,2)]]
      all_within_tn_send [OF told(6)] by simp
qed (use assms(1) in simp)

lemma all_within_finish:
  "all_within sc t \<Longrightarrow> tn_store t sid = Some d \<Longrightarrow> all_within sc (member_finish t sid d outcome)"
  by (auto simp: member_finish_def Let_def all_withinD all_within_send split: sum.splits
      intro!: all_within_remove all_within_update)

lemma relay_step_within:
  assumes "relay_step sc s l s'" and "all_within sc (rs_tunnel s)"
  shows "all_within sc (rs_tunnel s')"
  using assms
proof (induction rule: relay_step.induct)
  case (peer_frame now s f t' r)
  then show ?case
    using all_within_dispatch [OF peer_frame(2,1)]
    by (auto simp: reader_returned_def split: sum.splits intro: all_within_cancel)
next
  case (tunnel_beat rc s n now now_utc t' n' b)
  then show ?case
    by (auto simp: heartbeat_pass_def Let_def split: if_splits sum.splits dest: all_within_send [where sc = sc])
qed (auto intro: all_within_open all_within_opened all_within_upload all_within_download all_within_finish)

interpretation hs: invariant_system "relay_step sc" "\<lambda>s. all_within sc (rs_tunnel s)" for sc
  by unfold_locales (rule relay_step_within)

section \<open>Properties\<close>

text \<open>Claim C9: a node cannot make the relay buffer without bound. Whatever frames a node sends, in whatever order
  and at whatever time, the bytes that wait for a member on a stream never exceed the window of the stream,
  and the messages that wait never exceed the capacity of its queue.\<close>

theorem hostile_node_bounded:
  assumes "reaches (relay_step sc) \<lparr>rs_next = next_id, rs_tunnel = new_tunnel session_id now\<rparr> ls s"
    and "tn_store (rs_tunnel s) sid = Some d"
  shows "length (inbound_data (se_inbound d)) \<le> unat (sc_initial_window_bytes sc)
    \<and> length (se_inbound d) \<le> sc_stream_buffer_frames sc"
proof -
  have "all_within sc (rs_tunnel s)"
    using hs.reaches_inv [OF assms(1)] by (simp add: all_within_def new_tunnel_def)
  then show ?thesis using all_withinD [OF _ assms(2), of sc] by (simp add: within_def)
qed

text \<open>A node that sends data on a stream it has not answered yet.\<close>

lemma early_data_run:
  "reaches (relay_step demo_server) \<lparr>rs_next = 1, rs_tunnel = new_tunnel 1 0\<rparr>
     [StreamOpen, PeerFrame (frame_new Data 1 [7])]
     \<lparr>rs_next = 3, rs_tunnel = demo_relay [frame_u32 Open 1 262144] (demo_dispatch [InData [7]] 262143 0 None)\<rparr>"
proof -
  have opened: "relay_step demo_server \<lparr>rs_next = 1, rs_tunnel = new_tunnel 1 0\<rparr> StreamOpen
      \<lparr>rs_next = 3, rs_tunnel = close_relay_1\<rparr>"
    using stream_open [of demo_server "\<lparr>rs_next = 1, rs_tunnel = new_tunnel 1 0\<rparr>"] close_eval_1 by simp
  have "relay_dispatch 0 close_relay_1 (frame_new Data 1 [7]) =
      (demo_relay [frame_u32 Open 1 262144] (demo_dispatch [InData [7]] 262143 0 None), Inr ())"
    by (simp add: relay_dispatch_def relay_data_def stream_dispatch_def find_stream_def tn_lookup_def
        debit_receive_window_def debit_def try_send_def tn_update_def u64_try_from_def checked_sub_u64_def Let_def
        demo_end_defs)
  then have "relay_step demo_server \<lparr>rs_next = 3, rs_tunnel = close_relay_1\<rparr> (PeerFrame (frame_new Data 1 [7]))
      \<lparr>rs_next = 3, rs_tunnel = demo_relay [frame_u32 Open 1 262144] (demo_dispatch [InData [7]] 262143 0 None)\<rparr>"
    using peer_frame [of 0 "\<lparr>rs_next = 3, rs_tunnel = close_relay_1\<rparr>" _ _ "Inr ()" demo_server]
    by (fastforce simp: reader_returned_def)
  then show ?thesis
    by (rule reaches_Cons [where step = "relay_step demo_server", OF opened
          reaches_single [where step = "relay_step demo_server"]])
qed

theorem hostile_node_bounded_witness:
  "\<exists>s d. reaches (relay_step demo_server) \<lparr>rs_next = 1, rs_tunnel = new_tunnel 1 0\<rparr>
       [StreamOpen, PeerFrame (frame_new Data 1 [7])] s
     \<and> tn_store (rs_tunnel s) 1 = Some d \<and> inbound_data (se_inbound d) = [7]
     \<and> length (inbound_data (se_inbound d)) \<le> 262144"
proof -
  have d: "tn_store (demo_relay [frame_u32 Open 1 262144] (demo_dispatch [InData [7]] 262143 0 None)) 1
      = Some (demo_dispatch [InData [7]] 262143 0 None)"
    "inbound_data (se_inbound (demo_dispatch [InData [7]] 262143 0 None)) = [7]"
    by (simp_all add: demo_end_defs)
  then show ?thesis using early_data_run hostile_node_bounded [OF early_data_run] by fastforce
qed

end
