(* ===== verification/Relay_Node_Properties.thy ===== *)
theory Relay_Node_Properties
  imports Relay_Node
begin

text \<open>
  The reconnect loop of the connector (\<open>run\<close> in \<open>relay-server/src/node.rs\<close>): the delays between sessions
  in closed form, and the end of the loop once the shutdown was requested.
\<close>

section \<open>The delays\<close>

text \<open>A session that failed before it could have missed a heartbeat does not reset the backoff.\<close>

definition short_session :: "node_config \<Rightarrow> nat \<Rightarrow> bool" where
  "short_session c elapsed \<longleftrightarrow> elapsed < from_secs (nc_heartbeat_timeout_secs c)"

text \<open>How many sessions failed early since the last one that did not, the first session not counted.\<close>

definition early_failures :: "node_config \<Rightarrow> nat list \<Rightarrow> nat" where
  "early_failures c es = length (takeWhile (short_session c) (rev (tl es)))"

definition backoff_delay :: "node_config \<Rightarrow> nat list \<Rightarrow> nat" where
  "backoff_delay c es =
     min (from_millis (nc_reconnect_initial_ms c) * 2 ^ early_failures c es) (from_secs (nc_reconnect_max_secs c))"

definition attempts :: "node_config \<Rightarrow> nat list \<Rightarrow> connector_status list" where
  "attempts c es = concat (map (\<lambda>i. [Connecting, Backoff (backoff_delay c (take (Suc i) es))]) [0..<length es])"

definition backoff_start :: "node_config \<Rightarrow> backoff" where
  "backoff_start c = backoff_new (from_millis (nc_reconnect_initial_ms c)) (from_secs (nc_reconnect_max_secs c))"

definition backoff_after :: "node_config \<Rightarrow> nat list \<Rightarrow> backoff" where
  "backoff_after c es = fold (\<lambda>e b. snd (after_session c e b)) es (backoff_start c)"

lemma attempts_snoc: "attempts c (es @ [e]) = attempts c es @ [Connecting, Backoff (backoff_delay c (es @ [e]))]"
proof -
  have "map (\<lambda>i. [Connecting, Backoff (backoff_delay c (take (Suc i) (es @ [e])))]) [0..<length es]
      = map (\<lambda>i. [Connecting, Backoff (backoff_delay c (take (Suc i) es))]) [0..<length es]"
    by (rule map_cong) auto
  then show ?thesis by (simp only: attempts_def length_append_singleton upt_Suc_append map_append concat_append) simp
qed

lemma attempts_delays: "Backoff d \<in> set (attempts c es) \<Longrightarrow> \<exists>xs. d = backoff_delay c xs"
  by (auto simp: attempts_def split: if_splits)

lemma connector_loop_append:
  "connector_loop c b (map SessionEnded es @ rest)
   = connector_loop c b (map SessionEnded es)
     @ connector_loop c (fold (\<lambda>e b. snd (after_session c e b)) es b) rest"
  by (induction es arbitrary: b) auto

lemma connector_run_append:
  "connector_run c (map SessionEnded es @ rest)
   = connector_run c (map SessionEnded es) @ connector_loop c (backoff_after c es) rest"
  by (simp add: connector_run_def connector_loop_append backoff_after_def backoff_start_def)

lemma early_failures_snoc:
  "es \<noteq> [] \<Longrightarrow> early_failures c (es @ [e]) = (if short_session c e then Suc (early_failures c es) else 0)"
  by (simp add: early_failures_def)

lemma from_secs_bound: "from_secs s \<le> DURATION_MAX"
proof -
  have "unat s < 2 ^ 64" using unsigned_less [of s] by simp
  then have "unat s * NANOS \<le> (2 ^ 64 - 1) * NANOS" by (intro mult_le_mono1) linarith
  also have "\<dots> \<le> DURATION_MAX" by (simp add: DURATION_MAX_def NANOS_def)
  finally show ?thesis by (simp add: from_secs_def)
qed

text \<open>Doubling and capping is the same as capping the doubled initial delay.\<close>

lemma min_double: "min (min (min (a * 2 ^ k) m * 2) d) m = min (a * 2 ^ Suc k) m" if "m \<le> d" for a m d :: nat
  using that by (auto simp: min_def)

lemma validate_node_backoff:
  "validate_node c = Inr () \<Longrightarrow> from_millis (nc_reconnect_initial_ms c) \<le> from_secs (nc_reconnect_max_secs c)"
  by (auto simp: validate_node_def from_millis_def from_secs_def NANOS_def split: if_splits)

lemma backoff_after_fixed:
  "bo_initial (backoff_after c es) = from_millis (nc_reconnect_initial_ms c)
   \<and> bo_maximum (backoff_after c es) = from_secs (nc_reconnect_max_secs c)"
  by (induction es rule: rev_induct)
    (simp_all add: backoff_after_def backoff_start_def backoff_new_def after_session_def next_delay_def backoff_reset_def)

lemma after_session_next:
  "bo_next (snd (after_session c e b)) = min (min (fst (after_session c e b) * 2) DURATION_MAX) (bo_maximum b)"
  by (simp add: after_session_def next_delay_def backoff_reset_def)

lemma after_session_delay:
  "fst (after_session c e b) = (if short_session c e then bo_next b else bo_initial b)"
  by (simp add: after_session_def next_delay_def backoff_reset_def short_session_def)

lemma delay_closed_form:
  assumes valid: "validate_node c = Inr ()"
  shows "fst (after_session c e (backoff_after c es)) = backoff_delay c (es @ [e])"
proof (induction es arbitrary: e rule: rev_induct)
  case Nil
  show ?case using validate_node_backoff [OF valid]
    by (simp add: after_session_delay backoff_after_def backoff_start_def backoff_new_def backoff_delay_def early_failures_def)
next
  case (snoc x xs)
  have fixed: "bo_maximum (backoff_after c xs) = from_secs (nc_reconnect_max_secs c)"
    "bo_initial (backoff_after c (xs @ [x])) = from_millis (nc_reconnect_initial_ms c)"
    using backoff_after_fixed by blast+
  have "bo_next (backoff_after c (xs @ [x])) = min (min (backoff_delay c (xs @ [x]) * 2) DURATION_MAX) (from_secs (nc_reconnect_max_secs c))"
    using after_session_next [of c x "backoff_after c xs"] snoc.IH [of x] fixed(1) by (simp add: backoff_after_def)
  then have short: "bo_next (backoff_after c (xs @ [x]))
      = min (from_millis (nc_reconnect_initial_ms c) * 2 ^ Suc (early_failures c (xs @ [x]))) (from_secs (nc_reconnect_max_secs c))"
    unfolding backoff_delay_def by (simp only: min_double [OF from_secs_bound])
  show ?case
    using early_failures_snoc [of "xs @ [x]" c e] short fixed(2) validate_node_backoff [OF valid]
    by (simp add: after_session_delay backoff_delay_def)
qed

lemma connector_run_attempts:
  "validate_node c = Inr () \<Longrightarrow> connector_run c (map SessionEnded es) = attempts c es"
proof (induction es rule: rev_induct)
  case Nil
  show ?case by (simp add: connector_run_def attempts_def)
next
  case (snoc x xs)
  then show ?case
    using connector_run_append [of c xs "[SessionEnded x]"] delay_closed_form [of c x xs] by (simp add: attempts_snoc)
qed

lemma backoff_delay_bounds:
  "validate_node c = Inr () \<Longrightarrow>
   from_millis (nc_reconnect_initial_ms c) \<le> backoff_delay c es \<and> backoff_delay c es \<le> from_secs (nc_reconnect_max_secs c)"
  using validate_node_backoff by (simp add: backoff_delay_def)

section \<open>Properties\<close>

definition stop_statuses :: "node_config \<Rightarrow> nat list \<Rightarrow> session_end \<Rightarrow> connector_status list" where
  "stop_statuses c es stop =
     (case stop of
        ShutdownBefore \<Rightarrow> [Stopped]
      | ShutdownDuring \<Rightarrow> [Connecting, Stopped]
      | ShutdownAsleep e \<Rightarrow> [Connecting, Backoff (backoff_delay c (es @ [e])), Stopped]
      | SessionEnded e \<Rightarrow> [Connecting, Backoff (backoff_delay c (es @ [e]))])"

text \<open>Claim C16: the connector reconnects with capped exponential backoff. Under a valid configuration, whatever the
  lengths of the sessions, the delay after a session is the initial delay doubled once for every session that
  failed early since the last long one, never more than the maximum and never less than the initial delay; and when
  the shutdown comes, before a session, during one or during the sleep after one, the loop ends with \<open>Stopped\<close>,
  without another attempt.\<close>

theorem reconnect_backoff:
  assumes "validate_node c = Inr ()" and "\<And>e. stop \<noteq> SessionEnded e"
  shows "connector_run c (map SessionEnded es @ stop # rest) = attempts c es @ stop_statuses c es stop
    \<and> (\<forall>d. Backoff d \<in> set (connector_run c (map SessionEnded es @ stop # rest)) \<longrightarrow>
          from_millis (nc_reconnect_initial_ms c) \<le> d \<and> d \<le> from_secs (nc_reconnect_max_secs c))
    \<and> last (connector_run c (map SessionEnded es @ stop # rest)) = Stopped"
proof -
  have run: "connector_run c (map SessionEnded es @ stop # rest) = attempts c es @ stop_statuses c es stop"
    using connector_run_append [of c es "stop # rest"] connector_run_attempts [OF assms(1), of es]
      delay_closed_form [OF assms(1)] assms(2) by (cases stop) (auto simp: stop_statuses_def)
  moreover have "last (stop_statuses c es stop) = Stopped" "stop_statuses c es stop \<noteq> []"
    using assms(2) by (cases stop; simp add: stop_statuses_def)+
  moreover have "from_millis (nc_reconnect_initial_ms c) \<le> d \<and> d \<le> from_secs (nc_reconnect_max_secs c)"
    if "Backoff d \<in> set (attempts c es @ stop_statuses c es stop)" for d
  proof -
    have "\<exists>xs. d = backoff_delay c xs"
      using that attempts_delays by (cases stop) (auto simp: stop_statuses_def)
    then show ?thesis using backoff_delay_bounds [OF assms(1)] by blast
  qed
  ultimately show ?thesis by simp
qed

theorem reconnect_backoff_witness:
  "connector_run demo_node (map SessionEnded [0, 0, 60 * NANOS, 0] @ [ShutdownAsleep 0, ShutdownBefore])
   = [Connecting, Backoff (NANOS div 2), Connecting, Backoff NANOS, Connecting, Backoff (NANOS div 2),
      Connecting, Backoff NANOS, Connecting, Backoff (2 * NANOS), Stopped]"
  using reconnect_backoff [of demo_node "ShutdownAsleep 0" "[0, 0, 60 * NANOS, 0]" "[ShutdownBefore]"] demo_node_valid
  by (simp add: attempts_def stop_statuses_def backoff_delay_def early_failures_def short_session_def demo_node_def
      node_default_defs from_secs_def from_millis_def NANOS_def)

end
