(* ===== verification/Relay_Server.thy ===== *)
theory Relay_Server
  imports Registry Relay_Node Relay_Stream "HOL-Library.AList"
begin

text \<open>
  The state of the relay server (\<open>relay-server/src/relay.rs\<close>): its routes and how a reload replaces them,
  the registration of nodes, the tunnel of a route, and shutdown. The objects behind \<open>Arc\<close> live in stores: a
  route that was revoked keeps its object, and so do the tunnels that still run on it.
\<close>

section \<open>State\<close>

text \<open>A tunnel session with the position of the route it was registered on.\<close>

type_synonym session = "nat \<times> tunnel_session"

text \<open>
  \<open>ServerState\<close>. The hash maps are association lists; the cancellation tokens are a tree, so that the
  cancellation of a route is that of its tunnels. \<open>ss_next_session\<close> is the counter of \<open>random_session_id\<close>.
\<close>

record server_state =
  ss_server_config :: server_config
  ss_managed_routes :: "managed_routes_config option"
  ss_static_routes :: "route_config list"
  ss_managed_fingerprint :: "byte list option"
  ss_configured_routes :: "string \<rightharpoonup> route_config"
  ss_active_routes :: "(string \<times> nat) list"
  ss_runtimes :: "route_runtime list"
  ss_sessions :: "u64 \<rightharpoonup> session"
  ss_next_session :: u64
  ss_node_slots :: nat
  ss_metrics :: metrics
  ss_disk :: disk
  ss_quota_store :: "quota_store option"
  ss_shutdown :: bool

definition runtime_at :: "server_state \<Rightarrow> nat \<Rightarrow> route_runtime" where
  "runtime_at s a = ss_runtimes s ! a"

definition set_runtime :: "server_state \<Rightarrow> nat \<Rightarrow> route_runtime \<Rightarrow> server_state" where
  "set_runtime s a rt = s\<lparr>ss_runtimes := (ss_runtimes s)[a := rt]\<rparr>"

section \<open>The tunnel of a route\<close>

text \<open>Cancellation of one tunnel, and of all tunnels of a route with the token of the route.\<close>

definition cancel_session :: "server_state \<Rightarrow> u64 \<Rightarrow> server_state" where
  "cancel_session s tid =
     s\<lparr>ss_sessions := (ss_sessions s)(tid := map_option (\<lambda>(a, t). (a, t\<lparr>tn_cancelled := True\<rparr>)) (ss_sessions s tid))\<rparr>"

definition cancel_runtime :: "server_state \<Rightarrow> nat \<Rightarrow> server_state" where
  "cancel_runtime s a =
     set_runtime s a ((runtime_at s a)\<lparr>rr_cancelled := True\<rparr>)
       \<lparr>ss_sessions := (\<lambda>tid. map_option (\<lambda>(b, t). (b, if b = a then t\<lparr>tn_cancelled := True\<rparr> else t)) (ss_sessions s tid))\<rparr>"

definition current_tunnel :: "server_state \<Rightarrow> nat \<Rightarrow> u64 option" where
  "current_tunnel s a =
     (case rr_tunnel (runtime_at s a) of
        None \<Rightarrow> None
      | Some tid \<Rightarrow>
          (case ss_sessions s tid of
             None \<Rightarrow> None
           | Some (b, t) \<Rightarrow> if tn_cancelled t then None else Some tid))"

definition active_tunnels_store :: "server_state \<Rightarrow> nat \<Rightarrow> u64 \<Rightarrow> server_state" where
  "active_tunnels_store s a n =
     s\<lparr>ss_metrics := metrics_at (ss_metrics s) (rr_metrics (runtime_at s a)) (\<lambda>x. x\<lparr>rm_active_tunnels := n\<rparr>)\<rparr>"

definition register_tunnel :: "server_state \<Rightarrow> nat \<Rightarrow> u64 \<Rightarrow> server_state" where
  "register_tunnel s a tid =
     (let old = rr_tunnel (runtime_at s a);
          s1 = set_runtime s a ((runtime_at s a)\<lparr>rr_tunnel := Some tid\<rparr>);
          s2 = (case old of
                  None \<Rightarrow> s1
                | Some o_id \<Rightarrow>
                    cancel_session
                      (s1\<lparr>ss_metrics := metrics_at (ss_metrics s1) (rr_metrics (runtime_at s a))
                            (\<lambda>x. x\<lparr>rm_tunnel_replacements := rm_tunnel_replacements x + 1\<rparr>)\<rparr>) o_id)
      in active_tunnels_store s2 a 1)"

definition remove_tunnel :: "server_state \<Rightarrow> nat \<Rightarrow> u64 \<Rightarrow> server_state" where
  "remove_tunnel s a tid =
     (if rr_tunnel (runtime_at s a) = Some tid
      then active_tunnels_store (set_runtime s a ((runtime_at s a)\<lparr>rr_tunnel := None\<rparr>)) a 0
      else s)"

definition revoke :: "server_state \<Rightarrow> nat \<Rightarrow> server_state" where
  "revoke s a =
     (let s1 = cancel_runtime s a;
          s2 = (case rr_tunnel (runtime_at s1 a) of
                  None \<Rightarrow> s1
                | Some tid \<Rightarrow> cancel_session (set_runtime s1 a ((runtime_at s1 a)\<lparr>rr_tunnel := None\<rparr>)) tid)
      in active_tunnels_store s2 a 0)"

section \<open>Routes\<close>

text \<open>What binding a listener meets: the outcome of each attempt, and the address of the listener.\<close>

record bind_io =
  bi_attempt :: "nat \<Rightarrow> (io_kind, unit) result"
  bi_local :: "(io_kind, socket_addr) result"

fun bind_attempts :: "nat \<Rightarrow> nat \<Rightarrow> bind_io \<Rightarrow> io_kind \<Rightarrow> (relay_error, unit) result" where
  "bind_attempts 0 i b last_error = Inl (Io last_error)"
| "bind_attempts (Suc n) i b last_error =
     (case bi_attempt b i of
        Inr _ \<Rightarrow> Inr ()
      | Inl k \<Rightarrow> bind_attempts n (i + 1) b k)"

text \<open>The last argument is the error of the case without any attempt.\<close>

definition bind_with_short_retry :: "bind_io \<Rightarrow> (relay_error, unit) result" where
  "bind_with_short_retry b = bind_attempts 10 0 b IoOther"

text \<open>
  What \<open>apply_routes\<close> meets outside: the quota file and the clock for \<open>reconcile\<close>, the order in which the
  hash map of the routes is traversed, and for each route the clock and its listener.
\<close>

record apply_io =
  ai_quota_env :: quota_env
  ai_quota_io :: write_io
  ai_joined :: bool
  ai_now :: odt
  ai_order :: "string list"
  ai_route_now :: "string \<Rightarrow> odt"
  ai_bind :: "string \<Rightarrow> bind_io"
  ai_instant :: nat

definition quota_required :: relay_error where
  "quota_required = Config ''finite monthly route limits require managed quota state''"

definition start_route ::
  "apply_io \<Rightarrow> server_state \<Rightarrow> route_config \<Rightarrow> server_state \<times> (relay_error, nat) result" where
  "start_route io s config =
     (case rbind (bind_with_short_retry (ai_bind io (rc_route_id config))) (\<lambda>_.
           rbind (io_result (bi_local (ai_bind io (rc_route_id config)))) (\<lambda>public_address.
           (case rc_monthly_byte_limit config of
              None \<Rightarrow> Inr (public_address, None)
            | Some limit \<Rightarrow>
                (case ss_quota_store s of
                   None \<Rightarrow> Inl quota_required
                 | Some _ \<Rightarrow> Inr (public_address, Some (quota_route (rc_route_id config) limit)))))) of
        Inl e \<Rightarrow> (s, Inl e)
      | Inr (public_address, quota) \<Rightarrow>
          (case metrics_route (ss_metrics s) (rc_route_id config) of
             (m, mid) \<Rightarrow>
               (s\<lparr>ss_metrics := m,
                  ss_runtimes := ss_runtimes s @
                    [\<lparr>rr_config = config, rr_public_address = public_address,
                      rr_server_config = ss_server_config s, rr_tunnel = None,
                      rr_free_slots = rc_max_concurrent_streams config, rr_next_stream_id = 1,
                      rr_rate_limiter = rate_limiter_new (rc_max_bytes_per_second config) (ai_instant io),
                      rr_quota = quota, rr_metrics = mid, rr_cancelled = ss_shutdown s\<rparr>]\<rparr>,
                Inr (length (ss_runtimes s)))))"

fun start_routes ::
  "apply_io \<Rightarrow> (string \<rightharpoonup> route_config) \<Rightarrow> string list \<Rightarrow> server_state \<Rightarrow> server_state \<times> (relay_error, unit) result" where
  "start_routes io nxt [] s = (s, Inr ())"
| "start_routes io nxt (rid # rids) s =
     (case nxt rid of
        None \<Rightarrow> start_routes io nxt rids s
      | Some route \<Rightarrow>
          if \<not> rc_enabled route \<or> is_expired route (ai_route_now io rid) then start_routes io nxt rids s
          else if map_of (ss_active_routes s) rid \<noteq> None then start_routes io nxt rids s
          else
            (case start_route io s route of
               (s1, Inl e) \<Rightarrow> (s1, Inl e)
             | (s1, Inr a) \<Rightarrow>
                 start_routes io nxt rids (s1\<lparr>ss_active_routes := AList.update rid a (ss_active_routes s1)\<rparr>)))"

definition next_routes :: "route_config list \<Rightarrow> string \<rightharpoonup> route_config" where
  "next_routes routes = map_of (rev (map (\<lambda>r. (rc_route_id r, r)) routes))"

definition changed_routes :: "server_state \<Rightarrow> (string \<rightharpoonup> route_config) \<Rightarrow> string list" where
  "changed_routes s nxt =
     map fst (filter (\<lambda>(rid, a). nxt rid \<noteq> Some (rr_config (runtime_at s a))) (ss_active_routes s))"

definition removed_routes :: "server_state \<Rightarrow> (string \<rightharpoonup> route_config) \<Rightarrow> string list" where
  "removed_routes s nxt = filter (\<lambda>rid. nxt rid = None) (map fst (ss_active_routes s))"

definition revoke_route :: "string \<Rightarrow> server_state \<Rightarrow> server_state" where
  "revoke_route rid s =
     (case map_of (ss_active_routes s) rid of
        None \<Rightarrow> s
      | Some a \<Rightarrow> revoke (s\<lparr>ss_active_routes := AList.delete rid (ss_active_routes s)\<rparr>) a)"

definition apply_quota ::
  "apply_io \<Rightarrow> server_state \<Rightarrow> route_config list \<Rightarrow> server_state \<times> (relay_error, unit) result" where
  "apply_quota io s routes =
     (let quota_routes = map rc_route_id (filter (\<lambda>r. rc_monthly_byte_limit r \<noteq> None) routes) in
      case ss_quota_store s of
        Some store \<Rightarrow>
          (case store_reconcile (ai_quota_env io) (ai_quota_io io) (ai_joined io) (ss_disk s) store quota_routes
                  (ai_now io) of
             (d, store', r) \<Rightarrow> (s\<lparr>ss_disk := d, ss_quota_store := Some store'\<rparr>, r))
      | None \<Rightarrow> (s, if quota_routes = [] then Inr () else Inl quota_required))"

definition apply_routes ::
  "apply_io \<Rightarrow> server_state \<Rightarrow> route_config list \<Rightarrow> server_state \<times> (relay_error, unit) result" where
  "apply_routes io s routes =
     (case apply_quota io s routes of
        (s1, Inl e) \<Rightarrow> (s1, Inl e)
      | (s1, Inr _) \<Rightarrow>
          let nxt = next_routes routes;
              changed = changed_routes s1 nxt;
              removed = removed_routes s1 nxt;
              s2 = fold revoke_route (changed @ removed) s1 in
          (case start_routes io nxt (ai_order io) s2 of
             (s3, Inl e) \<Rightarrow> (s3, Inl e)
           | (s3, Inr _) \<Rightarrow>
               (s3\<lparr>ss_configured_routes := nxt,
                   ss_metrics := fold (\<lambda>rid m. metrics_remove_route m rid) removed (ss_metrics s3)\<rparr>,
                Inr ())))"

section \<open>Start, reload and the watchers\<close>

text \<open>What loading the managed routes meets, and what starting the server meets.\<close>

record registry_io =
  gi_joined :: bool
  gi_directory :: "metadata option"
  gi_listing :: "route_file option list option"
  gi_now :: odt

record start_io =
  st_quota_joined :: bool
  st_quota_stat :: bool
  st_disk :: disk
  st_acceptor :: "(relay_error, unit) result"
  st_node_bind :: "(io_kind, unit) result"
  st_metrics_bind :: "(io_kind, unit) result"
  st_node_address :: "(io_kind, socket_addr) result"
  st_metrics_address :: "(io_kind, socket_addr) result"

definition load_routes ::
  "registry_env \<Rightarrow> registry_io \<Rightarrow> relay_config \<Rightarrow> (relay_error, route_config list \<times> byte list option) result" where
  "load_routes re gio cfg = load_effective_routes re (gi_joined gio) (gi_directory gio) (gi_listing gio) cfg (gi_now gio)"

definition server_start ::
  "registry_env \<Rightarrow> registry_io \<Rightarrow> start_io \<Rightarrow> apply_io \<Rightarrow> relay_config \<Rightarrow> disk \<times> (relay_error, server_state) result" where
  "server_start re gio sio io cfg =
     (case rbind (validate_config cfg) (\<lambda>_. load_routes re gio cfg) of
        Inl e \<Rightarrow> (st_disk sio, Inl e)
      | Inr (effective_routes, fingerprint) \<Rightarrow>
          (case (case cfg_managed_routes cfg of
                   None \<Rightarrow> (st_disk sio, Inr None)
                 | Some managed \<Rightarrow>
                     (case quota_open (ai_quota_env io) (ai_quota_io io) (st_quota_joined sio) (st_quota_stat sio)
                             (st_disk sio) (sc_max_routes (cfg_server cfg)) (ai_now io) of
                        (d, Inl e) \<Rightarrow> (d, Inl e)
                      | (d, Inr store) \<Rightarrow> (d, Inr (Some store)))) of
             (d, Inl e) \<Rightarrow> (d, Inl e)
           | (d, Inr store) \<Rightarrow>
               (case rbind (st_acceptor sio) (\<lambda>_.
                     rbind (io_result (st_node_bind sio)) (\<lambda>_.
                     rbind (io_result (st_metrics_bind sio)) (\<lambda>_.
                     rbind (io_result (st_node_address sio)) (\<lambda>_.
                     io_result (st_metrics_address sio))))) of
                  Inl e \<Rightarrow> (d, Inl e)
                | Inr _ \<Rightarrow>
                    (case apply_routes io
                            \<lparr>ss_server_config = cfg_server cfg, ss_managed_routes = cfg_managed_routes cfg,
                             ss_static_routes = cfg_routes cfg, ss_managed_fingerprint = fingerprint,
                             ss_configured_routes = Map.empty, ss_active_routes = [], ss_runtimes = [],
                             ss_sessions = Map.empty, ss_next_session = 1,
                             ss_node_slots = sc_max_node_connections (cfg_server cfg), ss_metrics = metrics_default,
                             ss_disk = d, ss_quota_store = store, ss_shutdown = False\<rparr> effective_routes of
                       (s, Inl e) \<Rightarrow> (ss_disk s, Inl e)
                     | (s, Inr _) \<Rightarrow> (ss_disk s, Inr s)))))"

definition reload ::
  "registry_env \<Rightarrow> registry_io \<Rightarrow> apply_io \<Rightarrow> server_state \<Rightarrow> relay_config \<Rightarrow> server_state \<times> (relay_error, unit) result" where
  "reload re gio io s cfg =
     (case validate_config cfg of
        Inl e \<Rightarrow> (s, Inl e)
      | Inr _ \<Rightarrow>
          if cfg_server cfg \<noteq> ss_server_config s \<or> cfg_managed_routes cfg \<noteq> ss_managed_routes s
          then (s, Inl (Config ''server settings changed; restart is required''))
          else
            (case load_routes re gio cfg of
               Inl e \<Rightarrow> (s, Inl e)
             | Inr (effective_routes, fingerprint) \<Rightarrow>
                 (case apply_routes io s effective_routes of
                    (s1, Inl e) \<Rightarrow> (s1, Inl e)
                  | (s1, Inr _) \<Rightarrow>
                      (s1\<lparr>ss_static_routes := cfg_routes cfg, ss_managed_fingerprint := fingerprint\<rparr>, Inr ()))))"

text \<open>The length and the modification time of the configuration file.\<close>

type_synonym file_fingerprint = "u64 \<times> int"

definition reload_failed :: "server_state \<Rightarrow> server_state" where
  "reload_failed s = s\<lparr>ss_metrics := record_reload_failure (ss_metrics s)\<rparr>"

text \<open>One pass of the loop of \<open>watch_config\<close> after its sleep; \<open>loaded\<close> is the outcome of \<open>RelayConfig::load\<close>.\<close>

definition watch_config_pass ::
  "registry_env \<Rightarrow> registry_io \<Rightarrow> apply_io \<Rightarrow> server_state \<Rightarrow> file_fingerprint option \<Rightarrow> file_fingerprint option \<Rightarrow>
   (relay_error, relay_config) result \<Rightarrow> server_state \<times> file_fingerprint option" where
  "watch_config_pass re gio io s seen current loaded =
     (if current \<noteq> None \<and> current \<noteq> seen
      then (case loaded of
              Inl _ \<Rightarrow> (reload_failed s, seen)
            | Inr config \<Rightarrow>
                (case reload re gio io s config of
                   (s1, Inl _) \<Rightarrow> (reload_failed s1, seen)
                 | (s1, Inr _) \<Rightarrow> (s1, current)))
      else (s, seen))"

text \<open>One pass of the loop of \<open>run_managed_routes_watcher\<close> after its sleep.\<close>

definition managed_routes_pass :: "registry_env \<Rightarrow> registry_io \<Rightarrow> apply_io \<Rightarrow> server_state \<Rightarrow> server_state" where
  "managed_routes_pass re gio io s =
     (case load_routes re gio \<lparr>cfg_server = ss_server_config s, cfg_managed_routes = ss_managed_routes s,
             cfg_routes = ss_static_routes s\<rparr> of
        Inl _ \<Rightarrow> reload_failed s
      | Inr (routes, fingerprint) \<Rightarrow>
          if ss_managed_fingerprint s = fingerprint then s
          else (case apply_routes io s routes of
                  (s1, Inr _) \<Rightarrow> s1\<lparr>ss_managed_fingerprint := fingerprint\<rparr>
                | (s1, Inl _) \<Rightarrow> reload_failed s1))"

text \<open>The token of the server is the root of the tree: its cancellation reaches every route and tunnel.\<close>

definition cancel_server :: "server_state \<Rightarrow> server_state" where
  "cancel_server s = fold (\<lambda>a s. cancel_runtime s a) [0..<length (ss_runtimes s)] (s\<lparr>ss_shutdown := True\<rparr>)"

definition server_shutdown :: "server_state \<Rightarrow> server_state" where
  "server_shutdown s =
     (let s1 = cancel_server s in fold (\<lambda>(rid, a) s. revoke s a) (ss_active_routes s1) s1)"

text \<open>
  A handle is dropped while the state has that many owners: the handles, the tasks of the listener and of the
  watchers, and the connections of nodes.
\<close>

definition handle_drop :: "nat \<Rightarrow> server_state \<Rightarrow> server_state" where
  "handle_drop strong_count s = (if strong_count = 1 then cancel_server s else s)"

section \<open>Registration of a node\<close>

definition REGISTER_TOKEN_MAX_BYTES :: nat where "REGISTER_TOKEN_MAX_BYTES = 256"

text \<open>
  What \<open>handle_node_connection\<close> meets: the option of the socket, the TLS handshake with the protocol and the
  certificates of the peer, the first frame, and the clocks. \<open>None\<close> is a timeout.
\<close>

record node_io =
  ni_nodelay :: "(io_kind, unit) result"
  ni_tls :: "(string, string option \<times> byte list list option) result option"
  ni_register :: "(relay_error, frame option) result option"
  ni_now :: odt
  ni_instant :: nat

definition heartbeat_hint :: "server_config \<Rightarrow> u32" where
  "heartbeat_hint sc =
     (if unat (sc_heartbeat_interval_secs sc) < 2 ^ 32 then ucast (sc_heartbeat_interval_secs sc) else - 1)"

text \<open>The beginning of \<open>run_tunnel\<close>: the session, its registration and the answer to the node.\<close>

definition run_tunnel_begin :: "server_state \<Rightarrow> nat \<Rightarrow> nat \<Rightarrow> server_state \<times> (relay_error, u64) result" where
  "run_tunnel_begin s a now =
     (let tid = ss_next_session s;
          t = (new_tunnel tid now)\<lparr>tn_cancelled := rr_cancelled (runtime_at s a)\<rparr>;
          s1 = register_tunnel (s\<lparr>ss_next_session := tid + 1, ss_sessions := (ss_sessions s)(tid \<mapsto> (a, t))\<rparr>) a tid
      in case tunnel_send t (frame_u32 RegisterOk 0 (heartbeat_hint (rr_server_config (runtime_at s a)))) of
           Inl e \<Rightarrow> (s1, Inl e)
         | Inr t' \<Rightarrow> (s1\<lparr>ss_sessions := (ss_sessions s1)(tid \<mapsto> (a, t'))\<rparr>, Inr tid))"

text \<open>Its end, after the reader returned.\<close>

definition run_tunnel_end :: "server_state \<Rightarrow> u64 \<Rightarrow> server_state" where
  "run_tunnel_end s tid =
     (case ss_sessions s tid of
        None \<Rightarrow> s
      | Some (a, t) \<Rightarrow>
          remove_tunnel
            (s\<lparr>ss_sessions := (ss_sessions s)(tid \<mapsto> (a, cancel_all_streams (t\<lparr>tn_cancelled := True\<rparr>)))\<rparr>) a tid)"

definition write_terminal_error :: "error_code \<Rightarrow> frame list" where
  "write_terminal_error code = [frame_code Error 0 code]"

text \<open>
  The checks of a route that was asked for: the route, or the error that is sent to the node and returned.
\<close>

definition auth_failed :: relay_error where
  "auth_failed = Stable AuthFailed ''route authentication failed''"

definition authenticate ::
  "token_env \<Rightarrow> registry_env \<Rightarrow> (string \<rightharpoonup> route_config) \<Rightarrow> odt \<Rightarrow> byte list \<Rightarrow> string \<Rightarrow> byte list \<Rightarrow>
   (relay_error, route_config) result" where
  "authenticate te re configured now cert route_id token =
     (if token = [] \<or> REGISTER_TOKEN_MAX_BYTES < length token then Inl auth_failed
      else
        (case configured route_id of
           None \<Rightarrow> Inl (Stable RouteUnknown ''route is not configured'')
         | Some rc \<Rightarrow>
             if \<not> rc_enabled rc then Inl (Stable RouteRevoked ''route is disabled'')
             else if is_expired rc now then Inl (Stable GrantExpired ''route grant expired'')
             else if \<not> token_matches te rc (sha256 re token) \<or> \<not> cert_matches te rc (sha256 re cert)
             then Inl auth_failed
             else Inr rc))"

text \<open>The handshake and the first frame: the certificate of the node, the route it asks for and its token.\<close>

definition read_registration :: "node_io \<Rightarrow> (relay_error, byte list \<times> string \<times> byte list) result" where
  "read_registration nio =
     rbind (io_result (ni_nodelay nio)) (\<lambda>_.
     rbind (timed ''TLS handshake timed out'' (ni_tls nio)) (\<lambda>handshake.
     rbind (case handshake of Inl err \<Rightarrow> Inl (Tls (''TLS handshake failed: '' @ err)) | Inr x \<Rightarrow> Inr x) (\<lambda>(alpn, certs).
     rbind (if alpn = Some ''pn-relay-v1'' then Inr ()
            else Inl (Stable ProtocolInvalid ''required relay ALPN was not negotiated'')) (\<lambda>_.
     rbind (case certs of
              Some (c # _) \<Rightarrow> Inr c
            | _ \<Rightarrow> Inl (Stable AuthFailed ''node certificate is missing'')) (\<lambda>cert.
     rbind (timed ''route registration timed out'' (ni_register nio)) (\<lambda>r.
     rbind r (\<lambda>f.
     rbind (case f of None \<Rightarrow> Inl (Stable ProtocolInvalid ''route registration is missing'') | Some x \<Rightarrow> Inr x) (\<lambda>register.
     rbind (parse_register register) (\<lambda>(route_id, token). Inr (cert, route_id, token))))))))))"

text \<open>
  The frames sent before a tunnel runs, and the session that was registered. The connection reads the configured routes
  and the active routes under two locks, one after the other: \<open>configured\<close> is what the first held, and \<open>s\<close> the state at
  the second, which a reload in between may have changed.
\<close>

definition handle_node_connection ::
  "token_env \<Rightarrow> registry_env \<Rightarrow> node_io \<Rightarrow> (string \<rightharpoonup> route_config) \<Rightarrow> server_state \<Rightarrow>
   server_state \<times> frame list \<times> (relay_error, u64) result" where
  "handle_node_connection te re nio configured s =
     (case read_registration nio of
        Inl e \<Rightarrow> (s, [], Inl e)
      | Inr (cert, route_id, token) \<Rightarrow>
          (case authenticate te re configured (ni_now nio) cert route_id token of
             Inl e \<Rightarrow> (s, write_terminal_error (relay_error_code e), Inl e)
           | Inr _ \<Rightarrow>
               (case map_of (ss_active_routes s) route_id of
                  None \<Rightarrow> (s, [], Inl (Stable RouteUnavailable ''route listener is unavailable''))
                | Some a \<Rightarrow> (case run_tunnel_begin s a (ni_instant nio) of (s', r) \<Rightarrow> (s', [], r)))))"

text \<open>What \<open>run_node_listener\<close> counts when a connection ends with an error.\<close>

definition record_node_error :: "relay_error \<Rightarrow> server_state \<Rightarrow> server_state" where
  "record_node_error e s =
     (if relay_error_code e \<in> {AuthFailed, RouteUnknown} then s\<lparr>ss_metrics := record_auth_failure (ss_metrics s)\<rparr>
      else if relay_error_code e \<in> {ProtocolInvalid, FrameTooLarge}
      then s\<lparr>ss_metrics := record_protocol_failure (ss_metrics s)\<rparr>
      else s)"

text \<open>
  A connection the listener accepted takes a permit, or is closed; the permit is back when its task ends.
\<close>

definition node_accepted ::
  "token_env \<Rightarrow> registry_env \<Rightarrow> node_io \<Rightarrow> (string \<rightharpoonup> route_config) \<Rightarrow> server_state \<Rightarrow>
   server_state \<times> frame list \<times> (relay_error, u64) result option" where
  "node_accepted te re nio configured s =
     (if ss_node_slots s = 0 then (s, [], None)
      else
        (case handle_node_connection te re nio configured (s\<lparr>ss_node_slots := ss_node_slots s - 1\<rparr>) of
           (s1, out, Inl e) \<Rightarrow>
             (record_node_error e (s1\<lparr>ss_node_slots := ss_node_slots s1 + 1\<rparr>), out, Some (Inl e))
         | (s1, out, Inr tid) \<Rightarrow> (s1, out, Some (Inr tid))))"

definition node_left :: "server_state \<Rightarrow> u64 \<Rightarrow> (relay_error, unit) result \<Rightarrow> server_state" where
  "node_left s tid r =
     (let s1 = run_tunnel_end s tid; s2 = s1\<lparr>ss_node_slots := ss_node_slots s1 + 1\<rparr>
      in case r of Inl e \<Rightarrow> record_node_error e s2 | Inr _ \<Rightarrow> s2)"

end
