(* ===== verification/Relay_Server_Properties.thy ===== *)
theory Relay_Server_Properties
  imports Relay_Server
begin

text \<open>
  What the server keeps over reloads and registrations: the invariant of its state, what a reload does to
  the routes, and who may register a tunnel.
\<close>

section \<open>The invariant of the state\<close>

definition active_ok :: "server_state \<Rightarrow> bool" where
  "active_ok s \<longleftrightarrow> distinct (map fst (ss_active_routes s)) \<and> distinct (map snd (ss_active_routes s))
     \<and> (\<forall>(rid, a) \<in> set (ss_active_routes s). a < length (ss_runtimes s)
          \<and> rc_route_id (rr_config (runtime_at s a)) = rid \<and> rc_enabled (rr_config (runtime_at s a)))"

text \<open>A route that is not active is cancelled, and after shutdown every route is.\<close>

definition revoked_ok :: "server_state \<Rightarrow> bool" where
  "revoked_ok s \<longleftrightarrow> (\<forall>a < length (ss_runtimes s).
     (a \<notin> snd ` set (ss_active_routes s) \<or> ss_shutdown s) \<longrightarrow> rr_cancelled (runtime_at s a))"

text \<open>A tunnel that is not cancelled is the one its route names, and its route is not cancelled.\<close>

definition sessions_ok :: "server_state \<Rightarrow> bool" where
  "sessions_ok s \<longleftrightarrow> (\<forall>tid a t. ss_sessions s tid = Some (a, t) \<longrightarrow>
     a < length (ss_runtimes s) \<and> unat tid < unat (ss_next_session s)
     \<and> (\<not> tn_cancelled t \<longrightarrow> rr_tunnel (runtime_at s a) = Some tid \<and> \<not> rr_cancelled (runtime_at s a)))"

definition tunnels_ok :: "server_state \<Rightarrow> bool" where
  "tunnels_ok s \<longleftrightarrow> (\<forall>a < length (ss_runtimes s). \<forall>tid. rr_tunnel (runtime_at s a) = Some tid \<longrightarrow>
     (\<exists>t. ss_sessions s tid = Some (a, t)))"

definition server_wf :: "server_state \<Rightarrow> bool" where
  "server_wf s \<longleftrightarrow> active_ok s \<and> revoked_ok s \<and> sessions_ok s \<and> tunnels_ok s"

lemma active_okD:
  assumes "active_ok s" and "(rid, a) \<in> set (ss_active_routes s)"
  shows "a < length (ss_runtimes s)" and "rc_route_id (rr_config (runtime_at s a)) = rid"
    and "rc_enabled (rr_config (runtime_at s a))"
  using assms by (auto simp: active_ok_def)

lemma tunnels_okI:
  "(\<And>a tid. a < length (ss_runtimes s) \<Longrightarrow> rr_tunnel (runtime_at s a) = Some tid \<Longrightarrow> \<exists>t. ss_sessions s tid = Some (a, t)) \<Longrightarrow>
   tunnels_ok s"
  by (simp add: tunnels_ok_def)

lemma tunnels_okD:
  "tunnels_ok s \<Longrightarrow> a < length (ss_runtimes s) \<Longrightarrow> rr_tunnel (runtime_at s a) = Some tid \<Longrightarrow> \<exists>t. ss_sessions s tid = Some (a, t)"
  by (simp add: tunnels_ok_def)

section \<open>What the small operations change\<close>

lemma set_runtime_simps [simp]:
  "ss_sessions (set_runtime s a rt) = ss_sessions s" "ss_active_routes (set_runtime s a rt) = ss_active_routes s"
  "ss_runtimes (set_runtime s a rt) = (ss_runtimes s)[a := rt]" "ss_shutdown (set_runtime s a rt) = ss_shutdown s"
  "ss_next_session (set_runtime s a rt) = ss_next_session s" "ss_configured_routes (set_runtime s a rt) = ss_configured_routes s"
  "ss_metrics (set_runtime s a rt) = ss_metrics s" "ss_quota_store (set_runtime s a rt) = ss_quota_store s"
  by (simp_all add: set_runtime_def)

lemma cancel_session_simps [simp]:
  "ss_runtimes (cancel_session s tid) = ss_runtimes s" "ss_active_routes (cancel_session s tid) = ss_active_routes s"
  "ss_shutdown (cancel_session s tid) = ss_shutdown s" "ss_next_session (cancel_session s tid) = ss_next_session s"
  "ss_configured_routes (cancel_session s tid) = ss_configured_routes s" "ss_metrics (cancel_session s tid) = ss_metrics s"
  "ss_quota_store (cancel_session s tid) = ss_quota_store s"
  by (simp_all add: cancel_session_def)

lemma active_tunnels_store_simps [simp]:
  "ss_runtimes (active_tunnels_store s a n) = ss_runtimes s" "ss_active_routes (active_tunnels_store s a n) = ss_active_routes s"
  "ss_shutdown (active_tunnels_store s a n) = ss_shutdown s" "ss_next_session (active_tunnels_store s a n) = ss_next_session s"
  "ss_configured_routes (active_tunnels_store s a n) = ss_configured_routes s"
  "ss_sessions (active_tunnels_store s a n) = ss_sessions s" "ss_quota_store (active_tunnels_store s a n) = ss_quota_store s"
  by (simp_all add: active_tunnels_store_def)

definition cancelled_if :: "bool \<Rightarrow> session \<Rightarrow> session" where
  "cancelled_if b x = (if b then (fst x, (snd x)\<lparr>tn_cancelled := True\<rparr>) else x)"

lemma cancelled_if_simps [simp]:
  "fst (cancelled_if b x) = fst x" "tn_cancelled (snd (cancelled_if b x)) \<longleftrightarrow> b \<or> tn_cancelled (snd x)"
  "cancelled_if False x = x"
  by (simp_all add: cancelled_if_def)

lemma cancelled_if_pair: "cancelled_if b (a, t) = (a, if b then t\<lparr>tn_cancelled := True\<rparr> else t)"
  by (simp add: cancelled_if_def)

lemma cancel_session_sessions:
  "ss_sessions (cancel_session s tid) tid' = map_option (cancelled_if (tid' = tid)) (ss_sessions s tid')"
  by (cases "ss_sessions s tid'") (auto simp: cancel_session_def cancelled_if_def map_option_case split: option.splits)

lemma cancel_runtime_simps [simp]:
  "ss_runtimes (cancel_runtime s a) = (ss_runtimes s)[a := (runtime_at s a)\<lparr>rr_cancelled := True\<rparr>]"
  "ss_active_routes (cancel_runtime s a) = ss_active_routes s"
  "ss_shutdown (cancel_runtime s a) = ss_shutdown s" "ss_next_session (cancel_runtime s a) = ss_next_session s"
  "ss_configured_routes (cancel_runtime s a) = ss_configured_routes s" "ss_quota_store (cancel_runtime s a) = ss_quota_store s"
  by (simp_all add: cancel_runtime_def)

lemma cancel_runtime_sessions:
  "ss_sessions (cancel_runtime s a) tid = map_option (\<lambda>x. cancelled_if (fst x = a) x) (ss_sessions s tid)"
  by (cases "ss_sessions s tid") (auto simp: cancel_runtime_def cancelled_if_def)

lemma revoke_simps:
  assumes "a < length (ss_runtimes s)"
  shows "ss_runtimes (revoke s a) = (ss_runtimes s)[a := (runtime_at s a)\<lparr>rr_cancelled := True, rr_tunnel := None\<rparr>]"
    and "ss_active_routes (revoke s a) = ss_active_routes s" and "ss_shutdown (revoke s a) = ss_shutdown s"
    and "ss_next_session (revoke s a) = ss_next_session s" and "ss_configured_routes (revoke s a) = ss_configured_routes s"
    and "ss_quota_store (revoke s a) = ss_quota_store s"
    and "ss_sessions (revoke s a) tid =
      map_option (\<lambda>x. cancelled_if (fst x = a \<or> rr_tunnel (runtime_at s a) = Some tid) x) (ss_sessions s tid)"
proof -
  show "ss_runtimes (revoke s a) = (ss_runtimes s)[a := (runtime_at s a)\<lparr>rr_cancelled := True, rr_tunnel := None\<rparr>]"
    "ss_active_routes (revoke s a) = ss_active_routes s" "ss_shutdown (revoke s a) = ss_shutdown s"
    "ss_next_session (revoke s a) = ss_next_session s" "ss_configured_routes (revoke s a) = ss_configured_routes s"
    "ss_quota_store (revoke s a) = ss_quota_store s"
    using assms by (cases "ss_runtimes s ! a", auto simp: revoke_def Let_def runtime_at_def split: option.splits)+
  show "ss_sessions (revoke s a) tid =
      map_option (\<lambda>x. cancelled_if (fst x = a \<or> rr_tunnel (runtime_at s a) = Some tid) x) (ss_sessions s tid)"
    using assms by (cases "ss_sessions s tid")
      (auto simp: revoke_def Let_def runtime_at_def cancel_session_sessions cancel_runtime_sessions cancelled_if_def
        split: option.splits)
qed


lemma runtime_at_update:
  "ss_runtimes s' = (ss_runtimes s)[a := rt] \<Longrightarrow> a < length (ss_runtimes s) \<Longrightarrow>
   runtime_at s' b = (if b = a then rt else runtime_at s b)"
  by (simp add: runtime_at_def)

section \<open>Every operation keeps the invariant\<close>

text \<open>Revocation of a route that was just taken out of the table.\<close>

lemma server_wf_revoke:
  assumes wf: "server_wf s" and a: "(rid, a) \<in> set (ss_active_routes s)"
  shows "server_wf (revoke (s\<lparr>ss_active_routes := AList.delete rid (ss_active_routes s)\<rparr>) a)"
proof -
  let ?s = "s\<lparr>ss_active_routes := AList.delete rid (ss_active_routes s)\<rparr>"
  define r where "r = revoke ?s a"
  have ok: "active_ok s" "revoked_ok s" "sessions_ok s" "tunnels_ok s" using wf by (simp_all add: server_wf_def)
  have len: "a < length (ss_runtimes ?s)" using active_okD(1) [OF ok(1) a] by simp
  note rv = revoke_simps [OF len, folded r_def]
  have rt: "runtime_at r b = (if b = a then (runtime_at s a)\<lparr>rr_cancelled := True, rr_tunnel := None\<rparr> else runtime_at s b)" for b
    using runtime_at_update [OF rv(1) len] by (simp add: runtime_at_def)
  have act: "ss_active_routes r = filter (\<lambda>x. fst x \<noteq> rid) (ss_active_routes s)"
    by (auto simp: rv(2) AList.delete_eq intro!: filter_cong)
  have same: "length (ss_runtimes r) = length (ss_runtimes s)" "ss_shutdown r = ss_shutdown s"
    "ss_next_session r = ss_next_session s" by (simp_all add: rv)
  have ses: "ss_sessions r tid = map_option (\<lambda>x. cancelled_if (fst x = a \<or> rr_tunnel (runtime_at s a) = Some tid) x)
      (ss_sessions s tid)" for tid
    by (simp add: rv runtime_at_def)
  have uniq: "b = a" if "(rid, b) \<in> set (ss_active_routes s)" for b
    using ok(1) a that by (auto simp: active_ok_def dest: eq_key_imp_eq_value)
  have "active_ok r"
    unfolding active_ok_def act same
  proof (intro conjI)
    show "distinct (map fst (filter (\<lambda>x. fst x \<noteq> rid) (ss_active_routes s)))"
      "distinct (map snd (filter (\<lambda>x. fst x \<noteq> rid) (ss_active_routes s)))"
      using ok(1) by (auto simp: active_ok_def intro: distinct_map_filter)
    show "\<forall>(r', b) \<in> set (filter (\<lambda>x. fst x \<noteq> rid) (ss_active_routes s)). b < length (ss_runtimes s)
        \<and> rc_route_id (rr_config (runtime_at r b)) = r' \<and> rc_enabled (rr_config (runtime_at r b))"
      using ok(1) by (auto simp: rt dest: active_okD)
  qed
  moreover have "revoked_ok r"
    using ok(2) uniq unfolding revoked_ok_def act same by (auto simp: rt image_iff)
  moreover have "sessions_ok r"
    using ok(3) unfolding sessions_ok_def same ses
    by (auto simp: rt cancelled_if_def split: if_splits)
  moreover have "tunnels_ok r"
  proof (rule tunnels_okI)
    fix b tid
    assume b: "b < length (ss_runtimes r)" and "rr_tunnel (runtime_at r b) = Some tid"
    then have "rr_tunnel (runtime_at s b) = Some tid" by (simp add: rt split: if_splits)
    then obtain t where "ss_sessions s tid = Some (b, t)" using tunnels_okD [OF ok(4)] b same(1) by metis
    then show "\<exists>t. ss_sessions r tid = Some (b, t)" by (simp add: ses cancelled_if_pair)
  qed
  ultimately show ?thesis by (simp add: server_wf_def r_def)
qed

lemma server_wf_revoke_route: "server_wf s \<Longrightarrow> server_wf (revoke_route rid s)"
  using server_wf_revoke map_of_SomeD by (fastforce simp: revoke_route_def split: option.splits)

lemma server_wf_revoke_routes: "server_wf s \<Longrightarrow> server_wf (fold revoke_route rids s)"
  by (induction rids arbitrary: s) (simp_all add: server_wf_revoke_route)


lemma start_route_Inl: "start_route io s rc = (s', Inl e) \<Longrightarrow> s' = s"
  by (auto simp: start_route_def split: sum.splits prod.splits)

lemma start_route_Inr:
  assumes "start_route io s rc = (s', Inr a)"
  obtains m rt where "a = length (ss_runtimes s)" "s' = s\<lparr>ss_metrics := m, ss_runtimes := ss_runtimes s @ [rt]\<rparr>"
    "rr_config rt = rc" "rr_tunnel rt = None" "rr_cancelled rt = ss_shutdown s"
  using assms by (auto simp: start_route_def split: sum.splits prod.splits)

lemma update_new: "map_of xs k = None \<Longrightarrow> AList.update k v xs = xs @ [(k, v)]"
  by (induction xs) (auto split: if_splits)

lemma server_wf_start:
  assumes wf: "server_wf s" and new: "map_of (ss_active_routes s) (rc_route_id rc) = None" and "rc_enabled rc"
    and start: "start_route io s rc = (s', Inr a)"
  shows "server_wf (s'\<lparr>ss_active_routes := AList.update (rc_route_id rc) a (ss_active_routes s')\<rparr>)"
proof -
  obtain m rt where s': "a = length (ss_runtimes s)" "s' = s\<lparr>ss_metrics := m, ss_runtimes := ss_runtimes s @ [rt]\<rparr>"
    and rt: "rr_config rt = rc" "rr_tunnel rt = None" "rr_cancelled rt = ss_shutdown s"
    by (rule start_route_Inr [OF start])
  define t where "t = s'\<lparr>ss_active_routes := AList.update (rc_route_id rc) a (ss_active_routes s')\<rparr>"
  have at: "runtime_at t b = (if b = a then rt else runtime_at s b)" if "b < Suc a" for b
    using that by (simp add: s' t_def runtime_at_def nth_append)
  have act: "ss_active_routes t = ss_active_routes s @ [(rc_route_id rc, a)]"
    using update_new [OF new] by (simp add: s'(2) t_def)
  have same: "length (ss_runtimes t) = Suc a" "ss_sessions t = ss_sessions s" "ss_shutdown t = ss_shutdown s"
    "ss_next_session t = ss_next_session s" by (simp_all add: s' t_def)
  have less: "b < a" if "(r, b) \<in> set (ss_active_routes s)" for r b
    using wf that s'(1) unfolding server_wf_def active_ok_def by fastforce
  have old: "case x of (r, b) \<Rightarrow> b < Suc a \<and> rc_route_id (rr_config (runtime_at t b)) = r
      \<and> rc_enabled (rr_config (runtime_at t b))" if "x \<in> set (ss_active_routes s)" for x
    using wf that less [of "fst x" "snd x"] unfolding server_wf_def active_ok_def by (auto simp: at)
  have "active_ok t"
    using wf new less old assms(3) unfolding active_ok_def act same server_wf_def
    by (auto simp: at rt map_of_eq_None_iff dest: less)
  moreover have "revoked_ok t"
    using wf s'(1) unfolding revoked_ok_def act same server_wf_def by (auto simp: at rt less_Suc_eq)
  moreover have "sessions_ok t"
    using wf s'(1) unfolding sessions_ok_def same server_wf_def by (auto simp: at less_Suc_eq)
  moreover have "tunnels_ok t"
    using wf s'(1) unfolding tunnels_ok_def same server_wf_def by (auto simp: at rt less_Suc_eq)
  ultimately show ?thesis by (simp add: server_wf_def t_def)
qed

lemma next_routes_id: "next_routes routes rid = Some r \<Longrightarrow> rc_route_id r = rid \<and> r \<in> set routes"
  by (auto simp: next_routes_def dest: map_of_SomeD)

lemma server_wf_start_routes:
  assumes "server_wf s" and "\<And>rid r. nxt rid = Some r \<Longrightarrow> rc_route_id r = rid"
  shows "server_wf (fst (start_routes io nxt rids s))"
  using assms(1)
proof (induction rids arbitrary: s)
  case (Cons rid rids)
  show ?case
  proof (cases "nxt rid")
    case None
    then show ?thesis using Cons by simp
  next
    case (Some r)
    note id = assms(2) [OF Some]
    obtain s1 res where st: "start_route io s r = (s1, res)" by fastforce
    show ?thesis
    proof (cases res)
      case (Inl e)
      then show ?thesis using Cons Some st start_route_Inl [of io s r s1 e] by simp
    next
      case (Inr a)
      then show ?thesis using Cons Some st server_wf_start [OF Cons.prems, of r io s1 a] id by (simp add: option.case_eq_if)
    qed
  qed
qed simp

text \<open>The fields the invariant does not speak about.\<close>

lemma server_wf_frame [simp]:
  "server_wf (s\<lparr>ss_metrics := m\<rparr>) = server_wf s" "server_wf (s\<lparr>ss_configured_routes := c\<rparr>) = server_wf s"
  "server_wf (s\<lparr>ss_static_routes := r\<rparr>) = server_wf s" "server_wf (s\<lparr>ss_managed_fingerprint := x\<rparr>) = server_wf s"
  "server_wf (s\<lparr>ss_disk := d\<rparr>) = server_wf s" "server_wf (s\<lparr>ss_quota_store := q\<rparr>) = server_wf s"
  "server_wf (s\<lparr>ss_node_slots := n\<rparr>) = server_wf s"
  by (simp_all add: server_wf_def active_ok_def revoked_ok_def sessions_ok_def tunnels_ok_def runtime_at_def)

lemma apply_quota_wf: "server_wf s \<Longrightarrow> server_wf (fst (apply_quota io s routes))"
  by (simp add: apply_quota_def Let_def split: option.splits prod.splits)

lemma server_wf_apply: "server_wf s \<Longrightarrow> server_wf (fst (apply_routes io s routes))"
proof -
  assume wf: "server_wf s"
  obtain s1 r where q: "apply_quota io s routes = (s1, r)" by fastforce
  have wf1: "server_wf s1" using apply_quota_wf [OF wf, of io routes] q by simp
  have "server_wf s3" if "start_routes io (next_routes routes) (ai_order io) (fold revoke_route rids s1) = (s3, r3)"
    for rids s3 r3
    using server_wf_start_routes [OF server_wf_revoke_routes [OF wf1], of "next_routes routes" io "ai_order io" rids] that
    by (simp add: next_routes_id)
  then show ?thesis
    using q wf1 by (auto simp: apply_routes_def Let_def simp del: fold_append split: sum.splits prod.splits)
qed


text \<open>A node that registers: the counter of the sessions must not wrap.\<close>

lemma register_tunnel_simps:
  "ss_runtimes (register_tunnel s a tid) = (ss_runtimes s)[a := (runtime_at s a)\<lparr>rr_tunnel := Some tid\<rparr>]"
  "ss_active_routes (register_tunnel s a tid) = ss_active_routes s" "ss_shutdown (register_tunnel s a tid) = ss_shutdown s"
  "ss_next_session (register_tunnel s a tid) = ss_next_session s"
  "ss_sessions (register_tunnel s a tid) tid' =
     map_option (cancelled_if (rr_tunnel (runtime_at s a) = Some tid')) (ss_sessions s tid')"
  by (cases "rr_tunnel (runtime_at s a)";
      simp add: register_tunnel_def Let_def cancel_session_sessions option.map_ident_strong eq_commute [of tid'])+

lemma run_tunnel_begin_effect:
  assumes "run_tunnel_begin s a now = (s', r)" and "rr_tunnel (runtime_at s a) \<noteq> Some (ss_next_session s)"
  obtains t' where "tn_cancelled t' = rr_cancelled (runtime_at s a)"
    "ss_sessions s' = (\<lambda>tid. if tid = ss_next_session s then Some (a, t')
       else map_option (cancelled_if (rr_tunnel (runtime_at s a) = Some tid)) (ss_sessions s tid))"
    "ss_runtimes s' = (ss_runtimes s)[a := (runtime_at s a)\<lparr>rr_tunnel := Some (ss_next_session s)\<rparr>]"
    "ss_active_routes s' = ss_active_routes s" "ss_shutdown s' = ss_shutdown s" "ss_next_session s' = ss_next_session s + 1"
proof -
  let ?t = "(new_tunnel (ss_next_session s) now)\<lparr>tn_cancelled := rr_cancelled (runtime_at s a)\<rparr>"
  define s1 where "s1 = register_tunnel (s\<lparr>ss_next_session := ss_next_session s + 1,
    ss_sessions := (ss_sessions s)(ss_next_session s \<mapsto> (a, ?t))\<rparr>) a (ss_next_session s)"
  note reg = register_tunnel_simps [of "s\<lparr>ss_next_session := ss_next_session s + 1,
    ss_sessions := (ss_sessions s)(ss_next_session s \<mapsto> (a, ?t))\<rparr>" a "ss_next_session s", folded s1_def]
  have at: "runtime_at (s\<lparr>ss_next_session := n, ss_sessions := m\<rparr>) a = runtime_at s a" for n m
    by (simp add: runtime_at_def)
  show thesis
  proof (cases "tunnel_send ?t (frame_u32 RegisterOk 0 (heartbeat_hint (rr_server_config (runtime_at s a))))")
    case (Inl e)
    then have "s' = s1" using assms(1) by (simp add: run_tunnel_begin_def Let_def s1_def)
    then show thesis using assms(2) by (intro that [of ?t]) (simp_all add: reg at fun_eq_iff)
  next
    case (Inr t')
    then have "s' = s1\<lparr>ss_sessions := (ss_sessions s1)(ss_next_session s \<mapsto> (a, t'))\<rparr>"
      using assms(1) by (simp add: run_tunnel_begin_def Let_def s1_def)
    moreover have "tn_cancelled t' = rr_cancelled (runtime_at s a)"
      using Inr by (auto simp: tunnel_send_def tn_send_Inr)
    ultimately show thesis using assms(2) by (intro that [of t']) (simp_all add: reg at fun_eq_iff)
  qed
qed

lemma server_wf_register:
  assumes wf: "server_wf s" and a: "a < length (ss_runtimes s)" and wrap: "unat (ss_next_session s) + 1 < 2 ^ 64"
    and registers: "run_tunnel_begin s a now = (s', r)"
  shows "server_wf s'"
proof -
  let ?tid = "ss_next_session s"
  have ok: "active_ok s" "revoked_ok s" "sessions_ok s" "tunnels_ok s" using wf by (simp_all add: server_wf_def)
  have old: "unat tid < unat ?tid" if "ss_sessions s tid = Some x" for tid x
    using ok(3) that unfolding sessions_ok_def by (cases x) auto
  then have fresh: "ss_sessions s ?tid = None" by (cases "ss_sessions s ?tid") auto
  then have other: "rr_tunnel (runtime_at s a) \<noteq> Some ?tid" using ok(4) a unfolding tunnels_ok_def by fastforce
  obtain t' where t': "tn_cancelled t' = rr_cancelled (runtime_at s a)"
    and ses': "ss_sessions s' = (\<lambda>tid. if tid = ?tid then Some (a, t')
      else map_option (cancelled_if (rr_tunnel (runtime_at s a) = Some tid)) (ss_sessions s tid))"
    and same: "ss_runtimes s' = (ss_runtimes s)[a := (runtime_at s a)\<lparr>rr_tunnel := Some ?tid\<rparr>]"
      "ss_active_routes s' = ss_active_routes s" "ss_shutdown s' = ss_shutdown s" "ss_next_session s' = ?tid + 1"
    by (rule run_tunnel_begin_effect [OF registers other])
  have rt: "runtime_at s' b = (if b = a then (runtime_at s a)\<lparr>rr_tunnel := Some ?tid\<rparr> else runtime_at s b)" for b
    by (rule runtime_at_update [OF same(1) a])
  have next': "unat (?tid + 1) = unat ?tid + 1" using wrap by (simp add: unat_add_u64)
  have len: "length (ss_runtimes s') = length (ss_runtimes s)" by (simp add: same)
  have "active_ok s'" using ok(1) unfolding active_ok_def same(2) len by (auto simp: rt)
  moreover have "revoked_ok s'" using ok(2) unfolding revoked_ok_def same(2,3) len by (auto simp: rt)
  moreover have "sessions_ok s'"
    unfolding sessions_ok_def len same(4) next'
  proof (intro allI impI)
    fix tid b t
    assume s: "ss_sessions s' tid = Some (b, t)"
    show "b < length (ss_runtimes s) \<and> unat tid < unat ?tid + 1
        \<and> (\<not> tn_cancelled t \<longrightarrow> rr_tunnel (runtime_at s' b) = Some tid \<and> \<not> rr_cancelled (runtime_at s' b))"
    proof (cases "tid = ?tid")
      case True
      then show ?thesis using s t' a by (auto simp: ses' rt)
    next
      case False
      then obtain x where x: "ss_sessions s tid = Some x" "(b, t) = cancelled_if (rr_tunnel (runtime_at s a) = Some tid) x"
        using s by (auto simp: ses')
      then obtain u where "ss_sessions s tid = Some (b, u)" "t = (if rr_tunnel (runtime_at s a) = Some tid then u\<lparr>tn_cancelled := True\<rparr> else u)"
        by (cases x) (auto simp: cancelled_if_pair)
      then show ?thesis
        using ok(3) unfolding sessions_ok_def by (auto simp: rt intro: less_SucI)
    qed
  qed
  moreover have "tunnels_ok s'"
  proof (rule tunnels_okI)
    fix b tid
    assume b: "b < length (ss_runtimes s')" and tid: "rr_tunnel (runtime_at s' b) = Some tid"
    show "\<exists>t. ss_sessions s' tid = Some (b, t)"
    proof (cases "b = a")
      case True
      then show ?thesis using tid by (simp add: rt ses')
    next
      case False
      then have "rr_tunnel (runtime_at s b) = Some tid" using tid by (simp add: rt)
      then obtain t where "ss_sessions s tid = Some (b, t)" using tunnels_okD [OF ok(4)] b len by metis
      then show ?thesis using fresh by (cases "tid = ?tid") (simp_all add: ses' cancelled_if_pair)
    qed
  qed
  ultimately show ?thesis by (simp add: server_wf_def)
qed


text \<open>The frames and tasks of a tunnel change its session; a cancelled one stays cancelled.\<close>

lemma server_wf_session:
  assumes wf: "server_wf s" and tid: "ss_sessions s tid = Some (a, t)" and "tn_cancelled t \<longrightarrow> tn_cancelled t'"
  shows "server_wf (s\<lparr>ss_sessions := (ss_sessions s)(tid \<mapsto> (a, t'))\<rparr>)"
  using assms
  by (auto simp: server_wf_def active_ok_def revoked_ok_def sessions_ok_def tunnels_ok_def runtime_at_def)

lemma server_wf_remove:
  assumes wf: "server_wf s" and tid: "ss_sessions s tid = Some (a, t)" and gone: "tn_cancelled t"
  shows "server_wf (remove_tunnel s a tid)"
proof (cases "rr_tunnel (runtime_at s a) = Some tid")
  case True
  have ok: "active_ok s" "revoked_ok s" "sessions_ok s" "tunnels_ok s" using wf by (simp_all add: server_wf_def)
  have a: "a < length (ss_runtimes s)" using ok(3) tid by (auto simp: sessions_ok_def)
  define r where "r = remove_tunnel s a tid"
  have same: "ss_runtimes r = (ss_runtimes s)[a := (runtime_at s a)\<lparr>rr_tunnel := None\<rparr>]"
    "ss_active_routes r = ss_active_routes s" "ss_sessions r = ss_sessions s" "ss_shutdown r = ss_shutdown s"
    "ss_next_session r = ss_next_session s"
    using True by (simp_all add: r_def remove_tunnel_def)
  have rt: "runtime_at r b = (if b = a then (runtime_at s a)\<lparr>rr_tunnel := None\<rparr> else runtime_at s b)" for b
    by (rule runtime_at_update [OF same(1) a])
  have len: "length (ss_runtimes r) = length (ss_runtimes s)" by (simp add: same)
  have "active_ok r" "revoked_ok r"
    using ok(1,2) unfolding active_ok_def revoked_ok_def same(2,4) len by (auto simp: rt)
  moreover have "sessions_ok r"
    using ok(3) True tid gone unfolding sessions_ok_def same(3,5) len by (auto simp: rt) (metis option.inject prod.inject)
  moreover have "tunnels_ok r"
    using ok(4) unfolding tunnels_ok_def same(3) len by (auto simp: rt)
  ultimately show ?thesis by (simp add: server_wf_def r_def)
qed (use wf in \<open>simp add: remove_tunnel_def\<close>)

lemma server_wf_end: "server_wf s \<Longrightarrow> server_wf (run_tunnel_end s tid)"
proof (cases "ss_sessions s tid")
  case (Some x)
  assume wf: "server_wf s"
  obtain a t where x: "x = (a, t)" by fastforce
  have "server_wf (s\<lparr>ss_sessions := (ss_sessions s)(tid \<mapsto> (a, cancel_all_streams (t\<lparr>tn_cancelled := True\<rparr>)))\<rparr>)"
    using server_wf_session [OF wf, of tid a t] Some x by (simp add: cancel_all_streams_def)
  then show ?thesis
    using server_wf_remove [of "s\<lparr>ss_sessions := (ss_sessions s)(tid \<mapsto> (a, cancel_all_streams (t\<lparr>tn_cancelled := True\<rparr>)))\<rparr>"
      tid a "cancel_all_streams (t\<lparr>tn_cancelled := True\<rparr>)"] Some x
    by (simp add: run_tunnel_end_def cancel_all_streams_def)
qed (simp add: run_tunnel_end_def)


text \<open>Shutdown: every route and every tunnel is cancelled.\<close>

lemma revoke_keeps:
  assumes "active_ok s" "sessions_ok s" "tunnels_ok s" and a: "a < length (ss_runtimes s)"
  shows "active_ok (revoke s a)" "sessions_ok (revoke s a)" "tunnels_ok (revoke s a)"
    and "length (ss_runtimes (revoke s a)) = length (ss_runtimes s)"
    and "rr_cancelled (runtime_at (revoke s a) b) \<longleftrightarrow> b = a \<or> rr_cancelled (runtime_at s b)"
proof -
  define r where "r = revoke s a"
  note rv = revoke_simps [OF a, folded r_def]
  have rt: "runtime_at r b = (if b = a then (runtime_at s a)\<lparr>rr_cancelled := True, rr_tunnel := None\<rparr> else runtime_at s b)" for b
    by (rule runtime_at_update [OF rv(1) a])
  have len: "length (ss_runtimes r) = length (ss_runtimes s)" by (simp add: rv)
  show "active_ok (revoke s a)"
    using assms(1) unfolding active_ok_def r_def [symmetric] rv(2) len by (auto simp: rt)
  show "sessions_ok (revoke s a)"
    using assms(2) unfolding sessions_ok_def r_def [symmetric] rv(4,7) len by (auto simp: rt cancelled_if_def split: if_splits)
  show "tunnels_ok (revoke s a)"
    unfolding r_def [symmetric]
  proof (rule tunnels_okI)
    fix b tid
    assume b: "b < length (ss_runtimes r)" and "rr_tunnel (runtime_at r b) = Some tid"
    then have "rr_tunnel (runtime_at s b) = Some tid" by (simp add: rt split: if_splits)
    then obtain t where "ss_sessions s tid = Some (b, t)" using tunnels_okD [OF assms(3)] b len by metis
    then show "\<exists>t. ss_sessions r tid = Some (b, t)" by (simp add: rv(7) cancelled_if_pair)
  qed
  show "length (ss_runtimes (revoke s a)) = length (ss_runtimes s)" using len by (simp add: r_def)
  show "rr_cancelled (runtime_at (revoke s a) b) \<longleftrightarrow> b = a \<or> rr_cancelled (runtime_at s b)"
    using rt by (simp add: r_def)
qed

lemma cancel_runtime_keeps:
  assumes "active_ok s" "sessions_ok s" "tunnels_ok s" and a: "a < length (ss_runtimes s)"
  shows "active_ok (cancel_runtime s a)" "sessions_ok (cancel_runtime s a)" "tunnels_ok (cancel_runtime s a)"
    and "rr_cancelled (runtime_at (cancel_runtime s a) b) \<longleftrightarrow> b = a \<or> rr_cancelled (runtime_at s b)"
proof -
  have rt: "runtime_at (cancel_runtime s a) b = (if b = a then (runtime_at s a)\<lparr>rr_cancelled := True\<rparr> else runtime_at s b)" for b
    by (rule runtime_at_update [OF cancel_runtime_simps(1) a])
  show "active_ok (cancel_runtime s a)" using assms(1) unfolding active_ok_def by (auto simp: rt)
  show "sessions_ok (cancel_runtime s a)"
    using assms(2) unfolding sessions_ok_def cancel_runtime_sessions by (auto simp: rt cancelled_if_def split: if_splits)
  show "tunnels_ok (cancel_runtime s a)"
  proof (rule tunnels_okI)
    fix b tid
    assume b: "b < length (ss_runtimes (cancel_runtime s a))" and "rr_tunnel (runtime_at (cancel_runtime s a) b) = Some tid"
    then have "rr_tunnel (runtime_at s b) = Some tid" by (simp add: rt split: if_splits)
    then obtain t where "ss_sessions s tid = Some (b, t)" using tunnels_okD [OF assms(3)] b by auto
    then show "\<exists>t. ss_sessions (cancel_runtime s a) tid = Some (b, t)" by (simp add: cancel_runtime_sessions cancelled_if_pair)
  qed
  show "rr_cancelled (runtime_at (cancel_runtime s a) b) \<longleftrightarrow> b = a \<or> rr_cancelled (runtime_at s b)" by (simp add: rt)
qed

lemma cancel_runtimes_keep:
  assumes "active_ok s" "sessions_ok s" "tunnels_ok s" and "set as \<subseteq> {..<length (ss_runtimes s)}"
  defines "r \<equiv> fold (\<lambda>a s. cancel_runtime s a) as s"
  shows "active_ok r \<and> sessions_ok r \<and> tunnels_ok r \<and> length (ss_runtimes r) = length (ss_runtimes s)
    \<and> ss_active_routes r = ss_active_routes s \<and> (\<forall>b. rr_cancelled (runtime_at r b) \<longleftrightarrow> b \<in> set as \<or> rr_cancelled (runtime_at s b))"
  using assms(1-4) unfolding r_def
proof (induction as arbitrary: s)
  case (Cons a as)
  then have a: "a < length (ss_runtimes s)" by simp
  note keep = cancel_runtime_keeps [OF Cons.prems(1-3) a]
  show ?case using Cons.IH [of "cancel_runtime s a"] keep Cons.prems(4) by auto
qed simp

lemma revokes_keep:
  assumes "active_ok s" "sessions_ok s" "tunnels_ok s" and "snd ` set xs \<subseteq> {..<length (ss_runtimes s)}"
  defines "r \<equiv> fold (\<lambda>(rid, a) s. revoke s a) xs s"
  shows "active_ok r \<and> sessions_ok r \<and> tunnels_ok r \<and> length (ss_runtimes r) = length (ss_runtimes s)
    \<and> (\<forall>b. rr_cancelled (runtime_at s b) \<longrightarrow> rr_cancelled (runtime_at r b))"
  using assms(1-4) unfolding r_def
proof (induction xs arbitrary: s)
  case (Cons x xs)
  obtain rid a where x: "x = (rid, a)" by fastforce
  then have a: "a < length (ss_runtimes s)" using Cons.prems by simp
  note keep = revoke_keeps [OF Cons.prems(1-3) a]
  show ?case using Cons.IH [of "revoke s a"] keep Cons.prems(4) x by auto
qed simp

lemma cancel_server_keeps:
  assumes wf: "server_wf s"
  shows "active_ok (cancel_server s)" "sessions_ok (cancel_server s)" "tunnels_ok (cancel_server s)"
    "length (ss_runtimes (cancel_server s)) = length (ss_runtimes s)"
    "\<forall>b < length (ss_runtimes s). rr_cancelled (runtime_at (cancel_server s) b)"
proof -
  define s0 where "s0 = s\<lparr>ss_shutdown := True\<rparr>"
  have s0: "active_ok s0" "sessions_ok s0" "tunnels_ok s0" "length (ss_runtimes s0) = length (ss_runtimes s)"
    using wf by (simp_all add: s0_def server_wf_def active_ok_def sessions_ok_def tunnels_ok_def runtime_at_def)
  have "cancel_server s = fold (\<lambda>a s. cancel_runtime s a) [0..<length (ss_runtimes s)] s0"
    by (simp add: cancel_server_def s0_def)
  then show "active_ok (cancel_server s)" "sessions_ok (cancel_server s)" "tunnels_ok (cancel_server s)"
    "length (ss_runtimes (cancel_server s)) = length (ss_runtimes s)"
    "\<forall>b < length (ss_runtimes s). rr_cancelled (runtime_at (cancel_server s) b)"
    using cancel_runtimes_keep [OF s0(1-3), of "[0..<length (ss_runtimes s)]"] s0(4)
    by (auto simp: lessThan_atLeast0)
qed

lemma server_wf_drop: "server_wf s \<Longrightarrow> server_wf (handle_drop n s)"
  using cancel_server_keeps [of s] by (auto simp: handle_drop_def server_wf_def revoked_ok_def)

lemma server_wf_shutdown: "server_wf s \<Longrightarrow> server_wf (server_shutdown s)"
proof -
  assume wf: "server_wf s"
  note s1 = cancel_server_keeps [OF wf]
  have "snd ` set (ss_active_routes (cancel_server s)) \<subseteq> {..<length (ss_runtimes (cancel_server s))}"
    using active_okD(1) [OF s1(1)] by auto
  note rv = revokes_keep [OF s1(1-3) this]
  then show ?thesis using s1(4,5) by (auto simp: server_wf_def revoked_ok_def server_shutdown_def Let_def)
qed


section \<open>Runs of the server\<close>

datatype server_event =
    Reload relay_config
  | WatchConfig
  | ManagedRoutes
  | NodeAccepted
  | NodeLeft u64
  | TunnelWork u64
  | HandleDropped
  | Shutdown

text \<open>
  The operations that change the state. \<open>TunnelWork\<close> is any step of the tasks of a tunnel; those are the
  subject of the theories on tunnels, and none of them revives a cancelled tunnel.
\<close>

inductive server_step :: "token_env \<Rightarrow> registry_env \<Rightarrow> server_state \<Rightarrow> server_event \<Rightarrow> server_state \<Rightarrow> bool"
  for te :: token_env and re :: registry_env where
  reloads: "reload re gio io s cfg = (s', r) \<Longrightarrow> server_step te re s (Reload cfg) s'"
| watches: "watch_config_pass re gio io s seen current loaded = (s', seen') \<Longrightarrow> server_step te re s WatchConfig s'"
| manages: "server_step te re s ManagedRoutes (managed_routes_pass re gio io s)"
| accepts: "node_accepted te re nio configured s = (s', out, r) \<Longrightarrow> server_step te re s NodeAccepted s'"
| leaves: "server_step te re s (NodeLeft tid) (node_left s tid r)"
| works: "\<lbrakk>ss_sessions s tid = Some (a, t); tn_cancelled t \<longrightarrow> tn_cancelled t'\<rbrakk> \<Longrightarrow>
     server_step te re s (TunnelWork tid) (s\<lparr>ss_sessions := (ss_sessions s)(tid \<mapsto> (a, t'))\<rparr>)"
| drops: "server_step te re s HandleDropped (handle_drop n s)"
| stops: "server_step te re s Shutdown (server_shutdown s)"

lemma apply_routes_wf: "apply_routes io s routes = (s', r) \<Longrightarrow> server_wf s \<Longrightarrow> server_wf s'"
  using server_wf_apply [of s io routes] by simp

lemma reload_wf: "server_wf s \<Longrightarrow> reload re gio io s cfg = (s', r) \<Longrightarrow> server_wf s'"
  by (auto simp: reload_def split: sum.splits prod.splits if_splits dest: apply_routes_wf)

lemma managed_routes_pass_wf: "server_wf s \<Longrightarrow> server_wf (managed_routes_pass re gio io s)"
  by (auto simp: managed_routes_pass_def reload_failed_def split: sum.splits prod.splits dest: apply_routes_wf)

lemma watch_config_pass_wf: "server_wf s \<Longrightarrow> watch_config_pass re gio io s seen current loaded = (s', seen') \<Longrightarrow> server_wf s'"
  by (auto simp: watch_config_pass_def reload_failed_def split: sum.splits prod.splits if_splits dest: reload_wf)

lemma handle_node_connection_wf:
  assumes wf: "server_wf s" and "unat (ss_next_session s) + 1 < 2 ^ 64"
    and h: "handle_node_connection te re nio configured s = (s', out, r)"
  shows "server_wf s'"
proof (cases "s' = s")
  case False
  then obtain cert rid token rc a where ok: "read_registration nio = Inr (cert, rid, token)"
    "authenticate te re configured (ni_now nio) cert rid token = Inr rc"
    "map_of (ss_active_routes s) rid = Some a" "run_tunnel_begin s a (ni_instant nio) = (s', r)"
    using h by (auto simp: handle_node_connection_def split: sum.splits prod.splits option.splits)
  have "a < length (ss_runtimes s)" using wf active_okD(1) map_of_SomeD [OF ok(3)] by (simp add: server_wf_def)
  then show ?thesis using server_wf_register [OF wf _ assms(2) ok(4)] by simp
qed (use wf in simp)

lemma node_accepted_wf:
  assumes "server_wf s" and "unat (ss_next_session s) + 1 < 2 ^ 64" and "node_accepted te re nio configured s = (s', out, r)"
  shows "server_wf s'"
  using assms handle_node_connection_wf [of "s\<lparr>ss_node_slots := ss_node_slots s - 1\<rparr>" te re nio configured]
  by (auto simp: node_accepted_def record_node_error_def split: if_splits prod.splits sum.splits)

lemma node_left_wf: "server_wf s \<Longrightarrow> server_wf (node_left s tid r)"
  using server_wf_end [of s tid] by (simp add: node_left_def Let_def record_node_error_def split: sum.splits)

lemma server_step_wf:
  assumes "server_step te re s l s'" and "server_wf s" and "unat (ss_next_session s) + 1 < 2 ^ 64"
  shows "server_wf s'"
  using assms
  by (induction rule: server_step.induct)
    (auto intro: reload_wf watch_config_pass_wf managed_routes_pass_wf node_accepted_wf node_left_wf
      server_wf_session server_wf_drop server_wf_shutdown)

text \<open>The counter of the sessions grows by one at most.\<close>

lemma fold_next_session:
  "(\<And>x s. ss_next_session (f x s) = ss_next_session s) \<Longrightarrow> ss_next_session (fold f xs s) = ss_next_session s"
  by (induction xs arbitrary: s) simp_all

lemma revoke_next_session [simp]: "ss_next_session (revoke s a) = ss_next_session s"
  by (simp add: revoke_def Let_def split: option.splits)

lemma revoke_route_next_session [simp]: "ss_next_session (revoke_route rid s) = ss_next_session s"
  by (simp add: revoke_route_def split: option.splits)

lemma start_routes_next_session [simp]: "ss_next_session (fst (start_routes io nxt rids s)) = ss_next_session s"
proof (induction rids arbitrary: s)
  case (Cons rid rids)
  show ?case
    by (auto simp: Cons start_route_def split: option.splits prod.splits sum.splits)
qed simp


lemma apply_routes_next_session: "apply_routes io s routes = (s', r) \<Longrightarrow> ss_next_session s' = ss_next_session s"
proof -
  assume ap: "apply_routes io s routes = (s', r)"
  obtain s1 r1 where q: "apply_quota io s routes = (s1, r1)" by fastforce
  then have s1: "ss_next_session s1 = ss_next_session s"
    by (auto simp: apply_quota_def Let_def split: option.splits prod.splits)
  obtain s3 r3 where st: "start_routes io (next_routes routes) (ai_order io)
      (fold revoke_route (changed_routes s1 (next_routes routes) @ removed_routes s1 (next_routes routes)) s1) = (s3, r3)"
    by fastforce
  have "ss_next_session s3 = ss_next_session s"
    using arg_cong [OF st, of "\<lambda>x. ss_next_session (fst x)"] s1 by (simp add: fold_next_session)
  then show ?thesis
    using ap q st s1 by (auto simp: apply_routes_def Let_def simp del: fold_append split: sum.splits)
qed

lemma register_next_session: "run_tunnel_begin s a now = (s', r) \<Longrightarrow> ss_next_session s' = ss_next_session s + 1"
  by (auto simp: run_tunnel_begin_def Let_def register_tunnel_simps split: sum.splits)

lemma server_step_next_session:
  assumes "server_step te re s l s'"
  shows "ss_next_session s' = ss_next_session s \<or> ss_next_session s' = ss_next_session s + 1"
  using assms
proof (induction rule: server_step.induct)
  case (reloads gio io s cfg s' r)
  then show ?case
    by (auto simp: reload_def split: sum.splits prod.splits if_splits dest: apply_routes_next_session)
next
  case (watches gio io s seen current loaded s' seen')
  then show ?case
    by (auto simp: watch_config_pass_def reload_failed_def reload_def split: sum.splits prod.splits if_splits
        dest: apply_routes_next_session)
next
  case (manages s gio io)
  then show ?case
    by (auto simp: managed_routes_pass_def reload_failed_def split: sum.splits prod.splits dest: apply_routes_next_session)
next
  case (accepts nio s s' out r)
  then show ?case
    by (auto simp: node_accepted_def handle_node_connection_def record_node_error_def
        split: if_splits prod.splits sum.splits option.splits dest!: register_next_session)
next
  case (leaves s tid r)
  have "ss_next_session (run_tunnel_end s tid) = ss_next_session s"
    by (simp add: run_tunnel_end_def remove_tunnel_def split: option.splits prod.splits)
  then show ?case by (simp add: node_left_def Let_def record_node_error_def split: sum.splits)
next
  case (drops s n)
  then show ?case by (simp add: handle_drop_def cancel_server_def fold_next_session)
next
  case (stops s)
  have "ss_next_session (case x of (rid, a) \<Rightarrow> revoke s a) = ss_next_session s" for x s by (cases x) simp
  then show ?case by (simp add: server_shutdown_def cancel_server_def Let_def fold_next_session case_prod_beta)
qed simp

lemma reaches_server_wf:
  assumes "reaches (server_step te re) s ls t" and "server_wf s"
    and "unat (ss_next_session s) + length ls < 2 ^ 64"
  shows "server_wf t \<and> unat (ss_next_session t) \<le> unat (ss_next_session s) + length ls"
  using assms
proof (induction rule: reaches.induct)
  case (reaches_snoc s ls t l u)
  then have t: "server_wf t" "unat (ss_next_session t) \<le> unat (ss_next_session s) + length ls" by simp_all
  then have bound: "unat (ss_next_session t) + 1 < 2 ^ 64" using reaches_snoc.prems by simp
  have "unat (ss_next_session u) \<le> unat (ss_next_session t) + 1"
    using server_step_next_session [OF reaches_snoc.hyps(2)] bound by (auto simp: unat_add_u64)
  then show ?case using server_step_wf [OF reaches_snoc.hyps(2) t(1) bound] t(2) by simp
qed simp

lemma server_start_wf:
  assumes "server_start re gio sio io cfg = (d, Inr s)"
  shows "server_wf s" and "ss_next_session s = 1"
proof -
  obtain s0 routes where ap: "apply_routes io s0 routes = (s, Inr ())" and "ss_next_session s0 = 1"
    and s0: "ss_active_routes s0 = []" "ss_runtimes s0 = []" "ss_sessions s0 = Map.empty"
    using assms by (auto simp: server_start_def split: sum.splits prod.splits option.splits)
  then show "server_wf s" "ss_next_session s = 1"
    using apply_routes_wf [OF ap] apply_routes_next_session [OF ap]
    by (simp_all add: server_wf_def active_ok_def revoked_ok_def sessions_ok_def tunnels_ok_def)
qed


section \<open>What applying a set of routes does\<close>

lemma revoke_route_effect:
  assumes "server_wf s"
  shows "ss_active_routes (revoke_route rid s) = filter (\<lambda>x. fst x \<noteq> rid) (ss_active_routes s)"
    and "(rid, b) \<notin> set (ss_active_routes s) \<Longrightarrow> runtime_at (revoke_route rid s) b = runtime_at s b"
    and "length (ss_runtimes (revoke_route rid s)) = length (ss_runtimes s)"
proof -
  let ?s = "s\<lparr>ss_active_routes := AList.delete rid (ss_active_routes s)\<rparr>"
  have active: "AList.delete rid xs = filter (\<lambda>x. fst x \<noteq> rid) xs" for xs :: "(string \<times> nat) list"
    by (auto simp: AList.delete_eq intro!: filter_cong)
  have "ss_active_routes (revoke_route rid s) = filter (\<lambda>x. fst x \<noteq> rid) (ss_active_routes s)
    \<and> ((rid, b) \<notin> set (ss_active_routes s) \<longrightarrow> runtime_at (revoke_route rid s) b = runtime_at s b)
    \<and> length (ss_runtimes (revoke_route rid s)) = length (ss_runtimes s)"
  proof (cases "map_of (ss_active_routes s) rid")
    case None
    then have "filter (\<lambda>x. fst x \<noteq> rid) (ss_active_routes s) = ss_active_routes s"
      by (auto simp: map_of_eq_None_iff filter_id_conv rev_image_eqI)
    then show ?thesis using None by (simp add: revoke_route_def)
  next
    case (Some a)
    have len: "a < length (ss_runtimes ?s)"
      using assms active_okD(1) map_of_SomeD [OF Some] by (simp add: server_wf_def)
    note rv = revoke_simps [OF len]
    have "runtime_at (revoke ?s a) b = runtime_at s b" if "b \<noteq> a"
      using runtime_at_update [OF rv(1) len] that by (simp add: runtime_at_def)
    then show ?thesis using Some map_of_SomeD [OF Some] rv(1,2) by (auto simp: revoke_route_def active)
  qed
  then show "ss_active_routes (revoke_route rid s) = filter (\<lambda>x. fst x \<noteq> rid) (ss_active_routes s)"
    "(rid, b) \<notin> set (ss_active_routes s) \<Longrightarrow> runtime_at (revoke_route rid s) b = runtime_at s b"
    "length (ss_runtimes (revoke_route rid s)) = length (ss_runtimes s)" by simp_all
qed

lemma revoke_routes_effect:
  assumes "server_wf s"
  shows "ss_active_routes (fold revoke_route rids s) = filter (\<lambda>x. fst x \<notin> set rids) (ss_active_routes s)
    \<and> length (ss_runtimes (fold revoke_route rids s)) = length (ss_runtimes s)
    \<and> (\<forall>rid b. (rid, b) \<in> set (ss_active_routes s) \<and> rid \<notin> set rids \<longrightarrow>
          runtime_at (fold revoke_route rids s) b = runtime_at s b)"
  using assms
proof (induction rids arbitrary: s)
  case (Cons r rids)
  note one = revoke_route_effect [OF Cons.prems, of r]
  have other: "(r, b) \<notin> set (ss_active_routes s)" if "(rid, b) \<in> set (ss_active_routes s)" "rid \<noteq> r" for rid b
    using that active_okD(2) [of s] Cons.prems by (metis server_wf_def)
  show ?case
    using Cons.IH [OF server_wf_revoke_route [OF Cons.prems]] one other
    by (auto simp: filter_filter conj_commute)
qed simp


lemma start_routes_effect:
  assumes "server_wf s" and ids: "\<And>rid r. nxt rid = Some r \<Longrightarrow> rc_route_id r = rid"
    and "start_routes io nxt rids s = (s', res)"
  shows "(\<forall>rid a. map_of (ss_active_routes s) rid = Some a \<longrightarrow> map_of (ss_active_routes s') rid = Some a)
    \<and> (\<forall>b < length (ss_runtimes s). runtime_at s' b = runtime_at s b)
    \<and> length (ss_runtimes s) \<le> length (ss_runtimes s') \<and> ss_sessions s' = ss_sessions s
    \<and> (\<forall>rid a. map_of (ss_active_routes s') rid = Some a \<longrightarrow> map_of (ss_active_routes s) rid = Some a
         \<or> length (ss_runtimes s) \<le> a \<and> a < length (ss_runtimes s') \<and> nxt rid = Some (rr_config (runtime_at s' a)))
    \<and> (res = Inr () \<longrightarrow> (\<forall>rid \<in> set rids. \<forall>r. nxt rid = Some r \<and> rc_enabled r \<and> \<not> is_expired r (ai_route_now io rid) \<longrightarrow>
         map_of (ss_active_routes s') rid \<noteq> None))"
  using assms(1,3)
proof (induction rids arbitrary: s)
  case (Cons rid rids)
  have skip: ?case if "start_routes io nxt rids s = (s', res)"
    and "\<And>r. nxt rid = Some r \<Longrightarrow> rc_enabled r \<Longrightarrow> \<not> is_expired r (ai_route_now io rid) \<Longrightarrow> map_of (ss_active_routes s) rid \<noteq> None"
    using Cons.IH [OF Cons.prems(1) that(1)] that(2) by fastforce
  show ?case
  proof (cases "\<exists>r. nxt rid = Some r \<and> rc_enabled r \<and> \<not> is_expired r (ai_route_now io rid) \<and> map_of (ss_active_routes s) rid = None")
    case False
    then have "start_routes io nxt rids s = (s', res)"
      using Cons.prems(2) by (auto split: option.splits if_splits)
    then show ?thesis by (rule skip) (use False in simp)
  next
    case True
    then obtain r where r: "nxt rid = Some r" "rc_enabled r" "\<not> is_expired r (ai_route_now io rid)"
      "map_of (ss_active_routes s) rid = None" by blast
    obtain s1 res1 where st: "start_route io s r = (s1, res1)" by fastforce
    show ?thesis
    proof (cases res1)
      case (Inl e)
      then have "s' = s \<and> res = Inl e" using Cons.prems(2) r st start_route_Inl [of io s r s1 e] by simp
      then show ?thesis by simp
    next
      case (Inr a)
      note st = st [unfolded Inr]
      define s2 where "s2 = s1\<lparr>ss_active_routes := AList.update rid a (ss_active_routes s1)\<rparr>"
      have rest: "start_routes io nxt rids s2 = (s', res)" using Cons.prems(2) r st by (simp add: s2_def)
      have wf2: "server_wf s2" using server_wf_start [OF Cons.prems(1) _ r(2) st] r ids [OF r(1)] by (simp add: s2_def)
      obtain m rt where s1: "a = length (ss_runtimes s)" "s1 = s\<lparr>ss_metrics := m, ss_runtimes := ss_runtimes s @ [rt]\<rparr>"
        "rr_config rt = r" by (rule start_route_Inr [OF st])
      have s2: "ss_sessions s2 = ss_sessions s" "length (ss_runtimes s2) = Suc a" "runtime_at s2 a = rt"
        "map_of (ss_active_routes s2) = (map_of (ss_active_routes s))(rid \<mapsto> a)"
        using s1 by (simp_all add: s2_def runtime_at_def AList.update_conv')
      have old: "runtime_at s2 b = runtime_at s b" if "b < a" for b
        using that s1 by (simp add: s2_def runtime_at_def nth_append)
      note ih = Cons.IH [OF wf2 rest, unfolded s2(1,2,4)]
      have at: "runtime_at s' a = rt" using ih s2(3) by simp
      have "\<forall>b < length (ss_runtimes s). runtime_at s' b = runtime_at s b"
        using ih old s1(1) by (metis less_SucI)
      moreover have "\<forall>rid' b. map_of (ss_active_routes s') rid' = Some b \<longrightarrow> map_of (ss_active_routes s) rid' = Some b
          \<or> length (ss_runtimes s) \<le> b \<and> b < length (ss_runtimes s') \<and> nxt rid' = Some (rr_config (runtime_at s' b))"
      proof (intro allI impI)
        fix rid' b
        assume b: "map_of (ss_active_routes s') rid' = Some b"
        show "map_of (ss_active_routes s) rid' = Some b \<or> length (ss_runtimes s) \<le> b
            \<and> b < length (ss_runtimes s') \<and> nxt rid' = Some (rr_config (runtime_at s' b))"
        proof (cases "rid' = rid")
          case True
          then have "b = a" using ih b by simp
          then show ?thesis using True ih at s1(1,3) r(1) by simp
        next
          case False
          then have "map_of (ss_active_routes s) rid' = Some b
              \<or> Suc a \<le> b \<and> b < length (ss_runtimes s') \<and> nxt rid' = Some (rr_config (runtime_at s' b))"
            using ih b by (metis fun_upd_other)
          then show ?thesis using s1(1) by auto
        qed
      qed
      moreover have "\<forall>rid' b. map_of (ss_active_routes s) rid' = Some b \<longrightarrow> map_of (ss_active_routes s') rid' = Some b"
        using ih r(4) by (metis fun_upd_other option.distinct(1))
      moreover have "map_of (ss_active_routes s') rid = Some a" using ih by simp
      ultimately show ?thesis using ih s1(1) by simp
    qed
  qed
qed simp


lemma apply_quota_effect:
  assumes "apply_quota io s routes = (s', r)"
  shows "ss_active_routes s' = ss_active_routes s" and "ss_runtimes s' = ss_runtimes s" and "ss_sessions s' = ss_sessions s"
    and "ss_configured_routes s' = ss_configured_routes s" and "runtime_at s' = runtime_at s"
  using assms by (auto simp: apply_quota_def Let_def runtime_at_def split: option.splits prod.splits)

lemma changed_routes_set:
  assumes "active_ok s"
  shows "rid \<in> set (changed_routes s nxt @ removed_routes s nxt) \<longleftrightarrow>
    (\<exists>a. (rid, a) \<in> set (ss_active_routes s) \<and> nxt rid \<noteq> Some (rr_config (runtime_at s a)))"
  by (force simp: changed_routes_def removed_routes_def)

text \<open>The states \<open>apply_routes\<close> goes through when it succeeds.\<close>

lemma apply_routes_Inr:
  assumes "apply_routes io s routes = (s', Inr ())"
  obtains s1 s2 s3 where "apply_quota io s routes = (s1, Inr ())"
    "s2 = fold revoke_route (changed_routes s1 (next_routes routes) @ removed_routes s1 (next_routes routes)) s1"
    "start_routes io (next_routes routes) (ai_order io) s2 = (s3, Inr ())"
    "ss_configured_routes s' = next_routes routes" "ss_active_routes s' = ss_active_routes s3"
    "runtime_at s' = runtime_at s3" "ss_sessions s' = ss_sessions s3" "ss_runtimes s' = ss_runtimes s3"
  using assms
  by (auto simp: apply_routes_def Let_def runtime_at_def fun_eq_iff simp del: fold_append split: sum.splits prod.splits)

text \<open>After the revocations the routes are left whose configuration did not change.\<close>

lemma revoke_changed:
  assumes wf: "server_wf s" and t: "t = fold revoke_route (changed_routes s nxt @ removed_routes s nxt) s"
  shows "map_of (ss_active_routes t) rid = Some a \<longleftrightarrow>
      map_of (ss_active_routes s) rid = Some a \<and> nxt rid = Some (rr_config (runtime_at s a))"
    and "map_of (ss_active_routes t) rid = Some a \<Longrightarrow> a < length (ss_runtimes s) \<and> runtime_at t a = runtime_at s a"
    and "length (ss_runtimes t) = length (ss_runtimes s)"
proof -
  have ok: "active_ok s" using wf by (simp add: server_wf_def)
  note rv = revoke_routes_effect [OF wf, of "changed_routes s nxt @ removed_routes s nxt", folded t,
    unfolded changed_routes_set [OF ok]]
  have dist: "distinct (map fst (ss_active_routes s))" using ok by (simp add: active_ok_def)
  have "server_wf t" unfolding t by (rule server_wf_revoke_routes [OF wf])
  then have "distinct (map fst (ss_active_routes t))" by (simp add: server_wf_def active_ok_def)
  then have "map_of (ss_active_routes t) rid = Some a \<longleftrightarrow> (rid, a) \<in> set (ss_active_routes t)" by simp
  also have "\<dots> \<longleftrightarrow> (rid, a) \<in> set (ss_active_routes s) \<and> nxt rid = Some (rr_config (runtime_at s a))"
    using rv dist by (auto dest: eq_key_imp_eq_value)
  finally show left: "map_of (ss_active_routes t) rid = Some a \<longleftrightarrow>
      map_of (ss_active_routes s) rid = Some a \<and> nxt rid = Some (rr_config (runtime_at s a))"
    using dist by simp
  show "a < length (ss_runtimes s) \<and> runtime_at t a = runtime_at s a" if "map_of (ss_active_routes t) rid = Some a"
  proof -
    have a: "(rid, a) \<in> set (ss_active_routes s)" "nxt rid = Some (rr_config (runtime_at s a))"
      using that left dist by simp_all
    then have "\<not> (\<exists>b. (rid, b) \<in> set (ss_active_routes s) \<and> nxt rid \<noteq> Some (rr_config (runtime_at s b)))"
      using dist by (auto dest: eq_key_imp_eq_value)
    then have "runtime_at t a = runtime_at s a" using a(1) rv by blast
    then show ?thesis using active_okD(1) [OF ok a(1)] by simp
  qed
  show "length (ss_runtimes t) = length (ss_runtimes s)" using rv by simp
qed

lemma apply_routes_active:
  assumes wf: "server_wf s" and ap: "apply_routes io s routes = (s', Inr ())"
  shows "map_of (ss_active_routes s) rid = Some a \<Longrightarrow> next_routes routes rid = Some (rr_config (runtime_at s a)) \<Longrightarrow>
      map_of (ss_active_routes s') rid = Some a \<and> runtime_at s' a = runtime_at s a"
    and "map_of (ss_active_routes s') rid = Some a \<Longrightarrow> next_routes routes rid = Some (rr_config (runtime_at s' a))
      \<and> (a < length (ss_runtimes s) \<longrightarrow> map_of (ss_active_routes s) rid = Some a
        \<and> next_routes routes rid = Some (rr_config (runtime_at s a)))"
    and "rid \<in> set (ai_order io) \<Longrightarrow> next_routes routes rid = Some r \<Longrightarrow> rc_enabled r \<Longrightarrow>
      \<not> is_expired r (ai_route_now io rid) \<Longrightarrow> map_of (ss_active_routes s') rid \<noteq> None"
proof -
  obtain s1 s2 s3 where q: "apply_quota io s routes = (s1, Inr ())"
    and s2: "s2 = fold revoke_route (changed_routes s1 (next_routes routes) @ removed_routes s1 (next_routes routes)) s1"
    and st: "start_routes io (next_routes routes) (ai_order io) s2 = (s3, Inr ())"
    and s': "ss_active_routes s' = ss_active_routes s3" "runtime_at s' = runtime_at s3"
    by (rule apply_routes_Inr [OF ap])
  note s1 = apply_quota_effect [OF q]
  have wf1: "server_wf s1" using apply_quota_wf [OF wf, of io routes] q by simp
  note rv = revoke_changed [OF wf1 s2, unfolded s1]
  have wf2: "server_wf s2" unfolding s2 by (rule server_wf_revoke_routes [OF wf1])
  have eff: "(\<forall>rid a. map_of (ss_active_routes s2) rid = Some a \<longrightarrow> map_of (ss_active_routes s') rid = Some a)"
    "(\<forall>b < length (ss_runtimes s2). runtime_at s' b = runtime_at s2 b)"
    "(\<forall>rid a. map_of (ss_active_routes s') rid = Some a \<longrightarrow> map_of (ss_active_routes s2) rid = Some a
         \<or> length (ss_runtimes s2) \<le> a \<and> next_routes routes rid = Some (rr_config (runtime_at s' a)))"
    "(\<forall>rid \<in> set (ai_order io). \<forall>r. next_routes routes rid = Some r \<and> rc_enabled r \<and> \<not> is_expired r (ai_route_now io rid) \<longrightarrow>
         map_of (ss_active_routes s') rid \<noteq> None)"
    using start_routes_effect [OF wf2 _ st] unfolding s' by (simp_all add: next_routes_id) blast
  have keep: "runtime_at s' a = runtime_at s a" if "map_of (ss_active_routes s2) rid = Some a" for rid a
    using rv(2) [OF that] rv(3) eff(2) by simp
  show "map_of (ss_active_routes s) rid = Some a \<Longrightarrow> next_routes routes rid = Some (rr_config (runtime_at s a)) \<Longrightarrow>
      map_of (ss_active_routes s') rid = Some a \<and> runtime_at s' a = runtime_at s a"
    using eff(1) rv(1) keep by blast
  show "map_of (ss_active_routes s') rid = Some a \<Longrightarrow> next_routes routes rid = Some (rr_config (runtime_at s' a))
      \<and> (a < length (ss_runtimes s) \<longrightarrow> map_of (ss_active_routes s) rid = Some a
        \<and> next_routes routes rid = Some (rr_config (runtime_at s a)))"
    using eff(3) rv(1) [of rid a] rv(3) keep [of rid a] by (metis not_le)
  show "rid \<in> set (ai_order io) \<Longrightarrow> next_routes routes rid = Some r \<Longrightarrow> rc_enabled r \<Longrightarrow>
      \<not> is_expired r (ai_route_now io rid) \<Longrightarrow> map_of (ss_active_routes s') rid \<noteq> None"
    using eff(4) by blast
qed


lemma apply_routes_revokes:
  assumes wf: "server_wf s" and ap: "apply_routes io s routes = (s', Inr ())"
    and a: "map_of (ss_active_routes s) rid = Some a" "next_routes routes rid \<noteq> Some (rr_config (runtime_at s a))"
    and tid: "ss_sessions s' tid = Some (a, t)"
  shows "tn_cancelled t"
proof (rule ccontr)
  assume live: "\<not> tn_cancelled t"
  have ok: "active_ok s'" "revoked_ok s'" "sessions_ok s'"
    using apply_routes_wf [OF ap wf] by (simp_all add: server_wf_def)
  have "a < length (ss_runtimes s')" "\<not> rr_cancelled (runtime_at s' a)"
    using ok(3) tid live unfolding sessions_ok_def by blast+
  then have "a \<in> snd ` set (ss_active_routes s')" using ok(2) unfolding revoked_ok_def by blast
  then obtain r where "(r, a) \<in> set (ss_active_routes s')" by auto
  then have r: "map_of (ss_active_routes s') r = Some a" using ok(1) by (simp add: active_ok_def)
  have s: "active_ok s" "(rid, a) \<in> set (ss_active_routes s)"
    using wf map_of_SomeD [OF a(1)] by (simp_all add: server_wf_def)
  then have kept: "map_of (ss_active_routes s) r = Some a" "next_routes routes r = Some (rr_config (runtime_at s a))"
    using apply_routes_active(2) [OF wf ap r] active_okD(1) by blast+
  then have "r = rid" using active_okD(2) [OF s(1)] s(2) map_of_SomeD by metis
  then show False using a(2) kept(2) by simp
qed

section \<open>A server with one route\<close>

text \<open>
  The digests of the tokens \<open>[1]\<close> and \<open>[2]\<close> and of the certificate \<open>[9]\<close>, for the decoder of this example.
\<close>

definition demo_tokens :: token_env where
  "demo_tokens = \<lparr>hex_decode = (\<lambda>h. if h = replicate 64 (CHR ''a'') then Some (toy_digest [1])
       else if h = replicate 64 (CHR ''c'') then Some (toy_digest [2])
       else if h = replicate 64 (CHR ''b'') then Some (toy_digest [9]) else None),
     ct_eq = (=)\<rparr>"

definition demo_route_a :: string where "demo_route_a = ''grant_0123456789abcdef''"
definition demo_route_b :: string where "demo_route_b = ''grant_fedcba9876543210''"

definition demo_rotated :: route_config where
  "demo_rotated = demo_route_config\<lparr>rc_node_token_sha256 := replicate 64 (CHR ''c'')\<rparr>"

definition demo_second :: route_config where
  "demo_second = demo_route_config\<lparr>rc_route_id := demo_route_b, rc_public_listen := demo_addr 8444\<rparr>"

definition demo_config2 :: relay_config where
  "demo_config2 = demo_config\<lparr>cfg_routes := [demo_rotated, demo_second]\<rparr>"

text \<open>Only the listener of the first route can be bound.\<close>

definition demo_apply :: "string list \<Rightarrow> apply_io" where
  "demo_apply order = \<lparr>ai_quota_env = demo_env, ai_quota_io = demo_io, ai_joined = True, ai_now = demo_now1,
     ai_order = order, ai_route_now = (\<lambda>_. demo_now1),
     ai_bind = (\<lambda>rid. \<lparr>bi_attempt = (\<lambda>_. if rid = demo_route_a then Inr () else Inl IoOther),
                     bi_local = Inr (demo_addr 8443)\<rparr>), ai_instant = 0\<rparr>"

definition demo_registry_io :: registry_io where
  "demo_registry_io = \<lparr>gi_joined = True, gi_directory = None, gi_listing = None, gi_now = demo_now1\<rparr>"

definition demo_start :: start_io where
  "demo_start = \<lparr>st_quota_joined = True, st_quota_stat = True, st_disk = demo_disk None, st_acceptor = Inr (),
     st_node_bind = Inr (), st_metrics_bind = Inr (), st_node_address = Inr (demo_addr 9000),
     st_metrics_address = Inr (demo_addr 9001)\<rparr>"

definition demo_node_io :: "byte list \<Rightarrow> node_io" where
  "demo_node_io token = \<lparr>ni_nodelay = Inr (), ni_tls = Some (Inr (Some ''pn-relay-v1'', Some [[9]])),
     ni_register = Some (Inr (Some (frame_new Register 0
       (to_be 2 (length demo_route_a) @ str_bytes demo_route_a @ to_be 2 (length token) @ token)))),
     ni_now = demo_now1, ni_instant = 0\<rparr>"

definition demo_route_runtime :: "route_config \<Rightarrow> u64 option \<Rightarrow> bool \<Rightarrow> route_runtime" where
  "demo_route_runtime rc t cancelled = \<lparr>rr_config = rc, rr_public_address = demo_addr 8443,
     rr_server_config = demo_server, rr_tunnel = t, rr_free_slots = rc_max_concurrent_streams rc,
     rr_next_stream_id = 1, rr_rate_limiter = rate_limiter_new (rc_max_bytes_per_second rc) 0, rr_quota = None,
     rr_metrics = 0, rr_cancelled = cancelled\<rparr>"

definition demo_running :: server_state where
  "demo_running = \<lparr>ss_server_config = demo_server, ss_managed_routes = None, ss_static_routes = [demo_route_config],
     ss_managed_fingerprint = None, ss_configured_routes = [demo_route_a \<mapsto> demo_route_config],
     ss_active_routes = [(demo_route_a, 0)], ss_runtimes = [demo_route_runtime demo_route_config None False],
     ss_sessions = Map.empty, ss_next_session = 1, ss_node_slots = sc_max_node_connections demo_server,
     ss_metrics = fst (metrics_route metrics_default demo_route_a), ss_disk = demo_disk None, ss_quota_store = None,
     ss_shutdown = False\<rparr>"

lemma demo_read_registration:
  "length token < 2 ^ 16 \<Longrightarrow> read_registration (demo_node_io token) = Inr ([9], demo_route_a, token)"
  using parse_register_payload [of demo_route_a token]
  by (simp add: read_registration_def demo_node_io_def io_result_def timed_def demo_route_a_def is_str_url_safe
      is_url_safe_def ascii_class_defs)

lemma demo_names [simp]:
  "rc_route_id demo_route_config = demo_route_a" "rc_route_id demo_rotated = demo_route_a" "rc_route_id demo_second = demo_route_b"
  "demo_route_a \<noteq> demo_route_b" "demo_route_b \<noteq> demo_route_a" "rc_enabled demo_route_config" "rc_enabled demo_rotated" "rc_enabled demo_second"
  "\<not> is_expired demo_route_config demo_now1" "\<not> is_expired demo_rotated demo_now1" "\<not> is_expired demo_second demo_now1"
  "rc_monthly_byte_limit demo_route_config = None" "rc_monthly_byte_limit demo_rotated = None"
  "rc_monthly_byte_limit demo_second = None" "demo_rotated \<noteq> demo_route_config"
  by (simp_all add: demo_route_config_def demo_rotated_def demo_second_def demo_route_a_def demo_route_b_def
      default_route_enabled_def is_expired_def demo_now1_def)

lemma demo_apply_fields [simp]: "ai_order (demo_apply order) = order" "ai_route_now (demo_apply order) rid = demo_now1"
  by (simp_all add: demo_apply_def)

lemma demo_start_route:
  assumes "ss_server_config s = demo_server" and "\<not> ss_shutdown s" and "rc_monthly_byte_limit rc = None"
  shows "start_route (demo_apply order) s rc =
    (if rc_route_id rc = demo_route_a
     then (case metrics_route (ss_metrics s) demo_route_a of (m, mid) \<Rightarrow>
             (s\<lparr>ss_metrics := m, ss_runtimes := ss_runtimes s @ [(demo_route_runtime rc None False)\<lparr>rr_metrics := mid\<rparr>]\<rparr>,
              Inr (length (ss_runtimes s))))
     else (s, Inl (Io IoOther)))"
  using assms
  by (simp add: start_route_def demo_apply_def bind_with_short_retry_def eval_nat_numeral io_result_def
      demo_route_runtime_def split: prod.splits)

lemmas demo_apply_simps = apply_routes_def apply_quota_def next_routes_def changed_routes_def removed_routes_def
  revoke_route_def demo_start_route Let_def runtime_at_def AList.delete_eq revoke_def cancel_runtime_def set_runtime_def
  active_tunnels_store_def metrics_at_def route_metrics_default_def

lemma demo_start_runs:
  "server_start demo_registry demo_registry_io demo_start (demo_apply [demo_route_a]) demo_config
     = (demo_disk None, Inr demo_running)"
proof -
  have "load_routes demo_registry demo_registry_io demo_config = Inr ([demo_route_config], None)"
    by (simp add: load_routes_def load_effective_routes_def demo_config_def)
  then show ?thesis
    by (simp add: server_start_def demo_config_valid)
      (simp add: demo_config_def demo_start_def io_result_def demo_apply_simps demo_running_def
        metrics_route_def metrics_default_def demo_route_runtime_def)
qed

text \<open>The reload that rotates the token of the first route and adds a second one.\<close>

definition demo_reloaded :: server_state where
  "demo_reloaded = demo_running
     \<lparr>ss_runtimes := [demo_route_runtime demo_route_config None True, demo_route_runtime demo_rotated None False],
      ss_active_routes := [(demo_route_a, 1)]\<rparr>"

lemma demo_config2_valid: "validate_config demo_config2 = Inr ()"
proof -
  have "route_ok demo_server demo_rotated" "route_ok demo_server demo_second"
    using demo_route_ok
    by (simp_all add: route_ok_def demo_rotated_def demo_second_def demo_route_config_def demo_server_def demo_addr_def
        route_id_ok_def digest_ok_def demo_route_b_def route_limits_bad_def is_url_safe_def ascii_class_defs list_all_iff default_defs)
  moreover have "validate_server demo_server = Inr ()" "2 \<le> sc_max_routes demo_server"
    by (simp_all add: validate_server_def demo_server_def default_defs demo_addr_def MIN_FRAME_BYTES_def MAX_FRAME_BYTES_def)
  moreover have "rc_public_listen demo_rotated \<noteq> rc_public_listen demo_second"
    by (simp add: demo_rotated_def demo_second_def demo_route_config_def demo_addr_def)
  ultimately have "validate_routes demo_config2 [demo_rotated, demo_second] = Inr ()"
    by (simp add: validate_routes_Inr demo_config2_def demo_config_def)
  then show ?thesis
    using \<open>validate_server demo_server = Inr ()\<close> \<open>2 \<le> sc_max_routes demo_server\<close>
    by (simp add: validate_config_def demo_config2_def demo_config_def)
qed

lemma demo_reload_fails:
  "reload demo_registry demo_registry_io (demo_apply [demo_route_a, demo_route_b]) demo_running demo_config2
     = (demo_reloaded, Inl (Io IoOther))"
proof -
  have "load_routes demo_registry demo_registry_io demo_config2 = Inr ([demo_rotated, demo_second], None)"
    by (simp add: load_routes_def load_effective_routes_def demo_config2_def demo_config_def)
  then show ?thesis
    by (simp add: reload_def demo_config2_valid)
      (simp add: demo_config2_def demo_config_def demo_apply_simps demo_running_def demo_reloaded_def
        metrics_route_def metrics_default_def demo_route_runtime_def)
qed


lemma demo_authenticate:
  "authenticate demo_tokens demo_registry [demo_route_a \<mapsto> demo_route_config] demo_now1 [9] demo_route_a [1] = Inr demo_route_config"
  "authenticate demo_tokens demo_registry [demo_route_a \<mapsto> demo_route_config] demo_now1 [9] demo_route_a [2] = Inl auth_failed"
  "\<not> token_matches demo_tokens demo_rotated (sha256 demo_registry [1])"
  "token_matches demo_tokens demo_rotated (sha256 demo_registry [2])"
  by (simp_all add: authenticate_def REGISTER_TOKEN_MAX_BYTES_def token_matches_def cert_matches_def demo_tokens_def
      demo_registry_def demo_rotated_def demo_route_config_def is_expired_def demo_now1_def default_route_enabled_def
      toy_digest_def)

definition demo_registered :: "server_state \<Rightarrow> nat \<Rightarrow> server_state" where
  "demo_registered s a = fst (run_tunnel_begin s a 0)"

lemma demo_connection:
  assumes "ss_configured_routes s = [demo_route_a \<mapsto> demo_route_config]" and "map_of (ss_active_routes s) demo_route_a = Some a"
    and "\<not> rr_cancelled (runtime_at s a)"
  shows "handle_node_connection demo_tokens demo_registry (demo_node_io [1]) (ss_configured_routes s) s
      = (demo_registered s a, [], Inr (ss_next_session s))"
    and "handle_node_connection demo_tokens demo_registry (demo_node_io [2]) (ss_configured_routes s) s = (s, [frame_code Error 0 AuthFailed], Inl auth_failed)"
  using assms
  by (simp_all add: handle_node_connection_def demo_read_registration demo_authenticate demo_registered_def
      run_tunnel_begin_def Let_def tunnel_send_def tn_send_def new_tunnel_def write_terminal_error_def auth_failed_def)
    (simp_all add: demo_node_io_def demo_authenticate [unfolded auth_failed_def] Let_def tunnel_send_def tn_send_def new_tunnel_def
      run_tunnel_begin_def write_terminal_error_def)


section \<open>Properties\<close>

text \<open>Claim C10: one live tunnel per route. In every run of the server, from its start and over reloads, watcher
  passes, registrations, ends of tunnels, dropped handles and shutdown, a tunnel that is not cancelled runs on an active, enabled
  route that was not revoked, is the tunnel that members of the route are given, and is the only live one of that route.\<close>

theorem live_tunnel_unique:
  assumes start: "server_start re gio sio io cfg = (d, Inr s0)"
    and run: "reaches (server_step te re) s0 ls s" and bound: "1 + length ls < 2 ^ 64"
    and live: "ss_sessions s tid = Some (a, t)" "\<not> tn_cancelled t"
  shows "(\<exists>rid. map_of (ss_active_routes s) rid = Some a \<and> rc_route_id (rr_config (runtime_at s a)) = rid)
    \<and> rc_enabled (rr_config (runtime_at s a)) \<and> \<not> rr_cancelled (runtime_at s a) \<and> \<not> ss_shutdown s
    \<and> current_tunnel s a = Some tid
    \<and> (\<forall>tid' t'. ss_sessions s tid' = Some (a, t') \<and> \<not> tn_cancelled t' \<longrightarrow> tid' = tid)"
proof -
  have "server_wf s"
    using reaches_server_wf [OF run server_start_wf(1) [OF start]] server_start_wf(2) [OF start] bound by simp
  then have ok: "active_ok s" "revoked_ok s" "sessions_ok s" by (simp_all add: server_wf_def)
  have a: "a < length (ss_runtimes s)" "rr_tunnel (runtime_at s a) = Some tid" "\<not> rr_cancelled (runtime_at s a)"
    using ok(3) live unfolding sessions_ok_def by blast+
  have "a \<in> snd ` set (ss_active_routes s)" "\<not> ss_shutdown s" using ok(2) a unfolding revoked_ok_def by blast+
  then obtain rid where rid: "(rid, a) \<in> set (ss_active_routes s)" by auto
  then have "map_of (ss_active_routes s) rid = Some a" using ok(1) by (simp add: active_ok_def)
  moreover have "\<forall>tid' t'. ss_sessions s tid' = Some (a, t') \<and> \<not> tn_cancelled t' \<longrightarrow> tid' = tid"
    using ok(3) a(2) unfolding sessions_ok_def by (metis option.inject)
  moreover have "current_tunnel s a = Some tid" using a(2) live by (simp add: current_tunnel_def)
  ultimately show ?thesis using active_okD [OF ok(1) rid] a(3) \<open>\<not> ss_shutdown s\<close> by auto
qed

theorem live_tunnel_unique_witness:
  "\<exists>s t. reaches (server_step demo_tokens demo_registry) demo_running [NodeAccepted] s
     \<and> ss_sessions s 1 = Some (0, t) \<and> \<not> tn_cancelled t \<and> current_tunnel s 0 = Some 1"
proof -
  let ?s = "demo_running\<lparr>ss_node_slots := ss_node_slots demo_running - 1\<rparr>"
  have slots: "ss_node_slots demo_running \<noteq> 0"
    by (simp add: demo_running_def demo_server_def default_max_node_connections_def)
  have "handle_node_connection demo_tokens demo_registry (demo_node_io [1]) (ss_configured_routes ?s) ?s = (demo_registered ?s 0, [], Inr 1)"
    using demo_connection(1) [of ?s 0] by (simp add: demo_running_def runtime_at_def demo_route_runtime_def)
  then have "node_accepted demo_tokens demo_registry (demo_node_io [1]) (ss_configured_routes ?s) demo_running = (demo_registered ?s 0, [], Some (Inr 1))"
    using slots by (simp add: node_accepted_def)
  then have run: "reaches (server_step demo_tokens demo_registry) demo_running [NodeAccepted] (demo_registered ?s 0)"
    by (intro reaches_single [where step = "server_step demo_tokens demo_registry"] accepts)
  obtain t where t: "ss_sessions (demo_registered ?s 0) 1 = Some (0, t)" "\<not> tn_cancelled t"
    by (simp add: demo_registered_def run_tunnel_begin_def Let_def demo_running_def runtime_at_def demo_route_runtime_def
        tunnel_send_def tn_send_def new_tunnel_def)
  show ?thesis using live_tunnel_unique [OF demo_start_runs run _ t] run t by auto
qed

text \<open>Claim C13: what a set of routes becomes when it is applied. If applying succeeds, every active route runs
  with its new configuration; every enabled and unexpired route of the set is active; a route that is active with an
  unchanged configuration keeps its listener, its tunnel and its counters; and every tunnel of a route that changed or
  disappeared is cancelled.\<close>

theorem apply_routes_exact:
  assumes wf: "server_wf s" and ap: "apply_routes io s routes = (s', Inr ())"
    and order: "set (ai_order io) = rc_route_id ` set routes"
  shows "ss_configured_routes s' = next_routes routes
    \<and> (\<forall>rid a. map_of (ss_active_routes s') rid = Some a \<longrightarrow> next_routes routes rid = Some (rr_config (runtime_at s' a)))
    \<and> (\<forall>rid r. next_routes routes rid = Some r \<and> rc_enabled r \<and> \<not> is_expired r (ai_route_now io rid) \<longrightarrow>
         map_of (ss_active_routes s') rid \<noteq> None)
    \<and> (\<forall>rid a. map_of (ss_active_routes s) rid = Some a \<and> next_routes routes rid = Some (rr_config (runtime_at s a)) \<longrightarrow>
         map_of (ss_active_routes s') rid = Some a \<and> runtime_at s' a = runtime_at s a)
    \<and> (\<forall>rid a tid t. map_of (ss_active_routes s) rid = Some a \<and> next_routes routes rid \<noteq> Some (rr_config (runtime_at s a))
         \<and> ss_sessions s' tid = Some (a, t) \<longrightarrow> tn_cancelled t)"
proof -
  note act = apply_routes_active [OF wf ap]
  have in_order: "rid \<in> set (ai_order io)" if "next_routes routes rid = Some r" for rid r
    using next_routes_id [OF that] order by auto
  have "ss_configured_routes s' = next_routes routes" by (rule apply_routes_Inr [OF ap])
  then show ?thesis using act(1,2,3) in_order apply_routes_revokes [OF wf ap] by blast
qed


theorem apply_routes_exact_witness:
  "\<exists>s'. apply_routes (demo_apply [demo_route_a]) demo_running [demo_rotated] = (s', Inr ())
     \<and> ss_active_routes s' = [(demo_route_a, 1)] \<and> ss_configured_routes s' demo_route_a = Some demo_rotated
     \<and> rr_config (runtime_at s' 1) = demo_rotated"
proof -
  have wf: "server_wf demo_running" by (rule server_start_wf(1) [OF demo_start_runs])
  obtain s' where s': "apply_routes (demo_apply [demo_route_a]) demo_running [demo_rotated] = (s', Inr ())"
    "ss_active_routes s' = [(demo_route_a, 1)]"
    by (simp add: demo_apply_simps demo_running_def metrics_route_def metrics_default_def demo_route_runtime_def)
  have nxt: "next_routes [demo_rotated] demo_route_a = Some demo_rotated" by (simp add: next_routes_def)
  have act: "map_of (ss_active_routes s') demo_route_a = Some 1" by (simp add: s'(2))
  have "set (ai_order (demo_apply [demo_route_a])) = rc_route_id ` set [demo_rotated]" by simp
  note exact = apply_routes_exact [OF wf s'(1) this]
  have "ss_configured_routes s' = next_routes [demo_rotated]" by (rule conjunct1 [OF exact])
  moreover have "next_routes [demo_rotated] demo_route_a = Some (rr_config (runtime_at s' 1))"
    by (rule exact [THEN conjunct2, THEN conjunct1, rule_format, OF act])
  ultimately show ?thesis using s' nxt by auto
qed

text \<open>Claim C11: who may register. If a connection registers a tunnel, the node presented the certificate and the
  token whose digests the configured route names, the route is enabled and its grant has not expired, and the tunnel
  is registered on the active route of that name. Every other connection leaves the state as it is. The configuration is
  the one the connection read, also if a reload came between that and the registration.\<close>

theorem node_authenticated:
  assumes "handle_node_connection te re nio configured s = (s', out, r)" and "(\<exists>tid. r = Inr tid) \<or> s' \<noteq> s"
  shows "\<exists>cert rid token rc a. read_registration nio = Inr (cert, rid, token) \<and> token \<noteq> [] \<and> length token \<le> 256
    \<and> configured rid = Some rc \<and> rc_enabled rc \<and> \<not> is_expired rc (ni_now nio)
    \<and> token_matches te rc (sha256 re token) \<and> cert_matches te rc (sha256 re cert)
    \<and> map_of (ss_active_routes s) rid = Some a \<and> run_tunnel_begin s a (ni_instant nio) = (s', r)"
  using assms
  by (auto simp: handle_node_connection_def authenticate_def REGISTER_TOKEN_MAX_BYTES_def not_less
      split: sum.splits prod.splits option.splits if_splits)

theorem node_authenticated_witness:
  "\<exists>s'. handle_node_connection demo_tokens demo_registry (demo_node_io [1]) (ss_configured_routes demo_running) demo_running
        = (s', [], Inr 1)
     \<and> (\<exists>rc. ss_configured_routes demo_running demo_route_a = Some rc \<and> token_matches demo_tokens rc (sha256 demo_registry [1]))"
proof -
  have h: "handle_node_connection demo_tokens demo_registry (demo_node_io [1]) (ss_configured_routes demo_running) demo_running
      = (demo_registered demo_running 0, [], Inr 1)"
    using demo_connection(1) [of demo_running 0] by (simp add: demo_running_def runtime_at_def demo_route_runtime_def)
  show ?thesis using node_authenticated [OF h] h by (auto simp: demo_read_registration)
qed

text \<open>Claim C15: a reload that fails half-way leaves a withdrawn token valid and its replacement refused. The reload
  rotates the token of a route and adds a route whose port is taken: the first route is restarted with its new
  configuration, the second cannot be bound, and the reload returns the error before it replaces the configuration that
  registrations are checked against. A node with the withdrawn token then registers on the restarted route, and a node
  with the new token is rejected.\<close>

theorem failed_reload_keeps_withdrawn_token:
  "\<exists>s s' rt. reload demo_registry demo_registry_io (demo_apply [demo_route_a, demo_route_b]) demo_running demo_config2
       = (s, Inl (Io IoOther))
     \<and> map_of (ss_active_routes s) demo_route_a = Some 1 \<and> runtime_at s 1 = rt \<and> rr_config rt = demo_rotated
     \<and> \<not> token_matches demo_tokens (rr_config rt) (sha256 demo_registry [1])
     \<and> token_matches demo_tokens (rr_config rt) (sha256 demo_registry [2])
     \<and> handle_node_connection demo_tokens demo_registry (demo_node_io [1]) (ss_configured_routes s) s = (s', [], Inr 1)
     \<and> current_tunnel s' 1 = Some 1
     \<and> handle_node_connection demo_tokens demo_registry (demo_node_io [2]) (ss_configured_routes s) s = (s, [frame_code Error 0 AuthFailed], Inl auth_failed)"
proof -
  have s: "ss_configured_routes demo_reloaded = [demo_route_a \<mapsto> demo_route_config]"
    "map_of (ss_active_routes demo_reloaded) demo_route_a = Some 1" "runtime_at demo_reloaded 1 = demo_route_runtime demo_rotated None False"
    "ss_next_session demo_reloaded = 1"
    by (simp_all add: demo_reloaded_def demo_running_def runtime_at_def)
  have live: "\<not> rr_cancelled (runtime_at demo_reloaded 1)" unfolding s(3) by (simp add: demo_route_runtime_def)
  have "current_tunnel (demo_registered demo_reloaded 1) 1 = Some 1"
    by (simp add: demo_registered_def run_tunnel_begin_def Let_def demo_reloaded_def demo_running_def runtime_at_def
        demo_route_runtime_def tunnel_send_def tn_send_def new_tunnel_def current_tunnel_def register_tunnel_simps)
  then show ?thesis
    using demo_reload_fails demo_connection [OF s(1,2) live] s demo_authenticate(3,4)
    by (intro exI [of _ demo_reloaded] exI [of _ "demo_registered demo_reloaded 1"]) (simp add: demo_route_runtime_def)
qed

end
