(* ===== verification/Relay_Handshake.thy ===== *)
theory Relay_Handshake
  imports Relay_Server_Properties
begin

text \<open>
  The registration of a node, both sides composed over the bytes between them: \<open>run_session\<close> of
  \<open>relay-server/src/node.rs\<close> and \<open>handle_node_connection\<close> of \<open>relay-server/src/relay.rs\<close>, on a network that
  delivers what was sent and closes the connection in an orderly way.
\<close>

section \<open>The exchange\<close>

definition wire_read :: "nat \<Rightarrow> byte list \<Rightarrow> (relay_error, frame option) result" where
  "wire_read m bytes = rbind (read_from m UnexpectedEof bytes) (\<lambda>r. Inr (map_option fst r))"

text \<open>What the network gives the node when everything but the answer succeeded.\<close>

definition node_side :: "(relay_error, frame option) result option \<Rightarrow> session_io" where
  "node_side response = \<lparr>si_connect = Some (Inr ()), si_nodelay = Inr (), si_server_name = True,
     si_tls = Some (Inr (Some ''pn-relay-v1'')), si_write = Inr (), si_response = response\<rparr>"

definition relay_io :: "byte list \<Rightarrow> odt \<Rightarrow> nat \<Rightarrow> (relay_error, frame option) result \<Rightarrow> node_io" where
  "relay_io cert now clock r = \<lparr>ni_nodelay = Inr (), ni_tls = Some (Inr (Some ''pn-relay-v1'', Some [cert])),
     ni_register = Some r, ni_now = now, ni_instant = clock\<rparr>"

text \<open>What the relay wrote to the node: the frame that ends the connection, or what the session queued.\<close>

definition relay_wrote :: "server_state \<Rightarrow> frame list \<Rightarrow> (relay_error, u64) result \<Rightarrow> frame list" where
  "relay_wrote s out r =
     (case r of
        Inl _ \<Rightarrow> out
      | Inr tid \<Rightarrow> (case ss_sessions s tid of None \<Rightarrow> out | Some (a, t) \<Rightarrow> out @ tn_outbox t))"

definition relay_bytes :: "nat \<Rightarrow> frame list \<Rightarrow> byte list" where
  "relay_bytes m fs = concat (map (\<lambda>f. case write_to f m of Inl _ \<Rightarrow> [] | Inr bs \<Rightarrow> bs) fs)"

definition handshake ::
  "token_env \<Rightarrow> registry_env \<Rightarrow> node_config \<Rightarrow> byte list \<Rightarrow> byte list \<Rightarrow> odt \<Rightarrow> nat \<Rightarrow> (string \<rightharpoonup> route_config) \<Rightarrow>
   server_state \<Rightarrow> server_state \<times> (relay_error, unit) result" where
  "handshake te re c token cert now clock configured s =
     (let m = sc_max_frame_bytes (ss_server_config s);
          sent = fst (run_session c token (node_side None))
      in case handle_node_connection te re (relay_io cert now clock (wire_read m sent)) configured s of
           (s', out, r) \<Rightarrow>
             (s', snd (run_session c token (node_side (Some (wire_read (nc_max_frame_bytes c) (relay_bytes m (relay_wrote s' out r))))))))"

section \<open>Each direction\<close>

lemma wire_read_frame: "frame_fits m f \<Longrightarrow> wire_read m (frame_wire f @ rest) = Inr (Some f)"
  by (simp add: wire_read_def read_from_frame_wire)

lemma wire_read_closed: "wire_read m [] = Inr None"
  by (simp add: wire_read_def read_from_def)

lemma relay_bytes_Cons: "frame_fits m f \<Longrightarrow> relay_bytes m (f # fs) = frame_wire f @ relay_bytes m fs"
  using write_to_fits [of f m "frame_wire f"] by (simp add: relay_bytes_def)

lemma validate_node_route:
  assumes "validate_node c = Inr ()"
  shows "is_str (nc_route_id c)" and "length (nc_route_id c) \<le> 128" and "NODE_MIN_FRAME_BYTES \<le> nc_max_frame_bytes c"
  using assms by (auto simp: validate_node_def intro: is_str_url_safe split: if_splits)

definition register_frame :: "node_config \<Rightarrow> byte list \<Rightarrow> frame" where
  "register_frame c token = frame_new Register 0
     (to_be 2 (length (nc_route_id c)) @ str_bytes (nc_route_id c) @ to_be 2 (length token) @ token)"

lemma register_frame_fits:
  "length (nc_route_id c) \<le> 128 \<Longrightarrow> length token \<le> 256 \<Longrightarrow> 1024 \<le> m \<Longrightarrow> frame_fits m (register_frame c token)"
  by (simp add: frame_fits_def register_frame_def frame_new_def)

lemma run_session_registers:
  assumes "validate_node c = Inr ()" and "token_ok token"
  shows "run_session c token (node_side response) = (frame_wire (register_frame c token),
    rbind (timed ''relay registration timed out'' response) (\<lambda>r. rbind r (\<lambda>response.
      case response of
        None \<Rightarrow> Inl (Stable TunnelLost ''relay closed registration'')
      | Some f \<Rightarrow> registration_response f)))"
proof -
  note c = validate_node_route [OF assms(1)]
  have t: "length token \<le> 256" using assms(2) by (simp add: token_ok_def MAX_ROUTE_TOKEN_BYTES_def)
  have "frame_register (nc_route_id c) token = Inr (register_frame c token)"
    using c(2) t by (simp add: frame_register_Inr register_frame_def)
  moreover have "write_to (register_frame c token) (nc_max_frame_bytes c) = Inr (frame_wire (register_frame c token))"
    using register_frame_fits [OF c(2) t] c(3) by (simp add: write_to_fits NODE_MIN_FRAME_BYTES_def)
  ultimately show ?thesis by (simp add: run_session_def node_side_def io_result_def timed_def)
qed

lemma relay_reads_registration:
  assumes "validate_node c = Inr ()" and "token_ok token" and "1024 \<le> m"
  shows "read_registration (relay_io cert now clock (wire_read m (fst (run_session c token (node_side r)))))
    = Inr (cert, nc_route_id c, token)"
proof -
  note c = validate_node_route [OF assms(1)]
  have t: "length token \<le> 256" using assms(2) by (simp add: token_ok_def MAX_ROUTE_TOKEN_BYTES_def)
  have "wire_read m (fst (run_session c token (node_side r))) = Inr (Some (register_frame c token))"
    using wire_read_frame [OF register_frame_fits [OF c(2) t assms(3)], of "[]"] run_session_registers [OF assms(1,2)] by simp
  moreover have "parse_register (register_frame c token) = Inr (nc_route_id c, token)"
    using parse_register_payload [OF c(1)] c(2) t by (simp add: register_frame_def)
  ultimately show ?thesis by (simp add: read_registration_def relay_io_def io_result_def timed_def)
qed

lemma node_reads:
  assumes "validate_node c = Inr ()" and "token_ok token" and "frame_fits m f" and "frame_fits (nc_max_frame_bytes c) f"
  shows "snd (run_session c token (node_side (Some (wire_read (nc_max_frame_bytes c) (relay_bytes m (f # fs))))))
    = registration_response f"
  using run_session_registers [OF assms(1,2)] wire_read_frame [OF assms(4)] relay_bytes_Cons [OF assms(3)]
  by (simp add: timed_def)

lemma node_reads_close:
  assumes "validate_node c = Inr ()" and "token_ok token"
  shows "snd (run_session c token (node_side (Some (wire_read (nc_max_frame_bytes c) (relay_bytes m [])))))
    = Inl (Stable TunnelLost ''relay closed registration'')"
  using run_session_registers [OF assms] by (simp add: timed_def relay_bytes_def wire_read_closed)

lemma as_str_short: "length (as_str k) \<le> 32"
  by (cases k) simp_all

lemma terminal_error_fits: "1024 \<le> m \<Longrightarrow> frame_fits m (frame_code Error 0 k)"
  using as_str_short [of k] by (simp add: frame_fits_def frame_code_def frame_new_def)

lemma register_ok_fits: "1024 \<le> m \<Longrightarrow> frame_fits m (frame_u32 RegisterOk 0 n)"
  by (simp add: frame_fits_def frame_u32_def frame_new_def)

lemma response_error: "registration_response (frame_code Error 0 k) = Inl (Stable k ''relay rejected route registration'')"
  by (simp add: registration_response_def frame_code_def frame_new_def)

lemma response_ok: "registration_response (frame_u32 RegisterOk 0 n) = Inr ()"
  by (simp add: registration_response_def frame_u32_def frame_new_def parse_u32_def)

lemma registered_session:
  assumes "\<not> rr_cancelled (runtime_at s a)" and "a < length (ss_runtimes s)"
  obtains s' t where "run_tunnel_begin s a now = (s', Inr (ss_next_session s))"
    "ss_sessions s' (ss_next_session s) = Some (a, t)" "\<not> tn_cancelled t" "current_tunnel s' a = Some (ss_next_session s)"
    "relay_wrote s' [] (Inr (ss_next_session s)) = [frame_u32 RegisterOk 0 (heartbeat_hint (rr_server_config (runtime_at s a)))]"
  using assms that
  by (simp add: run_tunnel_begin_def Let_def tunnel_send_def tn_send_def new_tunnel_def register_tunnel_simps runtime_at_def
      relay_wrote_def current_tunnel_def)

lemma refused_session:
  "rr_cancelled (runtime_at s a) \<Longrightarrow> snd (run_tunnel_begin s a now) = Inl (Stable TunnelLost ''node tunnel is closed'')"
  by (simp add: run_tunnel_begin_def Let_def tunnel_send_def tn_send_def new_tunnel_def)

lemma relay_io_clocks [simp]: "ni_now (relay_io cert now clock r) = now" "ni_instant (relay_io cert now clock r) = clock"
  by (simp_all add: relay_io_def)

lemma handshake_unfold:
  assumes "validate_node c = Inr ()" and "token_ok token" and "1024 \<le> sc_max_frame_bytes (ss_server_config s)"
  shows "handle_node_connection te re (relay_io cert now clock
      (wire_read (sc_max_frame_bytes (ss_server_config s)) (fst (run_session c token (node_side None))))) configured s
    = (case authenticate te re configured now cert (nc_route_id c) token of
         Inl e \<Rightarrow> (s, write_terminal_error (relay_error_code e), Inl e)
       | Inr _ \<Rightarrow>
           (case map_of (ss_active_routes s) (nc_route_id c) of
              None \<Rightarrow> (s, [], Inl (Stable RouteUnavailable ''route listener is unavailable''))
            | Some a \<Rightarrow> (case run_tunnel_begin s a clock of (s', r) \<Rightarrow> (s', [], r))))"
  using relay_reads_registration [OF assms, of cert now clock None]
  by (simp add: handle_node_connection_def cong: sum.case_cong option.case_cong)

section \<open>Properties\<close>

text \<open>Claim C12: the node and the relay agree on the outcome of a registration. A connector with a valid
  configuration and a token from its private file always sends a registration the relay can read, whatever the frame
  bounds of the two sides. If the checks of the relay refuse it, the node ends its session with exactly the code the relay
  refused it with and the relay is unchanged; if they accept it and the route is active and not revoked, the node is
  registered, and the new session is the tunnel of the route; if the route is not active or revoked, the node sees
  the connection closed. So the node is registered exactly if the relay registered its tunnel.\<close>

theorem handshake_agrees:
  assumes "validate_node c = Inr ()" and "token_ok token" and "validate_server (ss_server_config s) = Inr ()"
    and wf: "server_wf s" and hs: "handshake te re c token cert now clock configured s = (s', r)"
  shows "case authenticate te re configured now cert (nc_route_id c) token of
      Inl e \<Rightarrow> s' = s \<and> r = Inl (Stable (relay_error_code e) ''relay rejected route registration'')
    | Inr rc \<Rightarrow>
        (case map_of (ss_active_routes s) (nc_route_id c) of
           None \<Rightarrow> s' = s \<and> r = Inl (Stable TunnelLost ''relay closed registration'')
         | Some a \<Rightarrow>
             if rr_cancelled (runtime_at s a) then r = Inl (Stable TunnelLost ''relay closed registration'')
             else r = Inr () \<and> current_tunnel s' a = Some (ss_next_session s)
               \<and> (\<exists>t. ss_sessions s' (ss_next_session s) = Some (a, t) \<and> \<not> tn_cancelled t))"
proof -
  let ?m = "sc_max_frame_bytes (ss_server_config s)"
  have m: "1024 \<le> ?m"
    using assms(3) by (auto simp: validate_server_def MIN_FRAME_BYTES_def split: if_splits)
  have k: "1024 \<le> nc_max_frame_bytes c" using validate_node_route(3) [OF assms(1)] by (simp add: NODE_MIN_FRAME_BYTES_def)
  note run = hs [unfolded handshake_def Let_def handshake_unfold [OF assms(1,2) m]]
  note close = node_reads_close [OF assms(1,2)]
  show ?thesis
  proof (cases "authenticate te re configured now cert (nc_route_id c) token")
    case (Inl e)
    then show ?thesis
      using run node_reads [OF assms(1,2) terminal_error_fits [OF m] terminal_error_fits [OF k], of "relay_error_code e" "[]"]
      by (auto simp: relay_wrote_def write_terminal_error_def response_error)
  next
    case accepted: (Inr rc)
    show ?thesis
    proof (cases "map_of (ss_active_routes s) (nc_route_id c)")
      case None
      then show ?thesis using run accepted close by (auto simp: relay_wrote_def)
    next
      case (Some a)
      then have a: "a < length (ss_runtimes s)" using wf map_of_SomeD by (fastforce simp: server_wf_def dest: active_okD)
      show ?thesis
      proof (cases "rr_cancelled (runtime_at s a)")
        case True
        then show ?thesis using run accepted Some close refused_session [OF True, of clock]
          by (auto simp: relay_wrote_def split: prod.splits)
      next
        case False
        from registered_session [OF False a, of clock] obtain s1 t where
          s1: "run_tunnel_begin s a clock = (s1, Inr (ss_next_session s))" "ss_sessions s1 (ss_next_session s) = Some (a, t)"
          "\<not> tn_cancelled t" "current_tunnel s1 a = Some (ss_next_session s)"
          "relay_wrote s1 [] (Inr (ss_next_session s)) = [frame_u32 RegisterOk 0 (heartbeat_hint (rr_server_config (runtime_at s a)))]" .
        then show ?thesis
          using run accepted Some False
            node_reads [OF assms(1,2) register_ok_fits [OF m] register_ok_fits [OF k], of _ "[]"]
          by (auto simp: response_ok)
      qed
    qed
  qed
qed

text \<open>A token of the length the file of a node must have, and the decoder that names its digest.\<close>

definition demo_token :: "byte list" where "demo_token = replicate 32 0x61"

definition demo_private_tokens :: token_env where
  "demo_private_tokens = demo_tokens\<lparr>hex_decode := (\<lambda>h. if h = replicate 64 (CHR ''a'') then Some demo_token
     else if h = replicate 64 (CHR ''b'') then Some (toy_digest [9]) else None)\<rparr>"

theorem handshake_agrees_witness:
  "snd (handshake demo_private_tokens demo_registry demo_node demo_token [9] demo_now1 0 (ss_configured_routes demo_running)
         demo_running) = Inr ()
   \<and> snd (handshake demo_private_tokens demo_registry demo_node demo_token [8] demo_now1 0 (ss_configured_routes demo_running)
         demo_running)
       = Inl (Stable AuthFailed ''relay rejected route registration'')"
proof -
  have token: "token_ok demo_token"
    by (simp add: token_ok_def demo_token_def MIN_ROUTE_TOKEN_BYTES_def MAX_ROUTE_TOKEN_BYTES_def bytes_str_def
        list_all_iff char_of_byte_def is_url_safe_def ascii_class_defs)
  have server: "validate_server (ss_server_config demo_running) = Inr ()"
    by (simp add: demo_running_def validate_server_def demo_server_def default_defs demo_addr_def MIN_FRAME_BYTES_def
        MAX_FRAME_BYTES_def)
  have wf: "server_wf demo_running" by (rule server_start_wf(1) [OF demo_start_runs])
  note agrees = handshake_agrees [OF demo_node_valid token server wf surjective_pairing]
  have route: "nc_route_id demo_node = demo_route_a" "ss_configured_routes demo_running demo_route_a = Some demo_route_config"
    "map_of (ss_active_routes demo_running) demo_route_a = Some 0" "\<not> rr_cancelled (runtime_at demo_running 0)"
    by (simp_all add: demo_node_def demo_route_a_def demo_running_def runtime_at_def demo_route_runtime_def)
  have auth: "authenticate demo_private_tokens demo_registry (ss_configured_routes demo_running) demo_now1 [b] demo_route_a demo_token
      = (if b = 9 then Inr demo_route_config else Inl auth_failed)" for b
    by (simp add: authenticate_def route REGISTER_TOKEN_MAX_BYTES_def token_matches_def cert_matches_def demo_private_tokens_def
        demo_tokens_def demo_registry_def demo_route_config_def is_expired_def demo_now1_def default_route_enabled_def
        demo_token_def toy_digest_def)
  note agrees = agrees [of demo_private_tokens demo_registry "[b]" demo_now1 0 "ss_configured_routes demo_running" for b]
  show ?thesis using agrees [of 9] agrees [of 8] by (simp add: route auth auth_failed_def)
qed

end
