(* ===== verification/Router_Protocol.thy ===== *)
theory Router_Protocol
  imports Protocol_Base
begin

text \<open>
  The port mappings a node asks of its router (\<open>node-host/src/router_protocol.rs\<close>): the discovery of the
  route, the three protocols, and the backend that tries them in order. The packages \<open>netdev\<close>, \<open>crab_nat\<close> and
  \<open>igd_next\<close> talk to the system and to the router; what they answer is given to the definitions, and every
  operation returns the calls it made, in order, with its result.
\<close>

section \<open>Failures and records\<close>

datatype mapping_failure =
    RouteUnavailable | PrivateAddressUnavailable | ProtocolUnavailable | Unauthorized | Timeout | InvalidResponse
  | NonPublicAddress | PermanentLeaseUnsupported | OwnershipLost | TopologyChanged | ReleaseFailed

fun mapping_failure_str :: "mapping_failure \<Rightarrow> string" where
  "mapping_failure_str RouteUnavailable = ''mapping_route_unavailable''"
| "mapping_failure_str PrivateAddressUnavailable = ''mapping_private_address_unavailable''"
| "mapping_failure_str ProtocolUnavailable = ''mapping_protocol_unavailable''"
| "mapping_failure_str Unauthorized = ''mapping_unauthorized''"
| "mapping_failure_str Timeout = ''mapping_timeout''"
| "mapping_failure_str InvalidResponse = ''mapping_invalid_response''"
| "mapping_failure_str NonPublicAddress = ''mapping_non_public_address''"
| "mapping_failure_str PermanentLeaseUnsupported = ''mapping_permanent_lease_unsupported''"
| "mapping_failure_str OwnershipLost = ''mapping_ownership_lost''"
| "mapping_failure_str TopologyChanged = ''mapping_topology_changed''"
| "mapping_failure_str ReleaseFailed = ''mapping_release_failed''"

datatype endpoint_source = Manual | Pcp | NatPmp | Upnp | Relay

definition LEASE_SECONDS :: u32 where "LEASE_SECONDS = 3600"
definition MAX_ACCEPTED_LEASE_SECONDS :: u32 where "MAX_ACCEPTED_LEASE_SECONDS = 86400"
definition MAX_UPNP_ENTRIES :: nat where "MAX_UPNP_ENTRIES = 64"

record mapping_request =
  mr_node_id :: uuid
  mr_revision :: int
  mr_internal_port :: u16

record durable_mapping =
  dm_source :: endpoint_source
  dm_gateway_address :: ip_addr
  dm_internal_address :: ip_addr
  dm_internal_port :: u16
  dm_external_address :: ip_addr
  dm_external_port :: u16
  dm_pcp_nonce :: "byte list option"
  dm_upnp_description :: "string option"
  dm_gateway_epoch :: "u32 option"
  dm_lifetime_seconds :: u32
  dm_topology_fingerprint :: "byte list option"

record created_mapping =
  cm_source :: endpoint_source
  cm_gateway_address :: ip_addr
  cm_internal_address :: ip_addr
  cm_internal_port :: u16
  cm_external_address :: ip_addr
  cm_external_port :: u16
  cm_pcp_nonce :: "byte list option"
  cm_upnp_description :: "string option"
  cm_gateway_epoch :: "u32 option"
  cm_lifetime_seconds :: u32
  cm_topology_fingerprint :: "byte list"

definition durable_from :: "created_mapping \<Rightarrow> durable_mapping" where
  "durable_from m =
     \<lparr>dm_source = cm_source m, dm_gateway_address = cm_gateway_address m, dm_internal_address = cm_internal_address m,
      dm_internal_port = cm_internal_port m, dm_external_address = cm_external_address m,
      dm_external_port = cm_external_port m, dm_pcp_nonce = cm_pcp_nonce m, dm_upnp_description = cm_upnp_description m,
      dm_gateway_epoch = cm_gateway_epoch m, dm_lifetime_seconds = cm_lifetime_seconds m,
      dm_topology_fingerprint = Some (cm_topology_fingerprint m)\<rparr>"

section \<open>Addresses\<close>

definition valid_finite_lifetime :: "u32 \<Rightarrow> bool" where
  "valid_finite_lifetime seconds \<longleftrightarrow> 0 < seconds \<and> seconds \<le> MAX_ACCEPTED_LEASE_SECONDS"

definition is_private_router_address :: "ipv4 \<Rightarrow> bool" where
  "is_private_router_address a \<longleftrightarrow> v4_is_private a \<and> \<not> v4_is_loopback a \<and> \<not> v4_is_link_local a
     \<and> \<not> v4_is_unspecified a \<and> \<not> v4_is_multicast a"

fun is_publishable_ipv4 :: "ipv4 \<Rightarrow> bool" where
  "is_publishable_ipv4 (Ipv4 a b c d) \<longleftrightarrow>
     (let x = Ipv4 a b c d in
      \<not> v4_is_private x \<and> \<not> v4_is_loopback x \<and> \<not> v4_is_link_local x \<and> \<not> v4_is_unspecified x \<and> \<not> v4_is_multicast x
      \<and> \<not> v4_is_broadcast x \<and> \<not> v4_is_documentation x
      \<and> \<not> (a = 100 \<and> 64 \<le> b \<and> b \<le> 127)
      \<and> \<not> (a = 192 \<and> b = 0 \<and> c = 0)
      \<and> \<not> (a = 198 \<and> (b = 18 \<or> b = 19))
      \<and> a \<noteq> 0 \<and> a < 240)"

fun is_publishable_external_address :: "ip_addr \<Rightarrow> bool" where
  "is_publishable_external_address (V4 a) = is_publishable_ipv4 a"
| "is_publishable_external_address (V6 a) = False"

fun v4_octets :: "ipv4 \<Rightarrow> byte list" where
  "v4_octets (Ipv4 a b c d) = [a, b, c, d]"

text \<open>\<open>NonZeroU16::new\<close>; a port of that type is the port.\<close>

definition nonzero :: "u16 \<Rightarrow> (mapping_failure, u16) result" where
  "nonzero port = (if port = 0 then Inl InvalidResponse else Inr port)"

section \<open>The route\<close>

text \<open>
  The default interface as \<open>netdev\<close> reports it. A network of the interface is its address, the length of its
  prefix and the test for membership.
\<close>

record ipv4_net =
  net_addr :: ipv4
  net_prefix :: byte
  net_contains :: "ipv4 \<Rightarrow> bool"

record interface =
  if_index :: u32
  if_name :: string
  if_up :: bool
  if_running :: bool
  if_loopback :: bool
  if_point_to_point :: bool
  if_tun :: bool
  if_gateway :: "(ipv4 list \<times> byte list) option"
  if_ipv4 :: "ipv4_net list"

record route =
  ro_gateway :: ipv4
  ro_client :: ipv4
  ro_fingerprint :: "byte list"

definition topology_transcript :: "u32 \<Rightarrow> string \<Rightarrow> ipv4 \<Rightarrow> ipv4 \<Rightarrow> byte \<Rightarrow> byte list option \<Rightarrow> byte list" where
  "topology_transcript index name gateway client prefix mac =
     str_bytes ''friend-node/router-topology/v1'' @ [0] @ u32_be index
     @ u64_be (case u64_try_from (length name) of None \<Rightarrow> - 1 | Some n \<Rightarrow> n) @ str_bytes name
     @ v4_octets gateway @ v4_octets client @ [prefix]
     @ (case mac of Some address \<Rightarrow> 1 # address | None \<Rightarrow> [0])"

definition topology_fingerprint ::
  "'z proto_env_scheme \<Rightarrow> u32 \<Rightarrow> string \<Rightarrow> ipv4 \<Rightarrow> ipv4 \<Rightarrow> byte \<Rightarrow> byte list option \<Rightarrow> byte list" where
  "topology_fingerprint pe index name gateway client prefix mac =
     sha256 pe (topology_transcript index name gateway client prefix mac)"

definition find_network :: "ipv4 \<Rightarrow> ipv4_net list \<Rightarrow> ipv4_net option" where
  "find_network gateway nets =
     (case find (\<lambda>n. net_contains n gateway \<and> is_private_router_address (net_addr n)) nets of
        Some n \<Rightarrow> Some n
      | None \<Rightarrow> find (\<lambda>n. is_private_router_address (net_addr n)) nets)"

definition discover_default_route ::
  "'z proto_env_scheme \<Rightarrow> interface option \<Rightarrow> (mapping_failure, route) result" where
  "discover_default_route pe found =
     (case found of
        None \<Rightarrow> Inl RouteUnavailable
      | Some i \<Rightarrow>
          if \<not> if_up i \<or> \<not> if_running i \<or> if_loopback i \<or> if_point_to_point i \<or> if_tun i then Inl RouteUnavailable
          else
            (case if_gateway i of
               None \<Rightarrow> Inl RouteUnavailable
             | Some ([], mac) \<Rightarrow> Inl RouteUnavailable
             | Some (gateway # _, mac) \<Rightarrow>
                 if \<not> is_private_router_address gateway then Inl RouteUnavailable
                 else
                   (case find_network gateway (if_ipv4 i) of
                      None \<Rightarrow> Inl PrivateAddressUnavailable
                    | Some network \<Rightarrow>
                        Inr \<lparr>ro_gateway = gateway, ro_client = net_addr network,
                             ro_fingerprint = topology_fingerprint pe (if_index i) (if_name i) gateway (net_addr network)
                               (net_prefix network) (if mac \<noteq> replicate 6 0 then Some mac else None)\<rparr>)))"

definition mapping_route ::
  "'z proto_env_scheme \<Rightarrow> interface option \<Rightarrow> durable_mapping \<Rightarrow> (mapping_failure, route) result" where
  "mapping_route pe found m =
     (case dm_gateway_address m of
        V6 _ \<Rightarrow> Inl RouteUnavailable
      | V4 gateway \<Rightarrow>
          (case dm_internal_address m of
             V6 _ \<Rightarrow> Inl PrivateAddressUnavailable
           | V4 client \<Rightarrow>
               if \<not> is_private_router_address gateway \<or> \<not> is_private_router_address client then Inl TopologyChanged
               else
                 rbind (discover_default_route pe found) (\<lambda>current.
                   if ro_gateway current \<noteq> gateway \<or> ro_client current \<noteq> client
                      \<or> (case dm_topology_fingerprint m of None \<Rightarrow> False | Some fp \<Rightarrow> fp \<noteq> ro_fingerprint current)
                   then Inl TopologyChanged else Inr current)))"

section \<open>Requests to the router\<close>

type_synonym pcp_nonce = "u32 \<times> u32 \<times> u32"

datatype crab_type = CrabPcp pcp_nonce ip_addr | CrabNatPmp

text \<open>\<open>PortMapping\<close> of \<open>crab_nat\<close>.\<close>

record port_mapping =
  pm_gateway :: ip_addr
  pm_internal_port :: u16
  pm_external_port :: u16
  pm_lifetime :: u32
  pm_epoch :: u32
  pm_type :: crab_type

text \<open>
  What the node asks of the router: one element per call of a library. A call may retry, as \<open>short_timeout_config\<close> lets the
  calls of \<open>crab_nat\<close> do, or exchange several messages, as the search of a gateway does; what is sent is up to the library.
\<close>

datatype router_request =
    PcpMap ipv4 ipv4 u16 pcp_nonce "ip_addr option" "u16 option" u32
  | NatPmpMap ipv4 u16 "u16 option" u32
  | NatPmpAddress ipv4
  | DropMapping port_mapping
  | PcpDrop ipv4 ipv4 pcp_nonce u16
  | NatPmpDrop ipv4 u16
  | UpnpSearch ipv4
  | UpnpExternalIp
  | UpnpAddPort u16 ip_addr u16 u32 string
  | UpnpAddAny ip_addr u16 u32 string
  | UpnpEntry nat
  | UpnpRemove u16

text \<open>An operation: the calls it made and its result.\<close>

type_synonym 'a routed = "router_request list \<times> (mapping_failure, 'a) result"

definition routed_bind :: "'a routed \<Rightarrow> ('a \<Rightarrow> 'b routed) \<Rightarrow> 'b routed" where
  "routed_bind m f =
     (case m of
        (rs, Inl e) \<Rightarrow> (rs, Inl e)
      | (rs, Inr x) \<Rightarrow> (case f x of (rs', r) \<Rightarrow> (rs @ rs', r)))"

definition no_request :: "(mapping_failure, 'a) result \<Rightarrow> 'a routed" where
  "no_request r = ([], r)"

definition ask :: "router_request \<Rightarrow> (mapping_failure, 'a) result \<Rightarrow> 'a routed" where
  "ask q r = ([q], r)"

definition map_err :: "('e \<Rightarrow> 'f) \<Rightarrow> ('e, 'a) result \<Rightarrow> ('f, 'a) result" where
  "map_err f r = (case r of Inl e \<Rightarrow> Inl (f e) | Inr x \<Rightarrow> Inr x)"

text \<open>\<open>bounded\<close>: \<open>None\<close> is a timer that fired first.\<close>

definition bounded :: "'a option \<Rightarrow> (mapping_failure, 'a) result" where
  "bounded r = (case r of None \<Rightarrow> Inl Timeout | Some x \<Rightarrow> Inr x)"

section \<open>PCP and NAT-PMP\<close>

datatype pcp_code = PcpNotAuthorized | PcpUnsupportedVersion | PcpUnsupportedOpcode | PcpUnsupportedOption
  | PcpUnsupportedProtocol | PcpOtherCode nat

datatype pcp_failure = PcpTimeout | PcpSocket | PcpNonce | PcpInvalidResponse | PcpResultCode pcp_code

fun classify_pcp_failure :: "pcp_failure \<Rightarrow> mapping_failure" where
  "classify_pcp_failure PcpTimeout = Timeout"
| "classify_pcp_failure PcpSocket = RouteUnavailable"
| "classify_pcp_failure PcpNonce = InvalidResponse"
| "classify_pcp_failure PcpInvalidResponse = InvalidResponse"
| "classify_pcp_failure (PcpResultCode PcpNotAuthorized) = Unauthorized"
| "classify_pcp_failure (PcpResultCode PcpUnsupportedVersion) = ProtocolUnavailable"
| "classify_pcp_failure (PcpResultCode PcpUnsupportedOpcode) = ProtocolUnavailable"
| "classify_pcp_failure (PcpResultCode PcpUnsupportedOption) = ProtocolUnavailable"
| "classify_pcp_failure (PcpResultCode PcpUnsupportedProtocol) = ProtocolUnavailable"
| "classify_pcp_failure (PcpResultCode (PcpOtherCode n)) = InvalidResponse"

datatype nat_pmp_code = PmpNotAuthorized | PmpUnsupportedVersion | PmpUnsupportedOpcode | PmpOtherCode nat

datatype nat_pmp_failure = PmpTimeout | PmpSocket | PmpInvalidResponse | PmpResultCode nat_pmp_code

fun classify_nat_pmp_failure :: "nat_pmp_failure \<Rightarrow> mapping_failure" where
  "classify_nat_pmp_failure PmpTimeout = Timeout"
| "classify_nat_pmp_failure PmpSocket = RouteUnavailable"
| "classify_nat_pmp_failure (PmpResultCode PmpNotAuthorized) = Unauthorized"
| "classify_nat_pmp_failure (PmpResultCode PmpUnsupportedVersion) = ProtocolUnavailable"
| "classify_nat_pmp_failure (PmpResultCode PmpUnsupportedOpcode) = ProtocolUnavailable"
| "classify_nat_pmp_failure (PmpResultCode (PmpOtherCode n)) = InvalidResponse"
| "classify_nat_pmp_failure PmpInvalidResponse = InvalidResponse"

text \<open>What the router answers: to the mapping, to the clean-up of a mapping, and to a release.\<close>

record pcp_io =
  pi_map :: "(pcp_failure, port_mapping) result option"
  pi_cleanup :: "(unit, unit) result option"
  pi_release :: "(unit, unit) result option"

record nat_pmp_io =
  np_map :: "(nat_pmp_failure, port_mapping) result option"
  np_address :: "(nat_pmp_failure, ipv4) result option"
  np_cleanup :: "(unit, unit) result option"
  np_release :: "(unit, unit) result option"

definition cleanup_failure_or :: "(unit, unit) result option \<Rightarrow> mapping_failure \<Rightarrow> mapping_failure" where
  "cleanup_failure_or dropped intended =
     (case dropped of Some (Inr _) \<Rightarrow> intended | Some (Inl _) \<Rightarrow> ReleaseFailed | None \<Rightarrow> ReleaseFailed)"

definition nonce_to_bytes :: "pcp_nonce \<Rightarrow> byte list" where
  "nonce_to_bytes n = (case n of (a, b, c) \<Rightarrow> u32_be a @ u32_be b @ u32_be c)"

definition nonce_from_bytes :: "byte list \<Rightarrow> pcp_nonce" where
  "nonce_from_bytes bs =
     (u32_from_be (take 4 bs), u32_from_be (take 4 (drop 4 bs)), u32_from_be (take 4 (drop 8 bs)))"

definition build_crab_mapping ::
  "(unit, unit) result option \<Rightarrow> port_mapping \<Rightarrow> endpoint_source \<Rightarrow> ip_addr \<Rightarrow> ip_addr \<Rightarrow> pcp_nonce option \<Rightarrow>
   byte list \<Rightarrow> created_mapping routed" where
  "build_crab_mapping dropped m source internal_address external_address nonce fingerprint =
     (let lifetime = pm_lifetime m in
      if \<not> valid_finite_lifetime lifetime \<or> \<not> is_publishable_external_address external_address
      then let code = (if lifetime = 0 \<or> MAX_ACCEPTED_LEASE_SECONDS < lifetime then InvalidResponse else NonPublicAddress)
           in ask (DropMapping m) (Inl (cleanup_failure_or dropped code))
      else no_request (Inr
        \<lparr>cm_source = source, cm_gateway_address = pm_gateway m, cm_internal_address = internal_address,
         cm_internal_port = pm_internal_port m, cm_external_address = external_address,
         cm_external_port = pm_external_port m, cm_pcp_nonce = map_option nonce_to_bytes nonce,
         cm_upnp_description = None, cm_gateway_epoch = Some (pm_epoch m), cm_lifetime_seconds = lifetime,
         cm_topology_fingerprint = fingerprint\<rparr>))"

definition create_pcp ::
  "pcp_io \<Rightarrow> route \<Rightarrow> u16 \<Rightarrow> pcp_nonce \<Rightarrow> ip_addr option \<Rightarrow> u16 option \<Rightarrow> created_mapping routed" where
  "create_pcp io r internal_port nonce external_ip external_port =
     routed_bind
       (ask (PcpMap (ro_gateway r) (ro_client r) internal_port nonce external_ip external_port LEASE_SECONDS)
         (rbind (bounded (pi_map io)) (map_err classify_pcp_failure)))
       (\<lambda>m. case pm_type m of
              CrabPcp granted external \<Rightarrow>
                build_crab_mapping (pi_cleanup io) m Pcp (V4 (ro_client r)) external (Some granted) (ro_fingerprint r)
            | CrabNatPmp \<Rightarrow> ask (DropMapping m) (Inl (cleanup_failure_or (pi_cleanup io) InvalidResponse)))"

definition create_nat_pmp ::
  "nat_pmp_io \<Rightarrow> route \<Rightarrow> u16 \<Rightarrow> u16 option \<Rightarrow> ipv4 option \<Rightarrow> created_mapping routed" where
  "create_nat_pmp io r internal_port external_port known_external =
     routed_bind
       (ask (NatPmpMap (ro_gateway r) internal_port external_port LEASE_SECONDS)
         (rbind (bounded (np_map io)) (map_err classify_nat_pmp_failure)))
       (\<lambda>m. let build = (\<lambda>external.
                  build_crab_mapping (np_cleanup io) m NatPmp (V4 (ro_client r)) (V4 external) None (ro_fingerprint r));
                clean = (\<lambda>code. ask (DropMapping m) (Inl (cleanup_failure_or (np_cleanup io) code)))
            in case known_external of
                 Some external \<Rightarrow> build external
               | None \<Rightarrow>
                   routed_bind (ask (NatPmpAddress (ro_gateway r)) (Inr (np_address io))) (\<lambda>answer.
                     case answer of
                       Some (Inr external) \<Rightarrow> build external
                     | Some (Inl failure) \<Rightarrow> clean (classify_nat_pmp_failure failure)
                     | None \<Rightarrow> clean Timeout))"

definition release_pcp ::
  "'z proto_env_scheme \<Rightarrow> interface option \<Rightarrow> pcp_io \<Rightarrow> durable_mapping \<Rightarrow> unit routed" where
  "release_pcp pe found io m =
     routed_bind (no_request
        (rbind (mapping_route pe found m) (\<lambda>r.
         rbind (case dm_pcp_nonce m of None \<Rightarrow> Inl OwnershipLost | Some bs \<Rightarrow> Inr (nonce_from_bytes bs)) (\<lambda>nonce.
         rbind (nonzero (dm_internal_port m)) (\<lambda>port. Inr (r, nonce, port))))))
       (\<lambda>(r, nonce, port). ask (PcpDrop (ro_gateway r) (ro_client r) nonce port)
          (rbind (bounded (pi_release io)) (map_err (\<lambda>_. ReleaseFailed))))"

definition release_nat_pmp ::
  "'z proto_env_scheme \<Rightarrow> interface option \<Rightarrow> nat_pmp_io \<Rightarrow> durable_mapping \<Rightarrow> unit routed" where
  "release_nat_pmp pe found io m =
     routed_bind (no_request
        (rbind (mapping_route pe found m) (\<lambda>r. rbind (nonzero (dm_internal_port m)) (\<lambda>port. Inr (r, port)))))
       (\<lambda>(r, port). ask (NatPmpDrop (ro_gateway r) port)
          (rbind (bounded (np_release io)) (map_err (\<lambda>_. ReleaseFailed))))"

section \<open>UPnP\<close>

datatype search_error = NoResponseWithinTimeout | SearchInvalidResponse | SearchUtf8 | SearchXml | SearchOther
datatype add_port_error = AddNotAuthorized | AddInternalPortZero | AddExternalPortZero | AddPortInUse | AddSamePortValues
  | AddOnlyPermanent | AddDescriptionTooLong | AddRequestError
datatype add_any_error = AnyNotAuthorized | AnyInternalPortZero | AnyNoPortsAvailable | AnyExternalPortInUse
  | AnyOnlyPermanent | AnyDescriptionTooLong | AnyRequestError
datatype entry_error = EntryIndexInvalid | EntryOther
datatype remove_error = NoSuchPortMapping | RemoveOther

fun classify_search_error :: "search_error \<Rightarrow> mapping_failure" where
  "classify_search_error NoResponseWithinTimeout = Timeout"
| "classify_search_error SearchInvalidResponse = InvalidResponse"
| "classify_search_error SearchUtf8 = InvalidResponse"
| "classify_search_error SearchXml = InvalidResponse"
| "classify_search_error SearchOther = ProtocolUnavailable"

fun classify_add_port_error :: "add_port_error \<Rightarrow> mapping_failure" where
  "classify_add_port_error AddNotAuthorized = Unauthorized"
| "classify_add_port_error AddOnlyPermanent = PermanentLeaseUnsupported"
| "classify_add_port_error AddPortInUse = ProtocolUnavailable"
| "classify_add_port_error AddSamePortValues = ProtocolUnavailable"
| "classify_add_port_error AddInternalPortZero = InvalidResponse"
| "classify_add_port_error AddExternalPortZero = InvalidResponse"
| "classify_add_port_error AddDescriptionTooLong = InvalidResponse"
| "classify_add_port_error AddRequestError = InvalidResponse"

fun classify_add_any_error :: "add_any_error \<Rightarrow> mapping_failure" where
  "classify_add_any_error AnyNotAuthorized = Unauthorized"
| "classify_add_any_error AnyOnlyPermanent = PermanentLeaseUnsupported"
| "classify_add_any_error AnyNoPortsAvailable = ProtocolUnavailable"
| "classify_add_any_error AnyExternalPortInUse = ProtocolUnavailable"
| "classify_add_any_error AnyInternalPortZero = InvalidResponse"
| "classify_add_any_error AnyDescriptionTooLong = InvalidResponse"
| "classify_add_any_error AnyRequestError = InvalidResponse"

record upnp_entry =
  ue_tcp :: bool
  ue_external_port :: u16
  ue_internal_client :: string
  ue_internal_port :: u16
  ue_description :: string
  ue_enabled :: bool
  ue_remote_host :: string
  ue_lease_duration :: u32

text \<open>
  What the gateway answers; \<open>ui_entry\<close> takes the number of the inspection and the index. \<open>ui_elapsed\<close> is the
  number of calls that were made when the time of the whole operation was over, if it was.
\<close>

record upnp_io =
  ui_elapsed :: "nat option"
  ui_search :: "(search_error, ip_addr) result"
  ui_external_ip :: "(unit, ip_addr) result"
  ui_add_port :: "(add_port_error, unit) result"
  ui_add_any :: "(add_any_error, u16) result"
  ui_entry :: "nat \<Rightarrow> nat \<Rightarrow> (entry_error, upnp_entry) result"
  ui_cleanup :: "(remove_error, unit) result option"
  ui_remove :: "(remove_error, unit) result"

datatype owned_upnp = Owned u32 | Absent | Foreign

definition upnp_bounded :: "upnp_io \<Rightarrow> 'a routed \<Rightarrow> 'a routed" where
  "upnp_bounded io m = (case ui_elapsed io of None \<Rightarrow> m | Some n \<Rightarrow> (take n (fst m), Inl Timeout))"

definition discover_upnp_gateway :: "upnp_io \<Rightarrow> route \<Rightarrow> ip_addr routed" where
  "discover_upnp_gateway io r =
     routed_bind (ask (UpnpSearch (ro_client r)) (map_err classify_search_error (ui_search io))) (\<lambda>gateway.
       no_request (if gateway \<noteq> V4 (ro_gateway r) then Inl ProtocolUnavailable else Inr gateway))"

definition same_port :: "upnp_entry \<Rightarrow> u16 \<Rightarrow> bool" where
  "same_port entry external_port \<longleftrightarrow> ue_tcp entry \<and> ue_external_port entry = external_port"

definition owned_entry :: "upnp_entry \<Rightarrow> ipv4 \<Rightarrow> u16 \<Rightarrow> string \<Rightarrow> bool" where
  "owned_entry entry client internal_port description \<longleftrightarrow>
     parse_ip (ue_internal_client entry) = Some (V4 client) \<and> ue_internal_port entry = internal_port
     \<and> ue_description entry = description \<and> ue_enabled entry \<and> ue_remote_host entry = []"

text \<open>The loop over the entries: how many are left, the index, and whether a foreign entry was seen.\<close>

fun inspect_entries ::
  "(nat \<Rightarrow> (entry_error, upnp_entry) result) \<Rightarrow> u16 \<Rightarrow> ipv4 \<Rightarrow> u16 \<Rightarrow> string \<Rightarrow> nat \<Rightarrow> nat \<Rightarrow> bool \<Rightarrow> owned_upnp routed" where
  "inspect_entries entries external_port client internal_port description 0 i foreign_port =
     no_request (Inr (if foreign_port then Foreign else Absent))"
| "inspect_entries entries external_port client internal_port description (Suc n) i foreign_port =
     (case entries i of
        Inl EntryIndexInvalid \<Rightarrow> ask (UpnpEntry i) (Inr (if foreign_port then Foreign else Absent))
      | Inl EntryOther \<Rightarrow> ask (UpnpEntry i) (Inl OwnershipLost)
      | Inr entry \<Rightarrow>
          routed_bind (ask (UpnpEntry i) (Inr ())) (\<lambda>_.
            if \<not> same_port entry external_port
            then inspect_entries entries external_port client internal_port description n (Suc i) foreign_port
            else if owned_entry entry client internal_port description
            then no_request (Inr (Owned (ue_lease_duration entry)))
            else inspect_entries entries external_port client internal_port description n (Suc i) True))"

definition inspect_upnp_ownership ::
  "upnp_io \<Rightarrow> nat \<Rightarrow> u16 \<Rightarrow> ipv4 \<Rightarrow> u16 \<Rightarrow> string \<Rightarrow> owned_upnp routed" where
  "inspect_upnp_ownership io k external_port client internal_port description =
     inspect_entries (ui_entry io k) external_port client internal_port description MAX_UPNP_ENTRIES 0 False"

definition upnp_cleanup_failure_or :: "upnp_io \<Rightarrow> u16 \<Rightarrow> mapping_failure \<Rightarrow> 'a routed" where
  "upnp_cleanup_failure_or io external_port intended =
     ask (UpnpRemove external_port)
       (Inl (case ui_cleanup io of
               Some (Inr _) \<Rightarrow> intended
             | Some (Inl NoSuchPortMapping) \<Rightarrow> intended
             | Some (Inl RemoveOther) \<Rightarrow> ReleaseFailed
             | None \<Rightarrow> ReleaseFailed))"

definition upnp_mapping :: "route \<Rightarrow> ip_addr \<Rightarrow> u16 \<Rightarrow> ip_addr \<Rightarrow> u16 \<Rightarrow> string \<Rightarrow> u32 \<Rightarrow> created_mapping" where
  "upnp_mapping r gateway internal_port external_address external_port description lease =
     \<lparr>cm_source = Upnp, cm_gateway_address = gateway, cm_internal_address = V4 (ro_client r),
      cm_internal_port = internal_port, cm_external_address = external_address, cm_external_port = external_port,
      cm_pcp_nonce = None, cm_upnp_description = Some description, cm_gateway_epoch = None,
      cm_lifetime_seconds = lease, cm_topology_fingerprint = ro_fingerprint r\<rparr>"

definition add_upnp_port :: "upnp_io \<Rightarrow> route \<Rightarrow> u16 \<Rightarrow> u16 \<Rightarrow> string \<Rightarrow> u16 routed" where
  "add_upnp_port io r internal_port requested description =
     routed_bind (ask (UpnpAddPort requested (V4 (ro_client r)) internal_port LEASE_SECONDS description) (Inr (ui_add_port io)))
       (\<lambda>added. case added of
          Inr _ \<Rightarrow> no_request (Inr requested)
        | Inl error \<Rightarrow>
            if error = AddPortInUse
            then ask (UpnpAddAny (V4 (ro_client r)) internal_port LEASE_SECONDS description)
                   (map_err classify_add_any_error (ui_add_any io))
            else no_request (Inl (classify_add_port_error error)))"

text \<open>An error of the inspection after the port was added means that it may be left behind.\<close>

definition routed_map_err :: "(mapping_failure \<Rightarrow> mapping_failure) \<Rightarrow> 'a routed \<Rightarrow> 'a routed" where
  "routed_map_err f m = (fst m, map_err f (snd m))"

definition external_address :: "upnp_io \<Rightarrow> ip_addr routed" where
  "external_address io =
     routed_bind (ask UpnpExternalIp (map_err (\<lambda>_. ProtocolUnavailable) (ui_external_ip io))) (\<lambda>external.
       no_request (if is_publishable_external_address external then Inr external else Inl NonPublicAddress))"

definition create_upnp :: "upnp_io \<Rightarrow> route \<Rightarrow> u16 \<Rightarrow> u16 \<Rightarrow> string \<Rightarrow> created_mapping routed" where
  "create_upnp io r internal_port requested description =
     upnp_bounded io
       (routed_bind (discover_upnp_gateway io r) (\<lambda>gateway.
        routed_bind (external_address io) (\<lambda>external.
        routed_bind (add_upnp_port io r internal_port requested description) (\<lambda>external_port.
        routed_bind
          (routed_map_err (\<lambda>_. ReleaseFailed)
             (inspect_upnp_ownership io 0 external_port (ro_client r) internal_port description)) (\<lambda>ownership.
          case ownership of
            Owned lease \<Rightarrow>
              if lease = 0 then upnp_cleanup_failure_or io external_port PermanentLeaseUnsupported
              else if \<not> valid_finite_lifetime lease then upnp_cleanup_failure_or io external_port InvalidResponse
              else no_request (Inr (upnp_mapping r gateway internal_port external external_port description lease))
          | Absent \<Rightarrow> no_request (Inl ReleaseFailed)
          | Foreign \<Rightarrow> no_request (Inl ReleaseFailed))))))"

definition owned_gateway ::
  "'z proto_env_scheme \<Rightarrow> interface option \<Rightarrow> upnp_io \<Rightarrow> durable_mapping \<Rightarrow> (route \<Rightarrow> string \<Rightarrow> ip_addr \<Rightarrow> 'a routed) \<Rightarrow> 'a routed" where
  "owned_gateway pe found io m f =
     routed_bind (no_request
        (rbind (mapping_route pe found m) (\<lambda>r.
         rbind (case dm_upnp_description m of None \<Rightarrow> Inl OwnershipLost | Some d \<Rightarrow> Inr d) (\<lambda>description. Inr (r, description)))))
       (\<lambda>(r, description). upnp_bounded io
          (routed_bind (discover_upnp_gateway io r) (\<lambda>gateway.
             if gateway \<noteq> dm_gateway_address m then no_request (Inl OwnershipLost) else f r description gateway)))"

definition renew_upnp ::
  "'z proto_env_scheme \<Rightarrow> interface option \<Rightarrow> upnp_io \<Rightarrow> durable_mapping \<Rightarrow> created_mapping routed" where
  "renew_upnp pe found io m =
     owned_gateway pe found io m (\<lambda>r description gateway.
       routed_bind (external_address io) (\<lambda>external.
       routed_bind (inspect_upnp_ownership io 0 (dm_external_port m) (ro_client r) (dm_internal_port m) description) (\<lambda>before.
       routed_bind (no_request (case before of Owned _ \<Rightarrow> Inr () | Absent \<Rightarrow> Inl OwnershipLost | Foreign \<Rightarrow> Inl OwnershipLost)) (\<lambda>_.
       routed_bind (ask (UpnpAddPort (dm_external_port m) (V4 (ro_client r)) (dm_internal_port m) LEASE_SECONDS description)
          (map_err classify_add_port_error (ui_add_port io))) (\<lambda>_.
       routed_bind (inspect_upnp_ownership io 1 (dm_external_port m) (ro_client r) (dm_internal_port m) description) (\<lambda>after.
         no_request
           (case after of
              Owned lease \<Rightarrow>
                if \<not> valid_finite_lifetime lease
                then Inl (if lease = 0 then PermanentLeaseUnsupported else InvalidResponse)
                else Inr (upnp_mapping r gateway (dm_internal_port m) external (dm_external_port m) description lease)
            | Absent \<Rightarrow> Inl OwnershipLost
            | Foreign \<Rightarrow> Inl OwnershipLost)))))))"

definition release_upnp ::
  "'z proto_env_scheme \<Rightarrow> interface option \<Rightarrow> upnp_io \<Rightarrow> durable_mapping \<Rightarrow> unit routed" where
  "release_upnp pe found io m =
     owned_gateway pe found io m (\<lambda>r description gateway.
       routed_bind (inspect_upnp_ownership io 0 (dm_external_port m) (ro_client r) (dm_internal_port m) description) (\<lambda>ownership.
         case ownership of
           Absent \<Rightarrow> no_request (Inr ())
         | Foreign \<Rightarrow> no_request (Inl OwnershipLost)
         | Owned _ \<Rightarrow> ask (UpnpRemove (dm_external_port m))
             (case ui_remove io of
                Inr _ \<Rightarrow> Inr ()
              | Inl NoSuchPortMapping \<Rightarrow> Inr ()
              | Inl RemoveOther \<Rightarrow> Inl ReleaseFailed)))"

section \<open>The backend\<close>

definition failure_preference :: "mapping_failure list" where
  "failure_preference = [NonPublicAddress, PermanentLeaseUnsupported, Unauthorized, OwnershipLost, TopologyChanged, Timeout,
     InvalidResponse, PrivateAddressUnavailable, RouteUnavailable, ProtocolUnavailable]"

definition select_failure :: "mapping_failure list \<Rightarrow> mapping_failure" where
  "select_failure failures =
     (case find (\<lambda>preferred. preferred \<in> set failures) failure_preference of
        Some preferred \<Rightarrow> preferred
      | None \<Rightarrow> ProtocolUnavailable)"

definition mapping_description_with_token :: "'z proto_env_scheme \<Rightarrow> uuid \<Rightarrow> int \<Rightarrow> byte list \<Rightarrow> string" where
  "mapping_description_with_token pe node_id revision token =
     ''FriendNode-'' @ take 8 (uuid_show pe node_id) @ ''-r'' @ show_nat (nat revision) @ ''-''
     @ concat (map hex_byte (u64_be (u64_from_be token)))"

text \<open>What one operation of the backend meets: the interface, the random bytes and the three protocols.\<close>

record backend_io =
  bk_interface :: "interface option"
  bk_nonce :: pcp_nonce
  bk_token :: "byte list"
  bk_pcp :: pcp_io
  bk_nat_pmp :: nat_pmp_io
  bk_upnp :: upnp_io

definition system_topology_matches :: "'z proto_env_scheme \<Rightarrow> backend_io \<Rightarrow> durable_mapping \<Rightarrow> bool" where
  "system_topology_matches pe io m \<longleftrightarrow> is_ok (mapping_route pe (bk_interface io) m)"

definition or_else :: "'a routed \<Rightarrow> (mapping_failure \<Rightarrow> 'a routed) \<Rightarrow> 'a routed" where
  "or_else m f =
     (case m of
        (rs, Inr x) \<Rightarrow> (rs, Inr x)
      | (rs, Inl e) \<Rightarrow> (case f e of (rs', r) \<Rightarrow> (rs @ rs', r)))"

definition system_create :: "'z proto_env_scheme \<Rightarrow> backend_io \<Rightarrow> mapping_request \<Rightarrow> created_mapping routed" where
  "system_create pe io request =
     routed_bind (no_request (discover_default_route pe (bk_interface io))) (\<lambda>r.
     routed_bind (no_request (nonzero (mr_internal_port request))) (\<lambda>internal_port.
       or_else (create_pcp (bk_pcp io) r internal_port (bk_nonce io) None (Some internal_port)) (\<lambda>pcp_code.
       or_else (create_nat_pmp (bk_nat_pmp io) r internal_port (Some internal_port) None) (\<lambda>nat_pmp_code.
       or_else (create_upnp (bk_upnp io) r (mr_internal_port request) (mr_internal_port request)
           (mapping_description_with_token pe (mr_node_id request) (mr_revision request) (bk_token io))) (\<lambda>upnp_code.
         no_request (Inl (select_failure [pcp_code, nat_pmp_code, upnp_code])))))))"

definition system_renew :: "'z proto_env_scheme \<Rightarrow> backend_io \<Rightarrow> durable_mapping \<Rightarrow> created_mapping routed" where
  "system_renew pe io m =
     (case dm_source m of
        Pcp \<Rightarrow>
          routed_bind (no_request
             (rbind (mapping_route pe (bk_interface io) m) (\<lambda>r.
              rbind (case dm_pcp_nonce m of None \<Rightarrow> Inl OwnershipLost | Some bs \<Rightarrow> Inr (nonce_from_bytes bs)) (\<lambda>nonce.
              rbind (nonzero (dm_internal_port m)) (\<lambda>internal_port.
              rbind (nonzero (dm_external_port m)) (\<lambda>external_port. Inr (r, nonce, internal_port, external_port)))))))
            (\<lambda>(r, nonce, internal_port, external_port).
               create_pcp (bk_pcp io) r internal_port nonce (Some (dm_external_address m)) (Some external_port))
      | NatPmp \<Rightarrow>
          (case dm_external_address m of
             V6 _ \<Rightarrow> no_request (Inl InvalidResponse)
           | V4 external \<Rightarrow>
               routed_bind (no_request
                  (rbind (mapping_route pe (bk_interface io) m) (\<lambda>r.
                   rbind (nonzero (dm_internal_port m)) (\<lambda>internal_port.
                   rbind (nonzero (dm_external_port m)) (\<lambda>external_port. Inr (r, internal_port, external_port))))))
                 (\<lambda>(r, internal_port, external_port).
                    create_nat_pmp (bk_nat_pmp io) r internal_port (Some external_port) (Some external)))
      | Upnp \<Rightarrow> renew_upnp pe (bk_interface io) (bk_upnp io) m
      | Manual \<Rightarrow> no_request (Inl InvalidResponse)
      | Relay \<Rightarrow> no_request (Inl InvalidResponse))"

definition system_release :: "'z proto_env_scheme \<Rightarrow> backend_io \<Rightarrow> durable_mapping \<Rightarrow> unit routed" where
  "system_release pe io m =
     (case dm_source m of
        Pcp \<Rightarrow> release_pcp pe (bk_interface io) (bk_pcp io) m
      | NatPmp \<Rightarrow> release_nat_pmp pe (bk_interface io) (bk_nat_pmp io) m
      | Upnp \<Rightarrow> release_upnp pe (bk_interface io) (bk_upnp io) m
      | Manual \<Rightarrow> no_request (Inl ReleaseFailed)
      | Relay \<Rightarrow> no_request (Inl ReleaseFailed))"

end
