(* ===== verification/Router_Mapping.thy ===== *)
theory Router_Mapping
  imports Router_Protocol "HOL-Library.Char_ord" "HOL-Library.List_Lexorder"
begin

text \<open>
  The supervision of the router mapping of a node (\<open>node-host/src/mapping.rs\<close>): the policy and the leases in the
  database, one pass of the supervisor, the status and the candidates that are published. The statements of the
  database are operations on its tables under the constraints of their schema (\<open>node-host/src/lib.rs\<close>); whether
  one fails, what a clock shows and what the router answers is given to the definitions.
\<close>

section \<open>The database\<close>

datatype host_error = DatabaseError | HostError string

record policy_row =
  pr_enabled :: bool
  pr_consented_at :: "int option"
  pr_last_error_code :: "string option"
  pr_last_attempt_at :: "int option"
  pr_updated_at :: int

record lease_row =
  lr_mapping_id :: string
  lr_endpoint_id :: string
  lr_applied_revision :: int
  lr_source :: string
  lr_gateway_address :: string
  lr_internal_address :: string
  lr_internal_port :: int
  lr_external_address :: string
  lr_external_port :: int
  lr_pcp_nonce :: "byte list option"
  lr_upnp_description :: "string option"
  lr_gateway_epoch :: "int option"
  lr_topology_fingerprint :: "byte list option"
  lr_lease_started_at :: int
  lr_lease_expires_at :: int
  lr_state :: string
  lr_failure_code :: "string option"
  lr_ended_at :: "int option"
  lr_created_at :: int
  lr_updated_at :: int

record node_db =
  db_policy :: "policy_row option"
  db_leases :: "lease_row list"
  db_node_id :: "string option"
  db_rendered :: "int list"

text \<open>The tables as the migrations leave them: no consent, no lease.\<close>

definition initial_db :: node_db where
  "initial_db =
     \<lparr>db_policy = Some \<lparr>pr_enabled = False, pr_consented_at = None, pr_last_error_code = None, pr_last_attempt_at = None,
                       pr_updated_at = 0\<rparr>,
      db_leases = [], db_node_id = None, db_rendered = []\<rparr>"

definition is_current :: "lease_row \<Rightarrow> bool" where
  "is_current r \<longleftrightarrow> lr_state r = ''active'' \<or> lr_state r = ''releasing''"

definition option_check :: "('a \<Rightarrow> bool) \<Rightarrow> 'a option \<Rightarrow> bool" where
  "option_check P x = (case x of None \<Rightarrow> True | Some y \<Rightarrow> P y)"

text \<open>The \<open>CHECK\<close> constraints of \<open>router_mapping_leases\<close>.\<close>

definition lease_check :: "lease_row \<Rightarrow> bool" where
  "lease_check r \<longleftrightarrow>
     length (lr_mapping_id r) = 36 \<and> length (lr_endpoint_id r) = 36
     \<and> lr_source r \<in> {''pcp'', ''natPmp'', ''upnp''}
     \<and> 1 \<le> length (lr_gateway_address r) \<and> length (lr_gateway_address r) \<le> 64
     \<and> 1 \<le> length (lr_internal_address r) \<and> length (lr_internal_address r) \<le> 64
     \<and> 1 \<le> lr_internal_port r \<and> lr_internal_port r \<le> 65535
     \<and> 1 \<le> length (lr_external_address r) \<and> length (lr_external_address r) \<le> 253
     \<and> 1 \<le> lr_external_port r \<and> lr_external_port r \<le> 65535
     \<and> option_check (\<lambda>n. length n = 12) (lr_pcp_nonce r)
     \<and> option_check (\<lambda>d. 1 \<le> length d \<and> length d \<le> 64) (lr_upnp_description r)
     \<and> option_check (\<lambda>e. 0 \<le> e) (lr_gateway_epoch r)
     \<and> option_check (\<lambda>f. length f = 32) (lr_topology_fingerprint r)
     \<and> lr_state r \<in> {''active'', ''releasing'', ''released'', ''failed'', ''abandoned''}
     \<and> option_check (\<lambda>c. 1 \<le> length c \<and> length c \<le> 64) (lr_failure_code r)
     \<and> lr_lease_started_at r < lr_lease_expires_at r
     \<and> (if lr_source r = ''pcp'' then lr_pcp_nonce r \<noteq> None \<and> lr_upnp_description r = None
        else if lr_source r = ''natPmp'' then lr_pcp_nonce r = None \<and> lr_upnp_description r = None
        else lr_pcp_nonce r = None \<and> lr_upnp_description r \<noteq> None)
     \<and> (is_current r \<longleftrightarrow> lr_ended_at r = None)
     \<and> (lr_state r \<noteq> ''active'' \<or> lr_failure_code r = None)
     \<and> option_check (\<lambda>e. lr_lease_started_at r \<le> e) (lr_ended_at r)
     \<and> lr_created_at r \<le> lr_updated_at r"

text \<open>
  Statements return the tables and the number of rows they changed. One that violates a constraint or the index
  on the current lease changes nothing.
\<close>

definition one_current :: "lease_row list \<Rightarrow> bool" where
  "one_current rows \<longleftrightarrow> length (filter is_current rows) \<le> 1"

definition update_leases ::
  "(lease_row \<Rightarrow> bool) \<Rightarrow> (lease_row \<Rightarrow> lease_row) \<Rightarrow> node_db \<Rightarrow> (host_error, node_db \<times> nat) result" where
  "update_leases P f db =
     (let rows = map (\<lambda>r. if P r then f r else r) (db_leases db) in
      if list_all (\<lambda>r. P r \<longrightarrow> lease_check (f r)) (db_leases db) \<and> one_current rows
      then Inr (db\<lparr>db_leases := rows\<rparr>, length (filter P (db_leases db)))
      else Inl DatabaseError)"

definition insert_lease :: "lease_row \<Rightarrow> node_db \<Rightarrow> (host_error, node_db \<times> nat) result" where
  "insert_lease row db =
     (if lease_check row \<and> list_all (\<lambda>r. lr_mapping_id r \<noteq> lr_mapping_id row \<and> lr_endpoint_id r \<noteq> lr_endpoint_id row) (db_leases db)
         \<and> lr_applied_revision row \<in> set (db_rendered db) \<and> one_current (db_leases db @ [row])
      then Inr (db\<lparr>db_leases := db_leases db @ [row]\<rparr>, 1)
      else Inl DatabaseError)"

definition policy_check :: "policy_row \<Rightarrow> bool" where
  "policy_check p \<longleftrightarrow> (\<not> pr_enabled p \<or> pr_consented_at p \<noteq> None)
     \<and> option_check (\<lambda>c. 1 \<le> length c \<and> length c \<le> 64) (pr_last_error_code p)"

definition update_policy :: "(policy_row \<Rightarrow> policy_row) \<Rightarrow> node_db \<Rightarrow> (host_error, node_db \<times> nat) result" where
  "update_policy f db =
     (case db_policy db of
        None \<Rightarrow> Inr (db, 0)
      | Some p \<Rightarrow> if policy_check (f p) then Inr (db\<lparr>db_policy := Some (f p)\<rparr>, 1) else Inl DatabaseError)"

section \<open>Sequences of statements\<close>

text \<open>Operations on a state that may stop with an error; what happened before the error stays.\<close>

type_synonym ('s, 'a) stateful = "'s \<Rightarrow> 's \<times> (host_error, 'a) result"

definition sbind :: "('s, 'a) stateful \<Rightarrow> ('a \<Rightarrow> ('s, 'b) stateful) \<Rightarrow> ('s, 'b) stateful" where
  "sbind m f = (\<lambda>s. case m s of (s', Inl e) \<Rightarrow> (s', Inl e) | (s', Inr x) \<Rightarrow> f x s')"

definition sreturn :: "'a \<Rightarrow> ('s, 'a) stateful" where
  "sreturn x = (\<lambda>s. (s, Inr x))"

definition sresult :: "(host_error, 'a) result \<Rightarrow> ('s, 'a) stateful" where
  "sresult r = (\<lambda>s. (s, r))"

text \<open>The places where a pass opens the database, runs statements or reads a clock.\<close>

datatype site = AtLoad | AtAbandon | AtExpiry | AtReleaseDue | AtMark | AtReleaseAttempt | AtFinish | AtReleaseExpired
  | AtReleaseFailure | AtReleaseError | AtDue | AtRenewal | AtAttempt | AtPersist | AtUncommitted | AtInvalidated | AtError
  | AtConfigure | AtStatus | AtCandidates

record mapping_io =
  pio_open_fails :: "site \<Rightarrow> bool"
  pio_exec_fails :: "site \<Rightarrow> nat \<Rightarrow> bool"
  pio_clock :: "site \<Rightarrow> int"
  pio_instant :: "site \<Rightarrow> nat"
  pio_mapping_id :: string
  pio_endpoint_id :: string

definition unix_timestamp :: "int \<Rightarrow> (host_error, int) result" where
  "unix_timestamp t =
     (if t < 0 then Inl (HostError ''system clock is before the Unix epoch'')
      else if t < 2 ^ 63 then Inr t
      else Inl (HostError ''current timestamp does not fit SQLite INTEGER''))"

definition open_database :: "mapping_io \<Rightarrow> site \<Rightarrow> (node_db, unit) stateful" where
  "open_database io site = sresult (if pio_open_fails io site then Inl DatabaseError else Inr ())"

definition now :: "mapping_io \<Rightarrow> site \<Rightarrow> ('s, int) stateful" where
  "now io site = sresult (unix_timestamp (pio_clock io site))"

definition exec_sql ::
  "mapping_io \<Rightarrow> site \<Rightarrow> nat \<Rightarrow> (node_db \<Rightarrow> (host_error, node_db \<times> nat) result) \<Rightarrow> (node_db, nat) stateful" where
  "exec_sql io site k stmt =
     (\<lambda>db. if pio_exec_fails io site k then (db, Inl DatabaseError)
           else case stmt db of Inl e \<Rightarrow> (db, Inl e) | Inr (db', n) \<Rightarrow> (db', Inr n))"

definition expect_one :: "string \<Rightarrow> nat \<Rightarrow> ('s, unit) stateful" where
  "expect_one message updated = sresult (if updated \<noteq> 1 then Inl (HostError message) else Inr ())"

section \<open>Policy and sources\<close>

record router_policy =
  rp_enabled :: bool
  rp_consented_at :: "int option"
  rp_last_error_code :: "string option"
  rp_last_attempt_at :: "int option"

definition policy_missing :: string where "policy_missing = ''provider network policy is missing''"

definition load_policy :: "node_db \<Rightarrow> (host_error, router_policy) result" where
  "load_policy db =
     (case db_policy db of
        None \<Rightarrow> Inl (HostError policy_missing)
      | Some p \<Rightarrow> Inr \<lparr>rp_enabled = pr_enabled p, rp_consented_at = pr_consented_at p,
                      rp_last_error_code = pr_last_error_code p, rp_last_attempt_at = pr_last_attempt_at p\<rparr>)"

text \<open>The lock of the data directory is taken before the database is opened; one flag stands for both.\<close>

definition configure_bootstrap_policy :: "mapping_io \<Rightarrow> bool \<Rightarrow> (node_db, unit) stateful" where
  "configure_bootstrap_policy io enabled =
     sbind (open_database io AtConfigure) (\<lambda>_.
     sbind (now io AtConfigure) (\<lambda>t.
     sbind (exec_sql io AtConfigure 0 (update_policy (\<lambda>p.
        p\<lparr>pr_enabled := enabled,
          pr_consented_at := (if enabled then (case pr_consented_at p of None \<Rightarrow> Some t | Some c \<Rightarrow> Some c)
                              else pr_consented_at p),
          pr_last_error_code := None, pr_last_attempt_at := None, pr_updated_at := t\<rparr>))) (expect_one policy_missing)))"

fun source_wire :: "endpoint_source \<Rightarrow> (host_error, string) result" where
  "source_wire Pcp = Inr ''pcp''"
| "source_wire NatPmp = Inr ''natPmp''"
| "source_wire Upnp = Inr ''upnp''"
| "source_wire Manual = Inl (HostError ''router backend returned a non-mapping endpoint source'')"
| "source_wire Relay = Inl (HostError ''router backend returned a non-mapping endpoint source'')"

definition parse_source :: "string \<Rightarrow> (host_error, endpoint_source) result" where
  "parse_source value =
     (if value = ''pcp'' then Inr Pcp else if value = ''natPmp'' then Inr NatPmp else if value = ''upnp'' then Inr Upnp
      else Inl (HostError ''stored router mapping source is invalid''))"

section \<open>Changing the leases\<close>

record mapping_target =
  mt_revision :: int
  mt_internal_port :: u16

definition with_lease :: "string \<Rightarrow> (string \<Rightarrow> bool) \<Rightarrow> lease_row \<Rightarrow> bool" where
  "with_lease mapping_id P r \<longleftrightarrow> lr_mapping_id r = mapping_id \<and> P (lr_state r)"

definition owned_state :: "string \<Rightarrow> bool" where
  "owned_state st \<longleftrightarrow> st = ''active'' \<or> st = ''releasing''"

definition record_attempt_started :: "mapping_io \<Rightarrow> site \<Rightarrow> (node_db, unit) stateful" where
  "record_attempt_started io site =
     sbind (open_database io site) (\<lambda>_.
     sbind (now io site) (\<lambda>t.
     sbind (exec_sql io site 0 (update_policy (\<lambda>p. p\<lparr>pr_last_attempt_at := Some t, pr_updated_at := t\<rparr>)))
       (expect_one policy_missing)))"

definition persist_mapping_error :: "mapping_io \<Rightarrow> site \<Rightarrow> string \<Rightarrow> (node_db, unit) stateful" where
  "persist_mapping_error io site code =
     sbind (open_database io site) (\<lambda>_.
     sbind (now io site) (\<lambda>t.
     sbind (exec_sql io site 0 (update_policy (\<lambda>p.
        p\<lparr>pr_last_error_code := Some code, pr_last_attempt_at := Some t, pr_updated_at := t\<rparr>)))
       (expect_one policy_missing)))"

definition mark_releasing :: "mapping_io \<Rightarrow> site \<Rightarrow> string \<Rightarrow> (node_db, unit) stateful" where
  "mark_releasing io site mapping_id =
     sbind (open_database io site) (\<lambda>_.
     sbind (now io site) (\<lambda>t.
     sbind (exec_sql io site 0 (update_leases (with_lease mapping_id owned_state)
        (\<lambda>r. r\<lparr>lr_state := ''releasing'', lr_failure_code := None, lr_updated_at := t\<rparr>)))
       (expect_one ''current router mapping is missing'')))"

definition finish_release :: "mapping_io \<Rightarrow> site \<Rightarrow> string \<Rightarrow> string \<Rightarrow> string option \<Rightarrow> (node_db, unit) stateful" where
  "finish_release io site mapping_id terminal_state code =
     (if terminal_state \<noteq> ''released'' \<and> terminal_state \<noteq> ''abandoned''
      then sresult (Inl (HostError ''invalid terminal router mapping state''))
      else
        sbind (open_database io site) (\<lambda>_.
        sbind (now io site) (\<lambda>t.
        sbind (exec_sql io site 0 (update_leases (with_lease mapping_id (\<lambda>st. st = ''releasing''))
           (\<lambda>r. r\<lparr>lr_state := terminal_state, lr_failure_code := code, lr_ended_at := Some t, lr_updated_at := t\<rparr>))) (\<lambda>updated.
        sbind (expect_one ''releasing router mapping is missing'' updated) (\<lambda>_.
        sbind (exec_sql io site 1 (update_policy (\<lambda>p. p\<lparr>pr_last_error_code := None, pr_updated_at := t\<rparr>))) (\<lambda>_.
          sreturn ()))))))"

definition abandon_without_release :: "mapping_io \<Rightarrow> site \<Rightarrow> string \<Rightarrow> string \<Rightarrow> (node_db, unit) stateful" where
  "abandon_without_release io site mapping_id code =
     sbind (open_database io site) (\<lambda>_.
     sbind (now io site) (\<lambda>t.
     sbind (exec_sql io site 0 (update_leases (with_lease mapping_id owned_state)
        (\<lambda>r. r\<lparr>lr_state := ''abandoned'', lr_failure_code := Some code, lr_ended_at := Some t, lr_updated_at := t\<rparr>)))
       (expect_one ''router mapping changed before it could be withdrawn'')))"

definition record_release_failure :: "mapping_io \<Rightarrow> site \<Rightarrow> string \<Rightarrow> string \<Rightarrow> (node_db, unit) stateful" where
  "record_release_failure io site mapping_id code =
     sbind (open_database io site) (\<lambda>_.
     sbind (now io site) (\<lambda>t.
     sbind (exec_sql io site 0 (update_leases (with_lease mapping_id (\<lambda>st. st = ''releasing''))
        (\<lambda>r. r\<lparr>lr_failure_code := Some code, lr_updated_at := t\<rparr>)))
       (expect_one ''releasing router mapping is missing'')))"

text \<open>A transaction: the tables are those of its operation if it committed, and otherwise as before.\<close>

definition transaction :: "bool \<Rightarrow> ('s, 'a) stateful \<Rightarrow> ('s, 'a) stateful" where
  "transaction commit_fails operation =
     (\<lambda>db. case operation db of
             (db', Inl e) \<Rightarrow> (db, Inl e)
           | (db', Inr x) \<Rightarrow> if commit_fails then (db, Inl DatabaseError) else (db', Inr x))"

definition new_lease :: "mapping_io \<Rightarrow> mapping_target \<Rightarrow> created_mapping \<Rightarrow> string \<Rightarrow> int \<Rightarrow> int \<Rightarrow> lease_row" where
  "new_lease io target m source t expires =
     \<lparr>lr_mapping_id = pio_mapping_id io, lr_endpoint_id = pio_endpoint_id io, lr_applied_revision = mt_revision target,
      lr_source = source, lr_gateway_address = show_ip (cm_gateway_address m),
      lr_internal_address = show_ip (cm_internal_address m), lr_internal_port = uint (cm_internal_port m),
      lr_external_address = show_ip (cm_external_address m), lr_external_port = uint (cm_external_port m),
      lr_pcp_nonce = cm_pcp_nonce m, lr_upnp_description = cm_upnp_description m,
      lr_gateway_epoch = map_option uint (cm_gateway_epoch m), lr_topology_fingerprint = Some (cm_topology_fingerprint m),
      lr_lease_started_at = t, lr_lease_expires_at = expires, lr_state = ''active'', lr_failure_code = None,
      lr_ended_at = None, lr_created_at = t, lr_updated_at = t\<rparr>"

definition release_predecessor :: "mapping_io \<Rightarrow> int \<Rightarrow> string option \<Rightarrow> (node_db, unit) stateful" where
  "release_predecessor io t predecessor =
     (case predecessor of
        None \<Rightarrow> sreturn ()
      | Some mapping_id \<Rightarrow>
          sbind (exec_sql io AtPersist 0 (update_leases (with_lease mapping_id (\<lambda>st. st = ''active''))
             (\<lambda>r. r\<lparr>lr_state := ''released'', lr_failure_code := None, lr_ended_at := Some t, lr_updated_at := t\<rparr>)))
            (expect_one ''router mapping changed while its renewal was committing''))"

definition persist_mapping ::
  "mapping_io \<Rightarrow> mapping_target \<Rightarrow> created_mapping \<Rightarrow> string option \<Rightarrow> (node_db, unit) stateful" where
  "persist_mapping io target m predecessor =
     (if cm_lifetime_seconds m = 0 \<or> 86400 < cm_lifetime_seconds m
      then sresult (Inl (HostError ''router returned an invalid finite mapping lifetime''))
      else if cm_internal_port m \<noteq> mt_internal_port target
      then sresult (Inl (HostError ''router returned a mapping for the wrong internal port''))
      else
        sbind (now io AtPersist) (\<lambda>t.
        sbind (sresult (if t + uint (cm_lifetime_seconds m) < 2 ^ 63 then Inr (t + uint (cm_lifetime_seconds m))
                        else Inl (HostError ''router mapping expiry overflowed''))) (\<lambda>expires.
        sbind (open_database io AtPersist) (\<lambda>_.
          transaction (pio_exec_fails io AtPersist 3)
            (sbind (release_predecessor io t predecessor) (\<lambda>_.
             sbind (sresult (source_wire (cm_source m))) (\<lambda>source.
             sbind (exec_sql io AtPersist 1 (insert_lease (new_lease io target m source t expires))) (\<lambda>_.
             sbind (exec_sql io AtPersist 2 (update_policy (\<lambda>p.
                p\<lparr>pr_last_error_code := None, pr_last_attempt_at := Some t, pr_updated_at := t\<rparr>))) (\<lambda>_.
               sreturn ())))))))))"

section \<open>Loading the current lease\<close>

record stored_mapping =
  sm_mapping_id :: string
  sm_applied_revision :: int
  sm_material :: durable_mapping
  sm_lease_started_at :: int
  sm_lease_expires_at :: int
  sm_releasing :: bool

definition u32_of_int :: "int \<Rightarrow> u32 option" where
  "u32_of_int v = (if 0 \<le> v \<and> v < 2 ^ 32 then Some (of_int v) else None)"

definition u16_of_int :: "int \<Rightarrow> u16 option" where
  "u16_of_int v = (if 0 \<le> v \<and> v < 2 ^ 16 then Some (of_int v) else None)"

definition ok_or :: "string \<Rightarrow> 'a option \<Rightarrow> (host_error, 'a) result" where
  "ok_or message x = (case x of None \<Rightarrow> Inl (HostError message) | Some y \<Rightarrow> Inr y)"

definition sized :: "string \<Rightarrow> nat \<Rightarrow> byte list option \<Rightarrow> (host_error, byte list option) result" where
  "sized message n x =
     (case x of None \<Rightarrow> Inr None | Some bs \<Rightarrow> if length bs = n then Inr (Some bs) else Inl (HostError message))"

definition checked_sub_i64 :: "int \<Rightarrow> int \<Rightarrow> int option" where
  "checked_sub_i64 a b = (if - (2 ^ 63) \<le> a - b \<and> a - b < 2 ^ 63 then Some (a - b) else None)"

definition stored_lifetime :: "lease_row \<Rightarrow> (host_error, u32) result" where
  "stored_lifetime r =
     ok_or ''stored router mapping lifetime is invalid''
       (case checked_sub_i64 (lr_lease_expires_at r) (lr_lease_started_at r) of
          None \<Rightarrow> None
        | Some v \<Rightarrow>
            (case u32_of_int v of None \<Rightarrow> None | Some w \<Rightarrow> if 0 < w then Some w else None))"

definition stored_from :: "lease_row \<Rightarrow> (host_error, stored_mapping) result" where
  "stored_from r =
     rbind (stored_lifetime r) (\<lambda>lifetime.
     rbind (sized ''stored PCP nonce is invalid'' 12 (lr_pcp_nonce r)) (\<lambda>nonce.
     rbind (sized ''stored router topology fingerprint is invalid'' 32 (lr_topology_fingerprint r)) (\<lambda>fingerprint.
     rbind (map_err (\<lambda>_. HostError ''stored router mapping revision is invalid'') (positive_new (lr_applied_revision r))) (\<lambda>revision.
     rbind (parse_source (lr_source r)) (\<lambda>source.
     rbind (ok_or ''stored router gateway address is invalid'' (parse_ip (lr_gateway_address r))) (\<lambda>gateway.
     rbind (ok_or ''stored router internal address is invalid'' (parse_ip (lr_internal_address r))) (\<lambda>internal_address.
     rbind (ok_or ''stored router internal port is invalid'' (u16_of_int (lr_internal_port r))) (\<lambda>internal_port.
     rbind (ok_or ''stored router external address is invalid'' (parse_ip (lr_external_address r))) (\<lambda>external_address.
     rbind (ok_or ''stored router external port is invalid'' (u16_of_int (lr_external_port r))) (\<lambda>external_port.
     rbind (case lr_gateway_epoch r of
              None \<Rightarrow> Inr None
            | Some e \<Rightarrow> rbind (ok_or ''stored gateway epoch is invalid'' (u32_of_int e)) (\<lambda>w. Inr (Some w))) (\<lambda>epoch.
       Inr \<lparr>sm_mapping_id = lr_mapping_id r, sm_applied_revision = revision,
            sm_material =
              \<lparr>dm_source = source, dm_gateway_address = gateway, dm_internal_address = internal_address,
               dm_internal_port = internal_port, dm_external_address = external_address,
               dm_external_port = external_port, dm_pcp_nonce = nonce, dm_upnp_description = lr_upnp_description r,
               dm_gateway_epoch = epoch, dm_lifetime_seconds = lifetime, dm_topology_fingerprint = fingerprint\<rparr>,
            sm_lease_started_at = lr_lease_started_at r, sm_lease_expires_at = lr_lease_expires_at r,
            sm_releasing = (lr_state r = ''releasing'')\<rparr>)))))))))))"

text \<open>The index on the current lease makes it unique.\<close>

definition load_current_mapping :: "node_db \<Rightarrow> (host_error, stored_mapping option) result" where
  "load_current_mapping db =
     (case find is_current (db_leases db) of
        None \<Rightarrow> Inr None
      | Some r \<Rightarrow> rbind (stored_from r) (\<lambda>m. Inr (Some m)))"

definition load_supervision_state ::
  "'z proto_env_scheme \<Rightarrow> mapping_io \<Rightarrow> (node_db, router_policy \<times> stored_mapping option \<times> uuid option) stateful" where
  "load_supervision_state pe io =
     sbind (open_database io AtLoad) (\<lambda>_ db.
       (db, rbind (load_policy db) (\<lambda>policy.
            rbind (load_current_mapping db) (\<lambda>current.
            rbind (case db_node_id db of
                     None \<Rightarrow> Inr None
                   | Some v \<Rightarrow> rbind (map_err (\<lambda>_. HostError ''stored enrolled node identity is invalid'') (id_from_str pe v)) (\<lambda>n. Inr (Some n)))
              (\<lambda>node_id. Inr (policy, current, node_id))))))"

definition renewal_is_due :: "stored_mapping \<Rightarrow> int \<Rightarrow> (host_error, bool) result" where
  "renewal_is_due m t =
     rbind (ok_or ''stored router mapping lifetime is invalid''
        (case checked_sub_i64 (sm_lease_expires_at m) (sm_lease_started_at m) of
           None \<Rightarrow> None
         | Some v \<Rightarrow> if 0 < v then Some v else None)) (\<lambda>lifetime.
     rbind (let at = sm_lease_started_at m + lifetime div 2 in
            if at < 2 ^ 63 then Inr at else Inl (HostError ''stored router mapping renewal time overflowed'')) (\<lambda>renewal_at.
       Inr (renewal_at \<le> t)))"

fun renewal_failure_invalidates_candidate :: "mapping_failure \<Rightarrow> bool" where
  "renewal_failure_invalidates_candidate Timeout = False"
| "renewal_failure_invalidates_candidate ProtocolUnavailable = False"
| "renewal_failure_invalidates_candidate Unauthorized = False"
| "renewal_failure_invalidates_candidate _ = True"

section \<open>The supervisor\<close>

text \<open>\<open>MappingBackend\<close>; a release is asked for once by the supervision and once more for a mapping that was not recorded.\<close>

record backend =
  be_topology_matches :: "durable_mapping \<Rightarrow> bool"
  be_create :: "mapping_request \<Rightarrow> (mapping_failure, created_mapping) result"
  be_renew :: "durable_mapping \<Rightarrow> (mapping_failure, created_mapping) result"
  be_release :: "nat \<Rightarrow> durable_mapping \<Rightarrow> (mapping_failure, unit) result"

text \<open>\<open>SystemMappingBackend\<close>, with what each of its operations meets: the route, a creation, a renewal and the releases.\<close>

definition system_backend :: "'z proto_env_scheme \<Rightarrow> (nat \<Rightarrow> backend_io) \<Rightarrow> backend" where
  "system_backend pe ios =
     \<lparr>be_topology_matches = system_topology_matches pe (ios 0), be_create = (\<lambda>request. snd (system_create pe (ios 1) request)),
      be_renew = (\<lambda>m. snd (system_renew pe (ios 2) m)), be_release = (\<lambda>k m. snd (system_release pe (ios (3 + k)) m))\<rparr>"

definition MIN_RETRY_DELAY :: nat where "MIN_RETRY_DELAY = 30 * 1000000000"
definition MAX_RETRY_DELAY :: nat where "MAX_RETRY_DELAY = 15 * 60 * 1000000000"

record supervisor =
  sv_failures :: u32
  sv_next_attempt :: "nat option"

definition supervisor_new :: supervisor where
  "supervisor_new = \<lparr>sv_failures = 0, sv_next_attempt = None\<rparr>"

text \<open>A pass works on the database and the supervisor; the calls of the backend are recorded.\<close>

datatype backend_call = CallCreate mapping_request | CallRenew durable_mapping | CallRelease durable_mapping

record pass_state =
  ps_db :: node_db
  ps_sv :: supervisor
  ps_calls :: "backend_call list"

definition on_db :: "(node_db, 'a) stateful \<Rightarrow> (pass_state, 'a) stateful" where
  "on_db m = (\<lambda>s. case m (ps_db s) of (d, r) \<Rightarrow> (s\<lparr>ps_db := d\<rparr>, r))"

definition call :: "backend_call \<Rightarrow> 'a \<Rightarrow> (pass_state, 'a) stateful" where
  "call c r = (\<lambda>s. (s\<lparr>ps_calls := ps_calls s @ [c]\<rparr>, Inr r))"

definition reset_backoff :: "(pass_state, unit) stateful" where
  "reset_backoff = (\<lambda>s. (s\<lparr>ps_sv := (ps_sv s)\<lparr>sv_failures := 0, sv_next_attempt := None\<rparr>\<rparr>, Inr ()))"

definition saturating_sub_i64 :: "int \<Rightarrow> int \<Rightarrow> int" where
  "saturating_sub_i64 a b = max (- (2 ^ 63)) (min (a - b) (2 ^ 63 - 1))"

definition attempt_is_due :: "supervisor \<Rightarrow> router_policy \<Rightarrow> int \<Rightarrow> nat \<Rightarrow> bool" where
  "attempt_is_due sv policy t instant_now \<longleftrightarrow>
     \<not> (case sv_next_attempt sv of None \<Rightarrow> False | Some deadline \<Rightarrow> instant_now < deadline)
     \<and> (rp_last_error_code policy = None
        \<or> (case rp_last_attempt_at policy of None \<Rightarrow> True | Some at \<Rightarrow> 30 \<le> saturating_sub_i64 t at))"

definition failure_delay :: "u32 \<Rightarrow> nat" where
  "failure_delay failures =
     (let shift = min (unat (failures - 1)) 10 in min (MIN_RETRY_DELAY * 2 ^ shift) MAX_RETRY_DELAY)"

definition record_failure :: "mapping_io \<Rightarrow> site \<Rightarrow> mapping_failure \<Rightarrow> (pass_state, unit) stateful" where
  "record_failure io site code =
     sbind (on_db (persist_mapping_error io site (mapping_failure_str code))) (\<lambda>_ s.
       let failures = (if sv_failures (ps_sv s) = - 1 then - 1 else sv_failures (ps_sv s) + 1) in
       (s\<lparr>ps_sv := (ps_sv s)\<lparr>sv_failures := failures,
                             sv_next_attempt := Some (pio_instant io site + failure_delay failures)\<rparr>\<rparr>, Inr ()))"

datatype release_outcome = Released | Abandoned | RetryPending mapping_failure

definition release_current ::
  "backend \<Rightarrow> mapping_io \<Rightarrow> stored_mapping \<Rightarrow> (pass_state, release_outcome) stateful" where
  "release_current b io current =
     sbind (on_db (mark_releasing io AtMark (sm_mapping_id current))) (\<lambda>_.
     sbind (on_db (record_attempt_started io AtReleaseAttempt)) (\<lambda>_.
     sbind (call (CallRelease (sm_material current)) (be_release b 0 (sm_material current))) (\<lambda>released.
       case released of
         Inr _ \<Rightarrow>
           sbind (on_db (finish_release io AtFinish (sm_mapping_id current) ''released'' None)) (\<lambda>_.
           sbind reset_backoff (\<lambda>_. sreturn Released))
       | Inl code \<Rightarrow>
           sbind (now io AtReleaseExpired) (\<lambda>t.
             if sm_lease_expires_at current \<le> t \<or> code = TopologyChanged
             then sbind (on_db (finish_release io AtFinish (sm_mapping_id current) ''abandoned'' (Some (mapping_failure_str code)))) (\<lambda>_.
                  sbind reset_backoff (\<lambda>_. sreturn Abandoned))
             else sbind (on_db (record_release_failure io AtReleaseFailure (sm_mapping_id current) (mapping_failure_str code))) (\<lambda>_.
                  sbind (record_failure io AtReleaseError code) (\<lambda>_. sreturn (RetryPending code)))))))"

text \<open>The first part of a pass: a lease whose route is gone is abandoned without contacting a router.\<close>

definition abandon_lost_topology ::
  "backend \<Rightarrow> mapping_io \<Rightarrow> stored_mapping option \<Rightarrow> (pass_state, stored_mapping option) stateful" where
  "abandon_lost_topology b io current =
     (case current of
        None \<Rightarrow> sreturn None
      | Some m \<Rightarrow>
          if be_topology_matches b (sm_material m) then sreturn (Some m)
          else sbind (on_db (abandon_without_release io AtAbandon (sm_mapping_id m) (mapping_failure_str TopologyChanged))) (\<lambda>_.
               sbind reset_backoff (\<lambda>_. sreturn None)))"

text \<open>The second part: release what must not stay. \<open>None\<close> ends the pass.\<close>

definition target_differs :: "mapping_target option \<Rightarrow> stored_mapping \<Rightarrow> bool" where
  "target_differs target m \<longleftrightarrow>
     (case target of
        None \<Rightarrow> True
      | Some t \<Rightarrow> mt_revision t \<noteq> sm_applied_revision m \<or> mt_internal_port t \<noteq> dm_internal_port (sm_material m))"

definition must_release ::
  "mapping_io \<Rightarrow> router_policy \<Rightarrow> mapping_target option \<Rightarrow> stored_mapping \<Rightarrow> (pass_state, bool) stateful" where
  "must_release io policy target m =
     (if sm_releasing m \<or> \<not> rp_enabled policy \<or> target_differs target m then sreturn True
      else sbind (now io AtExpiry) (\<lambda>t. sreturn (sm_lease_expires_at m \<le> t)))"

definition release_if_needed ::
  "backend \<Rightarrow> mapping_io \<Rightarrow> router_policy \<Rightarrow> mapping_target option \<Rightarrow> stored_mapping option \<Rightarrow>
   (pass_state, stored_mapping option option) stateful" where
  "release_if_needed b io policy target current =
     (case current of
        None \<Rightarrow> sreturn (Some None)
      | Some m \<Rightarrow>
          sbind (must_release io policy target m) (\<lambda>must.
            if \<not> must then sreturn (Some (Some m))
            else
              sbind (if sm_releasing m then sbind (now io AtReleaseDue) (\<lambda>t s.
                        (s, Inr (attempt_is_due (ps_sv s) policy t (pio_instant io AtReleaseDue))))
                     else sreturn True) (\<lambda>due.
                if \<not> due then sreturn None
                else sbind (release_current b io m) (\<lambda>outcome.
                  sreturn (case outcome of RetryPending _ \<Rightarrow> None | _ \<Rightarrow> Some None)))))"

definition renew_current ::
  "backend \<Rightarrow> mapping_io \<Rightarrow> mapping_target \<Rightarrow> stored_mapping \<Rightarrow> (pass_state, unit) stateful" where
  "renew_current b io target m =
     sbind (on_db (record_attempt_started io AtAttempt)) (\<lambda>_.
     sbind (call (CallRenew (sm_material m)) (be_renew b (sm_material m))) (\<lambda>renewed.
       case renewed of
         Inr created \<Rightarrow>
           (\<lambda>s. case on_db (persist_mapping io target created (Some (sm_mapping_id m))) s of
                  (s1, Inr _) \<Rightarrow> reset_backoff s1
                | (s1, Inl _) \<Rightarrow>
                    sbind (on_db (mark_releasing io AtUncommitted (sm_mapping_id m))) (\<lambda>_.
                      sresult (Inl (HostError ''renewed router mapping could not be committed and was withdrawn''))) s1)
       | Inl code \<Rightarrow>
           if renewal_failure_invalidates_candidate code
           then sbind (on_db (abandon_without_release io AtInvalidated (sm_mapping_id m) (mapping_failure_str code))) (\<lambda>_. reset_backoff)
           else record_failure io AtError code))"

definition create_new ::
  "backend \<Rightarrow> mapping_io \<Rightarrow> mapping_target \<Rightarrow> uuid option \<Rightarrow> (pass_state, unit) stateful" where
  "create_new b io target node_id =
     sbind (sresult (ok_or ''enrolled node identity is missing'' node_id)) (\<lambda>node.
     sbind (on_db (record_attempt_started io AtAttempt)) (\<lambda>_.
       let request = \<lparr>mr_node_id = node, mr_revision = mt_revision target, mr_internal_port = mt_internal_port target\<rparr> in
       sbind (call (CallCreate request) (be_create b request)) (\<lambda>made.
         case made of
           Inr created \<Rightarrow>
             (\<lambda>s. case on_db (persist_mapping io target created None) s of
                    (s1, Inr _) \<Rightarrow> reset_backoff s1
                  | (s1, Inl _) \<Rightarrow>
                      sbind (call (CallRelease (durable_from created)) (be_release b 1 (durable_from created))) (\<lambda>_.
                        sresult (Inl (HostError ''new router mapping could not be committed''))) s1)
         | Inl code \<Rightarrow> record_failure io AtError code)))"

text \<open>The last part: renew the lease, or create one.\<close>

definition attempt_mapping ::
  "backend \<Rightarrow> mapping_io \<Rightarrow> router_policy \<Rightarrow> mapping_target option \<Rightarrow> uuid option \<Rightarrow> stored_mapping option \<Rightarrow>
   (pass_state, unit) stateful" where
  "attempt_mapping b io policy target node_id current =
     (case (if rp_enabled policy then target else None) of
        None \<Rightarrow> reset_backoff
      | Some t \<Rightarrow>
          if current = None \<and> rp_last_error_code policy = Some (mapping_failure_str ReleaseFailed) then sreturn ()
          else
            sbind (now io AtDue) (\<lambda>clock_now s.
              if \<not> attempt_is_due (ps_sv s) policy clock_now (pio_instant io AtDue) then (s, Inr ())
              else
                (case current of
                   Some m \<Rightarrow>
                     sbind (now io AtRenewal) (\<lambda>renewal_now.
                     sbind (sresult (renewal_is_due m renewal_now)) (\<lambda>due.
                       if \<not> due then sreturn () else renew_current b io t m)) s
                 | None \<Rightarrow> create_new b io t node_id s)))"

definition reconcile_mapping ::
  "'z proto_env_scheme \<Rightarrow> backend \<Rightarrow> mapping_io \<Rightarrow> mapping_target option \<Rightarrow> (pass_state, unit) stateful" where
  "reconcile_mapping pe b io target =
     sbind (on_db (load_supervision_state pe io)) (\<lambda>(policy, current, node_id).
     sbind (abandon_lost_topology b io current) (\<lambda>current1.
     sbind (release_if_needed b io policy target current1) (\<lambda>next_current.
       case next_current of
         None \<Rightarrow> sreturn ()
       | Some current2 \<Rightarrow> attempt_mapping b io policy target node_id current2)))"

definition mapping_shutdown ::
  "'z proto_env_scheme \<Rightarrow> backend \<Rightarrow> mapping_io \<Rightarrow> (pass_state, unit) stateful" where
  "mapping_shutdown pe b io =
     sbind (on_db (load_supervision_state pe io)) (\<lambda>(policy, current, node_id).
       case current of
         None \<Rightarrow> sreturn ()
       | Some m \<Rightarrow>
           if \<not> be_topology_matches b (sm_material m)
           then on_db (abandon_without_release io AtAbandon (sm_mapping_id m) (mapping_failure_str TopologyChanged))
           else sbind (release_current b io m) (\<lambda>outcome.
             case outcome of
               RetryPending code \<Rightarrow> sresult (Inl (HostError (''router mapping shutdown failed: '' @ mapping_failure_str code)))
             | _ \<Rightarrow> sreturn ()))"

section \<open>Status and candidates\<close>

datatype mapping_state = StDisabled | StWaiting | StActive | StExpired | StReleasing | StFailed

record mapping_status =
  ms_enabled :: bool
  ms_state :: mapping_state
  ms_source :: "endpoint_source option"
  ms_external_address :: "string option"
  ms_external_port :: "u16 option"
  ms_lease_expires_at :: "odt option"
  ms_last_error_code :: "string option"

definition empty_status :: "bool \<Rightarrow> mapping_state \<Rightarrow> mapping_status" where
  "empty_status enabled state =
     \<lparr>ms_enabled = enabled, ms_state = state, ms_source = None, ms_external_address = None, ms_external_port = None,
      ms_lease_expires_at = None, ms_last_error_code = None\<rparr>"

text \<open>The conversion of the package \<open>time\<close> is an argument; it fails out of its range.\<close>

definition timestamp_from_unix :: "(int \<Rightarrow> odt option) \<Rightarrow> int \<Rightarrow> (host_error, odt) result" where
  "timestamp_from_unix from_unix v =
     (case from_unix v of None \<Rightarrow> Inl (HostError ''timestamp out of range'') | Some t \<Rightarrow> Inr (timestamp_from_datetime t))"

text \<open>The order of the statement: current leases first, then the latest.\<close>

definition status_before :: "lease_row \<Rightarrow> lease_row \<Rightarrow> bool" where
  "status_before r q \<longleftrightarrow>
     (if is_current r \<noteq> is_current q then is_current r
      else if lr_created_at r \<noteq> lr_created_at q then lr_created_at q < lr_created_at r
      else lr_mapping_id q < lr_mapping_id r)"

fun status_row :: "lease_row list \<Rightarrow> lease_row option" where
  "status_row [] = None"
| "status_row (r # rs) =
     (case status_row rs of None \<Rightarrow> Some r | Some q \<Rightarrow> Some (if status_before q r then q else r))"

definition when_current :: "bool \<Rightarrow> (host_error, 'a) result \<Rightarrow> (host_error, 'a option) result" where
  "when_current current r = (if current then rbind r (\<lambda>x. Inr (Some x)) else Inr None)"

definition lease_lifecycle :: "router_policy \<Rightarrow> int \<Rightarrow> lease_row \<Rightarrow> (host_error, mapping_state) result" where
  "lease_lifecycle policy t r =
     (if lr_state r = ''active'' then Inr (if t < lr_lease_expires_at r then StActive else StExpired)
      else if lr_state r = ''releasing'' then Inr StReleasing
      else if lr_state r = ''failed'' \<or> lr_state r = ''abandoned'' then Inr StFailed
      else if lr_state r = ''released'' then Inr (if rp_last_error_code policy \<noteq> None then StFailed else StWaiting)
      else Inl (HostError ''stored router mapping state is invalid''))"

definition load_mapping_status ::
  "(int \<Rightarrow> odt option) \<Rightarrow> int \<Rightarrow> node_db \<Rightarrow> (host_error, mapping_status) result" where
  "load_mapping_status from_unix clock db =
     rbind (load_policy db) (\<lambda>policy.
       if \<not> rp_enabled policy then Inr (empty_status False StDisabled)
       else
         (case status_row (db_leases db) of
            None \<Rightarrow>
              Inr ((empty_status True (if rp_last_error_code policy \<noteq> None then StFailed else StWaiting))
                     \<lparr>ms_last_error_code := rp_last_error_code policy\<rparr>)
          | Some r \<Rightarrow>
              rbind (unix_timestamp clock) (\<lambda>t.
              rbind (lease_lifecycle policy t r) (\<lambda>lifecycle.
                let current = (lifecycle = StActive \<or> lifecycle = StReleasing) in
                rbind (when_current current (parse_source (lr_source r))) (\<lambda>source.
                rbind (when_current current (ok_or ''stored external port is invalid'' (u16_of_int (lr_external_port r)))) (\<lambda>port.
                rbind (when_current current (timestamp_from_unix from_unix (lr_lease_expires_at r))) (\<lambda>expires.
                  Inr \<lparr>ms_enabled = True, ms_state = lifecycle, ms_source = source,
                       ms_external_address = (if current then Some (lr_external_address r) else None),
                       ms_external_port = port, ms_lease_expires_at = expires,
                       ms_last_error_code =
                         (case rp_last_error_code policy of None \<Rightarrow> lr_failure_code r | Some c \<Rightarrow> Some c)\<rparr>)))))))"

datatype endpoint_mode = DirectMode | RelayMode

record endpoint_candidate =
  ec_endpoint_id :: uuid
  ec_mode :: endpoint_mode
  ec_source :: endpoint_source
  ec_address :: string
  ec_port :: u16
  ec_applied_revision :: int
  ec_observed_at :: odt
  ec_expires_at :: "odt option"

definition context_err :: "string \<Rightarrow> ('e, 'a) result \<Rightarrow> (host_error, 'a) result" where
  "context_err message r = map_err (\<lambda>_. HostError message) r"

definition candidate_from ::
  "'z proto_env_scheme \<Rightarrow> (int \<Rightarrow> odt option) \<Rightarrow> lease_row \<Rightarrow> (host_error, endpoint_candidate) result" where
  "candidate_from pe from_unix r =
     rbind (context_err ''stored router endpoint identity is invalid'' (id_from_str pe (lr_endpoint_id r))) (\<lambda>endpoint_id.
     rbind (parse_source (lr_source r)) (\<lambda>source.
     rbind (ok_or ''stored router external port is invalid'' (u16_of_int (lr_external_port r))) (\<lambda>port.
     rbind (context_err ''stored router mapping revision is invalid'' (positive_new (lr_applied_revision r))) (\<lambda>revision.
     rbind (context_err ''stored router mapping observation time is invalid''
        (timestamp_from_unix from_unix (lr_lease_started_at r))) (\<lambda>observed_at.
     rbind (context_err ''stored router mapping expiry is invalid'' (timestamp_from_unix from_unix (lr_lease_expires_at r))) (\<lambda>expires_at.
       Inr \<lparr>ec_endpoint_id = endpoint_id, ec_mode = DirectMode, ec_source = source, ec_address = lr_external_address r,
            ec_port = port, ec_applied_revision = revision, ec_observed_at = observed_at, ec_expires_at = Some expires_at\<rparr>))))))"

fun candidates_from ::
  "'z proto_env_scheme \<Rightarrow> (int \<Rightarrow> odt option) \<Rightarrow> lease_row list \<Rightarrow> (host_error, endpoint_candidate list) result" where
  "candidates_from pe from_unix [] = Inr []"
| "candidates_from pe from_unix (r # rs) =
     rbind (candidate_from pe from_unix r) (\<lambda>c. rbind (candidates_from pe from_unix rs) (\<lambda>cs. Inr (c # cs)))"

text \<open>\<open>manual\<close> is the outcome of \<open>load_manual_candidate\<close> of \<open>policy.rs\<close>.\<close>

definition publishable_row :: "int \<Rightarrow> int \<Rightarrow> lease_row \<Rightarrow> bool" where
  "publishable_row revision t r \<longleftrightarrow> lr_state r = ''active'' \<and> lr_applied_revision r = revision \<and> t < lr_lease_expires_at r"

definition load_heartbeat_candidates ::
  "'z proto_env_scheme \<Rightarrow> (int \<Rightarrow> odt option) \<Rightarrow> (host_error, endpoint_candidate option) result \<Rightarrow> int \<Rightarrow> node_db \<Rightarrow>
   int option \<Rightarrow> (host_error, endpoint_candidate list) result" where
  "load_heartbeat_candidates pe from_unix manual clock db applied_revision =
     (case applied_revision of
        None \<Rightarrow> Inr []
      | Some revision \<Rightarrow>
          rbind manual (\<lambda>m.
          rbind (load_policy db) (\<lambda>policy.
            let fixed = (case m of None \<Rightarrow> [] | Some c \<Rightarrow> [c]) in
            if \<not> rp_enabled policy then Inr fixed
            else
              rbind (unix_timestamp clock) (\<lambda>t.
              rbind (candidates_from pe from_unix (sort_key lr_endpoint_id (filter (publishable_row revision t) (db_leases db)))) (\<lambda>cs.
                Inr (fixed @ cs))))))"

end
