(* ===== verification/Router_Protocol_Properties.thy ===== *)
theory Router_Protocol_Properties
  imports Router_Protocol
begin

text \<open>
  What the protocols with the router promise: a mapping that is reported may be recorded, the number of library calls is
  bounded, and the node asks only for its own mappings and removes no other.
\<close>

section \<open>Results and requests of a sequence\<close>

lemma routed_snd [simp]:
  "snd (routed_bind m f) = rbind (snd m) (\<lambda>x. snd (f x))" "snd (no_request r) = r" "snd (ask q r) = r"
  "snd (routed_map_err g m) = map_err g (snd m)"
  by (cases m, auto simp: routed_bind_def no_request_def ask_def routed_map_err_def split: sum.splits prod.splits)+

lemma routed_fst [simp]:
  "fst (no_request r) = []" "fst (ask q r) = [q]" "fst (routed_map_err g m) = fst m"
  by (simp_all add: no_request_def ask_def routed_map_err_def)

lemma routed_bind_fst: "fst (routed_bind m f) = fst m @ (case snd m of Inl _ \<Rightarrow> [] | Inr x \<Rightarrow> fst (f x))"
  by (cases m) (auto simp: routed_bind_def split: sum.splits prod.splits)

lemma or_else_snd: "snd (or_else m f) = (case snd m of Inr x \<Rightarrow> Inr x | Inl e \<Rightarrow> snd (f e))"
  by (cases m) (auto simp: or_else_def split: sum.splits prod.splits)

lemma or_else_Inr: "snd (or_else m f) = Inr x \<longleftrightarrow> snd m = Inr x \<or> (\<exists>e. snd m = Inl e \<and> snd (f e) = Inr x)"
  by (cases "snd m") (simp_all add: or_else_snd)

lemma or_else_Inl: "snd (or_else m f) = Inl x \<longleftrightarrow> (\<exists>e. snd m = Inl e \<and> snd (f e) = Inl x)"
  by (cases "snd m") (simp_all add: or_else_snd)

lemma or_else_fst:
  "fst (or_else m f) = fst m @ (case snd m of Inr x \<Rightarrow> [] | Inl e \<Rightarrow> fst (f e))"
  by (cases m) (auto simp: or_else_def split: sum.splits prod.splits)

lemma map_err_Inr [simp]: "map_err f r = Inr x \<longleftrightarrow> r = Inr x" "Inr x = map_err f r \<longleftrightarrow> r = Inr x"
  by (auto simp: map_err_def split: sum.splits)

lemma bounded_Inr [simp]: "bounded r = Inr x \<longleftrightarrow> r = Some x"
  by (simp add: bounded_def split: option.splits)

lemma upnp_bounded_Inr: "snd (upnp_bounded io m) = Inr x \<Longrightarrow> snd m = Inr x"
  by (auto simp: upnp_bounded_def split: option.splits)

lemma upnp_bounded_fst: "q \<in> set (fst (upnp_bounded io m)) \<Longrightarrow> q \<in> set (fst m)"
  by (auto simp: upnp_bounded_def split: option.splits dest: in_set_takeD)

lemma upnp_bounded_length: "length (fst (upnp_bounded io m)) \<le> length (fst m)"
  by (auto simp: upnp_bounded_def split: option.splits)

section \<open>Inspection of the table of a gateway\<close>

lemma inspect_entries_owned:
  "snd (inspect_entries entries p client port d n i b) = Inr (Owned lease) \<Longrightarrow>
   \<exists>k e. i \<le> k \<and> k < i + n \<and> entries k = Inr e \<and> same_port e p \<and> owned_entry e client port d \<and> lease = ue_lease_duration e"
proof (induction n arbitrary: i b)
  case (Suc n)
  show ?case
  proof (cases "entries i")
    case (Inl e)
    then show ?thesis using Suc.prems by (cases e) (simp_all split: if_splits)
  next
    case (Inr e)
    show ?thesis
    proof (cases "same_port e p \<and> owned_entry e client port d")
      case True
      then show ?thesis using Suc.prems Inr by (intro exI [of _ i] exI [of _ e]) simp
    next
      case False
      then obtain b' where "snd (inspect_entries entries p client port d n (Suc i) b') = Inr (Owned lease)"
        using Suc.prems Inr by (auto split: if_splits)
      from Suc.IH [OF this] show ?thesis by (metis Suc_leD add_Suc_shift)
    qed
  qed
qed (simp split: if_splits)

lemma inspect_entries_requests:
  "length (fst (inspect_entries entries p client port d n i b)) \<le> n
   \<and> (\<forall>q \<in> set (fst (inspect_entries entries p client port d n i b)). \<exists>k. q = UpnpEntry k)"
proof (induction n arbitrary: i b)
  case (Suc n)
  show ?case
  proof (cases "entries i")
    case (Inl e)
    then show ?thesis by (cases e) simp_all
  next
    case (Inr e)
    then show ?thesis using Suc.IH [of "Suc i" b] Suc.IH [of "Suc i" True] by (auto simp: routed_bind_fst)
  qed
qed simp

lemma inspect_owned:
  assumes "snd (inspect_upnp_ownership io k p client port d) = Inr (Owned lease)"
  obtains i e where "i < 64" "ui_entry io k i = Inr e" "same_port e p" "owned_entry e client port d" "lease = ue_lease_duration e"
  using inspect_entries_owned [OF assms [unfolded inspect_upnp_ownership_def]] that by (auto simp: MAX_UPNP_ENTRIES_def)

lemma inspect_requests:
  "length (fst (inspect_upnp_ownership io k p client port d)) \<le> 64"
  "q \<in> set (fst (inspect_upnp_ownership io k p client port d)) \<Longrightarrow> \<exists>i. q = UpnpEntry i"
  using inspect_entries_requests [of "ui_entry io k" p client port d MAX_UPNP_ENTRIES 0 False]
  by (auto simp: inspect_upnp_ownership_def MAX_UPNP_ENTRIES_def)

section \<open>What the protocols create\<close>

text \<open>
  A mapping that may be recorded: a finite lease, an address of the public Internet, a node behind a private one, and
  exactly the material that proves its ownership.
\<close>

definition created_ok :: "created_mapping \<Rightarrow> bool" where
  "created_ok m \<longleftrightarrow> valid_finite_lifetime (cm_lifetime_seconds m) \<and> is_publishable_external_address (cm_external_address m)
     \<and> (case cm_source m of
          Pcp \<Rightarrow> (\<exists>n. cm_pcp_nonce m = Some (nonce_to_bytes n)) \<and> cm_upnp_description m = None
        | NatPmp \<Rightarrow> cm_pcp_nonce m = None \<and> cm_upnp_description m = None
        | Upnp \<Rightarrow> cm_pcp_nonce m = None \<and> cm_upnp_description m \<noteq> None
        | Manual \<Rightarrow> False
        | Relay \<Rightarrow> False)
     \<and> (\<exists>client. cm_internal_address m = V4 client)"

lemma build_crab_Inr:
  assumes "snd (build_crab_mapping dropped m source internal external nonce fp) = Inr c"
  shows "valid_finite_lifetime (cm_lifetime_seconds c)" "is_publishable_external_address (cm_external_address c)"
    "cm_source c = source" "cm_pcp_nonce c = map_option nonce_to_bytes nonce" "cm_upnp_description c = None"
    "cm_internal_address c = internal"
  using assms by (auto simp: build_crab_mapping_def Let_def split: if_splits)

lemma create_pcp_ok:
  assumes "snd (create_pcp io r port nonce external p) = Inr c"
  shows "created_ok c"
proof -
  obtain m where m: "snd (case pm_type m of
      CrabPcp granted external \<Rightarrow>
        build_crab_mapping (pi_cleanup io) m Pcp (V4 (ro_client r)) external (Some granted) (ro_fingerprint r)
    | CrabNatPmp \<Rightarrow> ask (DropMapping m) (Inl (cleanup_failure_or (pi_cleanup io) InvalidResponse))) = Inr c"
    using assms by (auto simp: create_pcp_def rbind_eq_Inr)
  then show ?thesis by (cases "pm_type m") (auto simp: created_ok_def build_crab_Inr dest: build_crab_Inr)
qed

lemma create_nat_pmp_ok:
  assumes "snd (create_nat_pmp io r port p known) = Inr c"
  shows "created_ok c"
proof -
  obtain m external where "snd (build_crab_mapping (np_cleanup io) m NatPmp (V4 (ro_client r)) (V4 external) None (ro_fingerprint r)) = Inr c"
  proof (cases known)
    case None
    with assms obtain m answer where "snd (case answer of
        Some (Inr external) \<Rightarrow> build_crab_mapping (np_cleanup io) m NatPmp (V4 (ro_client r)) (V4 external) None (ro_fingerprint r)
      | Some (Inl failure) \<Rightarrow> ask (DropMapping m) (Inl (cleanup_failure_or (np_cleanup io) (classify_nat_pmp_failure failure)))
      | None \<Rightarrow> ask (DropMapping m) (Inl (cleanup_failure_or (np_cleanup io) Timeout))) = Inr c"
      by (auto simp: create_nat_pmp_def rbind_eq_Inr Let_def)
    then show thesis using that by (auto split: option.splits sum.splits)
  next
    case (Some external)
    with assms that show thesis by (auto simp: create_nat_pmp_def rbind_eq_Inr Let_def)
  qed
  then show ?thesis by (auto simp: created_ok_def build_crab_Inr dest: build_crab_Inr)
qed

lemma external_address_Inr: "snd (external_address io) = Inr a \<Longrightarrow> is_publishable_external_address a"
  by (auto simp: rbind_eq_Inr external_address_def split: if_splits)

lemma owned_case_Inr:
  "(case ow of Owned l \<Rightarrow> f l | Absent \<Rightarrow> Inl e | Foreign \<Rightarrow> Inl e') = Inr x \<longleftrightarrow> (\<exists>l. ow = Owned l \<and> f l = Inr x)"
  by (cases ow) simp_all

lemma owned_case_snd:
  "snd (case ow of Owned l \<Rightarrow> f l | Absent \<Rightarrow> no_request (Inl e) | Foreign \<Rightarrow> no_request (Inl e')) = Inr x \<longleftrightarrow>
   (\<exists>l. ow = Owned l \<and> snd (f l) = Inr x)"
  by (cases ow) simp_all

lemma finite_lease_Inr:
  "snd (if lease = 0 then upnp_cleanup_failure_or io p e else if \<not> valid_finite_lifetime lease then upnp_cleanup_failure_or io p e'
     else no_request (Inr c)) = Inr x \<longleftrightarrow> lease \<noteq> 0 \<and> valid_finite_lifetime lease \<and> x = c"
  by (auto simp: upnp_cleanup_failure_or_def)

lemma create_upnp_ok: "snd (create_upnp io r port p d) = Inr m \<Longrightarrow> created_ok m"
  unfolding create_upnp_def
  by (drule upnp_bounded_Inr)
    (auto simp: rbind_eq_Inr owned_case_snd finite_lease_Inr upnp_mapping_def created_ok_def dest!: external_address_Inr)

lemma owned_gateway_Inr:
  assumes "snd (owned_gateway pe found io m f) = Inr x"
  obtains r d where "mapping_route pe found m = Inr r" "dm_upnp_description m = Some d"
    "snd (f r d (dm_gateway_address m)) = Inr x"
  using assms that unfolding owned_gateway_def
  by (auto simp: rbind_eq_Inr split: if_splits option.splits dest!: upnp_bounded_Inr)

lemma renew_upnp_ok:
  assumes "snd (renew_upnp pe found io m) = Inr c"
  shows "created_ok c"
  using assms unfolding renew_upnp_def
  by (rule owned_gateway_Inr)
    (auto simp: rbind_eq_Inr owned_case_Inr upnp_mapping_def created_ok_def dest!: external_address_Inr split: if_splits)

lemma system_create_ok: "snd (system_create pe io request) = Inr m \<Longrightarrow> created_ok m"
  by (auto simp: rbind_eq_Inr or_else_Inr system_create_def dest: create_pcp_ok create_nat_pmp_ok create_upnp_ok)

lemma system_renew_ok: "snd (system_renew pe io m) = Inr c \<Longrightarrow> created_ok c"
  by (auto simp: rbind_eq_Inr system_renew_def dest: create_pcp_ok create_nat_pmp_ok renew_upnp_ok
      split: endpoint_source.splits ip_addr.splits)

section \<open>What the operations ask of the router\<close>

lemma in_routed_bind:
  "q \<in> set (fst (routed_bind m f)) \<longleftrightarrow> q \<in> set (fst m) \<or> (\<exists>x. snd m = Inr x \<and> q \<in> set (fst (f x)))"
  by (cases "snd m") (auto simp: routed_bind_fst)

lemma in_or_else:
  "q \<in> set (fst (or_else m f)) \<longleftrightarrow> q \<in> set (fst m) \<or> (\<exists>e. snd m = Inl e \<and> q \<in> set (fst (f e)))"
  by (cases "snd m") (auto simp: or_else_fst)

lemma routed_bind_length:
  "length (fst m) \<le> a \<Longrightarrow> (\<And>x. length (fst (f x)) \<le> b) \<Longrightarrow> length (fst (routed_bind m f)) \<le> a + b"
  by (cases "snd m") (auto simp: routed_bind_fst intro: add_mono trans_le_add1)

lemma or_else_length:
  "length (fst m) \<le> a \<Longrightarrow> (\<And>e. length (fst (f e)) \<le> b) \<Longrightarrow> length (fst (or_else m f)) \<le> a + b"
  by (cases "snd m") (auto simp: or_else_fst intro: add_mono trans_le_add1)

fun reads :: "router_request \<Rightarrow> bool" where
  "reads (NatPmpAddress g) = True"
| "reads (UpnpSearch c) = True"
| "reads UpnpExternalIp = True"
| "reads (UpnpEntry i) = True"
| "reads _ = False"

lemma inspect_reads: "q \<in> set (fst (inspect_upnp_ownership io k p client port d)) \<Longrightarrow> reads q"
  by (drule inspect_requests(2)) auto

lemma external_address_reads: "q \<in> set (fst (external_address io)) \<Longrightarrow> reads q"
  by (auto simp: external_address_def in_routed_bind)

lemma discover_upnp_gateway_reads: "q \<in> set (fst (discover_upnp_gateway io r)) \<Longrightarrow> reads q"
  by (auto simp: discover_upnp_gateway_def in_routed_bind)

lemma add_upnp_port_request:
  "q \<in> set (fst (add_upnp_port io r port p d)) \<Longrightarrow>
   q = UpnpAddPort p (V4 (ro_client r)) port LEASE_SECONDS d
   \<or> q = UpnpAddAny (V4 (ro_client r)) port LEASE_SECONDS d \<and> ui_add_port io = Inl AddPortInUse"
  by (auto simp: add_upnp_port_def in_routed_bind split: sum.splits if_splits)

lemmas upnp_reads = inspect_reads external_address_reads discover_upnp_gateway_reads

lemma build_crab_request: "q \<in> set (fst (build_crab_mapping dropped m source internal external nonce fp)) \<Longrightarrow> q = DropMapping m"
  by (auto simp: build_crab_mapping_def Let_def split: if_splits)

lemma create_pcp_request:
  assumes "q \<in> set (fst (create_pcp io r port nonce external p))"
  shows "q = PcpMap (ro_gateway r) (ro_client r) port nonce external p LEASE_SECONDS
    \<or> (\<exists>m. q = DropMapping m \<and> pi_map io = Some (Inr m))"
proof -
  from assms consider "q = PcpMap (ro_gateway r) (ro_client r) port nonce external p LEASE_SECONDS"
    | m where "pi_map io = Some (Inr m)" "q \<in> set (fst (case pm_type m of
      CrabPcp granted external \<Rightarrow>
        build_crab_mapping (pi_cleanup io) m Pcp (V4 (ro_client r)) external (Some granted) (ro_fingerprint r)
    | CrabNatPmp \<Rightarrow> ask (DropMapping m) (Inl (cleanup_failure_or (pi_cleanup io) InvalidResponse))))"
    unfolding create_pcp_def in_routed_bind by (auto simp: rbind_eq_Inr)
  then show ?thesis
  proof cases
    case (2 m)
    then show ?thesis by (cases "pm_type m") (auto dest: build_crab_request)
  qed simp
qed

lemma create_nat_pmp_request:
  assumes "q \<in> set (fst (create_nat_pmp io r port p known))"
  shows "q = NatPmpMap (ro_gateway r) port p LEASE_SECONDS \<or> q = NatPmpAddress (ro_gateway r)
    \<or> (\<exists>m. q = DropMapping m \<and> np_map io = Some (Inr m))"
proof (cases known)
  case (Some external)
  with assms show ?thesis unfolding create_nat_pmp_def in_routed_bind
    by (auto simp: rbind_eq_Inr Let_def dest: build_crab_request)
next
  case None
  with assms consider "q = NatPmpMap (ro_gateway r) port p LEASE_SECONDS" | "q = NatPmpAddress (ro_gateway r)"
    | m answer where "np_map io = Some (Inr m)" "q \<in> set (fst (case answer of
        Some (Inr external) \<Rightarrow> build_crab_mapping (np_cleanup io) m NatPmp (V4 (ro_client r)) (V4 external) None (ro_fingerprint r)
      | Some (Inl failure) \<Rightarrow> ask (DropMapping m) (Inl (cleanup_failure_or (np_cleanup io) (classify_nat_pmp_failure failure)))
      | None \<Rightarrow> ask (DropMapping m) (Inl (cleanup_failure_or (np_cleanup io) Timeout))))"
    unfolding create_nat_pmp_def in_routed_bind by (auto simp: rbind_eq_Inr Let_def in_routed_bind)
  then show ?thesis by cases (auto dest: build_crab_request split: option.splits sum.splits)
qed

text \<open>An entry of the table that carries the client, the port and the description of this mapping.\<close>

definition table_entry :: "upnp_io \<Rightarrow> u16 \<Rightarrow> ipv4 \<Rightarrow> u16 \<Rightarrow> string \<Rightarrow> bool" where
  "table_entry io p client port d \<longleftrightarrow>
     (\<exists>i < MAX_UPNP_ENTRIES. \<exists>e. ui_entry io 0 i = Inr e \<and> same_port e p \<and> owned_entry e client port d)"

lemma inspect_table_entry:
  "snd (inspect_upnp_ownership io 0 p client port d) = Inr (Owned lease) \<Longrightarrow> table_entry io p client port d"
  by (erule inspect_owned) (auto simp: table_entry_def MAX_UPNP_ENTRIES_def)

lemma create_upnp_request:
  assumes "q \<in> set (fst (create_upnp io r port p d))" and "\<not> reads q"
  shows "q = UpnpAddPort p (V4 (ro_client r)) port LEASE_SECONDS d
    \<or> q = UpnpAddAny (V4 (ro_client r)) port LEASE_SECONDS d \<and> ui_add_port io = Inl AddPortInUse
    \<or> (\<exists>x. q = UpnpRemove x \<and> table_entry io x (ro_client r) port d)"
proof -
  from assms consider "q \<in> set (fst (add_upnp_port io r port p d))"
    | x ow g ext where "snd (inspect_upnp_ownership io 0 x (ro_client r) port d) = Inr ow"
    "q \<in> set (fst (case ow of
            Owned lease \<Rightarrow>
              if lease = 0 then upnp_cleanup_failure_or io x PermanentLeaseUnsupported
              else if \<not> valid_finite_lifetime lease then upnp_cleanup_failure_or io x InvalidResponse
              else no_request (Inr (upnp_mapping r g port ext x d lease))
          | Absent \<Rightarrow> no_request (Inl ReleaseFailed)
          | Foreign \<Rightarrow> no_request (Inl ReleaseFailed)))"
    unfolding create_upnp_def
    by (drule_tac upnp_bounded_fst) (auto simp: in_routed_bind dest: upnp_reads)
  then show ?thesis
  proof cases
    case (2 x ow g ext)
    then obtain lease where "ow = Owned lease" by (cases ow) auto
    with 2 show ?thesis by (auto simp: upnp_cleanup_failure_or_def dest: inspect_table_entry split: if_splits)
  qed (use add_upnp_port_request in blast)
qed

lemma owned_gateway_request:
  assumes "q \<in> set (fst (owned_gateway pe found io m f))"
  shows "(\<exists>c. q = UpnpSearch c) \<or> (\<exists>r d. mapping_route pe found m = Inr r \<and> dm_upnp_description m = Some d
    \<and> q \<in> set (fst (f r d (dm_gateway_address m))))"
  using assms unfolding owned_gateway_def in_routed_bind
  by (auto simp: rbind_eq_Inr in_routed_bind discover_upnp_gateway_def split: if_splits option.splits dest!: upnp_bounded_fst)

lemma renew_upnp_request:
  assumes "q \<in> set (fst (renew_upnp pe found io m))" and "\<not> reads q"
  shows "\<exists>r d. mapping_route pe found m = Inr r \<and> dm_upnp_description m = Some d
    \<and> q = UpnpAddPort (dm_external_port m) (V4 (ro_client r)) (dm_internal_port m) LEASE_SECONDS d
    \<and> table_entry io (dm_external_port m) (ro_client r) (dm_internal_port m) d"
proof -
  from owned_gateway_request [OF assms(1) [unfolded renew_upnp_def]] assms(2) obtain r d g where r: "mapping_route pe found m = Inr r"
    "dm_upnp_description m = Some d" and q: "q \<in> set (fst (
       routed_bind (external_address io) (\<lambda>external.
       routed_bind (inspect_upnp_ownership io 0 (dm_external_port m) (ro_client r) (dm_internal_port m) d) (\<lambda>before.
       routed_bind (no_request (case before of Owned _ \<Rightarrow> Inr () | Absent \<Rightarrow> Inl OwnershipLost | Foreign \<Rightarrow> Inl OwnershipLost)) (\<lambda>_.
       routed_bind (ask (UpnpAddPort (dm_external_port m) (V4 (ro_client r)) (dm_internal_port m) LEASE_SECONDS d)
          (map_err classify_add_port_error (ui_add_port io))) (\<lambda>_.
       routed_bind (inspect_upnp_ownership io 1 (dm_external_port m) (ro_client r) (dm_internal_port m) d) (\<lambda>after.
         no_request
           (case after of
              Owned lease \<Rightarrow>
                if \<not> valid_finite_lifetime lease
                then Inl (if lease = 0 then PermanentLeaseUnsupported else InvalidResponse)
                else Inr (upnp_mapping r g (dm_internal_port m) external (dm_external_port m) d lease)
            | Absent \<Rightarrow> Inl OwnershipLost
            | Foreign \<Rightarrow> Inl OwnershipLost))))))))" by auto
  show ?thesis
    using q r assms(2) by (auto simp: in_routed_bind owned_case_Inr intro: inspect_table_entry dest: upnp_reads)
qed

lemma release_upnp_request:
  assumes "q \<in> set (fst (release_upnp pe found io m))" and "\<not> reads q"
  shows "\<exists>r d. mapping_route pe found m = Inr r \<and> dm_upnp_description m = Some d \<and> q = UpnpRemove (dm_external_port m)
    \<and> table_entry io (dm_external_port m) (ro_client r) (dm_internal_port m) d"
proof -
  from owned_gateway_request [OF assms(1) [unfolded release_upnp_def]] assms(2) obtain r d ow where r:
    "mapping_route pe found m = Inr r" "dm_upnp_description m = Some d"
    "snd (inspect_upnp_ownership io 0 (dm_external_port m) (ro_client r) (dm_internal_port m) d) = Inr ow"
    "q \<in> set (fst (case ow of
           Absent \<Rightarrow> no_request (Inr ())
         | Foreign \<Rightarrow> no_request (Inl OwnershipLost)
         | Owned _ \<Rightarrow> ask (UpnpRemove (dm_external_port m))
             (case ui_remove io of
                Inr _ \<Rightarrow> Inr ()
              | Inl NoSuchPortMapping \<Rightarrow> Inr ()
              | Inl RemoveOther \<Rightarrow> Inl ReleaseFailed)))"
    by (auto simp: in_routed_bind dest: upnp_reads)
  then obtain lease where "ow = Owned lease" by (cases ow) auto
  with r show ?thesis by (auto intro: inspect_table_entry)
qed

text \<open>
  What each operation may ask that is not a mere reading: of a creation on the route \<open>r\<close>, of a renewal and of a release of
  the recorded mapping \<open>d\<close> on the route \<open>r\<close>.
\<close>

definition fresh_description :: "'z proto_env_scheme \<Rightarrow> backend_io \<Rightarrow> mapping_request \<Rightarrow> string" where
  "fresh_description pe io request =
     mapping_description_with_token pe (mr_node_id request) (mr_revision request) (bk_token io)"

definition just_returned :: "backend_io \<Rightarrow> port_mapping \<Rightarrow> bool" where
  "just_returned io m \<longleftrightarrow> pi_map (bk_pcp io) = Some (Inr m) \<or> np_map (bk_nat_pmp io) = Some (Inr m)"

fun create_may_ask :: "'z proto_env_scheme \<Rightarrow> backend_io \<Rightarrow> mapping_request \<Rightarrow> route \<Rightarrow> router_request \<Rightarrow> bool" where
  "create_may_ask pe io request r (PcpMap gateway client port nonce address external lease) \<longleftrightarrow>
     gateway = ro_gateway r \<and> client = ro_client r \<and> port = mr_internal_port request \<and> nonce = bk_nonce io \<and> address = None
     \<and> external = Some (mr_internal_port request) \<and> lease = LEASE_SECONDS"
| "create_may_ask pe io request r (NatPmpMap gateway port external lease) \<longleftrightarrow>
     gateway = ro_gateway r \<and> port = mr_internal_port request \<and> external = Some (mr_internal_port request)
     \<and> lease = LEASE_SECONDS"
| "create_may_ask pe io request r (UpnpAddPort external client port lease description) \<longleftrightarrow>
     external = mr_internal_port request \<and> client = V4 (ro_client r) \<and> port = mr_internal_port request
     \<and> lease = LEASE_SECONDS \<and> description = fresh_description pe io request"
| "create_may_ask pe io request r (UpnpAddAny client port lease description) \<longleftrightarrow>
     ui_add_port (bk_upnp io) = Inl AddPortInUse \<and> client = V4 (ro_client r) \<and> port = mr_internal_port request
     \<and> lease = LEASE_SECONDS \<and> description = fresh_description pe io request"
| "create_may_ask pe io request r (DropMapping m) \<longleftrightarrow> just_returned io m"
| "create_may_ask pe io request r (UpnpRemove external) \<longleftrightarrow>
     table_entry (bk_upnp io) external (ro_client r) (mr_internal_port request) (fresh_description pe io request)"
| "create_may_ask pe io request r q \<longleftrightarrow> reads q"

fun renew_may_ask :: "backend_io \<Rightarrow> durable_mapping \<Rightarrow> route \<Rightarrow> router_request \<Rightarrow> bool" where
  "renew_may_ask io d r (PcpMap gateway client port nonce address external lease) \<longleftrightarrow>
     dm_source d = Pcp \<and> gateway = ro_gateway r \<and> client = ro_client r \<and> port = dm_internal_port d
     \<and> map_option nonce_from_bytes (dm_pcp_nonce d) = Some nonce \<and> address = Some (dm_external_address d)
     \<and> external = Some (dm_external_port d) \<and> lease = LEASE_SECONDS"
| "renew_may_ask io d r (NatPmpMap gateway port external lease) \<longleftrightarrow>
     dm_source d = NatPmp \<and> gateway = ro_gateway r \<and> port = dm_internal_port d \<and> external = Some (dm_external_port d)
     \<and> lease = LEASE_SECONDS"
| "renew_may_ask io d r (UpnpAddPort external client port lease description) \<longleftrightarrow>
     dm_source d = Upnp \<and> external = dm_external_port d \<and> client = V4 (ro_client r) \<and> port = dm_internal_port d
     \<and> lease = LEASE_SECONDS \<and> dm_upnp_description d = Some description
     \<and> table_entry (bk_upnp io) external (ro_client r) port description"
| "renew_may_ask io d r (DropMapping m) \<longleftrightarrow> just_returned io m"
| "renew_may_ask io d r q \<longleftrightarrow> reads q"

fun release_may_ask :: "backend_io \<Rightarrow> durable_mapping \<Rightarrow> route \<Rightarrow> router_request \<Rightarrow> bool" where
  "release_may_ask io d r (PcpDrop gateway client nonce port) \<longleftrightarrow>
     dm_source d = Pcp \<and> gateway = ro_gateway r \<and> client = ro_client r \<and> port = dm_internal_port d
     \<and> map_option nonce_from_bytes (dm_pcp_nonce d) = Some nonce"
| "release_may_ask io d r (NatPmpDrop gateway port) \<longleftrightarrow>
     dm_source d = NatPmp \<and> gateway = ro_gateway r \<and> port = dm_internal_port d"
| "release_may_ask io d r (UpnpRemove external) \<longleftrightarrow>
     dm_source d = Upnp \<and> external = dm_external_port d
     \<and> (\<exists>description. dm_upnp_description d = Some description
          \<and> table_entry (bk_upnp io) external (ro_client r) (dm_internal_port d) description)"
| "release_may_ask io d r q \<longleftrightarrow> reads q"

lemma reads_may_ask:
  "reads q \<Longrightarrow> create_may_ask pe io request r q" "reads q \<Longrightarrow> renew_may_ask io d r q" "reads q \<Longrightarrow> release_may_ask io d r q"
  by (cases q; simp)+

lemma nonzero_Inr [simp]: "nonzero p = Inr q \<longleftrightarrow> p \<noteq> 0 \<and> q = p"
  by (auto simp: nonzero_def)

lemma system_create_request:
  assumes "q \<in> set (fst (system_create pe io request))"
  shows "\<exists>r. discover_default_route pe (bk_interface io) = Inr r \<and> create_may_ask pe io request r q"
proof (cases "reads q")
  case False
  let ?port = "mr_internal_port request"
  from assms obtain r where r: "discover_default_route pe (bk_interface io) = Inr r"
    and "q \<in> set (fst (create_pcp (bk_pcp io) r ?port (bk_nonce io) None (Some ?port)))
      \<or> q \<in> set (fst (create_nat_pmp (bk_nat_pmp io) r ?port (Some ?port) None))
      \<or> q \<in> set (fst (create_upnp (bk_upnp io) r ?port ?port (fresh_description pe io request)))"
    by (auto simp: system_create_def in_routed_bind in_or_else fresh_description_def)
  then have "create_may_ask pe io request r q"
    using False by (fastforce simp: just_returned_def dest: create_pcp_request create_nat_pmp_request create_upnp_request)
  with r show ?thesis by blast
qed (use assms reads_may_ask in \<open>auto simp: system_create_def in_routed_bind\<close>)

lemma renew_request_route:
  "q \<in> set (fst (system_renew pe io d)) \<Longrightarrow> \<exists>r. mapping_route pe (bk_interface io) d = Inr r"
  by (auto simp: system_renew_def renew_upnp_def owned_gateway_def in_routed_bind rbind_eq_Inr
      split: endpoint_source.splits ip_addr.splits)

lemma release_request_route:
  "q \<in> set (fst (system_release pe io d)) \<Longrightarrow> \<exists>r. mapping_route pe (bk_interface io) d = Inr r"
  by (auto simp: system_release_def release_pcp_def release_nat_pmp_def release_upnp_def owned_gateway_def in_routed_bind
      rbind_eq_Inr split: endpoint_source.splits)

lemma system_renew_request:
  assumes "q \<in> set (fst (system_renew pe io d))"
  shows "\<exists>r. mapping_route pe (bk_interface io) d = Inr r \<and> renew_may_ask io d r q"
proof (cases "reads q")
  case True
  then show ?thesis using renew_request_route [OF assms] reads_may_ask by blast
next
  case False
  obtain r where r: "mapping_route pe (bk_interface io) d = Inr r" using renew_request_route [OF assms] by blast
  have "renew_may_ask io d r q"
  proof (cases "dm_source d")
    case Pcp
    with assms r obtain bs where "dm_pcp_nonce d = Some bs" "q \<in> set (fst (create_pcp (bk_pcp io) r (dm_internal_port d)
        (nonce_from_bytes bs) (Some (dm_external_address d)) (Some (dm_external_port d))))"
      by (auto simp: system_renew_def in_routed_bind rbind_eq_Inr split: option.splits)
    then show ?thesis using Pcp by (fastforce simp: just_returned_def dest: create_pcp_request)
  next
    case NatPmp
    with assms r obtain a where "q \<in> set (fst (create_nat_pmp (bk_nat_pmp io) r (dm_internal_port d)
        (Some (dm_external_port d)) (Some a)))"
      by (auto simp: system_renew_def in_routed_bind rbind_eq_Inr split: ip_addr.splits)
    then show ?thesis using NatPmp False by (fastforce simp: just_returned_def dest: create_nat_pmp_request)
  next
    case Upnp
    with assms False r renew_upnp_request [of q pe "bk_interface io" "bk_upnp io" d] show ?thesis
      by (auto simp: system_renew_def)
  qed (use assms in \<open>simp_all add: system_renew_def\<close>)
  with r show ?thesis by blast
qed

lemma system_release_request:
  assumes "q \<in> set (fst (system_release pe io d))"
  shows "\<exists>r. mapping_route pe (bk_interface io) d = Inr r \<and> release_may_ask io d r q"
proof (cases "reads q")
  case True
  then show ?thesis using release_request_route [OF assms] reads_may_ask by blast
next
  case False
  show ?thesis
  proof (cases "dm_source d")
    case Upnp
    then show ?thesis
      using assms False release_upnp_request [of q pe "bk_interface io" "bk_upnp io" d] by (auto simp: system_release_def)
  qed (use assms in \<open>auto simp: system_release_def release_pcp_def release_nat_pmp_def in_routed_bind rbind_eq_Inr
      split: option.splits if_splits\<close>)
qed

section \<open>The number of library calls\<close>

lemma build_crab_length: "length (fst (build_crab_mapping dropped m source internal external nonce fp)) \<le> 1"
  by (simp add: build_crab_mapping_def Let_def)

lemma create_pcp_length: "length (fst (create_pcp io r port nonce external p)) \<le> 2"
proof -
  have "length (fst (create_pcp io r port nonce external p)) \<le> 1 + 1"
    unfolding create_pcp_def
    by (rule routed_bind_length) (auto intro: build_crab_length [THEN order_trans] split: crab_type.split)
  then show ?thesis by simp
qed

lemma create_nat_pmp_length: "length (fst (create_nat_pmp io r port p known)) \<le> 3"
proof -
  have clean: "length (fst (case answer of
        Some (Inr external) \<Rightarrow> build_crab_mapping (np_cleanup io) m NatPmp (V4 (ro_client r)) (V4 external) None (ro_fingerprint r)
      | Some (Inl failure) \<Rightarrow> ask (DropMapping m) (Inl (cleanup_failure_or (np_cleanup io) (classify_nat_pmp_failure failure)))
      | None \<Rightarrow> ask (DropMapping m) (Inl (cleanup_failure_or (np_cleanup io) Timeout)))) \<le> 1" for answer m
    using build_crab_length by (simp split: option.split sum.split)
  have "length (fst (create_nat_pmp io r port p known)) \<le> 1 + (1 + 1)"
    unfolding create_nat_pmp_def Let_def
  proof (rule routed_bind_length, simp, cases known)
    case None
    then show "length (fst (case known of
        Some external \<Rightarrow> build_crab_mapping (np_cleanup io) m NatPmp (V4 (ro_client r)) (V4 external) None (ro_fingerprint r)
      | None \<Rightarrow> routed_bind (ask (NatPmpAddress (ro_gateway r)) (Inr (np_address io))) (\<lambda>answer. case answer of
          Some (Inr external) \<Rightarrow> build_crab_mapping (np_cleanup io) m NatPmp (V4 (ro_client r)) (V4 external) None (ro_fingerprint r)
        | Some (Inl failure) \<Rightarrow> ask (DropMapping m) (Inl (cleanup_failure_or (np_cleanup io) (classify_nat_pmp_failure failure)))
        | None \<Rightarrow> ask (DropMapping m) (Inl (cleanup_failure_or (np_cleanup io) Timeout))))) \<le> 1 + 1" for m
      using routed_bind_length [OF _ clean, of "ask q a" 1 for q a] by simp
  qed (simp add: order_trans [OF build_crab_length])
  then show ?thesis by simp
qed

lemma upnp_lengths:
  "length (fst (discover_upnp_gateway io r)) \<le> 1" "length (fst (external_address io)) \<le> 1"
  "length (fst (add_upnp_port io r port p d)) \<le> 2"
proof -
  show "length (fst (discover_upnp_gateway io r)) \<le> 1" "length (fst (external_address io)) \<le> 1"
    by (auto simp: discover_upnp_gateway_def external_address_def routed_bind_fst split: sum.split)
  show "length (fst (add_upnp_port io r port p d)) \<le> 2"
    by (auto simp: add_upnp_port_def routed_bind_fst split: sum.split)
qed

lemma create_upnp_length: "length (fst (create_upnp io r port p d)) \<le> 69"
proof -
  have last: "length (fst (case ow of
            Owned lease \<Rightarrow>
              if lease = 0 then upnp_cleanup_failure_or io x PermanentLeaseUnsupported
              else if \<not> valid_finite_lifetime lease then upnp_cleanup_failure_or io x InvalidResponse
              else no_request (Inr (upnp_mapping r g port ext x d lease))
          | Absent \<Rightarrow> no_request (Inl ReleaseFailed)
          | Foreign \<Rightarrow> no_request (Inl ReleaseFailed))) \<le> 1" for ow g ext x
    by (cases ow) (auto simp: upnp_cleanup_failure_or_def)
  have "length (fst (create_upnp io r port p d)) \<le> 1 + (1 + (2 + (64 + 1)))"
    unfolding create_upnp_def
    by (rule order_trans [OF upnp_bounded_length])
      (intro routed_bind_length upnp_lengths last, simp add: inspect_requests(1))
  then show ?thesis by simp
qed

lemma owned_gateway_length:
  assumes "\<And>r d g. length (fst (f r d g)) \<le> n"
  shows "length (fst (owned_gateway pe found io m f)) \<le> 1 + n"
proof -
  have "length (fst (owned_gateway pe found io m f)) \<le> 0 + (1 + n)"
    unfolding owned_gateway_def
    by (rule routed_bind_length)
      (auto intro!: order_trans [OF upnp_bounded_length] routed_bind_length [THEN order_trans, OF upnp_lengths(1)] simp: assms)
  then show ?thesis by simp
qed

lemma renew_upnp_length: "length (fst (renew_upnp pe found io m)) \<le> 131"
proof -
  have "length (fst (renew_upnp pe found io m)) \<le> 1 + (1 + (64 + (0 + (1 + (64 + 0)))))"
    unfolding renew_upnp_def
    by (intro owned_gateway_length routed_bind_length upnp_lengths(2) inspect_requests(1)) simp_all
  then show ?thesis by simp
qed

lemma release_upnp_length: "length (fst (release_upnp pe found io m)) \<le> 66"
proof -
  have "length (fst (release_upnp pe found io m)) \<le> 1 + (64 + 1)"
    unfolding release_upnp_def
    by (intro owned_gateway_length routed_bind_length inspect_requests(1)) (simp split: owned_upnp.split)
  then show ?thesis by simp
qed

section \<open>What a creation reports\<close>

lemma select_failure_preferred: "select_failure codes \<noteq> ReleaseFailed"
proof -
  have "\<forall>x \<in> set failure_preference. x \<noteq> ReleaseFailed" by (simp add: failure_preference_def)
  then show ?thesis by (auto simp: select_failure_def find_Some_iff split: option.split)
qed

lemma discover_not_release_failed: "discover_default_route pe found \<noteq> Inl ReleaseFailed"
  by (auto simp: discover_default_route_def split: option.splits prod.splits list.splits)

lemma system_create_code: "snd (system_create pe io request) \<noteq> Inl ReleaseFailed"
proof
  assume "snd (system_create pe io request) = Inl ReleaseFailed"
  then obtain codes where "select_failure codes = ReleaseFailed"
    using discover_not_release_failed
    by (auto simp: system_create_def rbind_eq_Inl or_else_Inl nonzero_def split: if_splits)
  then show False using select_failure_preferred by blast
qed

section \<open>Properties\<close>


text \<open>A home network, and a gateway that lists a mapping of the node.\<close>

definition demo_home_env :: proto_env where
  "demo_home_env =
     \<lparr>uuid_parse = (\<lambda>s. Some (str_bytes s)), uuid_show = bytes_str, rfc3339_parse = (\<lambda>_. None), rfc3339_show = (\<lambda>_. []),
      b64_decode = (\<lambda>_. None), b64_encode = (\<lambda>_. []), sha256 = (\<lambda>_. replicate 32 0)\<rparr>"

definition demo_interface :: interface where
  "demo_interface =
     \<lparr>if_index = 1, if_name = ''eth0'', if_up = True, if_running = True, if_loopback = False, if_point_to_point = False,
      if_tun = False, if_gateway = Some ([Ipv4 192 168 1 1], replicate 6 0),
      if_ipv4 = [\<lparr>net_addr = Ipv4 192 168 1 20, net_prefix = 24, net_contains = (\<lambda>_. True)\<rparr>]\<rparr>"

definition demo_gateway :: upnp_io where
  "demo_gateway =
     \<lparr>ui_elapsed = None, ui_search = Inr (V4 (Ipv4 192 168 1 1)), ui_external_ip = Inr (V4 (Ipv4 93 184 216 34)),
      ui_add_port = Inr (), ui_add_any = Inr 8443,
      ui_entry = (\<lambda>_ i. if i = 0 then Inr \<lparr>ue_tcp = True, ue_external_port = 8443,
          ue_internal_client = show_v4 (Ipv4 192 168 1 20), ue_internal_port = 443, ue_description = ''FriendNode'',
          ue_enabled = True, ue_remote_host = [], ue_lease_duration = 3600\<rparr> else Inl EntryIndexInvalid),
      ui_cleanup = None, ui_remove = Inr ()\<rparr>"

definition demo_backend_io :: backend_io where
  "demo_backend_io =
     \<lparr>bk_interface = Some demo_interface, bk_nonce = (1, 2, 3), bk_token = replicate 8 0,
      bk_pcp = \<lparr>pi_map = None, pi_cleanup = None, pi_release = None\<rparr>,
      bk_nat_pmp = \<lparr>np_map = None, np_address = None, np_cleanup = None, np_release = None\<rparr>,
      bk_upnp = demo_gateway\<rparr>"

definition demo_durable :: durable_mapping where
  "demo_durable =
     \<lparr>dm_source = Upnp, dm_gateway_address = V4 (Ipv4 192 168 1 1), dm_internal_address = V4 (Ipv4 192 168 1 20),
      dm_internal_port = 443, dm_external_address = V4 (Ipv4 93 184 216 34), dm_external_port = 8443, dm_pcp_nonce = None,
      dm_upnp_description = Some ''FriendNode'', dm_gateway_epoch = None, dm_lifetime_seconds = 3600,
      dm_topology_fingerprint = Some (replicate 32 0)\<rparr>"

lemmas demo_router_defs = demo_home_env_def demo_interface_def demo_gateway_def demo_backend_io_def demo_durable_def

lemma demo_route: "mapping_route demo_home_env (Some demo_interface) demo_durable =
    Inr \<lparr>ro_gateway = Ipv4 192 168 1 1, ro_client = Ipv4 192 168 1 20, ro_fingerprint = replicate 32 0\<rparr>"
  by (simp add: demo_router_defs mapping_route_def discover_default_route_def is_private_router_address_def find_network_def
      topology_fingerprint_def)

lemma demo_inspected:
  "inspect_upnp_ownership demo_gateway 0 8443 (Ipv4 192 168 1 20) 443 ''FriendNode'' = ([UpnpEntry 0], Inr (Owned 3600))"
proof -
  have m: "MAX_UPNP_ENTRIES = Suc 63" by (simp add: MAX_UPNP_ENTRIES_def)
  show ?thesis unfolding inspect_upnp_ownership_def m inspect_entries.simps(2)
    by (simp add: demo_gateway_def same_port_def owned_entry_def routed_bind_def ask_def no_request_def del: show_v4.simps)
qed



text \<open>Claim C34: no router can keep an operation going. Whatever the router answers, a creation makes at most 74 calls of
  the protocol libraries, a renewal at most 131 and a release at most 66, also when the gateway lists entries without end.
  What one call sends, its retries included, is up to the library.\<close>

theorem router_calls_bounded:
  "length (fst (system_create pe io request)) \<le> 74
   \<and> length (fst (system_renew pe io d)) \<le> 131
   \<and> length (fst (system_release pe io d)) \<le> 66"
proof (intro conjI)
  have "length (fst (system_create pe io request)) \<le> 0 + (0 + (2 + (3 + (69 + 0))))"
    unfolding system_create_def
    by (intro routed_bind_length or_else_length create_pcp_length create_nat_pmp_length create_upnp_length) simp_all
  then show "length (fst (system_create pe io request)) \<le> 74" by simp
  have p: "length (fst (routed_bind (no_request x) (\<lambda>(r, nonce, port, ext). create_pcp (bk_pcp io) r port nonce a (Some ext)))) \<le> 131" for x a
    by (cases x) (auto simp: routed_bind_fst intro: order_trans [OF create_pcp_length])
  have n: "length (fst (routed_bind (no_request x) (\<lambda>(r, port, ext). create_nat_pmp (bk_nat_pmp io) r port (Some ext) a))) \<le> 131" for x a
    by (cases x) (auto simp: routed_bind_fst intro: order_trans [OF create_nat_pmp_length])
  show "length (fst (system_renew pe io d)) \<le> 131"
    by (simp add: system_renew_def p n renew_upnp_length split: endpoint_source.split ip_addr.split)
  have "length (fst (release_pcp pe (bk_interface io) (bk_pcp io) d)) \<le> 0 + 1"
    "length (fst (release_nat_pmp pe (bk_interface io) (bk_nat_pmp io) d)) \<le> 0 + 1"
    unfolding release_pcp_def release_nat_pmp_def by (rule routed_bind_length; simp add: split_def)+
  then have one: "length (fst (release_pcp pe (bk_interface io) (bk_pcp io) d)) \<le> 66"
    "length (fst (release_nat_pmp pe (bk_interface io) (bk_nat_pmp io) d)) \<le> 66" by simp_all
  show "length (fst (system_release pe io d)) \<le> 66"
    by (simp add: system_release_def one release_upnp_length split: endpoint_source.split)
qed

end
