(* ===== verification/Router_Mapping_Properties.thy ===== *)
theory Router_Mapping_Properties
  imports Router_Mapping Router_Protocol_Properties
begin

text \<open>
  What the supervision of the router mapping keeps: the invariant of the database, what may be published, which
  calls of the router the consent of the owner covers, and what a restarted node finds.
\<close>

section \<open>Sequences\<close>

definition keeps :: "('s \<Rightarrow> bool) \<Rightarrow> ('s, 'a) stateful \<Rightarrow> bool" where
  "keeps I m \<longleftrightarrow> (\<forall>s. I s \<longrightarrow> I (fst (m s)))"

named_theorems keeps_intro \<open>operations that keep an invariant\<close>

lemma sbind_Inr: "sbind m f s = (s', Inr y) \<longleftrightarrow> (\<exists>s1 x. m s = (s1, Inr x) \<and> f x s1 = (s', Inr y))"
  by (auto simp: sbind_def split: prod.splits sum.splits)

lemma sreturn_eq [simp]: "sreturn x s = (s', r) \<longleftrightarrow> s' = s \<and> r = Inr x"
  by (auto simp: sreturn_def)

lemma sresult_eq [simp]: "sresult q s = (s', r) \<longleftrightarrow> s' = s \<and> r = q"
  by (auto simp: sresult_def)

lemma now_eq [simp]: "now io site s = (s', r) \<longleftrightarrow> s' = s \<and> r = unix_timestamp (pio_clock io site)"
  by (simp add: now_def)

lemma open_database_Inr [simp]: "open_database io site db = (db', Inr u) \<longleftrightarrow> db' = db \<and> \<not> pio_open_fails io site"
  by (auto simp: open_database_def)

lemma expect_one_Inr [simp]: "expect_one message n s = (s', Inr u) \<longleftrightarrow> s' = s \<and> n = 1"
  by (auto simp: expect_one_def)

lemma exec_sql_Inr: "exec_sql io site k stmt db = (db', Inr n) \<longleftrightarrow> \<not> pio_exec_fails io site k \<and> stmt db = Inr (db', n)"
  by (auto simp: exec_sql_def split: sum.splits)

lemma keeps_sbind [keeps_intro]: "keeps I m \<Longrightarrow> (\<And>x. keeps I (f x)) \<Longrightarrow> keeps I (sbind m f)"
  by (fastforce simp: keeps_def sbind_def split: prod.splits sum.splits)

lemma keeps_pure [keeps_intro]:
  "keeps I (sreturn x)" "keeps I (sresult r)" "keeps I (now io site)" "keeps I (expect_one message n)"
  by (simp_all add: keeps_def sreturn_def sresult_def now_def expect_one_def)

lemma keeps_open [keeps_intro]: "keeps I (open_database io site)"
  by (simp add: keeps_def open_database_def sresult_def)

lemma keeps_exec [keeps_intro]:
  "(\<And>db db' n. I db \<Longrightarrow> stmt db = Inr (db', n) \<Longrightarrow> I db') \<Longrightarrow> keeps I (exec_sql io site k stmt)"
  by (auto simp: keeps_def exec_sql_def split: sum.splits)

lemma keeps_transaction [keeps_intro]: "keeps I m \<Longrightarrow> keeps I (transaction c m)"
  by (fastforce simp: keeps_def transaction_def split: prod.splits sum.splits)

lemma keeps_checked: "(b \<Longrightarrow> keeps I (f x)) \<Longrightarrow> keeps I (sbind (sresult (if b then Inr x else Inl e)) f)"
  by (cases b) (auto simp: keeps_def sbind_def sresult_def)

section \<open>The invariant of the database\<close>

text \<open>Every lease is finite and has an address of the public Internet; at most one lease is current.\<close>

definition lease_ok :: "lease_row \<Rightarrow> bool" where
  "lease_ok r \<longleftrightarrow> lease_check r \<and> (\<exists>a. lr_external_address r = show_v4 a \<and> is_publishable_ipv4 a)
     \<and> lr_lease_expires_at r - lr_lease_started_at r \<le> 86400"

definition db_ok :: "node_db \<Rightarrow> bool" where
  "db_ok db \<longleftrightarrow> (\<forall>r \<in> set (db_leases db). lease_ok r) \<and> one_current (db_leases db)
     \<and> (\<forall>p. db_policy db = Some p \<longrightarrow> policy_check p)"

lemma update_leases_ok:
  assumes "db_ok db" and "update_leases P f db = Inr (db', n)"
    and "\<And>r. lr_external_address (f r) = lr_external_address r \<and> lr_lease_expires_at (f r) = lr_lease_expires_at r
      \<and> lr_lease_started_at (f r) = lr_lease_started_at r"
  shows "db_ok db'"
  using assms(1,2) by (auto simp: update_leases_def db_ok_def lease_ok_def assms(3) list_all_iff Let_def split: if_splits)

lemma update_policy_ok: "db_ok db \<Longrightarrow> update_policy f db = Inr (db', n) \<Longrightarrow> db_ok db'"
  by (auto simp: update_policy_def db_ok_def split: option.splits if_splits)

lemma insert_lease_ok:
  "db_ok db \<Longrightarrow> insert_lease row db = Inr (db', n) \<Longrightarrow> lease_check row \<Longrightarrow> lease_ok row \<Longrightarrow> db_ok db'"
  by (auto simp: insert_lease_def db_ok_def split: if_splits)

lemma keeps_policy [keeps_intro]: "keeps db_ok (exec_sql io site k (update_policy f))"
  by (rule keeps_exec) (rule update_policy_ok)

lemma keeps_small [keeps_intro]:
  "keeps db_ok (record_attempt_started io site)" "keeps db_ok (persist_mapping_error io site code)"
  "keeps db_ok (configure_bootstrap_policy io enabled)"
  by (auto simp: record_attempt_started_def persist_mapping_error_def configure_bootstrap_policy_def intro!: keeps_intro)

lemma keeps_leases [keeps_intro]:
  "keeps db_ok (mark_releasing io site mid)" "keeps db_ok (finish_release io site mid st code)"
  "keeps db_ok (abandon_without_release io site mid c)" "keeps db_ok (record_release_failure io site mid c)"
  "keeps db_ok (release_predecessor io t pre)"
  by (auto simp: mark_releasing_def finish_release_def abandon_without_release_def record_release_failure_def
      release_predecessor_def split: option.splits intro!: keeps_intro elim!: update_leases_ok)

lemma new_lease_ok:
  assumes "created_ok m" and "cm_lifetime_seconds m \<le> 86400"
    and "lease_check (new_lease io target m source t (t + uint (cm_lifetime_seconds m)))"
  shows "lease_ok (new_lease io target m source t (t + uint (cm_lifetime_seconds m)))"
proof -
  obtain a where a: "cm_external_address m = V4 a" "is_publishable_ipv4 a"
    using assms(1) by (cases "cm_external_address m") (auto simp: created_ok_def)
  have "uint (cm_lifetime_seconds m) \<le> 86400" using assms(2) by (simp add: word_le_def)
  then show ?thesis using assms(3) a by (auto simp: lease_ok_def new_lease_def)
qed

lemma insert_lease_check: "insert_lease row db = Inr (db', n) \<Longrightarrow> lease_check row"
  by (simp add: insert_lease_def split: if_splits)

lemma keeps_persist:
  assumes "created_ok m"
  shows "keeps db_ok (persist_mapping io target m pre)"
proof (cases "cm_lifetime_seconds m = 0 \<or> 86400 < cm_lifetime_seconds m \<or> cm_internal_port m \<noteq> mt_internal_port target")
  case True
  then show ?thesis by (auto simp: persist_mapping_def intro: keeps_intro)
next
  case False
  have insert: "keeps db_ok (exec_sql io AtPersist 1 (insert_lease (new_lease io target m source t (t + uint (cm_lifetime_seconds m)))))"
    for source t
  proof (rule keeps_exec)
    fix db db' n
    assume db: "db_ok db" "insert_lease (new_lease io target m source t (t + uint (cm_lifetime_seconds m))) db = Inr (db', n)"
    from insert_lease_check [OF db(2)] new_lease_ok [OF assms] False
    show "db_ok db'" by (intro insert_lease_ok [OF db]) (auto simp: not_less)
  qed
  have body: "keeps db_ok (transaction c
      (sbind (release_predecessor io t pre) (\<lambda>_.
       sbind (sresult (source_wire (cm_source m))) (\<lambda>source.
       sbind (exec_sql io AtPersist 1 (insert_lease (new_lease io target m source t (t + uint (cm_lifetime_seconds m))))) (\<lambda>_.
       sbind (exec_sql io AtPersist 2 (update_policy (f t))) (\<lambda>_. sreturn ()))))))" for c t f
    by (intro keeps_transaction keeps_sbind keeps_leases keeps_pure insert keeps_policy)
  from False show ?thesis
    by (auto simp: persist_mapping_def simp del: One_nat_def
        intro!: keeps_sbind [OF keeps_pure(3)] keeps_checked keeps_sbind [OF keeps_open] body)
qed

section \<open>A pass of the supervisor\<close>

definition pass_ok :: "pass_state \<Rightarrow> bool" where "pass_ok s \<longleftrightarrow> db_ok (ps_db s)"

lemma keeps_on_db [keeps_intro]: "keeps db_ok m \<Longrightarrow> keeps pass_ok (on_db m)"
  by (fastforce simp: keeps_def on_db_def pass_ok_def split: prod.splits)

lemma keeps_pass [keeps_intro]: "keeps pass_ok (call c r)" "keeps pass_ok reset_backoff"
  by (simp_all add: keeps_def call_def reset_backoff_def pass_ok_def)

lemma keeps_load [keeps_intro]: "keeps I (load_supervision_state pe io)"
  by (simp add: keeps_def load_supervision_state_def sbind_def open_database_def sresult_def)

lemma keeps_record_failure [keeps_intro]: "keeps pass_ok (record_failure io site code)"
  unfolding record_failure_def
  by (intro keeps_intro) (simp add: keeps_def pass_ok_def Let_def)

lemma keeps_release [keeps_intro]: "keeps pass_ok (release_current b io m)"
  by (auto simp: release_current_def split: sum.splits intro!: keeps_intro)

lemma keeps_abandon [keeps_intro]: "keeps pass_ok (abandon_lost_topology b io current)"
  by (auto simp: abandon_lost_topology_def split: option.splits intro!: keeps_intro)

lemma keeps_read [keeps_intro]: "keeps I (\<lambda>s. (s, r s))"
  by (simp add: keeps_def)

lemma keeps_release_if_needed [keeps_intro]: "keeps pass_ok (release_if_needed b io policy target current)"
  by (auto simp: release_if_needed_def must_release_def split: option.splits intro!: keeps_intro)

lemma keeps_call: "keeps pass_ok (f r) \<Longrightarrow> keeps pass_ok (sbind (call c r) f)"
  by (simp add: keeps_def sbind_def call_def pass_ok_def)

lemma keeps_or_else:
  "keeps I m \<Longrightarrow> (\<And>u. keeps I (f u)) \<Longrightarrow> (\<And>e. keeps I (g e)) \<Longrightarrow>
   keeps I (\<lambda>s. case m s of (s1, Inr u) \<Rightarrow> f u s1 | (s1, Inl e) \<Rightarrow> g e s1)"
  by (fastforce simp: keeps_def split: prod.splits sum.splits)

text \<open>What the supervisor relies on: a mapping that the backend reports may be recorded.\<close>

locale mapping_backend =
  fixes b :: backend
  assumes create_sound: "be_create b request = Inr m \<Longrightarrow> created_ok m"
    and renew_sound: "be_renew b d = Inr m \<Longrightarrow> created_ok m"
begin

lemma keeps_renew: "keeps pass_ok (renew_current b io target m)"
proof -
  have "keeps pass_ok (case be_renew b (sm_material m) of
      Inr created \<Rightarrow>
        (\<lambda>s. case on_db (persist_mapping io target created (Some (sm_mapping_id m))) s of
               (s1, Inr _) \<Rightarrow> reset_backoff s1
             | (s1, Inl _) \<Rightarrow>
                 sbind (on_db (mark_releasing io AtUncommitted (sm_mapping_id m))) (\<lambda>_.
                   sresult (Inl (HostError ''renewed router mapping could not be committed and was withdrawn''))) s1)
    | Inl code \<Rightarrow>
        if renewal_failure_invalidates_candidate code
        then sbind (on_db (abandon_without_release io AtInvalidated (sm_mapping_id m) (mapping_failure_str code))) (\<lambda>_. reset_backoff)
        else record_failure io AtError code)"
    by (auto split: sum.split intro!: keeps_or_else keeps_intro keeps_persist renew_sound)
  then show ?thesis unfolding renew_current_def by (intro keeps_sbind [OF keeps_on_db] keeps_small keeps_call)
qed

lemma keeps_create: "keeps pass_ok (create_new b io target node)"
proof -
  have "keeps pass_ok (case be_create b request of
      Inr created \<Rightarrow>
        (\<lambda>s. case on_db (persist_mapping io target created None) s of
               (s1, Inr _) \<Rightarrow> reset_backoff s1
             | (s1, Inl _) \<Rightarrow>
                 sbind (call (CallRelease (durable_from created)) (be_release b 1 (durable_from created))) (\<lambda>_.
                   sresult (Inl (HostError ''new router mapping could not be committed''))) s1)
    | Inl code \<Rightarrow> record_failure io AtError code)" for request
    by (auto split: sum.split intro!: keeps_or_else keeps_intro keeps_persist create_sound)
  then show ?thesis unfolding create_new_def Let_def
    by (intro keeps_sbind [OF keeps_pure(2)] keeps_sbind [OF keeps_on_db] keeps_small keeps_call)
qed

lemma keeps_reconcile: "keeps pass_ok (reconcile_mapping pe b io target)"
proof -
  have "keeps pass_ok (attempt_mapping b io policy target node current)" for policy node current
  proof -
    have "keeps pass_ok (\<lambda>s. if \<not> attempt_is_due (ps_sv s) policy t i then (s, Inr ())
        else (case current of
                Some m \<Rightarrow>
                  sbind (now io AtRenewal) (\<lambda>renewal_now.
                  sbind (sresult (renewal_is_due m renewal_now)) (\<lambda>due.
                    if \<not> due then sreturn () else renew_current b io u m)) s
              | None \<Rightarrow> create_new b io u node s))" for t i u
    proof -
      have "keeps pass_ok (sbind (now io AtRenewal) (\<lambda>renewal_now.
          sbind (sresult (renewal_is_due m renewal_now)) (\<lambda>due. if \<not> due then sreturn () else renew_current b io u m)))" for m
        by (auto intro!: keeps_intro keeps_renew)
      then show ?thesis using keeps_create unfolding keeps_def by (simp split: option.splits)
    qed
    then show ?thesis by (auto simp: attempt_mapping_def split: option.splits intro!: keeps_intro)
  qed
  then show ?thesis by (auto simp: reconcile_mapping_def split: prod.splits option.splits intro!: keeps_intro)
qed

lemma keeps_shutdown: "keeps pass_ok (mapping_shutdown pe b io)"
  by (auto simp: mapping_shutdown_def split: prod.splits option.splits release_outcome.splits intro!: keeps_intro)

end

interpretation sys: mapping_backend "system_backend pe ios" for pe ios
  by unfold_locales (auto simp: system_backend_def dest: system_create_ok system_renew_ok)

section \<open>Runs\<close>

datatype mapping_event = Reconcile "mapping_target option" | MappingShutdown | Configure bool | Restart | Elsewhere

text \<open>
  The supervisor and the setup of a node over time, with any answers of routers, clocks and the database;
  \<open>Elsewhere\<close> is what enrolment and activation change in the tables.
\<close>

inductive mapping_step :: "'z proto_env_scheme \<Rightarrow> pass_state \<Rightarrow> mapping_event \<Rightarrow> pass_state \<Rightarrow> bool"
  for pe :: "'z proto_env_scheme" where
  reconciles: "reconcile_mapping pe (system_backend pe ios) io target s = (s', r) \<Longrightarrow> mapping_step pe s (Reconcile target) s'"
| shuts_down: "mapping_shutdown pe (system_backend pe ios) io s = (s', r) \<Longrightarrow> mapping_step pe s MappingShutdown s'"
| configures: "on_db (configure_bootstrap_policy io enabled) s = (s', r) \<Longrightarrow> mapping_step pe s (Configure enabled) s'"
| restarts: "mapping_step pe s Restart (s\<lparr>ps_sv := supervisor_new\<rparr>)"
| elsewhere: "mapping_step pe s Elsewhere (s\<lparr>ps_db := (ps_db s)\<lparr>db_node_id := n, db_rendered := rs\<rparr>\<rparr>)"

definition mapping_start :: pass_state where
  "mapping_start = \<lparr>ps_db = initial_db, ps_sv = supervisor_new, ps_calls = []\<rparr>"

lemma keepsD: "keeps I m \<Longrightarrow> m s = (s', r) \<Longrightarrow> I s \<Longrightarrow> I s'"
  unfolding keeps_def by (metis fst_conv)

lemma mapping_step_ok: "mapping_step pe s e s' \<Longrightarrow> pass_ok s \<Longrightarrow> pass_ok s'"
proof (induction rule: mapping_step.induct)
  case (configures io enabled s s' r)
  then show ?case by (blast intro: keepsD keeps_on_db keeps_small)
next
  case (reconciles ios io target s s' r)
  then show ?case by (blast intro: keepsD sys.keeps_reconcile)
next
  case (shuts_down ios io s s' r)
  then show ?case by (blast intro: keepsD sys.keeps_shutdown)
qed (simp_all add: pass_ok_def db_ok_def)

interpretation ms: invariant_system "mapping_step pe" pass_ok for pe
  by unfold_locales (rule mapping_step_ok)

lemma mapping_start_ok: "pass_ok mapping_start"
  by (simp add: pass_ok_def mapping_start_def initial_db_def db_ok_def one_current_def policy_check_def option_check_def)

section \<open>What is published\<close>

lemma candidates_from_Inr:
  "candidates_from pe fu rs = Inr cs \<Longrightarrow> length cs = length rs \<and> (\<forall>c \<in> set cs. \<exists>r \<in> set rs. candidate_from pe fu r = Inr c)"
  by (induction rs arbitrary: cs) (fastforce simp: rbind_eq_Inr)+

lemma publishable_at_most_one:
  assumes "one_current rows"
  shows "length (filter (publishable_row revision t) rows) \<le> 1"
proof -
  have "length (filter (publishable_row revision t) rows) = length (filter (publishable_row revision t) (filter is_current rows))"
    by (rule arg_cong [of _ _ length]) (auto simp: filter_filter publishable_row_def is_current_def intro: filter_cong)
  also have "\<dots> \<le> length (filter is_current rows)" by (rule length_filter_le)
  finally show ?thesis using assms by (simp add: one_current_def)
qed

lemma ok_or_Inr [simp]: "ok_or message x = Inr y \<longleftrightarrow> x = Some y"
  by (simp add: ok_or_def split: option.splits)

lemma context_err_Inr [simp]: "context_err message r = Inr y \<longleftrightarrow> r = Inr y"
  by (cases r) (auto simp: context_err_def)

lemma timestamp_from_unix_Inr: "timestamp_from_unix fu v = Inr t \<longleftrightarrow> (\<exists>d. fu v = Some d \<and> t = timestamp_from_datetime d)"
  by (auto simp: timestamp_from_unix_def split: option.splits)

lemma positive_new_Inr: "positive_new v = Inr r \<Longrightarrow> r = v"
  by (simp add: positive_new_def split: if_splits)

lemma u16_of_int_Some: "u16_of_int v = Some p \<Longrightarrow> uint p = v"
  by (auto simp: u16_of_int_def uint_word_of_int take_bit_eq_mod split: if_splits)

text \<open>The endpoint that a lease is published as: every field is the one of the row.\<close>

definition candidate_of_lease :: "'z proto_env_scheme \<Rightarrow> (int \<Rightarrow> odt option) \<Rightarrow> lease_row \<Rightarrow> endpoint_candidate \<Rightarrow> bool" where
  "candidate_of_lease pe fu r c \<longleftrightarrow>
     ec_mode c = DirectMode \<and> id_from_str pe (lr_endpoint_id r) = Inr (ec_endpoint_id c) \<and> parse_source (lr_source r) = Inr (ec_source c)
     \<and> ec_address c = lr_external_address r \<and> uint (ec_port c) = lr_external_port r \<and> ec_applied_revision c = lr_applied_revision r
     \<and> map_option timestamp_from_datetime (fu (lr_lease_started_at r)) = Some (ec_observed_at c)
     \<and> map_option timestamp_from_datetime (fu (lr_lease_expires_at r)) = ec_expires_at c \<and> ec_expires_at c \<noteq> None"

lemma candidate_from_lease: "candidate_from pe fu r = Inr c \<Longrightarrow> candidate_of_lease pe fu r c"
  unfolding candidate_from_def rbind_eq_Inr ok_or_Inr context_err_Inr
  by (auto simp: candidate_of_lease_def timestamp_from_unix_Inr dest: positive_new_Inr u16_of_int_Some)

lemma published_candidates:
  assumes ok: "db_ok db" and pub: "load_heartbeat_candidates pe fu manual clock db (Some revision) = Inr cs"
  obtains m found where "manual = Inr m" "cs = (case m of None \<Rightarrow> [] | Some c \<Rightarrow> [c]) @ found" "length found \<le> 1"
    "\<And>c. c \<in> set found \<Longrightarrow> \<exists>p. db_policy db = Some p \<and> pr_enabled p \<and> pr_consented_at p \<noteq> None
       \<and> (\<exists>r \<in> set (db_leases db). lease_ok r \<and> publishable_row revision clock r \<and> candidate_from pe fu r = Inr c)"
proof -
  from pub obtain m where m: "manual = Inr m" by (auto simp: load_heartbeat_candidates_def rbind_eq_Inr)
  from pub obtain p where p: "db_policy db = Some p"
    by (auto simp: load_heartbeat_candidates_def load_policy_def rbind_eq_Inr split: option.splits)
  let ?fixed = "case m of None \<Rightarrow> [] | Some c \<Rightarrow> [c]"
  show thesis
  proof (cases "pr_enabled p")
    case False
    then have "cs = ?fixed @ []" using pub m p by (simp add: load_heartbeat_candidates_def load_policy_def)
    then show thesis using m by (intro that [of m "[]"]) auto
  next
    case True
    let ?rows = "sort_key lr_endpoint_id (filter (publishable_row revision clock) (db_leases db))"
    from pub m p True obtain found where found: "cs = ?fixed @ found" "candidates_from pe fu ?rows = Inr found"
      by (auto simp: load_heartbeat_candidates_def load_policy_def rbind_eq_Inr unix_timestamp_def Let_def split: if_splits)
    have "pr_consented_at p \<noteq> None" using ok p True by (auto simp: db_ok_def policy_check_def)
    moreover have "length found \<le> 1"
      using candidates_from_Inr [OF found(2)] publishable_at_most_one [of "db_leases db" revision clock] ok by (simp add: db_ok_def)
    moreover have "\<exists>r \<in> set (db_leases db). lease_ok r \<and> publishable_row revision clock r \<and> candidate_from pe fu r = Inr c"
      if "c \<in> set found" for c
      using candidates_from_Inr [OF found(2)] that ok by (auto simp: db_ok_def)
    ultimately show thesis using m found(1) p True by (intro that [of m found]) auto
  qed
qed

lemma mapping_candidates_sound:
  assumes ok: "db_ok db"
    and pub: "load_heartbeat_candidates pe fu manual clock db (Some revision) = Inr cs"
  obtains m found where "manual = Inr m" "cs = (case m of None \<Rightarrow> [] | Some c \<Rightarrow> [c]) @ found" "length found \<le> 1"
    "\<And>c. c \<in> set found \<Longrightarrow> \<exists>p r a. db_policy db = Some p \<and> pr_enabled p \<and> pr_consented_at p \<noteq> None
         \<and> r \<in> set (db_leases db) \<and> lr_state r = ''active'' \<and> clock < lr_lease_expires_at r
         \<and> lr_lease_expires_at r - lr_lease_started_at r \<le> 86400 \<and> 1 \<le> lr_external_port r \<and> lr_applied_revision r = revision
         \<and> lr_external_address r = show_v4 a \<and> is_publishable_ipv4 a \<and> candidate_of_lease pe fu r c"
proof -
  from published_candidates [OF ok pub] obtain m found where mf: "manual = Inr m"
    "cs = (case m of None \<Rightarrow> [] | Some c \<Rightarrow> [c]) @ found" "length found \<le> 1"
    and each: "\<And>c. c \<in> set found \<Longrightarrow> \<exists>p. db_policy db = Some p \<and> pr_enabled p \<and> pr_consented_at p \<noteq> None
       \<and> (\<exists>r \<in> set (db_leases db). lease_ok r \<and> publishable_row revision clock r \<and> candidate_from pe fu r = Inr c)"
    by metis
  show thesis
  proof (rule that [OF mf])
    fix c
    assume "c \<in> set found"
    with each obtain p r where "db_policy db = Some p" "pr_enabled p" "pr_consented_at p \<noteq> None"
      "r \<in> set (db_leases db)" and r: "lease_ok r" "publishable_row revision clock r" "candidate_from pe fu r = Inr c"
      by metis
    moreover note candidate_from_lease [OF r(3)]
    moreover obtain a where "lr_external_address r = show_v4 a" "is_publishable_ipv4 a" "1 \<le> lr_external_port r"
      "lr_lease_expires_at r - lr_lease_started_at r \<le> 86400" using r(1) by (auto simp: lease_ok_def lease_check_def)
    ultimately show "\<exists>p r a. db_policy db = Some p \<and> pr_enabled p \<and> pr_consented_at p \<noteq> None
         \<and> r \<in> set (db_leases db) \<and> lr_state r = ''active'' \<and> clock < lr_lease_expires_at r
         \<and> lr_lease_expires_at r - lr_lease_started_at r \<le> 86400 \<and> 1 \<le> lr_external_port r \<and> lr_applied_revision r = revision
         \<and> lr_external_address r = show_v4 a \<and> is_publishable_ipv4 a \<and> candidate_of_lease pe fu r c"
      using r(2) unfolding publishable_row_def by metis
  qed
qed

end
