(* ===== verification/Router_Recovery.thy ===== *)
theory Router_Recovery
  imports Router_Mapping_Properties
begin

text \<open>
  What the supervisor of the router mapping finds after a restart and after a failed attempt: the lease it recorded
  reads back as the material to renew or release it with, and the code that stops automatic attempts is never
  recorded by an attempt to create a mapping.
\<close>

section \<open>The recorded lease\<close>

lemma u16_of_uint [simp]: "u16_of_int (uint (w :: u16)) = Some w"
  using uint_lt2p [of w] by (simp add: u16_of_int_def)

lemma u32_of_uint [simp]: "u32_of_int (uint (w :: u32)) = Some w"
  using uint_lt2p [of w] by (simp add: u32_of_int_def)

lemma parse_source_wire: "source_wire s = Inr w \<Longrightarrow> parse_source w = Inr s"
  by (cases s) (auto simp: parse_source_def)

lemma persist_mapping_Inr:
  assumes "persist_mapping io target m pre db = (db', Inr ())"
  obtains db1 source where "0 < cm_lifetime_seconds m" "source_wire (cm_source m) = Inr source"
    "0 \<le> pio_clock io AtPersist" "pio_clock io AtPersist + uint (cm_lifetime_seconds m) < 2 ^ 63"
    "lease_check (new_lease io target m source (pio_clock io AtPersist) (pio_clock io AtPersist + uint (cm_lifetime_seconds m)))"
    "one_current (db1 @ [new_lease io target m source (pio_clock io AtPersist) (pio_clock io AtPersist + uint (cm_lifetime_seconds m))])"
    "db_leases db' = db1 @ [new_lease io target m source (pio_clock io AtPersist) (pio_clock io AtPersist + uint (cm_lifetime_seconds m))]"
proof -
  let ?t = "pio_clock io AtPersist" and ?e = "pio_clock io AtPersist + uint (cm_lifetime_seconds m)"
  from assms have t: "0 < cm_lifetime_seconds m" "0 \<le> ?t" "?e < 2 ^ 63"
    by (auto simp: persist_mapping_def sbind_Inr unix_timestamp_def word_gt_0 split: if_splits)
  with assms have "transaction (pio_exec_fails io AtPersist 3)
      (sbind (release_predecessor io ?t pre) (\<lambda>_.
       sbind (sresult (source_wire (cm_source m))) (\<lambda>source.
       sbind (exec_sql io AtPersist 1 (insert_lease (new_lease io target m source ?t ?e))) (\<lambda>_.
       sbind (exec_sql io AtPersist 2 (update_policy (\<lambda>p.
          p\<lparr>pr_last_error_code := None, pr_last_attempt_at := Some ?t, pr_updated_at := ?t\<rparr>))) (\<lambda>_. sreturn ()))))) db = (db', Inr ())"
    by (simp add: persist_mapping_def sbind_Inr unix_timestamp_def split: if_splits)
  then obtain d source d1 n n' where d: "Inr source = source_wire (cm_source m)"
    "insert_lease (new_lease io target m source ?t ?e) d = Inr (d1, n)"
    "update_policy (\<lambda>p. p\<lparr>pr_last_error_code := None, pr_last_attempt_at := Some ?t, pr_updated_at := ?t\<rparr>) d1 = Inr (db', n')"
    by (auto simp: transaction_def sbind_Inr exec_sql_Inr split: prod.splits sum.splits if_splits)
  then have "db_leases db' = db_leases d @ [new_lease io target m source ?t ?e]"
    by (auto simp: insert_lease_def update_policy_def split: if_splits option.splits)
  with d t show thesis by (intro that) (auto simp: insert_lease_def split: if_splits)
qed

lemma find_current_last:
  assumes "one_current (rows @ [r])" and "is_current r"
  shows "find is_current (rows @ [r]) = Some r"
proof -
  have "filter is_current rows = []" using assms by (simp add: one_current_def)
  then show ?thesis using assms(2) by (induction rows) (auto split: if_splits)
qed

lemma stored_lifetime_new:
  assumes "0 < cm_lifetime_seconds m"
  shows "stored_lifetime (new_lease io target m source t (t + uint (cm_lifetime_seconds m))) = Inr (cm_lifetime_seconds m)"
proof -
  have "- (2 ^ 63) \<le> uint (cm_lifetime_seconds m)" by (rule order_trans [OF _ uint_nonnegative]) simp
  then show ?thesis using assms uint_lt2p [of "cm_lifetime_seconds m"]
    by (simp add: stored_lifetime_def new_lease_def checked_sub_i64_def ok_or_def)
qed

section \<open>The code that stops automatic attempts\<close>

definition fuse_clear :: "node_db \<Rightarrow> bool" where
  "fuse_clear db \<longleftrightarrow> (\<forall>p. db_policy db = Some p \<longrightarrow> pr_last_error_code p \<noteq> Some (mapping_failure_str ReleaseFailed))"

abbreviation attempts_open :: "pass_state \<Rightarrow> bool" where
  "attempts_open s \<equiv> fuse_clear (ps_db s)"

lemma release_failed_str: "mapping_failure_str code = mapping_failure_str ReleaseFailed \<longleftrightarrow> code = ReleaseFailed"
  by (cases code) simp_all

lemma update_policy_Inr:
  "update_policy f db = Inr (db', n) \<Longrightarrow> db_policy db' = map_option f (db_policy db)"
  by (auto simp: update_policy_def split: option.splits if_splits)

lemma fuse_clear_update:
  assumes "\<And>p. pr_last_error_code (f p) = pr_last_error_code p \<or> pr_last_error_code (f p) \<noteq> Some (mapping_failure_str ReleaseFailed)"
  shows "keeps fuse_clear (exec_sql io site k (update_policy f))"
proof (rule keeps_exec)
  fix db db' n
  assume "fuse_clear db" "update_policy f db = Inr (db', n)"
  with assms show "fuse_clear db'" by (cases "db_policy db") (auto simp: fuse_clear_def dest!: update_policy_Inr, metis)
qed

lemma fuse_clear_leases: "keeps fuse_clear (exec_sql io site k (update_leases P f))" "keeps fuse_clear (exec_sql io site k (insert_lease row))"
  by (rule keeps_exec; auto simp: update_leases_def insert_lease_def fuse_clear_def Let_def split: if_splits)+

lemma attempts_on_db: "keeps fuse_clear m \<Longrightarrow> keeps attempts_open (on_db m)"
  by (fastforce simp: keeps_def on_db_def split: prod.splits)

lemma attempts_pass: "keeps attempts_open (call c r)" "keeps attempts_open reset_backoff"
  by (simp_all add: keeps_def call_def reset_backoff_def)

lemma attempts_started: "keeps attempts_open (on_db (record_attempt_started io site))"
  unfolding record_attempt_started_def by (intro attempts_on_db keeps_sbind keeps_open keeps_pure fuse_clear_update) simp_all

lemma attempts_failure:
  assumes "code \<noteq> ReleaseFailed"
  shows "keeps attempts_open (record_failure io site code)"
proof -
  have "keeps attempts_open (on_db (persist_mapping_error io site (mapping_failure_str code)))"
    unfolding persist_mapping_error_def using assms
    by (intro attempts_on_db keeps_sbind keeps_open keeps_pure fuse_clear_update) (simp_all add: release_failed_str del: mapping_failure_str.simps)
  then show ?thesis unfolding record_failure_def by (rule keeps_sbind) (simp add: keeps_def Let_def)
qed

lemma attempts_persist: "keeps attempts_open (on_db (persist_mapping io target m pre))"
proof -
  have "keeps fuse_clear (release_predecessor io t pre)" for t
    by (cases pre) (auto simp: release_predecessor_def intro: keeps_sbind keeps_pure fuse_clear_leases)
  then show ?thesis
    by (auto simp: persist_mapping_def simp del: One_nat_def
        intro!: attempts_on_db keeps_sbind keeps_transaction keeps_open keeps_pure fuse_clear_leases fuse_clear_update)
qed

lemma attempts_create: "keeps attempts_open (create_new (system_backend pe ios) io target node)"
proof -
  have made: "keeps attempts_open (sbind (call c made) (\<lambda>made. case made of
      Inr created \<Rightarrow>
        (\<lambda>s. case on_db (persist_mapping io target created None) s of
               (s1, Inr _) \<Rightarrow> reset_backoff s1
             | (s1, Inl _) \<Rightarrow>
                 sbind (call (CallRelease (durable_from created)) (be_release (system_backend pe ios) 1 (durable_from created))) (\<lambda>_.
                   sresult (Inl (HostError ''new router mapping could not be committed''))) s1)
    | Inl code \<Rightarrow> record_failure io AtError code))" if "made \<noteq> Inl ReleaseFailed" for c made
  proof -
    have "keeps attempts_open (case made of
      Inr created \<Rightarrow>
        (\<lambda>s. case on_db (persist_mapping io target created None) s of
               (s1, Inr _) \<Rightarrow> reset_backoff s1
             | (s1, Inl _) \<Rightarrow>
                 sbind (call (CallRelease (durable_from created)) (be_release (system_backend pe ios) 1 (durable_from created))) (\<lambda>_.
                   sresult (Inl (HostError ''new router mapping could not be committed''))) s1)
    | Inl code \<Rightarrow> record_failure io AtError code)"
      using that by (auto split: sum.split intro!: keeps_or_else attempts_persist attempts_pass attempts_failure keeps_sbind keeps_pure)
    then show ?thesis by (simp add: keeps_def sbind_def call_def)
  qed
  have "be_create (system_backend pe ios) request \<noteq> Inl ReleaseFailed" for request
    by (simp add: system_backend_def system_create_code)
  then show ?thesis unfolding create_new_def Let_def
    by (intro keeps_sbind [OF keeps_pure(2)] keeps_sbind [OF attempts_started] made)
qed

section \<open>A node with consent and no lease\<close>

definition demo_created :: created_mapping where
  "demo_created =
     \<lparr>cm_source = Upnp, cm_gateway_address = V4 (Ipv4 192 168 1 1), cm_internal_address = V4 (Ipv4 192 168 1 20),
      cm_internal_port = 443, cm_external_address = V4 (Ipv4 93 184 216 34), cm_external_port = 8443, cm_pcp_nonce = None,
      cm_upnp_description = Some ''FriendNode'', cm_gateway_epoch = None, cm_lifetime_seconds = 3600,
      cm_topology_fingerprint = replicate 32 0\<rparr>"

definition demo_mapping_io :: mapping_io where
  "demo_mapping_io =
     \<lparr>pio_open_fails = (\<lambda>_. False), pio_exec_fails = (\<lambda>_ _. False), pio_clock = (\<lambda>_. 1000), pio_instant = (\<lambda>_. 0),
      pio_mapping_id = replicate 36 (CHR ''m''), pio_endpoint_id = replicate 36 (CHR ''e'')\<rparr>"

definition demo_consented_db :: node_db where
  "demo_consented_db =
     \<lparr>db_policy = Some \<lparr>pr_enabled = True, pr_consented_at = Some 500, pr_last_error_code = None, pr_last_attempt_at = None,
                       pr_updated_at = 500\<rparr>,
      db_leases = [], db_node_id = Some (replicate 36 (CHR ''n'')), db_rendered = [7]\<rparr>"

definition demo_target :: mapping_target where
  "demo_target = \<lparr>mt_revision = 7, mt_internal_port = 443\<rparr>"

definition demo_lease_row :: lease_row where
  "demo_lease_row = new_lease demo_mapping_io demo_target demo_created ''upnp'' 1000 4600"

lemma demo_lease_check: "lease_check demo_lease_row"
proof -
  have "1 \<le> length (show_v4 a)" "length (show_v4 a) \<le> 64" "length (show_v4 a) \<le> 253" for a using show_v4_length [of a] by auto
  then show ?thesis
    by (simp add: lease_check_def demo_lease_row_def new_lease_def demo_mapping_io_def demo_target_def demo_created_def option_check_def
        is_current_def del: show_v4.simps One_nat_def)
qed

lemma demo_persisted:
  "\<exists>db'. persist_mapping demo_mapping_io demo_target demo_created None demo_consented_db = (db', Inr ())"
proof -
  have "insert_lease (new_lease demo_mapping_io demo_target demo_created ''upnp'' 1000 4600) demo_consented_db
      = Inr (demo_consented_db\<lparr>db_leases := [demo_lease_row]\<rparr>, 1)"
    using demo_lease_check unfolding demo_lease_row_def
    by (simp add: insert_lease_def demo_consented_db_def one_current_def new_lease_def demo_target_def)
  then show ?thesis
    by (simp add: persist_mapping_def demo_created_def sbind_def now_def unix_timestamp_def sresult_def open_database_def transaction_def
        release_predecessor_def sreturn_def exec_sql_def update_policy_def policy_check_def option_check_def demo_mapping_io_def
        demo_target_def demo_consented_db_def)
qed

text \<open>A router that grants a mapping of a private address through PCP and does not answer its removal.\<close>

definition demo_uncertain_io :: backend_io where
  "demo_uncertain_io = demo_backend_io\<lparr>
     bk_pcp := \<lparr>pi_map = Some (Inr \<lparr>pm_gateway = V4 (Ipv4 192 168 1 1), pm_internal_port = 443, pm_external_port = 443,
         pm_lifetime = 3600, pm_epoch = 1, pm_type = CrabPcp (1, 2, 3) (V4 (Ipv4 10 0 0 1))\<rparr>), pi_cleanup = None, pi_release = None\<rparr>,
     bk_upnp := demo_gateway\<lparr>ui_search := Inl NoResponseWithinTimeout\<rparr>\<rparr>"

definition demo_idle_pass :: pass_state where
  "demo_idle_pass = \<lparr>ps_db = demo_consented_db, ps_sv = supervisor_new, ps_calls = []\<rparr>"

lemma demo_uncertain_pcp: "snd (create_pcp (bk_pcp demo_uncertain_io) route port nonce None (Some port)) = Inl ReleaseFailed"
  by (simp add: create_pcp_def demo_uncertain_io_def routed_bind_def ask_def bounded_def map_err_def build_crab_mapping_def Let_def
      cleanup_failure_or_def)

lemma after_failure: "snd m = Inl e \<Longrightarrow> snd (or_else m f) = snd (f e)"
  by (cases m) (simp add: or_else_def split: prod.splits)

lemma known_route: "snd (routed_bind (no_request (Inr x)) f) = snd (f x)"
  by (simp add: routed_bind_def no_request_def split: prod.splits)

lemma demo_uncertain_create:
  assumes "mr_internal_port request \<noteq> 0"
  shows "snd (system_create demo_home_env demo_uncertain_io request) = Inl Timeout"
proof -
  have "bk_interface demo_uncertain_io = Some demo_interface" by (simp add: demo_uncertain_io_def demo_backend_io_def)
  moreover have "discover_default_route demo_home_env (Some demo_interface) =
      Inr \<lparr>ro_gateway = Ipv4 192 168 1 1, ro_client = Ipv4 192 168 1 20, ro_fingerprint = replicate 32 0\<rparr>"
    by (simp add: demo_router_defs discover_default_route_def is_private_router_address_def find_network_def topology_fingerprint_def)
  moreover have "snd (create_nat_pmp (bk_nat_pmp demo_uncertain_io) route port (Some port) None) = Inl Timeout" for route port
    by (simp add: create_nat_pmp_def demo_uncertain_io_def demo_backend_io_def routed_bind_def ask_def bounded_def)
  moreover have "snd (create_upnp (bk_upnp demo_uncertain_io) route port port description) = Inl Timeout" for route port description
    by (simp add: create_upnp_def demo_uncertain_io_def demo_backend_io_def demo_gateway_def routed_bind_def ask_def upnp_bounded_def
        discover_upnp_gateway_def map_err_def)
  ultimately show ?thesis using assms demo_uncertain_pcp
    by (simp add: system_create_def known_route after_failure nonzero_def) (simp add: no_request_def select_failure_def failure_preference_def)
qed

lemma demo_uncertain_pass:
  "map_option pr_last_error_code (db_policy (ps_db (fst (reconcile_mapping demo_home_env
     (system_backend demo_home_env (\<lambda>_. demo_uncertain_io)) demo_mapping_io (Some demo_target) demo_idle_pass)))) = Some (Some ''mapping_timeout'')"
proof -
  let ?b = "system_backend demo_home_env (\<lambda>_. demo_uncertain_io)"
  have made: "be_create ?b \<lparr>mr_node_id = node, mr_revision = 7, mr_internal_port = 443\<rparr> = Inl Timeout" for node
    by (simp add: system_backend_def demo_uncertain_create)
  have "\<exists>node. id_from_str demo_home_env (replicate 36 (CHR ''n'')) = Inr node" by (simp add: id_from_str_def demo_home_env_def)
  then obtain node where node: "id_from_str demo_home_env (replicate 36 (CHR ''n'')) = Inr node" ..
  have "on_db (load_supervision_state demo_home_env demo_mapping_io) demo_idle_pass
      = (demo_idle_pass, Inr (\<lparr>rp_enabled = True, rp_consented_at = Some 500, rp_last_error_code = None, rp_last_attempt_at = None\<rparr>, None, Some node))"
    by (simp add: on_db_def demo_idle_pass_def load_supervision_state_def demo_mapping_io_def sbind_def open_database_def sresult_def
        load_policy_def demo_consented_db_def load_current_mapping_def node map_err_def del: replicate_Suc)
  then show ?thesis
    by (simp add: reconcile_mapping_def sbind_def abandon_lost_topology_def release_if_needed_def sreturn_def attempt_mapping_def now_def
        sresult_def demo_mapping_io_def unix_timestamp_def attempt_is_due_def demo_idle_pass_def supervisor_new_def create_new_def
        ok_or_def on_db_def record_attempt_started_def open_database_def exec_sql_def demo_consented_db_def update_policy_def
        policy_check_def option_check_def expect_one_def call_def demo_target_def made record_failure_def persist_mapping_error_def Let_def)
qed

section \<open>Properties\<close>

text \<open>Claim C37: a lease survives a restart. When a mapping of the backend is recorded, as a new lease or in place of
  the one it renews, the next pass finds it as the current lease, with all the material that renewing and
  releasing it need, and with the instant and the lifetime it was granted.\<close>

theorem lease_restart_roundtrip:
  assumes made: "created_ok m" "cm_gateway_address m = V4 gateway" and revision: "0 < mt_revision target"
    and persisted: "persist_mapping io target m predecessor db = (db', Inr ())"
  shows "load_current_mapping db' = Inr (Some
    \<lparr>sm_mapping_id = pio_mapping_id io, sm_applied_revision = mt_revision target, sm_material = durable_from m,
     sm_lease_started_at = pio_clock io AtPersist,
     sm_lease_expires_at = pio_clock io AtPersist + uint (cm_lifetime_seconds m), sm_releasing = False\<rparr>)"
proof -
  obtain client where client: "cm_internal_address m = V4 client" using made(1) by (auto simp: created_ok_def)
  obtain external where external: "cm_external_address m = V4 external"
    using made(1) by (cases "cm_external_address m") (auto simp: created_ok_def)
  from persisted show ?thesis
  proof (rule persist_mapping_Inr)
    fix rows source
    let ?r = "new_lease io target m source (pio_clock io AtPersist) (pio_clock io AtPersist + uint (cm_lifetime_seconds m))"
    assume m: "0 < cm_lifetime_seconds m" "source_wire (cm_source m) = Inr source" "lease_check ?r"
      and rows: "one_current (rows @ [?r])" "db_leases db' = rows @ [?r]"
    have "is_current ?r" by (simp add: is_current_def new_lease_def)
    from find_current_last [OF rows(1) this] have "load_current_mapping db' = rbind (stored_from ?r) (\<lambda>m. Inr (Some m))"
      by (simp add: load_current_mapping_def rows(2))
    moreover have "option_check (\<lambda>n. length n = 12) (cm_pcp_nonce m)" "length (cm_topology_fingerprint m) = 32"
      using m(3) by (simp_all add: lease_check_def new_lease_def option_check_def)
    ultimately show ?thesis
      unfolding stored_from_def stored_lifetime_new [OF m(1)]
      by (cases "cm_gateway_epoch m"; cases "cm_pcp_nonce m")
        (simp_all add: new_lease_def sized_def map_err_def positive_new_def revision parse_source_wire [OF m(2)] ok_or_def
          made(2) client external durable_from_def option_check_def)
  qed
qed

theorem lease_restart_roundtrip_witness:
  "\<exists>db' m. persist_mapping demo_mapping_io demo_target demo_created None demo_consented_db = (db', Inr ())
     \<and> load_current_mapping db' = Inr (Some m) \<and> sm_material m = durable_from demo_created \<and> sm_lease_expires_at m = 4600"
proof -
  obtain db' where db': "persist_mapping demo_mapping_io demo_target demo_created None demo_consented_db = (db', Inr ())"
    using demo_persisted by blast
  have "created_ok demo_created" "cm_gateway_address demo_created = V4 (Ipv4 192 168 1 1)" "0 < mt_revision demo_target"
    by (simp_all add: created_ok_def demo_created_def valid_finite_lifetime_def MAX_ACCEPTED_LEASE_SECONDS_def demo_target_def)
  from lease_restart_roundtrip [OF this db'] db' show ?thesis by (simp add: demo_mapping_io_def demo_created_def)
qed

text \<open>Claim C40: the code that stops automatic attempts is never recorded by an attempt. A pass without a current
  lease, whatever its three protocols leave behind at the router and however their clean-up fails, does not record
  \<open>mapping_release_failed\<close>: the choice among the failures drops it, and the next pass asks the router again.\<close>

theorem cleanup_fuse_never_trips:
  assumes pass: "reconcile_mapping pe (system_backend pe ios) io target s = (s', r)"
    and idle: "load_current_mapping (ps_db s) = Inr None"
    and clear: "fuse_clear (ps_db s)"
  shows "fuse_clear (ps_db s')"
proof -
  have attempt: "keeps attempts_open (attempt_mapping (system_backend pe ios) io policy target node None)" for policy node
  proof -
    have "keeps attempts_open (\<lambda>s. if \<not> attempt_is_due (ps_sv s) policy t i then (s, Inr ())
        else create_new (system_backend pe ios) io u node s)" for t i u
      using attempts_create [of pe ios io u node] unfolding keeps_def by simp
    then show ?thesis by (auto simp: attempt_mapping_def cong: if_cong split: option.splits intro!: keeps_sbind keeps_pure attempts_pass)
  qed
  show ?thesis
  proof (cases "on_db (load_supervision_state pe io) s")
    case (Pair s1 loaded)
    have s1: "s1 = s" using keepsD [OF keeps_load, of pe io "ps_db s" _ _ "\<lambda>d. d = ps_db s"] Pair
      by (auto simp: on_db_def split: prod.splits)
    have none: "current = None" if "loaded = Inr (policy, current, node)" for policy current node
      using Pair that idle by (auto simp: on_db_def load_supervision_state_def sbind_def open_database_def sresult_def rbind_eq_Inr
          split: prod.splits if_splits)
    show ?thesis
    proof (cases loaded)
      case (Inl e)
      then show ?thesis using pass clear Pair s1 by (simp add: reconcile_mapping_def sbind_def)
    next
      case (Inr x)
      then obtain policy node where "loaded = Inr (policy, None, node)" using none by (cases x) auto
      then have "attempt_mapping (system_backend pe ios) io policy target node None s = (s', r)"
        using pass Pair s1 by (simp add: reconcile_mapping_def sbind_def abandon_lost_topology_def release_if_needed_def sreturn_def)
      from keepsD [OF attempt this clear] show ?thesis .
    qed
  qed
qed

theorem cleanup_fuse_never_trips_witness:
  "\<exists>s' r. reconcile_mapping demo_home_env (system_backend demo_home_env (\<lambda>_. demo_uncertain_io)) demo_mapping_io (Some demo_target) demo_idle_pass
       = (s', r) \<and> map_option pr_last_error_code (db_policy (ps_db s')) = Some (Some ''mapping_timeout'') \<and> fuse_clear (ps_db s')
     \<and> (\<forall>route port nonce. snd (create_pcp (bk_pcp demo_uncertain_io) route port nonce None (Some port)) = Inl ReleaseFailed)"
proof -
  obtain s' r where pass: "reconcile_mapping demo_home_env (system_backend demo_home_env (\<lambda>_. demo_uncertain_io)) demo_mapping_io
      (Some demo_target) demo_idle_pass = (s', r)" "map_option pr_last_error_code (db_policy (ps_db s')) = Some (Some ''mapping_timeout'')"
    using demo_uncertain_pass by (metis prod.collapse)
  have "load_current_mapping (ps_db demo_idle_pass) = Inr None" "fuse_clear (ps_db demo_idle_pass)"
    by (simp_all add: demo_idle_pass_def demo_consented_db_def load_current_mapping_def fuse_clear_def)
  from cleanup_fuse_never_trips [OF pass(1) this] pass demo_uncertain_pcp show ?thesis by blast
qed

end
