(* ===== verification/Provider_Policy.thy ===== *)
theory Provider_Policy
  imports Router_Mapping
begin

text \<open>
  The limits that the owner of a node sets (\<open>node-host/src/policy.rs\<close>): pause, weekly schedule, monthly transfer cap,
  and a manual endpoint. The tables are those of the migrations in \<open>node-host/src/lib.rs\<close>. The packages \<open>time\<close> and
  \<open>serde_json\<close> are a record of functions; whether a statement fails and what the clocks show is given to the
  definitions.
\<close>

section \<open>Policies\<close>

definition PROVIDER_POLICY_SCHEMA_VERSION :: u16 where "PROVIDER_POLICY_SCHEMA_VERSION = 1"
definition MAX_SCHEDULE_WINDOWS :: nat where "MAX_SCHEDULE_WINDOWS = 64"
definition MAX_CONCURRENT_SESSIONS :: u16 where "MAX_CONCURRENT_SESSIONS = 4096"
definition MIN_MONTHLY_CAP_BYTES :: u64 where "MIN_MONTHLY_CAP_BYTES = 1024 * 1024"
definition MAX_BANDWIDTH_LIMIT_BPS :: u64 where "MAX_BANDWIDTH_LIMIT_BPS = 10000000000"
definition MIN_BANDWIDTH_LIMIT_BPS :: u64 where "MIN_BANDWIDTH_LIMIT_BPS = 8000"
definition MIN_MANUAL_ENDPOINT_TTL_SECONDS :: u32 where "MIN_MANUAL_ENDPOINT_TTL_SECONDS = 60"
definition MAX_MANUAL_ENDPOINT_TTL_SECONDS :: u32 where "MAX_MANUAL_ENDPOINT_TTL_SECONDS = 30 * 24 * 60 * 60"
definition USAGE_COVERAGE :: string where "USAGE_COVERAGE = ''xrayObservedLowerBound''"

record schedule_window =
  sw_weekday :: byte
  sw_start_minute :: u16
  sw_end_minute :: u16

record provider_policy =
  pp_schema_version :: u16
  pp_paused :: bool
  pp_weekly_schedule :: "schedule_window list"
  pp_monthly_transfer_cap_bytes :: "u64 option"
  pp_max_concurrent_sessions :: u16
  pp_bandwidth_limit_bps :: "u64 option"

definition default_policy :: provider_policy where
  "default_policy =
     \<lparr>pp_schema_version = PROVIDER_POLICY_SCHEMA_VERSION, pp_paused = False, pp_weekly_schedule = [],
      pp_monthly_transfer_cap_bytes = Some (100 * 1024 * 1024 * 1024), pp_max_concurrent_sessions = 16,
      pp_bandwidth_limit_bps = Some 20000000\<rparr>"

definition window_validate :: "schedule_window \<Rightarrow> (host_error, unit) result" where
  "window_validate w =
     (if \<not> (1 \<le> sw_weekday w \<and> sw_weekday w \<le> 7)
      then Inl (HostError ''weekly schedule weekday must be between 1 and 7'')
      else if 1439 < sw_start_minute w \<or> 1439 < sw_end_minute w
      then Inl (HostError ''weekly schedule minutes must be between 0 and 1439'')
      else if sw_start_minute w = sw_end_minute w
      then Inl (HostError ''weekly schedule window cannot have equal start and end minutes'')
      else Inr ())"

definition validate_provider_policy :: "provider_policy \<Rightarrow> (host_error, unit) result" where
  "validate_provider_policy p =
     (if pp_schema_version p \<noteq> PROVIDER_POLICY_SCHEMA_VERSION
      then Inl (HostError ''unsupported provider policy schema version'')
      else if MAX_SCHEDULE_WINDOWS < length (pp_weekly_schedule p)
      then Inl (HostError ''provider policy has too many weekly schedule windows'')
      else
        rbind (check_all window_validate (pp_weekly_schedule p)) (\<lambda>_.
          if (case pp_monthly_transfer_cap_bytes p of
                None \<Rightarrow> False | Some cap \<Rightarrow> \<not> (MIN_MONTHLY_CAP_BYTES \<le> cap \<and> cap \<le> 2 ^ 63 - 1))
          then Inl (HostError ''monthly transfer cap must be at least 1 MiB and fit local counters'')
          else if pp_max_concurrent_sessions p = 0 \<or> MAX_CONCURRENT_SESSIONS < pp_max_concurrent_sessions p
          then Inl (HostError ''maximum concurrent sessions must be between 1 and 4096'')
          else if (case pp_bandwidth_limit_bps p of
                     None \<Rightarrow> False | Some limit \<Rightarrow> \<not> (MIN_BANDWIDTH_LIMIT_BPS \<le> limit \<and> limit \<le> MAX_BANDWIDTH_LIMIT_BPS))
          then Inl (HostError ''bandwidth limit must be between 8000 and 10000000000 bits per second'')
          else Inr ()))"

section \<open>Packages\<close>

datatype weekday = Monday | Tuesday | Wednesday | Thursday | Friday | Saturday | Sunday

text \<open>What the code calls of \<open>time::OffsetDateTime\<close> and of \<open>serde_json\<close>.\<close>

record policy_env = proto_env +
  pv_from_unix :: "int \<Rightarrow> odt option"
  pv_unix :: "odt \<Rightarrow> int"
  pv_year :: "odt \<Rightarrow> int"
  pv_month :: "odt \<Rightarrow> nat"
  pv_weekday :: "odt \<Rightarrow> weekday"
  pv_hour :: "odt \<Rightarrow> byte"
  pv_minute :: "odt \<Rightarrow> byte"
  pv_policy_json :: "provider_policy \<Rightarrow> string option"
  pv_policy_of :: "string \<Rightarrow> provider_policy option"

fun iso_weekday :: "weekday \<Rightarrow> byte" where
  "iso_weekday Monday = 1"
| "iso_weekday Tuesday = 2"
| "iso_weekday Wednesday = 3"
| "iso_weekday Thursday = 4"
| "iso_weekday Friday = 5"
| "iso_weekday Saturday = 6"
| "iso_weekday Sunday = 7"

definition next_weekday :: "byte \<Rightarrow> byte" where
  "next_weekday day = (if day = 7 then 1 else day + 1)"

definition minute_of_day :: "policy_env \<Rightarrow> odt \<Rightarrow> u16" where
  "minute_of_day env t = ucast (pv_hour env t) * 60 + ucast (pv_minute env t)"

definition window_contains :: "policy_env \<Rightarrow> schedule_window \<Rightarrow> odt \<Rightarrow> bool" where
  "window_contains env w t =
     (let weekday = iso_weekday (pv_weekday env t); minute = minute_of_day env t in
      if sw_start_minute w < sw_end_minute w
      then weekday = sw_weekday w \<and> sw_start_minute w \<le> minute \<and> minute < sw_end_minute w
      else (weekday = sw_weekday w \<and> sw_start_minute w \<le> minute)
         \<or> (weekday = next_weekday (sw_weekday w) \<and> minute < sw_end_minute w))"

definition schedule_allows :: "policy_env \<Rightarrow> provider_policy \<Rightarrow> odt \<Rightarrow> bool" where
  "schedule_allows env p t \<longleftrightarrow> pp_weekly_schedule p = [] \<or> list_ex (\<lambda>w. window_contains env w t) (pp_weekly_schedule p)"

definition usage_month_key :: "policy_env \<Rightarrow> odt \<Rightarrow> string" where
  "usage_month_key env t = show_padded 4 (pv_year env t) @ ''-'' @ show_padded 2 (int (pv_month env t))"

section \<open>Tables\<close>

record provider_row =
  pw_json :: string
  pw_generation :: int
  pw_updated_at :: int

record usage_row =
  us_utc_month :: string
  us_observed_bytes :: int
  us_high_watermark :: int
  us_last_observed_at :: "int option"

record manual_row =
  mn_endpoint_id :: string
  mn_address :: string
  mn_public_port :: int
  mn_forwarded_local_port :: int
  mn_applied_revision :: int
  mn_observed_at :: int
  mn_expires_at :: int
  mn_configured_at :: int

text \<open>
  \<open>pd_applied\<close> is the row of \<open>xray_active_state\<close>, \<open>pd_artifacts\<close> are the revisions of
  \<open>desired_state_artifacts\<close>, to which a manual endpoint refers.
\<close>

record provider_db =
  pd_policy_table :: bool
  pd_manual_table :: bool
  pd_policy :: "provider_row option"
  pd_usage :: "usage_row option"
  pd_manual :: "manual_row option"
  pd_applied :: "int option option"
  pd_artifacts :: "int list"

definition usage_check :: "usage_row \<Rightarrow> bool" where
  "usage_check u \<longleftrightarrow> (us_utc_month u = [] \<or> length (us_utc_month u) = 7) \<and> 0 \<le> us_observed_bytes u \<and> 0 \<le> us_high_watermark u"

definition manual_check :: "manual_row \<Rightarrow> bool" where
  "manual_check r \<longleftrightarrow> length (mn_endpoint_id r) = 36 \<and> 1 \<le> length (mn_address r) \<and> length (mn_address r) \<le> 253
     \<and> 1 \<le> mn_public_port r \<and> mn_public_port r \<le> 65535
     \<and> 1 \<le> mn_forwarded_local_port r \<and> mn_forwarded_local_port r \<le> 65535 \<and> mn_observed_at r < mn_expires_at r"

text \<open>A policy that is stored is JSON; a counter that leaves the range of SQLite violates the column's type.\<close>

definition update_provider ::
  "(provider_row \<Rightarrow> provider_row) \<Rightarrow> provider_db \<Rightarrow> (host_error, provider_db \<times> nat) result" where
  "update_provider f db =
     (case pd_policy db of
        None \<Rightarrow> Inr (db, 0)
      | Some r \<Rightarrow>
          if 0 < pw_generation (f r) \<and> pw_generation (f r) < 2 ^ 63 then Inr (db\<lparr>pd_policy := Some (f r)\<rparr>, 1)
          else Inl DatabaseError)"

definition update_usage ::
  "(usage_row \<Rightarrow> usage_row) \<Rightarrow> provider_db \<Rightarrow> (host_error, provider_db \<times> nat) result" where
  "update_usage f db =
     (case pd_usage db of
        None \<Rightarrow> Inr (db, 0)
      | Some u \<Rightarrow> if usage_check (f u) then Inr (db\<lparr>pd_usage := Some (f u)\<rparr>, 1) else Inl DatabaseError)"

definition put_manual :: "manual_row \<Rightarrow> provider_db \<Rightarrow> (host_error, provider_db \<times> nat) result" where
  "put_manual r db =
     (if manual_check r \<and> mn_applied_revision r \<in> set (pd_artifacts db) then Inr (db\<lparr>pd_manual := Some r\<rparr>, 1)
      else Inl DatabaseError)"

definition update_manual ::
  "(manual_row \<Rightarrow> bool) \<Rightarrow> (manual_row \<Rightarrow> manual_row) \<Rightarrow> provider_db \<Rightarrow> (host_error, provider_db \<times> nat) result" where
  "update_manual P f db =
     (case pd_manual db of
        None \<Rightarrow> Inr (db, 0)
      | Some r \<Rightarrow> if P r then put_manual (f r) db else Inr (db, 0))"

definition delete_manual :: "provider_db \<Rightarrow> (host_error, provider_db \<times> nat) result" where
  "delete_manual db = Inr (db\<lparr>pd_manual := None\<rparr>, if pd_manual db = None then 0 else 1)"

text \<open>What an operation meets: whether the database opens, which statements fail, both clocks, a fresh identity.\<close>

record policy_io =
  pv_open_fails :: bool
  pv_fails :: "nat \<Rightarrow> bool"
  pv_clock :: int
  pv_now :: int
  pv_endpoint_id :: string

definition opened :: "policy_io \<Rightarrow> (provider_db, unit) stateful" where
  "opened io = sresult (if pv_open_fails io then Inl DatabaseError else Inr ())"

definition statement ::
  "policy_io \<Rightarrow> nat \<Rightarrow> (provider_db \<Rightarrow> (host_error, provider_db \<times> nat) result) \<Rightarrow> (provider_db, nat) stateful" where
  "statement io k stmt =
     (\<lambda>db. if pv_fails io k then (db, Inl DatabaseError)
           else case stmt db of Inl e \<Rightarrow> (db, Inl e) | Inr (db', n) \<Rightarrow> (db', Inr n))"

definition reading :: "(provider_db \<Rightarrow> (host_error, 'a) result) \<Rightarrow> (provider_db, 'a) stateful" where
  "reading f = (\<lambda>db. (db, f db))"

section \<open>Manual endpoints\<close>

record manual_input =
  mi_address :: string
  mi_public_port :: u16
  mi_forwarded_local_port :: u16
  mi_ttl_seconds :: u32

fun is_public_v4 :: "ipv4 \<Rightarrow> bool" where
  "is_public_v4 (Ipv4 a b c d) \<longleftrightarrow>
     (let ip = Ipv4 a b c d in
      \<not> (v4_is_private ip \<or> v4_is_loopback ip \<or> v4_is_link_local ip \<or> v4_is_broadcast ip \<or> v4_is_documentation ip
         \<or> v4_is_unspecified ip \<or> a = 0 \<or> 224 \<le> a \<or> (a = 100 \<and> 64 \<le> b \<and> b \<le> 127) \<or> (a = 192 \<and> b = 0 \<and> c = 0)
         \<or> (a = 192 \<and> b = 88 \<and> c = 99) \<or> (a = 198 \<and> 18 \<le> b \<and> b \<le> 19)))"

fun is_public_v6 :: "ipv6 \<Rightarrow> bool" where
  "is_public_v6 (Ipv6 a b c d e f g h) \<longleftrightarrow>
     (let ip = Ipv6 a b c d e f g h in
      \<not> (v6_is_loopback ip \<or> v6_is_unspecified ip \<or> v6_is_unique_local ip \<or> v6_is_unicast_link_local ip \<or> v6_is_multicast ip
         \<or> (a = 0x2001 \<and> b = 0x0db8) \<or> a AND 0xffc0 = 0xfec0))"

fun is_public_ip :: "ip_addr \<Rightarrow> bool" where
  "is_public_ip (V4 a) = is_public_v4 a"
| "is_public_ip (V6 a) = (case to_ipv4_mapped a of Some v4 \<Rightarrow> is_public_v4 v4 | None \<Rightarrow> is_public_v6 a)"

definition hostname_label_ok :: "string \<Rightarrow> bool" where
  "hostname_label_ok l \<longleftrightarrow> l \<noteq> [] \<and> length l \<le> 63 \<and> \<not> starts_with ''-'' l \<and> \<not> ends_with ''-'' l
     \<and> list_all (\<lambda>c. is_ascii_alphanumeric c \<or> c = CHR ''-'') l"

definition validate_endpoint_address :: "string \<Rightarrow> (host_error, unit) result" where
  "validate_endpoint_address address =
     (if address = [] \<or> 253 < length address \<or> CHR ''/'' \<in> set address
         \<or> list_ex char_is_whitespace (utf8_chars (str_bytes address))
      then Inl (HostError ''manual endpoint address must be a hostname or unbracketed IP address'')
      else
        (case parse_ip address of
           Some ip \<Rightarrow> if is_public_ip ip then Inr () else Inl (HostError ''manual endpoint IP address must be publicly routable'')
         | None \<Rightarrow>
             let labels = split_char (CHR ''.'') address in
             if CHR '':'' \<in> set address \<or> ends_with ''.'' address \<or> length labels < 2
                \<or> eq_ignore_ascii_case (last labels) ''local'' \<or> \<not> list_all hostname_label_ok labels
             then Inl (HostError ''manual endpoint hostname is invalid'')
             else Inr ()))"

definition validate_manual_input :: "manual_input \<Rightarrow> (host_error, unit) result" where
  "validate_manual_input i =
     rbind (validate_endpoint_address (mi_address i)) (\<lambda>_.
       if mi_public_port i = 0 \<or> mi_forwarded_local_port i = 0
       then Inl (HostError ''manual endpoint ports must be non-zero'')
       else if \<not> (MIN_MANUAL_ENDPOINT_TTL_SECONDS \<le> mi_ttl_seconds i \<and> mi_ttl_seconds i \<le> MAX_MANUAL_ENDPOINT_TTL_SECONDS)
       then Inl (HostError ''manual endpoint TTL must be between 60 seconds and 30 days'')
       else Inr ())"

record manual_status =
  me_configured :: bool
  me_current :: bool
  me_applied_revision :: "int option"
  me_expires_at :: "odt option"

definition current_applied_revision :: "provider_db \<Rightarrow> (host_error, int option) result" where
  "current_applied_revision db =
     (case pd_applied db of
        None \<Rightarrow> Inl DatabaseError
      | Some None \<Rightarrow> Inr None
      | Some (Some v) \<Rightarrow> rbind (context_err ''stored applied revision is invalid'' (positive_new v)) (\<lambda>r. Inr (Some r)))"

definition load_manual_status ::
  "policy_env \<Rightarrow> provider_db \<Rightarrow> int option \<Rightarrow> int \<Rightarrow> (host_error, manual_status) result" where
  "load_manual_status env db applied_revision t =
     (case pd_manual db of
        None \<Rightarrow> Inr \<lparr>me_configured = False, me_current = False, me_applied_revision = None, me_expires_at = None\<rparr>
      | Some r \<Rightarrow>
          rbind (context_err ''stored manual endpoint revision is invalid'' (positive_new (mn_applied_revision r))) (\<lambda>revision.
          rbind (timestamp_from_unix (pv_from_unix env) (mn_expires_at r)) (\<lambda>expires.
            Inr \<lparr>me_configured = True, me_current = (applied_revision = Some revision \<and> t < mn_expires_at r),
                 me_applied_revision = Some revision, me_expires_at = Some expires\<rparr>)))"

section \<open>Status\<close>

datatype provider_availability = Available | ProviderPaused | OutsideSchedule | TransferCapReached

record month_usage =
  mu_utc_month :: string
  mu_observed_bytes :: u64
  mu_cap_bytes :: "u64 option"
  mu_remaining_bytes :: "u64 option"
  mu_coverage :: string
  mu_last_observed_at :: "odt option"

record policy_status =
  py_policy :: provider_policy
  py_generation :: u64
  py_updated_at :: odt
  py_availability :: provider_availability
  py_month_usage :: month_usage
  py_manual_endpoint :: manual_status

definition u64_of_int :: "int \<Rightarrow> u64 option" where
  "u64_of_int v = (if 0 \<le> v \<and> v < 2 ^ 64 then Some (of_int v) else None)"

definition status_metadata_invalid :: "policy_status \<Rightarrow> bool" where
  "status_metadata_invalid s \<longleftrightarrow>
     py_generation s = 0 \<or> length (mu_utc_month (py_month_usage s)) \<noteq> 7
     \<or> (case drop 4 (mu_utc_month (py_month_usage s)) of [] \<Rightarrow> True | c # _ \<Rightarrow> c \<noteq> CHR ''-'')
     \<or> mu_coverage (py_month_usage s) \<noteq> USAGE_COVERAGE"

definition validate_policy_status :: "policy_status \<Rightarrow> (host_error, unit) result" where
  "validate_policy_status s =
     rbind (validate_provider_policy (py_policy s)) (\<lambda>_.
       if status_metadata_invalid s then Inl (HostError ''provider policy status metadata is invalid'')
       else
         let usage = py_month_usage s; manual = py_manual_endpoint s;
             expected = map_option (\<lambda>cap. saturating_sub_u64 cap (mu_observed_bytes usage)) (mu_cap_bytes usage) in
         if mu_cap_bytes usage \<noteq> pp_monthly_transfer_cap_bytes (py_policy s)
            \<or> mu_remaining_bytes usage \<noteq> expected
            \<or> (me_current manual \<and> \<not> me_configured manual)
            \<or> me_configured manual \<noteq> (me_applied_revision manual \<noteq> None)
            \<or> me_configured manual \<noteq> (me_expires_at manual \<noteq> None)
         then Inl (HostError ''provider policy status is inconsistent'')
         else Inr ())"

definition availability_at :: "policy_env \<Rightarrow> provider_policy \<Rightarrow> odt \<Rightarrow> u64 \<Rightarrow> provider_availability" where
  "availability_at env p t observed_bytes =
     (if pp_paused p then ProviderPaused
      else if \<not> schedule_allows env p t then OutsideSchedule
      else if (case pp_monthly_transfer_cap_bytes p of None \<Rightarrow> False | Some cap \<Rightarrow> cap \<le> observed_bytes) then TransferCapReached
      else Available)"

definition load_usage_row :: "provider_db \<Rightarrow> (host_error, usage_row) result" where
  "load_usage_row db = ok_or ''provider month usage state is missing'' (pd_usage db)"

definition load_status_components ::
  "policy_env \<Rightarrow> odt \<Rightarrow> string \<Rightarrow> int \<Rightarrow> int option \<Rightarrow> provider_db \<Rightarrow> (host_error, policy_status) result" where
  "load_status_components env effective_now month bytes last_observed_at db =
     rbind (case pd_policy db of None \<Rightarrow> Inl DatabaseError | Some r \<Rightarrow> Inr r) (\<lambda>row.
     rbind (ok_or ''stored provider policy is invalid'' (pv_policy_of env (pw_json row))) (\<lambda>policy.
     rbind (validate_provider_policy policy) (\<lambda>_.
     rbind (ok_or ''stored provider usage is invalid'' (u64_of_int bytes)) (\<lambda>observed_bytes.
       let availability = availability_at env policy effective_now observed_bytes;
           cap = pp_monthly_transfer_cap_bytes policy in
       rbind (current_applied_revision db) (\<lambda>applied_revision.
       rbind (load_manual_status env db applied_revision (pv_unix env effective_now)) (\<lambda>loaded.
         let manual = (if availability \<noteq> Available then loaded\<lparr>me_current := False\<rparr> else loaded) in
         rbind (ok_or ''stored policy generation is invalid'' (u64_of_int (pw_generation row))) (\<lambda>generation.
         rbind (timestamp_from_unix (pv_from_unix env) (pw_updated_at row)) (\<lambda>updated_at.
         rbind (case last_observed_at of
                  None \<Rightarrow> Inr None
                | Some v \<Rightarrow> rbind (timestamp_from_unix (pv_from_unix env) v) (\<lambda>t. Inr (Some t))) (\<lambda>last.
           let status =
             \<lparr>py_policy = policy, py_generation = generation, py_updated_at = updated_at, py_availability = availability,
              py_month_usage =
                \<lparr>mu_utc_month = month, mu_observed_bytes = observed_bytes, mu_cap_bytes = cap,
                 mu_remaining_bytes = map_option (\<lambda>c. saturating_sub_u64 c observed_bytes) cap,
                 mu_coverage = USAGE_COVERAGE, mu_last_observed_at = last\<rparr>,
              py_manual_endpoint = manual\<rparr> in
           rbind (validate_policy_status status) (\<lambda>_. Inr status))))))))))"

text \<open>The month that a usage row counts at an instant, and what it has counted in it.\<close>

definition rolled_usage :: "usage_row \<Rightarrow> string \<Rightarrow> string \<times> int" where
  "rolled_usage u effective_month =
     (if us_utc_month u = [] \<or> us_utc_month u < effective_month then (effective_month, 0)
      else (us_utc_month u, us_observed_bytes u))"

definition effective_time :: "policy_env \<Rightarrow> int \<Rightarrow> usage_row \<Rightarrow> (host_error, odt) result" where
  "effective_time env observed u =
     ok_or ''timestamp out of range'' (pv_from_unix env (max observed (us_high_watermark u)))"

definition load_status_at :: "policy_env \<Rightarrow> int \<Rightarrow> provider_db \<Rightarrow> (host_error, policy_status) result" where
  "load_status_at env observed_now db =
     rbind (load_usage_row db) (\<lambda>u.
     rbind (effective_time env observed_now u) (\<lambda>effective_now.
       case rolled_usage u (usage_month_key env effective_now) of
         (month, bytes) \<Rightarrow> load_status_components env effective_now month bytes (us_last_observed_at u) db))"

definition evaluate_and_checkpoint :: "policy_env \<Rightarrow> policy_io \<Rightarrow> nat \<Rightarrow> (provider_db, policy_status) stateful" where
  "evaluate_and_checkpoint env io k =
     transaction (pv_fails io (k + 1))
       (sbind (reading load_usage_row) (\<lambda>u.
        sbind (sresult (effective_time env (pv_now io) u)) (\<lambda>effective_now.
          let (month, bytes) = rolled_usage u (usage_month_key env effective_now) in
          sbind (statement io k (update_usage (\<lambda>r. r\<lparr>us_utc_month := month, us_observed_bytes := bytes,
                   us_high_watermark := max (pv_now io) (us_high_watermark u)\<rparr>))) (\<lambda>_.
            reading (load_status_components env effective_now month bytes (us_last_observed_at u))))))"

definition provider_policy_status :: "policy_env \<Rightarrow> policy_io \<Rightarrow> (provider_db, policy_status) stateful" where
  "provider_policy_status env io = sbind (opened io) (\<lambda>_. evaluate_and_checkpoint env io 2)"

section \<open>Changes of the owner\<close>

definition configure_provider_policy ::
  "policy_env \<Rightarrow> policy_io \<Rightarrow> provider_policy \<Rightarrow> (provider_db, policy_status) stateful" where
  "configure_provider_policy env io policy =
     sbind (sresult (validate_provider_policy policy)) (\<lambda>_.
     sbind (opened io) (\<lambda>_.
     sbind (sresult (unix_timestamp (pv_clock io))) (\<lambda>t.
     sbind (sresult (case pv_policy_json env policy of None \<Rightarrow> Inl (HostError ''serialize'') | Some j \<Rightarrow> Inr j)) (\<lambda>policy_json.
     sbind (transaction (pv_fails io 1)
        (sbind (statement io 0 (update_provider (\<lambda>r. r\<lparr>pw_json := policy_json, pw_generation := pw_generation r + 1,
            pw_updated_at := t\<rparr>))) (expect_one ''provider policy is missing''))) (\<lambda>_.
       evaluate_and_checkpoint env io 2)))))"

definition set_pause :: "policy_env \<Rightarrow> policy_io \<Rightarrow> policy_io \<Rightarrow> bool \<Rightarrow> (provider_db, policy_status) stateful" where
  "set_pause env io io' paused =
     sbind (provider_policy_status env io) (\<lambda>current.
       configure_provider_policy env io' ((py_policy current)\<lparr>pp_paused := paused\<rparr>))"

definition pause_provider :: "policy_env \<Rightarrow> policy_io \<Rightarrow> policy_io \<Rightarrow> (provider_db, policy_status) stateful" where
  "pause_provider env io io' = set_pause env io io' True"

definition resume_provider :: "policy_env \<Rightarrow> policy_io \<Rightarrow> policy_io \<Rightarrow> (provider_db, policy_status) stateful" where
  "resume_provider env io io' = set_pause env io io' False"

text \<open>\<open>candidate\<close> is the outcome of \<open>load_validated_candidate\<close> of \<open>xray.rs\<close>: the local port of the revision.\<close>

definition current_admission_target ::
  "(int \<Rightarrow> (host_error, u16) result) \<Rightarrow> provider_db \<Rightarrow> (host_error, int \<times> u16) result" where
  "current_admission_target candidate db =
     rbind (current_applied_revision db) (\<lambda>applied.
     rbind (ok_or ''manual endpoint requires a current applied revision'' applied) (\<lambda>revision.
     rbind (candidate revision) (\<lambda>listen_port. Inr (revision, listen_port))))"

definition configure_manual_endpoint ::
  "policy_env \<Rightarrow> (int \<Rightarrow> (host_error, u16) result) \<Rightarrow> policy_io \<Rightarrow> manual_input \<Rightarrow> (provider_db, manual_status) stateful" where
  "configure_manual_endpoint env candidate io input =
     sbind (sresult (validate_manual_input input)) (\<lambda>_.
     sbind (opened io) (\<lambda>_.
     sbind (reading (current_admission_target candidate)) (\<lambda>(revision, expected_port).
       if mi_forwarded_local_port input \<noteq> expected_port
       then sresult (Inl (HostError ''manual forwarding local port does not match the current applied revision''))
       else
         sbind (sresult (unix_timestamp (pv_clock io))) (\<lambda>t.
         sbind (sresult (if t + uint (mi_ttl_seconds input) < 2 ^ 63 then Inr (t + uint (mi_ttl_seconds input))
                         else Inl (HostError ''manual endpoint expiry overflow''))) (\<lambda>expires.
         sbind (transaction (pv_fails io 1) (statement io 0 (put_manual
            \<lparr>mn_endpoint_id = pv_endpoint_id io, mn_address = mi_address input, mn_public_port = uint (mi_public_port input),
             mn_forwarded_local_port = uint (mi_forwarded_local_port input), mn_applied_revision = revision,
             mn_observed_at = t, mn_expires_at = expires, mn_configured_at = t\<rparr>))) (\<lambda>_.
           reading (\<lambda>db. load_manual_status env db (Some revision) t)))))))"

definition clear_manual_endpoint :: "policy_io \<Rightarrow> (provider_db, unit) stateful" where
  "clear_manual_endpoint io = sbind (opened io) (\<lambda>_. sbind (statement io 0 delete_manual) (\<lambda>_. sreturn ()))"

definition carry_manual_endpoint_forward :: "policy_io \<Rightarrow> int \<Rightarrow> u16 \<Rightarrow> (provider_db, bool) stateful" where
  "carry_manual_endpoint_forward io applied_revision forwarded_local_port =
     (if forwarded_local_port = 0 then sresult (Inl (HostError ''manual forwarding local port must be non-zero''))
      else
        sbind (opened io) (\<lambda>_.
        sbind (sresult (unix_timestamp (pv_clock io))) (\<lambda>t db.
          case pd_manual db of
            None \<Rightarrow> (db, Inr False)
          | Some r \<Rightarrow>
              if mn_applied_revision r = applied_revision \<or> mn_forwarded_local_port r \<noteq> uint forwarded_local_port
                 \<or> mn_expires_at r \<le> t
              then (db, Inr False)
              else
                transaction (pv_fails io 1)
                  (sbind (statement io 0 (update_manual
                      (\<lambda>q. mn_applied_revision q = mn_applied_revision r
                         \<and> mn_forwarded_local_port q = uint forwarded_local_port \<and> t < mn_expires_at q)
                      (\<lambda>q. q\<lparr>mn_endpoint_id := pv_endpoint_id io, mn_applied_revision := applied_revision, mn_observed_at := t\<rparr>)))
                    (\<lambda>updated. sbind (expect_one ''manual endpoint changed during revision carry-forward'' updated) (\<lambda>_.
                       sreturn True))) db)))"

section \<open>Use of the policy\<close>

definition record_usage_delta ::
  "policy_env \<Rightarrow> policy_io \<Rightarrow> int \<Rightarrow> int \<Rightarrow> (provider_db, unit) stateful" where
  "record_usage_delta env io delta_bytes observed_at =
     (if delta_bytes < 0 then sresult (Inl (HostError ''provider usage delta cannot be negative''))
      else
        sbind (reading load_usage_row) (\<lambda>u.
        sbind (sresult (effective_time env observed_at u)) (\<lambda>effective_now.
          let effective_month = usage_month_key env effective_now;
              base = snd (rolled_usage u effective_month) in
          sbind (sresult (if base + delta_bytes < 2 ^ 63 then Inr (base + delta_bytes)
                          else Inl (HostError ''provider monthly usage counter overflow''))) (\<lambda>total.
          sbind (statement io 0 (update_usage (\<lambda>r. r\<lparr>us_utc_month := effective_month, us_observed_bytes := total,
              us_high_watermark := max observed_at (us_high_watermark u), us_last_observed_at := Some observed_at\<rparr>))) (\<lambda>_.
            sreturn ())))))"

definition allows_advertising :: "policy_env \<Rightarrow> int \<Rightarrow> provider_db \<Rightarrow> (host_error, bool) result" where
  "allows_advertising env observed_now db =
     (if \<not> pd_policy_table db then Inr True
      else rbind (load_status_at env observed_now db) (\<lambda>status. Inr (py_availability status = Available)))"

definition load_manual_candidate ::
  "policy_env \<Rightarrow> int \<Rightarrow> int \<Rightarrow> provider_db \<Rightarrow> int \<Rightarrow> (host_error, endpoint_candidate option) result" where
  "load_manual_candidate env observed_now clock db applied_revision =
     (if \<not> pd_manual_table db then Inr None
      else
        rbind (allows_advertising env observed_now db) (\<lambda>allowed.
          if \<not> allowed then Inr None
          else
            rbind (unix_timestamp clock) (\<lambda>t.
              case pd_manual db of
                None \<Rightarrow> Inr None
              | Some r \<Rightarrow>
                  if mn_applied_revision r = applied_revision \<and> t < mn_expires_at r
                  then
                    rbind (context_err ''stored manual endpoint identity is invalid'' (id_from_str env (mn_endpoint_id r))) (\<lambda>endpoint_id.
                    rbind (ok_or ''stored manual endpoint port is invalid'' (u16_of_int (mn_public_port r))) (\<lambda>port.
                    rbind (context_err ''stored manual endpoint revision is invalid'' (positive_new (mn_applied_revision r))) (\<lambda>revision.
                    rbind (timestamp_from_unix (pv_from_unix env) (mn_observed_at r)) (\<lambda>observed_at.
                    rbind (timestamp_from_unix (pv_from_unix env) (mn_expires_at r)) (\<lambda>expires_at.
                      Inr (Some \<lparr>ec_endpoint_id = endpoint_id, ec_mode = DirectMode, ec_source = Manual,
                        ec_address = mn_address r, ec_port = port, ec_applied_revision = revision,
                        ec_observed_at = observed_at, ec_expires_at = Some expires_at\<rparr>))))))
                  else Inr None)))"

text \<open>The candidates of a heartbeat, with the manual endpoint.\<close>

definition heartbeat_candidates ::
  "policy_env \<Rightarrow> int \<Rightarrow> int \<Rightarrow> provider_db \<Rightarrow> node_db \<Rightarrow> int option \<Rightarrow> (host_error, endpoint_candidate list) result" where
  "heartbeat_candidates env observed_now clock pdb db applied_revision =
     load_heartbeat_candidates env (pv_from_unix env)
       (case applied_revision of None \<Rightarrow> Inr None | Some revision \<Rightarrow> load_manual_candidate env observed_now clock pdb revision)
       clock db applied_revision"

end
