(* ===== verification/Node_Heartbeat.thy ===== *)
theory Node_Heartbeat
  imports Provider_Policy
begin

text \<open>
  The messages in which a node and the controller report state (\<open>crates/control-protocol/src/node.rs\<close>): heartbeats with
  their endpoint candidates, the controller's answer, and the results of revisions; and the heartbeat that a node
  builds from its database (\<open>current_heartbeat_with_relay\<close> of \<open>node-host/src/sync.rs\<close>).
\<close>

section \<open>Texts\<close>

definition char_is_control :: "nat \<Rightarrow> bool" where
  "char_is_control n \<longleftrightarrow> n < 32 \<or> (127 \<le> n \<and> n < 160)"

definition validate_short_text :: "string \<Rightarrow> nat \<Rightarrow> string \<Rightarrow> (protocol_error, unit) result" where
  "validate_short_text value maximum_length field =
     (if value = [] then Inl (validation MissingField field ''value is required'')
      else if maximum_length < length value \<or> list_ex char_is_control (utf8_chars (str_bytes value))
      then Inl (validation OutOfRange field ''value exceeds its length or character bound'')
      else Inr ())"

section \<open>Heartbeats\<close>

datatype node_runtime_state = NodePending | NodeIdle | NodeServing | NodeProviderPaused | NodeDegraded | NodeQuarantined | NodeStopped

definition validate_candidate :: "endpoint_candidate \<Rightarrow> (protocol_error, unit) result" where
  "validate_candidate c =
     rbind (validate_short_text (ec_address c) 253 ''endpoints.address'') (\<lambda>_.
       if CHR ''/'' \<in> set (ec_address c) \<or> list_ex char_is_whitespace (utf8_chars (str_bytes (ec_address c)))
       then Inl (validation InvalidFormat ''endpoints.address'' ''endpoint address must be a hostname or IP address, not a URL'')
       else if ec_port c = 0
       then Inl (validation OutOfRange ''endpoints.port'' ''endpoint port must be non-zero'')
       else if \<not> (ec_mode c = DirectMode \<and> ec_source c \<in> {Manual, Pcp, NatPmp, Upnp} \<or> ec_mode c = RelayMode \<and> ec_source c = Relay)
       then Inl (validation InconsistentState ''endpoints.source'' ''endpoint source must agree with direct or relay mode'')
       else if (case ec_expires_at c of None \<Rightarrow> False | Some expiry \<Rightarrow> instant expiry \<le> instant (ec_observed_at c))
       then Inl (validation OutOfRange ''endpoints.expiresAt'' ''endpoint expiry must be later than its observation time'')
       else if ec_source c \<noteq> Manual \<and> ec_expires_at c = None
       then Inl (validation MissingField ''endpoints.expiresAt'' ''mapped and relayed endpoint candidates require a finite expiry'')
       else Inr ())"

record revision_progress =
  rv_desired :: "int option"
  rv_received :: "int option"
  rv_validated :: "int option"
  rv_applied :: "int option"

fun validate_revision_pair :: "int option \<Rightarrow> int option \<Rightarrow> string \<Rightarrow> (protocol_error, unit) result" where
  "validate_revision_pair None (Some _) field =
     Inl (validation InconsistentState field ''revision progress cannot skip a preceding lifecycle state'')"
| "validate_revision_pair (Some upper) (Some lower) field =
     (if upper < lower
      then Inl (validation InconsistentState field ''revision progress cannot exceed its preceding lifecycle state'')
      else Inr ())"
| "validate_revision_pair _ None field = Inr ()"

definition validate_progress :: "revision_progress \<Rightarrow> (protocol_error, unit) result" where
  "validate_progress r =
     rbind (validate_revision_pair (rv_desired r) (rv_received r) ''receivedRevision'') (\<lambda>_.
     rbind (validate_revision_pair (rv_received r) (rv_validated r) ''validatedRevision'') (\<lambda>_.
       validate_revision_pair (rv_validated r) (rv_applied r) ''appliedRevision''))"

record node_heartbeat =
  hb_generation :: int
  hb_agent_version :: string
  hb_xray_version :: "string option"
  hb_state :: node_runtime_state
  hb_revisions :: revision_progress
  hb_provider_paused :: bool
  hb_endpoints :: "endpoint_candidate list"
  hb_telemetry_cursor :: int

definition candidate_place :: "endpoint_candidate \<Rightarrow> endpoint_mode \<times> string \<times> u16 \<times> int" where
  "candidate_place c = (ec_mode c, ec_address c, ec_port c, ec_applied_revision c)"

definition validate_endpoint :: "int option \<Rightarrow> endpoint_candidate \<Rightarrow> (protocol_error, unit) result" where
  "validate_endpoint applied c =
     rbind (validate_candidate c) (\<lambda>_.
       if Some (ec_applied_revision c) \<noteq> applied
       then Inl (validation InconsistentState ''endpoints.appliedRevision'' ''endpoint candidate must match the heartbeat applied revision'')
       else Inr ())"

definition validate_heartbeat :: "node_heartbeat \<Rightarrow> (protocol_error, unit) result" where
  "validate_heartbeat h =
     (if hb_generation h = 0
      then Inl (validation OutOfRange ''heartbeatGeneration'' ''heartbeat generation must be positive'')
      else
        rbind (validate_short_text (hb_agent_version h) 64 ''agentVersion'') (\<lambda>_.
        rbind (case hb_xray_version h of None \<Rightarrow> Inr () | Some v \<Rightarrow> validate_short_text v 64 ''xrayVersion'') (\<lambda>_.
        rbind (validate_progress (hb_revisions h)) (\<lambda>_.
          if hb_provider_paused h \<noteq> (hb_state h = NodeProviderPaused)
          then Inl (validation InconsistentState ''providerPaused'' ''providerPaused must agree with the runtime state'')
          else if 16 < length (hb_endpoints h)
          then Inl (validation OutOfRange ''endpoints'' ''heartbeat endpoint count exceeds the protocol bound'')
          else if card (ec_endpoint_id ` set (hb_endpoints h)) \<noteq> length (hb_endpoints h)
          then Inl (validation InconsistentState ''endpoints'' ''endpoint candidate identities must be unique'')
          else if card (candidate_place ` set (hb_endpoints h)) \<noteq> length (hb_endpoints h)
          then Inl (validation InconsistentState ''endpoints'' ''endpoint candidates must not repeat an address for one revision'')
          else if hb_endpoints h \<noteq> [] \<and> hb_state h \<noteq> NodeServing
          then Inl (validation InconsistentState ''endpoints'' ''only a serving node may report endpoint candidates'')
          else check_all (validate_endpoint (rv_applied (hb_revisions h))) (hb_endpoints h)))))"

section \<open>The answer of the controller\<close>

datatype node_lifecycle_state = LifecyclePending | LifecycleActive

fun node_lifecycle_str :: "node_lifecycle_state \<Rightarrow> string" where
  "node_lifecycle_str LifecyclePending = ''pending''"
| "node_lifecycle_str LifecycleActive = ''active''"

datatype endpoint_readiness = ReadyPending | Checking | TcpReachable | TcpUnreachable | ReadyVerified

fun endpoint_readiness_str :: "endpoint_readiness \<Rightarrow> string" where
  "endpoint_readiness_str ReadyPending = ''pending''"
| "endpoint_readiness_str Checking = ''checking''"
| "endpoint_readiness_str TcpReachable = ''tcpReachable''"
| "endpoint_readiness_str TcpUnreachable = ''tcpUnreachable''"
| "endpoint_readiness_str ReadyVerified = ''verified''"

record node_endpoint_status =
  ne_endpoint_id :: uuid
  ne_readiness :: endpoint_readiness
  ne_last_checked_at :: "odt option"
  ne_error_code :: "string option"

definition readiness_consistent :: "node_endpoint_status \<Rightarrow> bool" where
  "readiness_consistent e =
     (case ne_readiness e of
        ReadyPending \<Rightarrow> ne_last_checked_at e = None \<and> ne_error_code e = None
      | Checking \<Rightarrow> ne_last_checked_at e = None \<and> ne_error_code e = None
      | TcpReachable \<Rightarrow> ne_last_checked_at e \<noteq> None \<and> ne_error_code e = None
      | ReadyVerified \<Rightarrow> ne_last_checked_at e \<noteq> None \<and> ne_error_code e = None
      | TcpUnreachable \<Rightarrow> ne_last_checked_at e \<noteq> None \<and> ne_error_code e \<noteq> None)"

definition validate_endpoint_status :: "node_endpoint_status \<Rightarrow> (protocol_error, unit) result" where
  "validate_endpoint_status e =
     (if \<not> readiness_consistent e
      then Inl (validation InconsistentState ''endpoints.readiness'' ''endpoint readiness must agree with its check time and error code'')
      else
        (case ne_error_code e of
           None \<Rightarrow> Inr ()
         | Some code \<Rightarrow>
             rbind (validate_short_text code 128 ''endpoints.errorCode'') (\<lambda>_.
               if \<not> list_all (\<lambda>c. is_ascii_lowercase c \<or> is_ascii_digit c \<or> c = CHR ''_'') code
               then Inl (validation InvalidFormat ''endpoints.errorCode'' ''endpoint error code must use lowercase snake case'')
               else Inr ())))"

record heartbeat_status =
  hs_schema_version :: u16
  hs_node_id :: uuid
  hs_generation :: int
  hs_observed_at :: odt
  hs_lifecycle :: node_lifecycle_state
  hs_endpoints :: "node_endpoint_status list"
  hs_signing_key_id :: uuid
  hs_controller_instance_id :: uuid

definition validate_heartbeat_status :: "heartbeat_status \<Rightarrow> uuid \<Rightarrow> int \<Rightarrow> uuid \<Rightarrow> (protocol_error, unit) result" where
  "validate_heartbeat_status s node_id generation controller =
     (if hs_schema_version s \<noteq> 1
      then Inl (validation UnsupportedSchema ''schemaVersion'' ''node heartbeat status schema is unsupported'')
      else if hs_node_id s \<noteq> node_id \<or> hs_generation s \<noteq> generation \<or> hs_controller_instance_id s \<noteq> controller
      then Inl (validation IdentityMismatch ''nodeId'' ''node heartbeat status identity binding is invalid'')
      else if hs_generation s = 0
      then Inl (validation OutOfRange ''heartbeatGeneration'' ''node heartbeat status generation must be positive'')
      else if 16 < length (hs_endpoints s)
      then Inl (validation OutOfRange ''endpoints'' ''node heartbeat status has too many endpoints'')
      else if \<not> successively (\<lambda>a b. ne_endpoint_id a < ne_endpoint_id b) (hs_endpoints s)
      then Inl (validation InconsistentState ''endpoints'' ''node heartbeat status endpoints must be uniquely sorted'')
      else check_all validate_endpoint_status (hs_endpoints s))"

section \<open>Results of revisions\<close>

datatype revision_state = Received | Validated | Applied | Rejected | RolledBack

fun revision_rank :: "revision_state \<Rightarrow> byte" where
  "revision_rank Received = 10"
| "revision_rank Validated = 20"
| "revision_rank Applied = 30"
| "revision_rank Rejected = 30"
| "revision_rank RolledBack = 30"

fun is_terminal :: "revision_state \<Rightarrow> bool" where
  "is_terminal Applied = True"
| "is_terminal Rejected = True"
| "is_terminal RolledBack = True"
| "is_terminal Received = False"
| "is_terminal Validated = False"

record revision_result =
  rr_state :: revision_state
  rr_config_digest :: "string option"
  rr_started_at :: odt
  rr_completed_at :: odt
  rr_error_code :: "string option"
  rr_rollback_revision :: "int option"

definition require_present :: "'a option \<Rightarrow> string \<Rightarrow> (protocol_error, unit) result" where
  "require_present value field =
     (if value = None then Inl (validation MissingField field ''field is required for this revision result state'') else Inr ())"

definition require_absent :: "'a option \<Rightarrow> string \<Rightarrow> (protocol_error, unit) result" where
  "require_absent value field =
     (if value \<noteq> None then Inl (validation InconsistentState field ''field is not permitted for this revision result state'') else Inr ())"

definition validate_revision_result :: "revision_result \<Rightarrow> int \<Rightarrow> (protocol_error, unit) result" where
  "validate_revision_result r revision =
     (if instant (rr_completed_at r) < instant (rr_started_at r)
      then Inl (validation InconsistentState ''completedAt'' ''completion cannot precede start'')
      else
        (case rr_state r of
           Received \<Rightarrow>
             rbind (require_absent (rr_config_digest r) ''configDigest'') (\<lambda>_.
             rbind (require_absent (rr_error_code r) ''errorCode'') (\<lambda>_.
               require_absent (rr_rollback_revision r) ''rollbackRevision''))
         | Rejected \<Rightarrow>
             rbind (require_present (rr_error_code r) ''errorCode'') (\<lambda>_.
               require_absent (rr_rollback_revision r) ''rollbackRevision'')
         | RolledBack \<Rightarrow>
             rbind (require_present (rr_config_digest r) ''configDigest'') (\<lambda>_.
             rbind (require_present (rr_error_code r) ''errorCode'') (\<lambda>_.
               case rr_rollback_revision r of
                 None \<Rightarrow> Inl (validation MissingField ''rollbackRevision'' ''rolled-back state requires the restored revision'')
               | Some rollback \<Rightarrow>
                   if revision \<le> rollback
                   then Inl (validation InconsistentState ''rollbackRevision'' ''rollback revision must precede the failed revision'')
                   else Inr ()))
         | _ \<Rightarrow>
             rbind (require_present (rr_config_digest r) ''configDigest'') (\<lambda>_.
             rbind (require_absent (rr_error_code r) ''errorCode'') (\<lambda>_.
               require_absent (rr_rollback_revision r) ''rollbackRevision''))))"

definition validate_transition_from :: "revision_result \<Rightarrow> revision_result option \<Rightarrow> (protocol_error, unit) result" where
  "validate_transition_from r previous =
     (case previous of
        None \<Rightarrow> Inr ()
      | Some p \<Rightarrow>
          if r = p then Inr ()
          else if rr_state r = rr_state p \<or> is_terminal (rr_state p) \<or> revision_rank (rr_state r) \<le> revision_rank (rr_state p)
          then Inl (validation InvalidTransition ''state'' ''revision result transition must move monotonically to a new state'')
          else Inr ())"

section \<open>The heartbeat of a node\<close>

definition optional_revision :: "int \<Rightarrow> string \<Rightarrow> (host_error, int option) result" where
  "optional_revision value label =
     (if value = 0 then Inr None
      else rbind (context_err (''stored '' @ label @ '' revision is invalid'') (positive_new value)) (\<lambda>r. Inr (Some r)))"

definition max_revision :: "int list \<Rightarrow> int" where
  "max_revision rs = (if rs = [] then 0 else foldr max rs (hd rs))"

text \<open>
  What a heartbeat is built from beside the tables of the policy and the mapping: the rows of
  \<open>local_revision_results\<close>, the versions of the agent and of Xray, the cursor of the telemetry, and both clocks.
\<close>

record heartbeat_io =
  hi_results :: "(int \<times> string) list"
  hi_agent_version :: string
  hi_xray_version :: "(host_error, string option) result"
  hi_telemetry_cursor :: "(host_error, int) result"
  hi_now :: int
  hi_clock :: int

definition heartbeat_state ::
  "policy_env \<Rightarrow> heartbeat_io \<Rightarrow> provider_db \<Rightarrow> node_runtime_state \<Rightarrow> (host_error, node_runtime_state) result" where
  "heartbeat_state env io pdb runtime_state =
     rbind (allows_advertising env (hi_now io) pdb) (\<lambda>allowed. Inr (if allowed then runtime_state else NodeProviderPaused))"

definition heartbeat_endpoints ::
  "policy_env \<Rightarrow> heartbeat_io \<Rightarrow> provider_db \<Rightarrow> node_db \<Rightarrow> node_runtime_state \<Rightarrow> int option \<Rightarrow> endpoint_candidate option \<Rightarrow>
   (host_error, endpoint_candidate list) result" where
  "heartbeat_endpoints env io pdb db state applied relay_candidate =
     (if state \<noteq> NodeServing then Inr []
      else
        rbind (heartbeat_candidates env (hi_now io) (hi_clock io) pdb db applied) (\<lambda>direct.
          case relay_candidate of
            None \<Rightarrow> Inr direct
          | Some c \<Rightarrow>
              if Some (ec_applied_revision c) \<noteq> applied
              then Inl (HostError ''relay candidate revision does not match the active Xray revision'')
              else Inr (direct @ [c])))"

definition current_heartbeat ::
  "policy_env \<Rightarrow> heartbeat_io \<Rightarrow> provider_db \<Rightarrow> node_db \<Rightarrow> int \<Rightarrow> node_runtime_state \<Rightarrow> int \<Rightarrow> endpoint_candidate option \<Rightarrow>
   (host_error, node_heartbeat) result" where
  "current_heartbeat env io pdb db desired_cursor runtime_state generation relay_candidate =
     rbind (heartbeat_state env io pdb runtime_state) (\<lambda>state.
       let received_value = max_revision (map fst (hi_results io));
           validated_value = max_revision (map fst (filter (\<lambda>r. snd r \<in> {''validated'', ''applied''}) (hi_results io))) in
       if received_value \<noteq> desired_cursor
       then Inl (HostError ''stored received revision does not match the desired-state cursor'')
       else
         rbind (optional_revision desired_cursor ''desired'') (\<lambda>desired.
         rbind (optional_revision received_value ''received'') (\<lambda>received.
         rbind (optional_revision validated_value ''validated'') (\<lambda>validated.
         rbind (case pd_applied pdb of None \<Rightarrow> Inl DatabaseError | Some None \<Rightarrow> Inr 0 | Some (Some v) \<Rightarrow> Inr v) (\<lambda>applied_value.
         rbind (optional_revision applied_value ''applied'') (\<lambda>applied.
         rbind (heartbeat_endpoints env io pdb db state applied relay_candidate) (\<lambda>endpoints.
         rbind (hi_xray_version io) (\<lambda>xray_version.
         rbind (hi_telemetry_cursor io) (\<lambda>telemetry_cursor.
           let heartbeat =
             \<lparr>hb_generation = generation, hb_agent_version = hi_agent_version io, hb_xray_version = xray_version,
              hb_state = state,
              hb_revisions = \<lparr>rv_desired = desired, rv_received = received, rv_validated = validated, rv_applied = applied\<rparr>,
              hb_provider_paused = (state = NodeProviderPaused), hb_endpoints = endpoints,
              hb_telemetry_cursor = telemetry_cursor\<rparr> in
           rbind (context_err ''generated node heartbeat is invalid'' (validate_heartbeat heartbeat)) (\<lambda>_. Inr heartbeat))))))))))"

end
