(* ===== verification/Provider_Policy_Properties.thy ===== *)
theory Provider_Policy_Properties
  imports Provider_Policy Router_Mapping_Properties
begin

text \<open>
  What the limits of the owner guarantee: bytes are counted in the month of the latest instant the node has seen, a
  node is available only within its limits, and a window of the schedule is an interval of the week.
\<close>

section \<open>Hypotheses on the packages\<close>

text \<open>
  From the epoch on, \<open>time\<close> shows months in the order of time, with four digits of the year and months from 1 to 12,
  and the instant of a Unix time is that time.
\<close>

definition policy_env_ok :: "policy_env \<Rightarrow> bool" where
  "policy_env_ok env \<longleftrightarrow>
     (\<forall>s t a b. 0 \<le> s \<longrightarrow> s \<le> t \<longrightarrow> pv_from_unix env s = Some a \<longrightarrow> pv_from_unix env t = Some b \<longrightarrow>
        pv_year env a < pv_year env b \<or> (pv_year env a = pv_year env b \<and> pv_month env a \<le> pv_month env b))
     \<and> (\<forall>s a. 0 \<le> s \<longrightarrow> pv_from_unix env s = Some a \<longrightarrow>
          1970 \<le> pv_year env a \<and> pv_year env a \<le> 9999 \<and> 1 \<le> pv_month env a \<and> pv_month env a \<le> 12 \<and> pv_unix env a = s)"

section \<open>The text of a month\<close>

text \<open>The last \<open>k\<close> decimal digits of a number.\<close>

fun digits :: "nat \<Rightarrow> nat \<Rightarrow> string" where
  "digits 0 n = []"
| "digits (Suc k) n = digits k (n div 10) @ [char_of (48 + n mod 10)]"

lemma digits_length [simp]: "length (digits k n) = k"
  by (induction k arbitrary: n) simp_all

lemma digits_zero: "digits k 0 = replicate k (CHR ''0'')"
proof (induction k)
  case (Suc k)
  have "(char_of (48 :: nat) :: char) = CHR ''0''" by code_simp
  with Suc show ?case by (simp add: replicate_append_same)
qed simp

lemma show_padded_digits: "0 < k \<Longrightarrow> n < 10 ^ k \<Longrightarrow> show_padded k (int n) = digits k n"
proof (induction k arbitrary: n)
  case (Suc k)
  show ?case
  proof (cases "n < 10")
    case True
    then show ?thesis by (simp add: show_padded_def show_nat.simps [of n] digits_zero)
  next
    case False
    then have k: "0 < k" "n div 10 < 10 ^ k"
      using Suc.prems by (cases k; simp add: less_mult_imp_div_less mult.commute)+
    have "show_padded (Suc k) (int n) = show_padded k (int (n div 10)) @ [char_of (48 + n mod 10)]"
      using False by (simp add: show_padded_def show_nat.simps [of n] Let_def)
    then show ?thesis using Suc.IH [OF k] by simp
  qed
qed simp

lemma append_less: "length xs = length ys \<Longrightarrow> xs @ us < ys @ vs \<longleftrightarrow> xs < ys \<or> (xs = ys \<and> us < (vs :: 'a :: linorder list))"
  by (induction xs ys rule: list_induct2) auto

lemma digits_less: "m < n \<Longrightarrow> n < 10 ^ k \<Longrightarrow> digits k m < digits k n"
proof (induction k arbitrary: m n)
  case (Suc k)
  have small: "(48 :: nat) + m mod 10 < 256" "(48 :: nat) + n mod 10 < 256" by (simp_all add: less_le_trans [of _ "58"])
  have div: "n div 10 < 10 ^ k" using Suc.prems by (simp add: less_mult_imp_div_less mult.commute)
  show ?case
  proof (cases "m div 10 = n div 10")
    case True
    then have "m mod 10 < n mod 10"
      using Suc.prems(1) by (metis div_mult_mod_eq nat_add_left_cancel_less)
    then have "(char_of (48 + m mod 10) :: char) < char_of (48 + n mod 10)"
      using small by (simp add: less_char_def)
    with True show ?thesis by (simp add: append_less)
  next
    case False
    then have "m div 10 < n div 10" using Suc.prems(1) by (simp add: div_le_mono le_neq_implies_less)
    from Suc.IH [OF this div] show ?thesis by (simp add: append_less)
  qed
qed simp

lemma digits_mono: "m \<le> n \<Longrightarrow> n < 10 ^ k \<Longrightarrow> digits k m \<le> digits k n"
  using digits_less [of m n k] by (cases "m = n") (auto simp: order.strict_implies_order)

lemma usage_month_key_digits:
  assumes "0 \<le> pv_year env t" "pv_year env t \<le> 9999" "pv_month env t \<le> 12"
  shows "usage_month_key env t = digits 4 (nat (pv_year env t)) @ ''-'' @ digits 2 (pv_month env t)"
  using show_padded_digits [of 4 "nat (pv_year env t)"] show_padded_digits [of 2 "pv_month env t"] assms
  by (simp add: usage_month_key_def)

lemma usage_month_key_mono:
  assumes ok: "policy_env_ok env" and s: "0 \<le> s" "s \<le> t" "pv_from_unix env s = Some a" "pv_from_unix env t = Some b"
  shows "usage_month_key env a \<le> usage_month_key env b"
proof -
  have a: "1970 \<le> pv_year env a" "pv_year env a \<le> 9999" "pv_month env a \<le> 12"
    and b: "1970 \<le> pv_year env b" "pv_year env b \<le> 9999" "pv_month env b \<le> 12"
    using ok s unfolding policy_env_ok_def by (meson order_trans)+
  have ym: "pv_year env a < pv_year env b \<or> (pv_year env a = pv_year env b \<and> pv_month env a \<le> pv_month env b)"
    using ok s unfolding policy_env_ok_def by blast
  have key: "usage_month_key env a = digits 4 (nat (pv_year env a)) @ ''-'' @ digits 2 (pv_month env a)"
    "usage_month_key env b = digits 4 (nat (pv_year env b)) @ ''-'' @ digits 2 (pv_month env b)"
    using a b usage_month_key_digits [of env a] usage_month_key_digits [of env b] by simp_all
  show ?thesis
  proof (cases "pv_year env a = pv_year env b")
    case True
    then have "pv_month env a \<le> pv_month env b" using ym by simp
    from digits_mono [OF this, of 2] b True show ?thesis
      unfolding key by (simp add: le_less append_less)
  next
    case False
    then have "digits 4 (nat (pv_year env a)) < digits 4 (nat (pv_year env b))"
      using ym a b by (intro digits_less) auto
    then show ?thesis unfolding key by (simp add: le_less append_less)
  qed
qed

lemma usage_month_key_length:
  assumes "policy_env_ok env" "0 \<le> s" "pv_from_unix env s = Some a"
  shows "length (usage_month_key env a) = 7"
proof -
  have "1970 \<le> pv_year env a" "pv_year env a \<le> 9999" "pv_month env a \<le> 12"
    using assms unfolding policy_env_ok_def by blast+
  then show ?thesis using usage_month_key_digits [of env a] by simp
qed


section \<open>Runs\<close>

text \<open>
  The database with two accounts of what happened: the latest instant that was recorded, and for each month how many
  bytes were recorded while it was the month of the latest instant.
\<close>

record policy_run =
  pn_db :: provider_db
  pn_latest :: int
  pn_ledger :: "string \<Rightarrow> int"

datatype policy_event = UsageSeen int int | UsageLost | Evaluated int | EvaluationFailed | Configured provider_policy
  | ConfigurationFailed | ManualChanged | TablesElsewhere

text \<open>
  \<open>pause_provider\<close> and \<open>resume_provider\<close> are an evaluation and a configuration. The last rule is what activation and
  synchronisation change.
\<close>

inductive policy_step :: "policy_env \<Rightarrow> policy_run \<Rightarrow> policy_event \<Rightarrow> policy_run \<Rightarrow> bool" for env :: policy_env where
  usage_seen: "\<lbrakk>transaction c (record_usage_delta env io delta t) (pn_db s) = (db', Inr ());
      pv_from_unix env (max t (pn_latest s)) = Some moment\<rbrakk> \<Longrightarrow>
    policy_step env s (UsageSeen delta t)
      \<lparr>pn_db = db', pn_latest = max t (pn_latest s),
       pn_ledger = (pn_ledger s)(usage_month_key env moment := pn_ledger s (usage_month_key env moment) + delta)\<rparr>"
| usage_lost: "transaction c (record_usage_delta env io delta t) (pn_db s) = (db', Inl e) \<Longrightarrow>
    policy_step env s UsageLost (s\<lparr>pn_db := db'\<rparr>)"
| evaluated: "provider_policy_status env io (pn_db s) = (db', Inr st) \<Longrightarrow>
    policy_step env s (Evaluated (pv_now io)) (s\<lparr>pn_db := db', pn_latest := max (pv_now io) (pn_latest s)\<rparr>)"
| evaluation_failed: "provider_policy_status env io (pn_db s) = (db', Inl e) \<Longrightarrow>
    policy_step env s EvaluationFailed (s\<lparr>pn_db := db'\<rparr>)"
| configured: "configure_provider_policy env io p (pn_db s) = (db', Inr st) \<Longrightarrow>
    policy_step env s (Configured p) (s\<lparr>pn_db := db', pn_latest := max (pv_now io) (pn_latest s)\<rparr>)"
| configuration_failed: "configure_provider_policy env io p (pn_db s) = (db', Inl e) \<Longrightarrow>
    policy_step env s ConfigurationFailed (s\<lparr>pn_db := db'\<rparr>)"
| manual_configured: "configure_manual_endpoint env candidate io input (pn_db s) = (db', r) \<Longrightarrow>
    policy_step env s ManualChanged (s\<lparr>pn_db := db'\<rparr>)"
| manual_cleared: "clear_manual_endpoint io (pn_db s) = (db', r') \<Longrightarrow> policy_step env s ManualChanged (s\<lparr>pn_db := db'\<rparr>)"
| manual_carried: "carry_manual_endpoint_forward io revision port (pn_db s) = (db', r'') \<Longrightarrow>
    policy_step env s ManualChanged (s\<lparr>pn_db := db'\<rparr>)"
| tables_elsewhere: "policy_step env s TablesElsewhere (s\<lparr>pn_db := (pn_db s)\<lparr>pd_applied := a, pd_artifacts := rs\<rparr>\<rparr>)"

text \<open>The tables as the migration leaves them.\<close>

definition initial_provider_db :: "string \<Rightarrow> int \<Rightarrow> provider_db" where
  "initial_provider_db json created =
     \<lparr>pd_policy_table = True, pd_manual_table = True,
      pd_policy = Some \<lparr>pw_json = json, pw_generation = 1, pw_updated_at = created\<rparr>,
      pd_usage = Some \<lparr>us_utc_month = [], us_observed_bytes = 0, us_high_watermark = 0, us_last_observed_at = None\<rparr>,
      pd_manual = None, pd_applied = Some None, pd_artifacts = []\<rparr>"

definition policy_start :: "string \<Rightarrow> int \<Rightarrow> policy_run" where
  "policy_start json created = \<lparr>pn_db = initial_provider_db json created, pn_latest = 0, pn_ledger = (\<lambda>_. 0)\<rparr>"

section \<open>The invariant\<close>

definition usage_ok :: "policy_env \<Rightarrow> int \<Rightarrow> (string \<Rightarrow> int) \<Rightarrow> usage_row \<Rightarrow> bool" where
  "usage_ok env latest ledger u \<longleftrightarrow>
     0 \<le> latest \<and> us_high_watermark u = latest
     \<and> (if us_utc_month u = [] then latest = 0 \<and> us_observed_bytes u = 0 \<and> ledger = (\<lambda>_. 0)
        else (\<exists>moment. pv_from_unix env latest = Some moment \<and> us_utc_month u = usage_month_key env moment)
           \<and> us_observed_bytes u = ledger (us_utc_month u) \<and> (\<forall>m. ledger m \<noteq> 0 \<longrightarrow> m \<le> us_utc_month u))"

definition manual_ok :: "manual_row \<Rightarrow> bool" where
  "manual_ok r \<longleftrightarrow> manual_check r \<and> validate_endpoint_address (mn_address r) = Inr ()
     \<and> mn_expires_at r - mn_configured_at r \<le> 30 * 24 * 60 * 60"

definition policy_inv :: "policy_env \<Rightarrow> policy_run \<Rightarrow> bool" where
  "policy_inv env s \<longleftrightarrow>
     (\<exists>u. pd_usage (pn_db s) = Some u \<and> usage_ok env (pn_latest s) (pn_ledger s) u)
     \<and> (\<forall>r. pd_manual (pn_db s) = Some r \<longrightarrow> manual_ok r)
     \<and> pd_policy_table (pn_db s)"


lemma usage_key_nonempty:
  "policy_env_ok env \<Longrightarrow> 0 \<le> s \<Longrightarrow> pv_from_unix env s = Some a \<Longrightarrow> usage_month_key env a \<noteq> []"
  using usage_month_key_length by fastforce

lemma rolled_usage_ok:
  assumes env: "policy_env_ok env" and ok: "usage_ok env latest L u" and moment: "pv_from_unix env (max t latest) = Some moment"
  shows "rolled_usage u (usage_month_key env moment) = (usage_month_key env moment, L (usage_month_key env moment))"
proof (cases "us_utc_month u = []")
  case True
  then show ?thesis using ok by (simp add: rolled_usage_def usage_ok_def)
next
  case False
  with ok obtain before where before: "0 \<le> latest" "pv_from_unix env latest = Some before" "us_utc_month u = usage_month_key env before"
    "us_observed_bytes u = L (us_utc_month u)" "\<forall>m. L m \<noteq> 0 \<longrightarrow> m \<le> us_utc_month u"
    by (auto simp: usage_ok_def)
  have "us_utc_month u \<le> usage_month_key env moment"
    using usage_month_key_mono [OF env before(1) _ before(2) moment] before(3) by simp
  then show ?thesis using before(4,5) False by (auto simp: rolled_usage_def not_le)
qed

lemma usage_ok_step:
  assumes env: "policy_env_ok env" and ok: "usage_ok env latest L u" and moment: "pv_from_unix env (max t latest) = Some moment"
    and u': "us_utc_month u' = usage_month_key env moment" "us_observed_bytes u' = L (usage_month_key env moment) + d"
      "us_high_watermark u' = max t latest"
  shows "usage_ok env (max t latest) (L(usage_month_key env moment := L (usage_month_key env moment) + d)) u'"
proof -
  have latest: "0 \<le> latest" using ok by (simp add: usage_ok_def)
  then have "us_utc_month u' \<noteq> []" using usage_key_nonempty [OF env _ moment] u'(1) by simp
  moreover have "m \<le> usage_month_key env moment" if "L m \<noteq> 0" for m
  proof -
    from that ok have "us_utc_month u \<noteq> []" by (auto simp: usage_ok_def)
    with ok that obtain before where "pv_from_unix env latest = Some before" "m \<le> usage_month_key env before"
      by (auto simp: usage_ok_def)
    with usage_month_key_mono [OF env latest _ _ moment] show ?thesis by fastforce
  qed
  ultimately show ?thesis using latest moment u' by (auto simp: usage_ok_def)
qed

lemma transaction_Inr: "transaction c m db = (db', Inr x) \<Longrightarrow> m db = (db', Inr x)"
  by (auto simp: transaction_def split: prod.splits sum.splits if_splits)

lemma transaction_Inl: "transaction c m db = (db', Inl e) \<Longrightarrow> db' = db"
  by (auto simp: transaction_def split: prod.splits sum.splits if_splits)

lemma reading_eq [simp]: "reading f db = (db', r) \<longleftrightarrow> db' = db \<and> r = f db"
  by (auto simp: reading_def)

lemma statement_Inr: "statement io k stmt db = (db', Inr n) \<longleftrightarrow> \<not> pv_fails io k \<and> stmt db = Inr (db', n)"
  by (auto simp: statement_def split: sum.splits)

lemma load_usage_row_Inr [simp]: "load_usage_row db = Inr u \<longleftrightarrow> pd_usage db = Some u" "Inr u = load_usage_row db \<longleftrightarrow> pd_usage db = Some u"
  by (auto simp: load_usage_row_def ok_or_def split: option.splits)

lemma effective_time_Inr [simp]:
  "effective_time env t u = Inr moment \<longleftrightarrow> pv_from_unix env (max t (us_high_watermark u)) = Some moment"
  "Inr moment = effective_time env t u \<longleftrightarrow> pv_from_unix env (max t (us_high_watermark u)) = Some moment"
  by (auto simp: effective_time_def ok_or_def split: option.splits)

lemma update_usage_Inr:
  "pd_usage db = Some u \<Longrightarrow> update_usage f db = Inr (db', n) \<Longrightarrow> db' = db\<lparr>pd_usage := Some (f u)\<rparr>"
  by (auto simp: update_usage_def split: if_splits)

lemma record_usage_delta_Inr:
  assumes "record_usage_delta env io delta t db = (db', Inr ())"
  obtains u moment where "pd_usage db = Some u" "pv_from_unix env (max t (us_high_watermark u)) = Some moment"
    "db' = db\<lparr>pd_usage := Some (u\<lparr>us_utc_month := usage_month_key env moment,
        us_observed_bytes := snd (rolled_usage u (usage_month_key env moment)) + delta,
        us_high_watermark := max t (us_high_watermark u), us_last_observed_at := Some t\<rparr>)\<rparr>"
  using assms
  by (auto simp: record_usage_delta_def sbind_Inr statement_Inr Let_def split: if_splits)
    (drule (1) update_usage_Inr, simp)

lemma evaluate_Inr:
  assumes "evaluate_and_checkpoint env io k db = (db', Inr st)"
  obtains u moment where "pd_usage db = Some u" "pv_from_unix env (max (pv_now io) (us_high_watermark u)) = Some moment"
    "db' = db\<lparr>pd_usage := Some (u\<lparr>us_utc_month := fst (rolled_usage u (usage_month_key env moment)),
        us_observed_bytes := snd (rolled_usage u (usage_month_key env moment)),
        us_high_watermark := max (pv_now io) (us_high_watermark u)\<rparr>)\<rparr>"
  using assms unfolding evaluate_and_checkpoint_def
  by (auto simp: sbind_Inr statement_Inr Let_def split_beta dest!: transaction_Inr) (drule (1) update_usage_Inr, simp)


text \<open>Operations on the other tables leave the usage alone and keep the manual endpoint as it must be.\<close>

definition others_ok :: "usage_row option \<Rightarrow> provider_db \<Rightarrow> bool" where
  "others_ok u db \<longleftrightarrow> pd_usage db = u \<and> pd_policy_table db \<and> (\<forall>r. pd_manual db = Some r \<longrightarrow> manual_ok r)"

lemma keeps_sresult: "(\<And>x. r = Inr x \<Longrightarrow> keeps I (f x)) \<Longrightarrow> keeps I (sbind (sresult r) f)"
  by (cases r) (auto simp: keeps_def sbind_def sresult_def)

lemma keeps_reading [keeps_intro]: "keeps I (reading f)"
  by (simp add: keeps_def reading_def)

lemma keeps_opened [keeps_intro]: "keeps I (opened io)"
  by (simp add: opened_def keeps_pure)

lemma keeps_statement: "(\<And>db db' n. I db \<Longrightarrow> stmt db = Inr (db', n) \<Longrightarrow> I db') \<Longrightarrow> keeps I (statement io k stmt)"
  by (auto simp: keeps_def statement_def split: sum.splits)

lemma keeps_put_manual:
  "validate_endpoint_address (mn_address r) = Inr () \<Longrightarrow> mn_expires_at r - mn_configured_at r \<le> 30 * 24 * 60 * 60 \<Longrightarrow>
   keeps (others_ok u) (statement io k (put_manual r))"
  by (rule keeps_statement) (auto simp: put_manual_def others_ok_def manual_ok_def split: if_splits)

lemma keeps_update_manual:
  "(\<And>r. mn_address (f r) = mn_address r \<and> mn_expires_at (f r) = mn_expires_at r \<and> mn_configured_at (f r) = mn_configured_at r) \<Longrightarrow>
   keeps (others_ok u) (statement io k (update_manual P f))"
  by (rule keeps_statement) (auto simp: update_manual_def put_manual_def others_ok_def manual_ok_def split: if_splits option.splits)

lemma keeps_provider [keeps_intro]:
  "keeps (others_ok u) (statement io k delete_manual)" "keeps (others_ok u) (statement io k (update_provider g))"
  by (auto intro!: keeps_statement simp: delete_manual_def update_provider_def others_ok_def split: if_splits option.splits)

lemma manual_ttl: "validate_manual_input input = Inr () \<Longrightarrow>
    validate_endpoint_address (mi_address input) = Inr () \<and> uint (mi_ttl_seconds input) \<le> 30 * 24 * 60 * 60"
  by (auto simp: validate_manual_input_def rbind_eq_Inr MAX_MANUAL_ENDPOINT_TTL_SECONDS_def word_le_def split: if_splits)

lemma keeps_configure_manual: "keeps (others_ok u) (configure_manual_endpoint env candidate io input)"
proof (cases "validate_manual_input input = Inr ()")
  case True
  note ttl = manual_ttl [OF True]
  have tail: "keeps (others_ok u) (sbind (sresult (if t + uint (mi_ttl_seconds input) < 2 ^ 63 then Inr (t + uint (mi_ttl_seconds input))
                         else Inl (HostError ''manual endpoint expiry overflow''))) (\<lambda>expires.
         sbind (transaction (pv_fails io 1) (statement io 0 (put_manual
            \<lparr>mn_endpoint_id = pv_endpoint_id io, mn_address = mi_address input, mn_public_port = uint (mi_public_port input),
             mn_forwarded_local_port = uint (mi_forwarded_local_port input), mn_applied_revision = revision,
             mn_observed_at = t, mn_expires_at = expires, mn_configured_at = t\<rparr>))) (\<lambda>_.
           reading (\<lambda>db. load_manual_status env db (Some revision) t))))" for t revision
    using ttl by (intro keeps_sresult keeps_sbind keeps_transaction keeps_put_manual keeps_reading) (auto split: if_splits)
  show ?thesis unfolding configure_manual_endpoint_def
    by (rule keeps_sbind [OF keeps_pure(2)], rule keeps_sbind [OF keeps_opened], rule keeps_sbind [OF keeps_reading])
      (auto split: prod.split intro!: keeps_pure keeps_sbind [OF keeps_pure(2) tail [simplified]])
next
  case False
  then show ?thesis unfolding configure_manual_endpoint_def by (intro keeps_sresult) auto
qed

lemma keeps_clear: "keeps (others_ok u) (clear_manual_endpoint io)"
  unfolding clear_manual_endpoint_def by (intro keeps_intro)

lemma keeps_when_manual:
  assumes "\<And>r. keeps I (m r)"
  shows "keeps I (\<lambda>db. case pd_manual db of None \<Rightarrow> (db, x) | Some r \<Rightarrow> if P r then (db, y) else m r db)"
  using assms unfolding keeps_def by (simp split: option.split)

lemma keeps_carry: "keeps (others_ok u) (carry_manual_endpoint_forward io revision port)"
  unfolding carry_manual_endpoint_forward_def
  by (auto intro!: keeps_sbind keeps_pure keeps_opened keeps_when_manual keeps_transaction keeps_update_manual)

section \<open>Every step keeps the invariant\<close>

lemma policy_inv_others:
  "policy_inv env s \<longleftrightarrow> (\<exists>u. others_ok (Some u) (pn_db s) \<and> usage_ok env (pn_latest s) (pn_ledger s) u)"
  by (auto simp: policy_inv_def others_ok_def)

lemma policy_inv_keeps:
  "policy_inv env s \<Longrightarrow> (\<And>u. keeps (others_ok u) m) \<Longrightarrow> m (pn_db s) = (db', r) \<Longrightarrow> policy_inv env (s\<lparr>pn_db := db'\<rparr>)"
  unfolding policy_inv_others by (auto dest: keepsD)

lemma policy_inv_evaluated:
  assumes env: "policy_env_ok env" and inv: "policy_inv env s"
    and eval: "evaluate_and_checkpoint env io k (pn_db s) = (db', Inr st)"
  shows "policy_inv env (s\<lparr>pn_db := db', pn_latest := max (pv_now io) (pn_latest s)\<rparr>)"
proof -
  from inv obtain u where u: "others_ok (Some u) (pn_db s)" "usage_ok env (pn_latest s) (pn_ledger s) u"
    by (auto simp: policy_inv_others)
  then have w: "us_high_watermark u = pn_latest s" by (simp add: usage_ok_def)
  from eval obtain moment where moment: "pv_from_unix env (max (pv_now io) (pn_latest s)) = Some moment"
    "db' = (pn_db s)\<lparr>pd_usage := Some (u\<lparr>us_utc_month := fst (rolled_usage u (usage_month_key env moment)),
        us_observed_bytes := snd (rolled_usage u (usage_month_key env moment)),
        us_high_watermark := max (pv_now io) (pn_latest s)\<rparr>)\<rparr>"
    using u(1) w by (elim evaluate_Inr) (auto simp: others_ok_def)
  note rolled = rolled_usage_ok [OF env u(2) moment(1)]
  let ?u = "u\<lparr>us_utc_month := usage_month_key env moment, us_observed_bytes := pn_ledger s (usage_month_key env moment),
      us_high_watermark := max (pv_now io) (pn_latest s)\<rparr>"
  have "usage_ok env (max (pv_now io) (pn_latest s)) (pn_ledger s) ?u"
    using usage_ok_step [OF env u(2) moment(1), of ?u 0] by simp
  moreover have "others_ok (Some ?u) db'" using u(1) moment(2) rolled by (simp add: others_ok_def)
  ultimately show ?thesis by (auto simp: policy_inv_others)
qed


lemma policy_inv_usage:
  assumes env: "policy_env_ok env" and inv: "policy_inv env s"
    and rec: "transaction c (record_usage_delta env io delta t) (pn_db s) = (db', Inr ())"
    and moment: "pv_from_unix env (max t (pn_latest s)) = Some moment"
  shows "policy_inv env \<lparr>pn_db = db', pn_latest = max t (pn_latest s),
       pn_ledger = (pn_ledger s)(usage_month_key env moment := pn_ledger s (usage_month_key env moment) + delta)\<rparr>"
proof -
  from inv obtain u where u: "others_ok (Some u) (pn_db s)" "usage_ok env (pn_latest s) (pn_ledger s) u"
    by (auto simp: policy_inv_others)
  then have w: "us_high_watermark u = pn_latest s" by (simp add: usage_ok_def)
  let ?u = "u\<lparr>us_utc_month := usage_month_key env moment, us_observed_bytes := pn_ledger s (usage_month_key env moment) + delta,
      us_high_watermark := max t (pn_latest s), us_last_observed_at := Some t\<rparr>"
  have "db' = (pn_db s)\<lparr>pd_usage := Some ?u\<rparr>"
    using transaction_Inr [OF rec] u(1) w moment rolled_usage_ok [OF env u(2) moment]
    by (elim record_usage_delta_Inr) (auto simp: others_ok_def)
  then have "others_ok (Some ?u) db'" using u(1) by (simp add: others_ok_def)
  moreover have "usage_ok env (max t (pn_latest s))
      ((pn_ledger s)(usage_month_key env moment := pn_ledger s (usage_month_key env moment) + delta)) ?u"
    using usage_ok_step [OF env u(2) moment, of ?u delta] by simp
  ultimately show ?thesis by (auto simp: policy_inv_others)
qed

text \<open>A configuration that was stored is followed by an evaluation.\<close>

lemma keeps_store_policy:
  "keeps (others_ok u) (transaction c (sbind (statement io k (update_provider g)) (expect_one message)))"
  by (intro keeps_intro)

lemma configure_Inr:
  assumes "configure_provider_policy env io p db = (db', Inr st)"
  obtains g c db1 where "transaction c (sbind (statement io 0 (update_provider g)) (expect_one ''provider policy is missing'')) db = (db1, Inr ())"
    "evaluate_and_checkpoint env io 2 db1 = (db', Inr st)"
  using assms unfolding configure_provider_policy_def sbind_Inr sresult_eq
  by (auto simp: opened_def split: if_splits)

lemma configure_Inl:
  assumes "configure_provider_policy env io p db = (db', Inl e)"
  shows "db' = db \<or> (\<exists>g c. transaction c (sbind (statement io 0 (update_provider g)) (expect_one ''provider policy is missing'')) db
    = (db', Inr ()))"
  using assms unfolding configure_provider_policy_def sbind_def opened_def sresult_def
  by (auto simp: evaluate_and_checkpoint_def split: sum.splits prod.splits if_splits dest: transaction_Inl)

lemma policy_step_inv:
  assumes env: "policy_env_ok env"
  shows "policy_step env s e s' \<Longrightarrow> policy_inv env s \<Longrightarrow> policy_inv env s'"
proof (induction rule: policy_step.induct)
  case (usage_seen c io delta t s db' moment)
  then show ?case by (intro policy_inv_usage [OF env])
next
  case (usage_lost c io delta t s db' e)
  then show ?case by (auto dest!: transaction_Inl)
next
  case (evaluated io s db' st)
  then show ?case
    by (auto simp: provider_policy_status_def sbind_Inr opened_def split: if_splits intro: policy_inv_evaluated [OF env])
next
  case (evaluation_failed io s db' e)
  then have "db' = pn_db s"
    by (auto simp: provider_policy_status_def sbind_def opened_def sresult_def evaluate_and_checkpoint_def
        split: if_splits dest!: transaction_Inl)
  then show ?case using evaluation_failed by simp
next
  case (configured io p s db' st)
  then obtain g c db1 where
    g: "transaction c (sbind (statement io 0 (update_provider g)) (expect_one ''provider policy is missing'')) (pn_db s) = (db1, Inr ())"
      "evaluate_and_checkpoint env io 2 db1 = (db', Inr st)"
    by (elim configure_Inr)
  from policy_inv_keeps [OF configured.prems keeps_store_policy g(1)]
  have "policy_inv env (s\<lparr>pn_db := db1\<rparr>)" .
  from policy_inv_evaluated [OF env this] g(2) show ?case by fastforce
next
  case (configuration_failed io p s db' e)
  then show ?case using policy_inv_keeps [OF _ keeps_store_policy] by (auto dest!: configure_Inl)
next
  case (tables_elsewhere s a rs)
  then show ?case by (simp add: policy_inv_def)
qed (blast intro: policy_inv_keeps keeps_configure_manual keeps_clear keeps_carry)+


interpretation pl: invariant_system "policy_step env" "\<lambda>s. policy_env_ok env \<longrightarrow> policy_inv env s" for env
  by unfold_locales (blast intro: policy_step_inv)

lemma policy_start_inv: "policy_inv env (policy_start json created)"
  by (simp add: policy_inv_def policy_start_def initial_provider_db_def usage_ok_def)

lemma policy_reaches_inv:
  "policy_env_ok env \<Longrightarrow> reaches (policy_step env) (policy_start json created) es s \<Longrightarrow> policy_inv env s"
  using pl.reaches_inv policy_start_inv by blast

section \<open>The status\<close>

lemma status_components_Inr:
  assumes "load_status_components env moment month bytes observed_at db = Inr st"
  shows "py_availability st = availability_at env (py_policy st) moment (mu_observed_bytes (py_month_usage st))"
    "mu_utc_month (py_month_usage st) = month" "u64_of_int bytes = Some (mu_observed_bytes (py_month_usage st))"
proof -
  from assms obtain policy observed generation updated lst manual where
    u: "u64_of_int bytes = Some observed" and
    st: "st = \<lparr>py_policy = policy, py_generation = generation, py_updated_at = updated,
              py_availability = availability_at env policy moment observed,
              py_month_usage =
                \<lparr>mu_utc_month = month, mu_observed_bytes = observed, mu_cap_bytes = pp_monthly_transfer_cap_bytes policy,
                 mu_remaining_bytes = map_option (\<lambda>c. saturating_sub_u64 c observed) (pp_monthly_transfer_cap_bytes policy),
                 mu_coverage = USAGE_COVERAGE, mu_last_observed_at = lst\<rparr>,
              py_manual_endpoint = manual\<rparr>"
    unfolding load_status_components_def rbind_eq_Inr ok_or_Inr Let_def by blast
  show "py_availability st = availability_at env (py_policy st) moment (mu_observed_bytes (py_month_usage st))"
    "mu_utc_month (py_month_usage st) = month" "u64_of_int bytes = Some (mu_observed_bytes (py_month_usage st))"
    by (simp_all add: st u)
qed

lemma load_status_at_Inr:
  assumes "load_status_at env t db = Inr st"
  obtains u moment where "pd_usage db = Some u" "pv_from_unix env (max t (us_high_watermark u)) = Some moment"
    "load_status_components env moment (fst (rolled_usage u (usage_month_key env moment)))
       (snd (rolled_usage u (usage_month_key env moment))) (us_last_observed_at u) db = Inr st"
  using assms by (auto simp: load_status_at_def rbind_eq_Inr split_beta)

lemma u64_of_int_Some: "u64_of_int v = Some w \<longleftrightarrow> v = uint w"
  using uint_lt2p [of w] by (auto simp: u64_of_int_def uint_word_of_int_eq take_bit_int_eq_self)

lemma available_iff:
  "availability_at env p t bytes = Available \<longleftrightarrow>
     \<not> pp_paused p \<and> schedule_allows env p t \<and> (\<forall>cap. pp_monthly_transfer_cap_bytes p = Some cap \<longrightarrow> bytes < cap)"
  by (auto simp: availability_at_def not_le split: option.splits)

section \<open>Windows of the week\<close>

definition minute_of_week :: "policy_env \<Rightarrow> odt \<Rightarrow> int" where
  "minute_of_week env t = (uint (iso_weekday (pv_weekday env t)) - 1) * 1440 + uint (minute_of_day env t)"

lemma iso_weekday_range: "1 \<le> uint (iso_weekday d) \<and> uint (iso_weekday d) \<le> 7"
  by (cases d) simp_all

lemma minute_of_day_uint:
  assumes "pv_hour env t < 24" "pv_minute env t < 60"
  shows "uint (minute_of_day env t) = uint (pv_hour env t) * 60 + uint (pv_minute env t)"
proof -
  have "uint (pv_hour env t) < 24" "uint (pv_minute env t) < 60" using assms by (simp_all add: word_less_def)
  moreover have "0 \<le> uint (pv_hour env t)" "0 \<le> uint (pv_minute env t)" by simp_all
  ultimately show ?thesis
    by (simp add: minute_of_day_def uint_word_ariths uint_up_ucast is_up)
qed

lemma window_arith:
  fixes d w m s e :: int
  assumes d: "1 \<le> d" "d \<le> 7" "1 \<le> w" "w \<le> 7" and m: "0 \<le> m" "m < 1440" "0 \<le> s" "s < 1440" "0 \<le> e" "e < 1440" "s \<noteq> e"
  shows "(if s < e then d = w \<and> s \<le> m \<and> m < e
      else (d = w \<and> s \<le> m) \<or> (d = (if w = 7 then 1 else w + 1) \<and> m < e))
    \<longleftrightarrow> ((d - 1) * 1440 + m - ((w - 1) * 1440 + s)) mod 10080 < (e - s) mod 1440"
proof -
  have len: "(e - s) mod 1440 = (if s < e then e - s else e - s + 1440)"
  proof (cases "s < e")
    case False
    have "(e - s + 1440) mod 1440 = e - s + 1440" using m False by (intro mod_pos_pos_trivial) linarith+
    then show ?thesis using False by (simp only: mod_add_self2 if_False)
  qed (use m in \<open>simp add: mod_pos_pos_trivial\<close>)
  define c where "c = d - w"
  have at: "(d - 1) * 1440 + m - ((w - 1) * 1440 + s) = c * 1440 + m - s" by (simp add: c_def algebra_simps)
  have dc: "d = w + c" by (simp add: c_def)
  have neg: "(c * 1440 + m - s) mod 10080 = c * 1440 + m - s + 10080" if "c * 1440 + m - s < 0"
  proof -
    have "(c * 1440 + m - s + 10080) mod 10080 = c * 1440 + m - s + 10080"
      using that d m by (intro mod_pos_pos_trivial) (simp_all add: c_def)
    then show ?thesis by (simp only: mod_add_self2)
  qed
  have pos: "(c * 1440 + m - s) mod 10080 = c * 1440 + m - s" if "0 \<le> c * 1440 + m - s"
    using that d m by (intro mod_pos_pos_trivial) (simp_all add: c_def)
  have "- 6 \<le> c" "c \<le> 6" using d by (simp_all add: c_def)
  then consider "c = 0" | "c = 1" | "2 \<le> c" | "c = - 6" | "- 5 \<le> c" "c \<le> - 1" by linarith
  then show ?thesis
  proof cases
    case 1
    then show ?thesis using m pos neg unfolding at len dc by (cases "s \<le> m") auto
  next
    case 2
    then have "w \<noteq> 7" "(c * 1440 + m - s) mod 10080 = 1440 + m - s" using d m pos by (auto simp: dc)
    then show ?thesis using 2 m unfolding at len dc by auto
  next
    case 3
    then have "(c * 1440 + m - s) mod 10080 = c * 1440 + m - s" using m pos by simp
    moreover have "d \<noteq> (if w = 7 then 1 else w + 1)" using 3 d by (auto simp: dc)
    ultimately show ?thesis using 3 m unfolding at len by (auto simp: dc)
  next
    case 4
    then have w: "w = 7" and r: "(c * 1440 + m - s) mod 10080 = 1440 + m - s" using d m neg by (auto simp: dc)
    show ?thesis unfolding at len r using 4 m w by (auto simp: dc)
  next
    case 5
    then have "(c * 1440 + m - s) mod 10080 = c * 1440 + m - s + 10080" using m neg by simp
    moreover have "d \<noteq> (if w = 7 then 1 else w + 1)" using 5 d by (auto simp: dc)
    ultimately show ?thesis using 5 m unfolding at len by (auto simp: dc)
  qed
qed


section \<open>A concrete calendar and a capped policy\<close>

text \<open>Months of 31 days, twelve to a year; every instant is a Monday at half past midnight.\<close>

definition demo_capped :: provider_policy where
  "demo_capped = default_policy\<lparr>pp_monthly_transfer_cap_bytes := Some 1048576\<rparr>"

definition demo_policy_env :: policy_env where
  "demo_policy_env =
     \<lparr>uuid_parse = (\<lambda>s. Some (str_bytes s)), uuid_show = bytes_str, rfc3339_parse = (\<lambda>_. None), rfc3339_show = (\<lambda>_. []),
      b64_decode = (\<lambda>_. None), b64_encode = (\<lambda>_. []), sha256 = (\<lambda>_. replicate 32 0),
      pv_from_unix = (\<lambda>s. if 0 \<le> s \<and> s < 100000000000 then Some \<lparr>instant = s * 1000000000, utc_offset = 0\<rparr> else None),
      pv_unix = (\<lambda>t. instant t div 1000000000),
      pv_year = (\<lambda>t. 1970 + instant t div (31 * 86400 * 1000000000) div 12),
      pv_month = (\<lambda>t. Suc (nat (instant t div (31 * 86400 * 1000000000) mod 12))),
      pv_weekday = (\<lambda>_. Monday), pv_hour = (\<lambda>_. 0), pv_minute = (\<lambda>_. 30),
      pv_policy_json = (\<lambda>_. Some ''{}''), pv_policy_of = (\<lambda>_. Some demo_capped)\<rparr>"

lemma demo_policy_env_ok: "policy_env_ok demo_policy_env"
proof -
  define q :: int where "q = 31 * 86400"
  have q: "s * 1000000000 div (31 * 86400 * 1000000000) = s div q" for s :: int
    unfolding q_def by (rule div_mult_mult2) simp
  have ym: "1970 + s div q div 12 < 1970 + t div q div 12 \<or>
      (1970 + s div q div 12 = 1970 + t div q div 12 \<and> nat (s div q mod 12) \<le> nat (t div q mod 12))" if "s \<le> t" for s t
  proof -
    have "s div q \<le> t div q" using that by (intro zdiv_mono1) (simp_all add: q_def)
    then have "s div q div 12 \<le> t div q div 12" by (rule zdiv_mono1) simp
    moreover have "nat (s div q mod 12) \<le> nat (t div q mod 12)" if "s div q div 12 = t div q div 12"
      using that \<open>s div q \<le> t div q\<close> mult_div_mod_eq [of 12 "s div q"] mult_div_mod_eq [of 12 "t div q"]
      by (intro nat_mono) linarith
    ultimately show ?thesis by (auto simp: le_less)
  qed
  have range: "0 \<le> s div q div 12 \<and> s div q div 12 \<le> 8000 \<and> nat (s div q mod 12) \<le> 11" if "0 \<le> s" "s < 100000000000" for s
  proof -
    have "s div q \<le> 100000000000 div q" using that by (intro zdiv_mono1) (simp_all add: q_def)
    also have "\<dots> \<le> 90000" by (simp add: q_def)
    finally have "s div q div 12 \<le> 90000 div 12" by (intro zdiv_mono1) simp_all
    moreover have "0 \<le> s div q" using that by (simp add: q_def pos_imp_zdiv_nonneg_iff)
    moreover have "s div q mod 12 < 12" by simp
    ultimately show ?thesis by (simp add: pos_imp_zdiv_nonneg_iff)
  qed
  have shown: "pv_year demo_policy_env a = 1970 + s div q div 12 \<and> pv_month demo_policy_env a = Suc (nat (s div q mod 12))
      \<and> pv_unix demo_policy_env a = s \<and> 0 \<le> s \<and> s < 100000000000" if "pv_from_unix demo_policy_env s = Some a" for s a
  proof -
    from that have a: "a = \<lparr>instant = s * 1000000000, utc_offset = 0\<rparr>" "0 \<le> s" "s < 100000000000"
      by (simp_all add: demo_policy_env_def split: if_splits)
    have "instant a div (31 * 86400 * 1000000000) = s div q" unfolding a(1) odt.simps by (rule q)
    with a show ?thesis by (simp add: demo_policy_env_def del: mult_numeral_left)
  qed
  show ?thesis unfolding policy_env_ok_def
  proof (intro conjI allI impI)
    fix s t a b
    assume "s \<le> t" "pv_from_unix demo_policy_env s = Some a" "pv_from_unix demo_policy_env t = Some b"
    then show "pv_year demo_policy_env a < pv_year demo_policy_env b
        \<or> (pv_year demo_policy_env a = pv_year demo_policy_env b \<and> pv_month demo_policy_env a \<le> pv_month demo_policy_env b)"
      using ym [of s t] shown [of s a] shown [of t b] by simp
  next
    fix s a
    assume "pv_from_unix demo_policy_env s = Some a"
    note a = shown [OF this]
    then have "0 \<le> s div q div 12 \<and> s div q div 12 \<le> 8000 \<and> nat (s div q mod 12) \<le> 11" by (intro range) simp_all
    with a show "1970 \<le> pv_year demo_policy_env a" "pv_year demo_policy_env a \<le> 9999" "1 \<le> pv_month demo_policy_env a"
      "pv_month demo_policy_env a \<le> 12" "pv_unix demo_policy_env a = s" by simp_all
  qed
qed

definition demo_policy_io :: policy_io where
  "demo_policy_io = \<lparr>pv_open_fails = False, pv_fails = (\<lambda>_. False), pv_clock = 1000, pv_now = 1000, pv_endpoint_id = replicate 36 (CHR ''a'')\<rparr>"

definition demo_used_db :: provider_db where
  "demo_used_db = (initial_provider_db ''{}'' 0)\<lparr>pd_usage := Some \<lparr>us_utc_month = ''1970-01'', us_observed_bytes = 1048576,
      us_high_watermark = 1000, us_last_observed_at = Some 1000\<rparr>\<rparr>"

definition demo_used :: policy_run where
  "demo_used = \<lparr>pn_db = demo_used_db, pn_latest = 1000, pn_ledger = (\<lambda>_. 0)(''1970-01'' := 1048576)\<rparr>"

lemma demo_policy_month: "usage_month_key demo_policy_env \<lparr>instant = 1000000000000, utc_offset = 0\<rparr> = ''1970-01''"
  by code_simp

lemma demo_usage_step: "reaches (policy_step demo_policy_env) (policy_start ''{}'' 0) [UsageSeen 1048576 1000] demo_used"
proof -
  have from_unix: "pv_from_unix demo_policy_env 1000 = Some \<lparr>instant = 1000000000000, utc_offset = 0\<rparr>"
    by (simp add: demo_policy_env_def)
  have "transaction False (record_usage_delta demo_policy_env demo_policy_io 1048576 1000) (pn_db (policy_start ''{}'' 0))
      = (demo_used_db, Inr ())"
    by (simp add: record_usage_delta_def policy_start_def initial_provider_db_def sbind_def sresult_def sreturn_def reading_def load_usage_row_def
        effective_time_def ok_or_def from_unix demo_policy_month Let_def rolled_usage_def statement_def update_usage_def usage_check_def
        demo_policy_io_def transaction_def demo_used_db_def)
  from policy_step.usage_seen [OF this] from_unix
  have "policy_step demo_policy_env (policy_start ''{}'' 0) (UsageSeen 1048576 1000) demo_used"
    by (simp add: policy_start_def demo_policy_month demo_used_def)
  from reaches_snoc [of "policy_step demo_policy_env", OF reaches_Nil this] show ?thesis by simp
qed

lemma demo_used_status: "\<exists>st. load_status_at demo_policy_env 500 demo_used_db = Inr st \<and> py_policy st = demo_capped"
proof -
  have from_unix: "pv_from_unix demo_policy_env 1000 = Some \<lparr>instant = 1000000000000, utc_offset = 0\<rparr>"
    "pv_from_unix demo_policy_env 0 = Some \<lparr>instant = 0, utc_offset = 0\<rparr>"
    by (simp_all add: demo_policy_env_def)
  have valid: "validate_provider_policy demo_capped = Inr ()"
    by (simp add: validate_provider_policy_def demo_capped_def default_policy_def PROVIDER_POLICY_SCHEMA_VERSION_def
        MAX_SCHEDULE_WINDOWS_def MIN_MONTHLY_CAP_BYTES_def MAX_CONCURRENT_SESSIONS_def MIN_BANDWIDTH_LIMIT_BPS_def
        MAX_BANDWIDTH_LIMIT_BPS_def)
  have cap: "pp_monthly_transfer_cap_bytes demo_capped = Some 1048576" by (simp add: demo_capped_def)
  have of: "pv_policy_of demo_policy_env j = Some demo_capped" for j by (simp add: demo_policy_env_def)
  show ?thesis
    by (simp add: load_status_at_def demo_used_db_def load_usage_row_def ok_or_def effective_time_def from_unix demo_policy_month
        rolled_usage_def load_status_components_def initial_provider_db_def of valid u64_of_int_def current_applied_revision_def
        load_manual_status_def timestamp_from_unix_def validate_policy_status_def status_metadata_invalid_def
        USAGE_COVERAGE_def Let_def cap)
qed

section \<open>Properties\<close>

text \<open>Claim C36: the limits of the owner hold. In every run, with clocks that jump and statements that fail, a status
  that is loaded counts exactly the bytes that were recorded in the month of the latest instant the node has seen, no
  bytes belong to a later month, and the node is available if and only if it is not paused, its schedule allows the
  instant and those bytes are below the cap.\<close>

theorem provider_limits_enforced:
  assumes env: "policy_env_ok env" and run: "reaches (policy_step env) (policy_start json created) es s"
    and status: "load_status_at env observed (pn_db s) = Inr st"
  shows "\<exists>t. pv_from_unix env (max observed (pn_latest s)) = Some t
    \<and> mu_utc_month (py_month_usage st) = usage_month_key env t
    \<and> uint (mu_observed_bytes (py_month_usage st)) = pn_ledger s (usage_month_key env t)
    \<and> (\<forall>m. pn_ledger s m \<noteq> 0 \<longrightarrow> m \<le> usage_month_key env t)
    \<and> (py_availability st = Available \<longleftrightarrow>
         \<not> pp_paused (py_policy st) \<and> schedule_allows env (py_policy st) t
         \<and> (\<forall>cap. pp_monthly_transfer_cap_bytes (py_policy st) = Some cap \<longrightarrow> pn_ledger s (usage_month_key env t) < uint cap))"
proof -
  from policy_reaches_inv [OF env run] obtain u where u: "pd_usage (pn_db s) = Some u" "usage_ok env (pn_latest s) (pn_ledger s) u"
    by (auto simp: policy_inv_def)
  then have w: "us_high_watermark u = pn_latest s" by (simp add: usage_ok_def)
  from status u(1) w obtain t where t: "pv_from_unix env (max observed (pn_latest s)) = Some t"
    and st: "load_status_components env t (fst (rolled_usage u (usage_month_key env t)))
       (snd (rolled_usage u (usage_month_key env t))) (us_last_observed_at u) (pn_db s) = Inr st" by (elim load_status_at_Inr) simp
  note rolled = rolled_usage_ok [OF env u(2) t]
  have bytes: "pn_ledger s (usage_month_key env t) = uint (mu_observed_bytes (py_month_usage st))"
    using status_components_Inr(3) [OF st] rolled by (simp add: u64_of_int_Some)
  have later: "usage_ok env (max observed (pn_latest s)) (pn_ledger s) (u\<lparr>us_utc_month := usage_month_key env t,
      us_observed_bytes := pn_ledger s (usage_month_key env t), us_high_watermark := max observed (pn_latest s)\<rparr>)"
    using usage_ok_step [OF env u(2) t, of _ 0] by simp
  have "0 \<le> max observed (pn_latest s)" using u(2) by (simp add: usage_ok_def le_max_iff_disj)
  from usage_key_nonempty [OF env this t] have past: "\<forall>m. pn_ledger s m \<noteq> 0 \<longrightarrow> m \<le> usage_month_key env t" using later by (simp add: usage_ok_def)
  have "py_availability st = Available \<longleftrightarrow>
      \<not> pp_paused (py_policy st) \<and> schedule_allows env (py_policy st) t
      \<and> (\<forall>cap. pp_monthly_transfer_cap_bytes (py_policy st) = Some cap \<longrightarrow> pn_ledger s (usage_month_key env t) < uint cap)"
    by (simp only: status_components_Inr(1) [OF st] available_iff bytes word_less_def)
  moreover have "mu_utc_month (py_month_usage st) = usage_month_key env t" using status_components_Inr(2) [OF st] rolled by simp
  ultimately show ?thesis using t past bytes by (intro exI [of _ t]) simp
qed

theorem provider_limits_enforced_witness:
  "\<exists>st. load_status_at demo_policy_env 500 (pn_db demo_used) = Inr st \<and> py_availability st \<noteq> Available
     \<and> uint (mu_observed_bytes (py_month_usage st)) = 1048576"
proof -
  obtain st where st: "load_status_at demo_policy_env 500 (pn_db demo_used) = Inr st" "py_policy st = demo_capped"
    using demo_used_status by (auto simp: demo_used_def)
  have "pv_from_unix demo_policy_env (max 500 (pn_latest demo_used)) = Some \<lparr>instant = 1000000000000, utc_offset = 0\<rparr>"
    by (simp add: demo_policy_env_def demo_used_def)
  with provider_limits_enforced [OF demo_policy_env_ok demo_usage_step st(1)] st show ?thesis
    by (auto simp: demo_policy_month demo_used_def demo_capped_def)
qed

text \<open>Claim C38: a window of the weekly schedule is an interval of the week: the minutes from its start on, as many as
  from its start to its end, around midnight and around the end of the week.\<close>

theorem schedule_window_interval:
  assumes "window_validate w = Inr ()" and clock: "pv_hour env t < 24" "pv_minute env t < 60"
  shows "window_contains env w t \<longleftrightarrow>
    (minute_of_week env t - ((uint (sw_weekday w) - 1) * 1440 + uint (sw_start_minute w))) mod 10080
      < (uint (sw_end_minute w) - uint (sw_start_minute w)) mod 1440"
proof -
  from assms(1) have w: "1 \<le> uint (sw_weekday w)" "uint (sw_weekday w) \<le> 7" "uint (sw_start_minute w) < 1440"
    "uint (sw_end_minute w) < 1440" "uint (sw_start_minute w) \<noteq> uint (sw_end_minute w)"
    by (auto simp: window_validate_def word_le_def word_less_def word_uint_eq_iff split: if_splits)
  have m: "0 \<le> uint (minute_of_day env t)" "uint (minute_of_day env t) < 1440"
    using clock by (simp_all add: minute_of_day_uint word_less_def)
  have "uint (next_weekday (sw_weekday w)) = (if uint (sw_weekday w) = 7 then 1 else uint (sw_weekday w) + 1)"
    using w by (auto simp: next_weekday_def uint_word_ariths word_uint_eq_iff)
  then have "window_contains env w t \<longleftrightarrow>
      (if uint (sw_start_minute w) < uint (sw_end_minute w)
       then uint (iso_weekday (pv_weekday env t)) = uint (sw_weekday w) \<and> uint (sw_start_minute w) \<le> uint (minute_of_day env t)
         \<and> uint (minute_of_day env t) < uint (sw_end_minute w)
       else (uint (iso_weekday (pv_weekday env t)) = uint (sw_weekday w) \<and> uint (sw_start_minute w) \<le> uint (minute_of_day env t))
         \<or> (uint (iso_weekday (pv_weekday env t)) = (if uint (sw_weekday w) = 7 then 1 else uint (sw_weekday w) + 1)
             \<and> uint (minute_of_day env t) < uint (sw_end_minute w)))"
    by (simp only: window_contains_def Let_def word_uint_eq_iff word_le_def word_less_def)
  also have "\<dots> \<longleftrightarrow> (minute_of_week env t - ((uint (sw_weekday w) - 1) * 1440 + uint (sw_start_minute w))) mod 10080
      < (uint (sw_end_minute w) - uint (sw_start_minute w)) mod 1440"
    unfolding minute_of_week_def
    using iso_weekday_range w m by (intro window_arith) simp_all
  finally show ?thesis .
qed


theorem schedule_window_interval_witness:
  "window_contains demo_policy_env \<lparr>sw_weekday = 7, sw_start_minute = 1380, sw_end_minute = 60\<rparr> \<lparr>instant = 0, utc_offset = 0\<rparr>"
proof -
  let ?w = "\<lparr>sw_weekday = 7, sw_start_minute = 1380, sw_end_minute = 60\<rparr> :: schedule_window"
  have "window_validate ?w = Inr ()" by (simp add: window_validate_def)
  moreover have "pv_hour demo_policy_env t < 24" "pv_minute demo_policy_env t < 60" for t by (simp_all add: demo_policy_env_def)
  ultimately show ?thesis
    using schedule_window_interval [of ?w demo_policy_env "\<lparr>instant = 0, utc_offset = 0\<rparr>"]
    by (simp add: minute_of_week_def minute_of_day_def demo_policy_env_def)
qed

end
