(* ===== verification/Node_Heartbeat_Properties.thy ===== *)
theory Node_Heartbeat_Properties
  imports Node_Heartbeat Provider_Policy_Properties
begin

text \<open>
  What a node advertises: nothing outside the limits and the consent of its owner, and no heartbeat at all while two
  of its endpoints coincide.
\<close>

section \<open>What a heartbeat contains\<close>

lemma current_heartbeat_Inr:
  assumes "current_heartbeat env io pdb db cursor runtime generation relay = Inr h"
  shows "heartbeat_state env io pdb runtime = Inr (hb_state h)"
    "heartbeat_endpoints env io pdb db (hb_state h) (rv_applied (hb_revisions h)) relay = Inr (hb_endpoints h)"
    "validate_heartbeat h = Inr ()"
    "pd_applied pdb = Some (Some v) \<Longrightarrow> optional_revision v ''applied'' = Inr (rv_applied (hb_revisions h))"
  using assms unfolding current_heartbeat_def rbind_eq_Inr Let_def
  by (auto simp: rbind_eq_Inr split: if_splits)

lemma heartbeat_state_serving:
  assumes "heartbeat_state env io pdb runtime = Inr NodeServing" and "pd_policy_table pdb"
  shows "runtime = NodeServing \<and> (\<exists>st. load_status_at env (hi_now io) pdb = Inr st \<and> py_availability st = Available)"
  using assms by (auto simp: heartbeat_state_def allows_advertising_def rbind_eq_Inr split: if_splits)

lemma heartbeat_endpoints_in:
  assumes "heartbeat_endpoints env io pdb db state applied relay = Inr cs" and "c \<in> set cs"
  obtains "state = NodeServing" "relay = Some c" "Some (ec_applied_revision c) = applied"
  | direct where "state = NodeServing" "heartbeat_candidates env (hi_now io) (hi_clock io) pdb db applied = Inr direct" "c \<in> set direct"
  using assms by (cases relay) (auto simp: heartbeat_endpoints_def rbind_eq_Inr split: if_splits)

text \<open>Where a direct endpoint comes from: the manual endpoint of the owner, or a mapping the owner consented to.\<close>

definition manual_origin :: "policy_env \<Rightarrow> provider_db \<Rightarrow> int \<Rightarrow> endpoint_candidate \<Rightarrow> bool" where
  "manual_origin env pdb clock c \<longleftrightarrow>
     (\<exists>r. pd_manual pdb = Some r \<and> clock < mn_expires_at r \<and> mn_expires_at r - mn_configured_at r \<le> 30 * 24 * 60 * 60
        \<and> ec_mode c = DirectMode \<and> ec_source c = Manual \<and> id_from_str env (mn_endpoint_id r) = Inr (ec_endpoint_id c)
        \<and> ec_address c = mn_address r \<and> validate_endpoint_address (mn_address r) = Inr ()
        \<and> uint (ec_port c) = mn_public_port r \<and> 1 \<le> mn_public_port r \<and> ec_applied_revision c = mn_applied_revision r
        \<and> map_option timestamp_from_datetime (pv_from_unix env (mn_observed_at r)) = Some (ec_observed_at c)
        \<and> map_option timestamp_from_datetime (pv_from_unix env (mn_expires_at r)) = ec_expires_at c \<and> ec_expires_at c \<noteq> None)"

definition mapping_origin :: "policy_env \<Rightarrow> node_db \<Rightarrow> int \<Rightarrow> endpoint_candidate \<Rightarrow> bool" where
  "mapping_origin env db clock c \<longleftrightarrow>
     (\<exists>p r a. db_policy db = Some p \<and> pr_enabled p \<and> pr_consented_at p \<noteq> None
        \<and> r \<in> set (db_leases db) \<and> lr_state r = ''active'' \<and> clock < lr_lease_expires_at r
        \<and> lr_lease_expires_at r - lr_lease_started_at r \<le> 86400 \<and> 1 \<le> lr_external_port r
        \<and> lr_external_address r = show_v4 a \<and> is_publishable_ipv4 a \<and> candidate_of_lease env (pv_from_unix env) r c)"

lemma manual_candidate_Inr:
  assumes "load_manual_candidate env observed clock pdb revision = Inr (Some c)"
    and ok: "\<forall>r. pd_manual pdb = Some r \<longrightarrow> manual_ok r"
  shows "manual_origin env pdb clock c \<and> ec_applied_revision c = revision"
proof -
  from assms(1) obtain r where r: "pd_manual pdb = Some r" "mn_applied_revision r = revision" "clock < mn_expires_at r"
    by (auto simp: load_manual_candidate_def rbind_eq_Inr unix_timestamp_def split: if_splits option.splits)
  have manual: "manual_ok r" using ok r(1) by simp
  from assms(1) r obtain id p rv t1 t2 where p: "u16_of_int (mn_public_port r) = Some p" "positive_new revision = Inr rv"
    "id_from_str env (mn_endpoint_id r) = Inr id" "timestamp_from_unix (pv_from_unix env) (mn_observed_at r) = Inr t1"
    "timestamp_from_unix (pv_from_unix env) (mn_expires_at r) = Inr t2"
    "c = \<lparr>ec_endpoint_id = id, ec_mode = DirectMode, ec_source = Manual, ec_address = mn_address r, ec_port = p,
          ec_applied_revision = rv, ec_observed_at = t1, ec_expires_at = Some t2\<rparr>"
    by (auto simp: load_manual_candidate_def rbind_eq_Inr split: if_splits)
  then show ?thesis using r manual u16_of_int_Some [OF p(1)] positive_new_Inr [OF p(2)]
    by (auto simp: manual_origin_def manual_ok_def manual_check_def timestamp_from_unix_Inr)
qed

lemma manual_candidate_place:
  assumes "load_manual_candidate env observed clock pdb revision = Inr (Some m)"
  shows "ec_mode m = DirectMode \<and> ec_applied_revision m = revision \<and> 0 < revision \<and> allows_advertising env observed pdb = Inr True"
proof -
  from assms obtain r where r: "pd_manual pdb = Some r" "mn_applied_revision r = revision" "allows_advertising env observed pdb = Inr True"
    by (auto simp: load_manual_candidate_def rbind_eq_Inr split: if_splits option.splits)
  with assms show ?thesis
    by (auto simp: load_manual_candidate_def rbind_eq_Inr positive_new_def split: if_splits)
qed

lemma candidate_mode: "candidate_from pe fu r = Inr c \<Longrightarrow> ec_mode c = DirectMode \<and> ec_applied_revision c = lr_applied_revision r"
  by (drule candidate_from_lease) (simp add: candidate_of_lease_def)

lemma mapped_candidate_place:
  assumes "load_heartbeat_candidates pe fu (Inr None) clock db (Some revision) = Inr cs" and "c \<in> set cs"
  shows "ec_mode c = DirectMode \<and> ec_applied_revision c = revision"
proof -
  from assms obtain t where
    "candidates_from pe fu (sort_key lr_endpoint_id (filter (publishable_row revision t) (db_leases db))) = Inr cs"
    by (auto simp: load_heartbeat_candidates_def rbind_eq_Inr Let_def split: if_splits)
  from candidates_from_Inr [OF this] assms(2) candidate_mode show ?thesis by (fastforce simp: publishable_row_def)
qed

lemma load_candidates_manual:
  "load_heartbeat_candidates pe fu (Inr None) clock db (Some revision) = Inr cs \<Longrightarrow>
   load_heartbeat_candidates pe fu (Inr (Some m)) clock db (Some revision) = Inr (m # cs)"
  by (auto simp: load_heartbeat_candidates_def rbind_eq_Inr Let_def split: if_splits)

lemma repeated_place:
  assumes "candidate_place m = candidate_place c"
  shows "card (candidate_place ` set (m # c # cs)) \<noteq> length (m # c # cs)"
proof -
  have "candidate_place ` set (m # c # cs) = set (map candidate_place (c # cs))" using assms by auto
  then have "card (candidate_place ` set (m # c # cs)) \<le> length (map candidate_place (c # cs))" by (metis card_length)
  then show ?thesis by simp
qed

lemma direct_origin:
  assumes ok: "db_ok db" and manual: "\<forall>r. pd_manual pdb = Some r \<longrightarrow> manual_ok r"
    and direct: "heartbeat_candidates env observed clock pdb db applied = Inr direct" and c: "c \<in> set direct"
  shows "Some (ec_applied_revision c) = applied \<and> (manual_origin env pdb clock c \<or> mapping_origin env db clock c)"
proof -
  from direct c obtain revision where applied: "applied = Some revision"
    by (cases applied) (auto simp: heartbeat_candidates_def load_heartbeat_candidates_def)
  from mapping_candidates_sound [OF ok direct [unfolded heartbeat_candidates_def applied option.case]] obtain m found where
    m: "load_manual_candidate env observed clock pdb revision = Inr m"
    and cs: "direct = (case m of None \<Rightarrow> [] | Some c \<Rightarrow> [c]) @ found"
    and found: "c \<in> set found \<Longrightarrow> ec_applied_revision c = revision \<and> mapping_origin env db clock c"
    unfolding mapping_origin_def candidate_of_lease_def by metis
  from c cs consider "m = Some c" | "c \<in> set found" by (auto split: option.splits)
  then show ?thesis
  proof cases
    case 1
    from manual_candidate_Inr [OF m [unfolded 1] manual] applied show ?thesis by simp
  next
    case 2
    from found [OF 2] applied show ?thesis by simp
  qed
qed

section \<open>A node with a manual endpoint and a lease at the same place\<close>

definition demo_address :: string where "demo_address = show_v4 (Ipv4 93 184 216 34)"
definition demo_id :: string where "demo_id = replicate 36 (CHR ''a'')"

definition demo_manual_input :: manual_input where
  "demo_manual_input = \<lparr>mi_address = demo_address, mi_public_port = 443, mi_forwarded_local_port = 8443, mi_ttl_seconds = 3600\<rparr>"

definition demo_applied_db :: provider_db where
  "demo_applied_db = (initial_provider_db ''{}'' 0)\<lparr>pd_applied := Some (Some 7), pd_artifacts := [7]\<rparr>"

definition demo_manual_db :: provider_db where
  "demo_manual_db = demo_applied_db\<lparr>pd_manual := Some \<lparr>mn_endpoint_id = demo_id, mn_address = demo_address, mn_public_port = 443,
      mn_forwarded_local_port = 8443, mn_applied_revision = 7, mn_observed_at = 1000, mn_expires_at = 4600, mn_configured_at = 1000\<rparr>\<rparr>"

definition demo_manual_candidate :: endpoint_candidate where
  "demo_manual_candidate =
     \<lparr>ec_endpoint_id = str_bytes demo_id, ec_mode = DirectMode, ec_source = Manual, ec_address = demo_address, ec_port = 443,
      ec_applied_revision = 7, ec_observed_at = \<lparr>instant = 1000000000000, utc_offset = 0\<rparr>,
      ec_expires_at = Some \<lparr>instant = 4600000000000, utc_offset = 0\<rparr>\<rparr>"

definition demo_heartbeat_io :: heartbeat_io where
  "demo_heartbeat_io = \<lparr>hi_results = [(7, ''validated'')], hi_agent_version = ''1'', hi_xray_version = Inr None,
     hi_telemetry_cursor = Inr 0, hi_now = 2000, hi_clock = 2000\<rparr>"

lemma show_v4_plain:
  "\<not> list_ex char_is_whitespace (utf8_chars (str_bytes (show_v4 a)))" "\<not> list_ex char_is_control (utf8_chars (str_bytes (show_v4 a)))"
  "CHR ''/'' \<notin> set (show_v4 a)"
  using show_v4_code [of _ a] by (fastforce simp: show_v4_utf8 list_ex_iff char_is_whitespace_def char_is_control_def)+

lemma show_v4_address: "is_public_v4 a \<Longrightarrow> validate_endpoint_address (show_v4 a) = Inr ()"
  using show_v4_length [of a] show_v4_plain [of a] by (auto simp: validate_endpoint_address_def)

lemma show_v4_short_text: "validate_short_text (show_v4 a) 253 field = Inr ()"
  using show_v4_length [of a] show_v4_plain [of a] by (auto simp: validate_short_text_def)

lemma demo_address_valid: "validate_endpoint_address demo_address = Inr ()"
  unfolding demo_address_def by (rule show_v4_address) simp

lemma demo_from_unix: "0 \<le> s \<Longrightarrow> s < 100000000000 \<Longrightarrow> pv_from_unix demo_policy_env s = Some \<lparr>instant = s * 1000000000, utc_offset = 0\<rparr>"
  by (simp add: demo_policy_env_def)


lemma demo_id_from_str: "id_from_str demo_policy_env demo_id = Inr (str_bytes demo_id)"
  by (simp add: id_from_str_def demo_policy_env_def bytes_str_def str_bytes_def comp_def)

lemma demo_manual_configured:
  "configure_manual_endpoint demo_policy_env (\<lambda>_. Inr 8443) (demo_policy_io\<lparr>pv_endpoint_id := demo_id\<rparr>) demo_manual_input demo_applied_db
   = (demo_manual_db, Inr \<lparr>me_configured = True, me_current = True, me_applied_revision = Some 7,
        me_expires_at = Some \<lparr>instant = 4600000000000, utc_offset = 0\<rparr>\<rparr>)"
proof -
  have valid: "validate_manual_input demo_manual_input = Inr ()"
    by (simp add: validate_manual_input_def demo_manual_input_def demo_address_valid MIN_MANUAL_ENDPOINT_TTL_SECONDS_def
        MAX_MANUAL_ENDPOINT_TTL_SECONDS_def)
  have length: "length demo_id = 36" "1 \<le> length demo_address" "length demo_address \<le> 253"
    using show_v4_length [of "Ipv4 93 184 216 34"] by (simp_all add: demo_id_def demo_address_def del: show_v4.simps)
  show ?thesis unfolding configure_manual_endpoint_def valid
    by (simp add: sbind_def sresult_def opened_def reading_def current_admission_target_def current_applied_revision_def
        demo_applied_db_def context_err_def map_err_def positive_new_def ok_or_def demo_manual_input_def demo_policy_io_def
        unix_timestamp_def transaction_def statement_def put_manual_def manual_check_def length [simplified] demo_manual_db_def
        load_manual_status_def timestamp_from_unix_def demo_from_unix timestamp_from_datetime_def)
qed

lemma demo_manual_run:
  "\<exists>ps. reaches (policy_step demo_policy_env) (policy_start ''{}'' 0) [TablesElsewhere, ManualChanged] ps \<and> pn_db ps = demo_manual_db"
proof -
  let ?s = "(policy_start ''{}'' 0)\<lparr>pn_db := demo_applied_db\<rparr>"
  have "policy_step demo_policy_env (policy_start ''{}'' 0) TablesElsewhere ?s"
    using policy_step.tables_elsewhere [of demo_policy_env "policy_start ''{}'' 0" "[7]" "Some (Some 7)"]
    by (simp add: policy_start_def demo_applied_db_def)
  from reaches_snoc [of "policy_step demo_policy_env", OF reaches_Nil this]
  have one: "reaches (policy_step demo_policy_env) (policy_start ''{}'' 0) [TablesElsewhere] ?s" by simp
  have "configure_manual_endpoint demo_policy_env (\<lambda>_. Inr 8443) (demo_policy_io\<lparr>pv_endpoint_id := demo_id\<rparr>) demo_manual_input (pn_db ?s)
      = (demo_manual_db, Inr \<lparr>me_configured = True, me_current = True, me_applied_revision = Some 7,
          me_expires_at = Some \<lparr>instant = 4600000000000, utc_offset = 0\<rparr>\<rparr>)" by (simp add: demo_manual_configured)
  from reaches_snoc [of "policy_step demo_policy_env", OF one policy_step.manual_configured [OF this]] show ?thesis by auto
qed

lemma demo_month_later: "usage_month_key demo_policy_env \<lparr>instant = 2000000000000, utc_offset = 0\<rparr> = ''1970-01''"
  by code_simp

lemma demo_allowed: "allows_advertising demo_policy_env 2000 demo_manual_db = Inr True"
proof -
  have valid: "validate_provider_policy demo_capped = Inr ()"
    by (simp add: validate_provider_policy_def demo_capped_def default_policy_def PROVIDER_POLICY_SCHEMA_VERSION_def
        MAX_SCHEDULE_WINDOWS_def MIN_MONTHLY_CAP_BYTES_def MAX_CONCURRENT_SESSIONS_def MIN_BANDWIDTH_LIMIT_BPS_def
        MAX_BANDWIDTH_LIMIT_BPS_def)
  have cap: "pp_monthly_transfer_cap_bytes demo_capped = Some 1048576" "\<not> pp_paused demo_capped" "schedule_allows demo_policy_env demo_capped t" for t
    by (simp_all add: demo_capped_def default_policy_def schedule_allows_def)
  have of: "pv_policy_of demo_policy_env j = Some demo_capped" for j by (simp add: demo_policy_env_def)
  show ?thesis
    by (simp add: allows_advertising_def load_status_at_def demo_manual_db_def demo_applied_db_def load_usage_row_def ok_or_def
        effective_time_def demo_from_unix demo_month_later rolled_usage_def load_status_components_def initial_provider_db_def of valid
        u64_of_int_def current_applied_revision_def load_manual_status_def timestamp_from_unix_def validate_policy_status_def
        status_metadata_invalid_def USAGE_COVERAGE_def Let_def cap availability_at_def context_err_def positive_new_def map_err_def
        timestamp_from_datetime_def)
qed

lemma demo_manual_loaded: "load_manual_candidate demo_policy_env 2000 2000 demo_manual_db 7 = Inr (Some demo_manual_candidate)"
  by (simp add: load_manual_candidate_def demo_allowed)
    (simp add: demo_manual_db_def demo_applied_db_def initial_provider_db_def unix_timestamp_def demo_id_from_str u16_of_int_def
      positive_new_def timestamp_from_unix_def demo_from_unix demo_manual_candidate_def ok_or_def context_err_def map_err_def
      timestamp_from_datetime_def)

definition demo_lease :: lease_row where
  "demo_lease =
     \<lparr>lr_mapping_id = demo_id, lr_endpoint_id = replicate 36 (CHR ''b''), lr_applied_revision = 7, lr_source = ''upnp'',
      lr_gateway_address = ''192.168.1.1'', lr_internal_address = ''192.168.1.20'', lr_internal_port = 8443,
      lr_external_address = demo_address, lr_external_port = 443, lr_pcp_nonce = None, lr_upnp_description = Some ''FriendNode'',
      lr_gateway_epoch = None, lr_topology_fingerprint = None, lr_lease_started_at = 1000, lr_lease_expires_at = 4600,
      lr_state = ''active'', lr_failure_code = None, lr_ended_at = None, lr_created_at = 1000, lr_updated_at = 1000\<rparr>"

definition demo_mapped_db :: node_db where
  "demo_mapped_db =
     \<lparr>db_policy = Some \<lparr>pr_enabled = True, pr_consented_at = Some 500, pr_last_error_code = None, pr_last_attempt_at = None,
                       pr_updated_at = 500\<rparr>,
      db_leases = [demo_lease], db_node_id = Some demo_id, db_rendered = [7]\<rparr>"

definition demo_mapped_candidate :: endpoint_candidate where
  "demo_mapped_candidate = demo_manual_candidate\<lparr>ec_endpoint_id := str_bytes (replicate 36 (CHR ''b'')), ec_source := Upnp\<rparr>"

lemma demo_mapping_loaded:
  "load_heartbeat_candidates demo_policy_env (pv_from_unix demo_policy_env) (Inr None) 2000 demo_mapped_db (Some 7) = Inr [demo_mapped_candidate]"
proof -
  have "id_from_str demo_policy_env (replicate 36 (CHR ''b'')) = Inr (str_bytes (replicate 36 (CHR ''b'')))"
    by (simp add: id_from_str_def demo_policy_env_def bytes_str_def str_bytes_def comp_def)
  then have "candidate_from demo_policy_env (pv_from_unix demo_policy_env) demo_lease = Inr demo_mapped_candidate"
    by (simp add: candidate_from_def demo_lease_def parse_source_def u16_of_int_def positive_new_def timestamp_from_unix_def
        demo_from_unix ok_or_def context_err_def map_err_def timestamp_from_datetime_def demo_mapped_candidate_def
        demo_manual_candidate_def)
  moreover have "publishable_row 7 2000 demo_lease" by (simp add: publishable_row_def demo_lease_def)
  ultimately show ?thesis
    by (simp add: load_heartbeat_candidates_def demo_mapped_db_def load_policy_def unix_timestamp_def)
qed

lemma demo_heartbeat:
  "\<exists>h. current_heartbeat demo_policy_env demo_heartbeat_io demo_manual_db initial_db 7 NodeServing 1 None = Inr h
     \<and> hb_endpoints h = [demo_manual_candidate]"
proof -
  let ?h = "\<lparr>hb_generation = 1, hb_agent_version = ''1'', hb_xray_version = None, hb_state = NodeServing,
    hb_revisions = \<lparr>rv_desired = Some 7, rv_received = Some 7, rv_validated = Some 7, rv_applied = Some 7\<rparr>,
    hb_provider_paused = False, hb_endpoints = [demo_manual_candidate], hb_telemetry_cursor = 0\<rparr>"
  have endpoint: "validate_endpoint (Some 7) demo_manual_candidate = Inr ()"
    using show_v4_short_text [of "Ipv4 93 184 216 34"] show_v4_plain [of "Ipv4 93 184 216 34"]
    by (simp add: validate_endpoint_def validate_candidate_def demo_manual_candidate_def demo_address_def del: show_v4.simps)
  have "validate_short_text ''1'' 64 field = Inr ()" for field
    by (simp add: validate_short_text_def str_bytes_def byte_of_def char_is_control_def)
  then have valid: "validate_heartbeat ?h = Inr ()" by (simp add: validate_heartbeat_def validate_progress_def endpoint)
  have "heartbeat_candidates demo_policy_env 2000 2000 demo_manual_db initial_db (Some 7) = Inr [demo_manual_candidate]"
    by (simp add: heartbeat_candidates_def demo_manual_loaded load_heartbeat_candidates_def load_policy_def initial_db_def)
  moreover have "pd_applied demo_manual_db = Some (Some 7)" by (simp add: demo_manual_db_def demo_applied_db_def)
  ultimately have "current_heartbeat demo_policy_env demo_heartbeat_io demo_manual_db initial_db 7 NodeServing 1 None = Inr ?h"
    by (simp add: current_heartbeat_def heartbeat_state_def demo_heartbeat_io_def demo_allowed max_revision_def optional_revision_def
        positive_new_def context_err_def map_err_def heartbeat_endpoints_def Let_def valid)
  then show ?thesis by simp
qed

section \<open>Properties\<close>

text \<open>Claim C35: what a node advertises. In every run of the policy and of the router mapping, an endpoint in a heartbeat
  means that the node serves and its owner's limits allow it: it is not paused, within its schedule and below its cap.
  The endpoint is for the applied revision, and it is the relay's, or the manual endpoint of the owner with a validated
  address and time left of at most thirty days from its configuration, or an active lease of a router mapping with recorded
  consent, time left, a lease of at most a day and an address of the public Internet. A manual endpoint has the identity,
  address, port, revision and times of its row, and a mapped one those of its lease with the external address and port.\<close>

theorem heartbeat_endpoints_sound:
  assumes env: "policy_env_ok env"
    and policy: "reaches (policy_step env) (policy_start json created) es ps"
    and mapping: "reaches (mapping_step env) mapping_start es' ms"
    and hb: "current_heartbeat env io (pn_db ps) (ps_db ms) cursor runtime generation relay = Inr h"
    and c: "c \<in> set (hb_endpoints h)"
  shows "hb_state h = NodeServing \<and> runtime = NodeServing
    \<and> (\<exists>st. load_status_at env (hi_now io) (pn_db ps) = Inr st \<and> py_availability st = Available)
    \<and> Some (ec_applied_revision c) = rv_applied (hb_revisions h)
    \<and> (relay = Some c \<or> manual_origin env (pn_db ps) (hi_clock io) c \<or> mapping_origin env (ps_db ms) (hi_clock io) c)"
proof -
  have inv: "pd_policy_table (pn_db ps)" "\<forall>r. pd_manual (pn_db ps) = Some r \<longrightarrow> manual_ok r"
    using policy_reaches_inv [OF env policy] by (simp_all add: policy_inv_def)
  have ok: "db_ok (ps_db ms)" using ms.reaches_inv [OF mapping mapping_start_ok] by (simp add: pass_ok_def)
  note parts = current_heartbeat_Inr [OF hb]
  have origin: "hb_state h = NodeServing \<and> Some (ec_applied_revision c) = rv_applied (hb_revisions h)
      \<and> (relay = Some c \<or> manual_origin env (pn_db ps) (hi_clock io) c \<or> mapping_origin env (ps_db ms) (hi_clock io) c)"
    using parts(2) c
  proof (cases rule: heartbeat_endpoints_in)
    case (2 direct)
    then show ?thesis using direct_origin [OF ok inv(2) 2(2,3)] by simp
  qed simp
  then have "heartbeat_state env io (pn_db ps) runtime = Inr NodeServing" using parts(1) by simp
  from heartbeat_state_serving [OF this inv(1)] origin show ?thesis by simp
qed

theorem heartbeat_endpoints_sound_witness:
  "\<exists>h. current_heartbeat demo_policy_env demo_heartbeat_io demo_manual_db initial_db 7 NodeServing 1 None = Inr h
     \<and> hb_endpoints h = [demo_manual_candidate] \<and> manual_origin demo_policy_env demo_manual_db 2000 demo_manual_candidate"
proof -
  obtain ps where ps: "reaches (policy_step demo_policy_env) (policy_start ''{}'' 0) [TablesElsewhere, ManualChanged] ps"
    "pn_db ps = demo_manual_db" using demo_manual_run by blast
  obtain h where h: "current_heartbeat demo_policy_env demo_heartbeat_io (pn_db ps) (ps_db mapping_start) 7 NodeServing 1 None = Inr h"
    "hb_endpoints h = [demo_manual_candidate]" using demo_heartbeat by (auto simp: mapping_start_def ps(2))
  from heartbeat_endpoints_sound [OF demo_policy_env_ok ps(1) reaches_Nil h(1), of demo_manual_candidate] h ps(2)
  have "manual_origin demo_policy_env demo_manual_db 2000 demo_manual_candidate"
    by (auto simp: mapping_origin_def mapping_start_def initial_db_def demo_heartbeat_io_def)
  with h ps(2) show ?thesis by (auto simp: mapping_start_def)
qed

text \<open>Claim C39: two endpoints that coincide silence the node. While the manual endpoint and the router mapping are at
  the same address and port, which the owner's configuration and the router may bring about, a serving node builds no
  heartbeat: the one it assembles fails its own validation, whatever the rest of its state is.\<close>

theorem coinciding_endpoints_silence:
  assumes manual: "load_manual_candidate env (hi_now io) (hi_clock io) pdb revision = Inr (Some m)"
    and mapped: "load_heartbeat_candidates env (pv_from_unix env) (Inr None) (hi_clock io) db (Some revision) = Inr [c]"
    and same: "ec_address m = ec_address c" "ec_port m = ec_port c"
    and applied: "pd_applied pdb = Some (Some revision)"
  shows "\<not> is_ok (current_heartbeat env io pdb db cursor NodeServing generation relay)"
proof
  assume "is_ok (current_heartbeat env io pdb db cursor NodeServing generation relay)"
  then obtain h where h: "current_heartbeat env io pdb db cursor NodeServing generation relay = Inr h" by (auto simp: is_ok_iff)
  note parts = current_heartbeat_Inr [OF h]
  have "hb_state h = NodeServing" using parts(1) manual_candidate_place [OF manual] by (simp add: heartbeat_state_def)
  moreover have "rv_applied (hb_revisions h) = Some revision"
    using parts(4) [OF applied] manual_candidate_place [OF manual]
    by (auto simp: optional_revision_def positive_new_def rbind_eq_Inr)
  ultimately have "\<exists>cs. hb_endpoints h = m # c # cs"
    using parts(2) load_candidates_manual [OF mapped, of m]
    by (cases relay) (auto simp: heartbeat_endpoints_def heartbeat_candidates_def manual split: if_splits dest: sym)
  then have "card (candidate_place ` set (hb_endpoints h)) \<noteq> length (hb_endpoints h)"
    using repeated_place [of m c] same manual_candidate_place [OF manual] mapped_candidate_place [OF mapped]
    by (auto simp: candidate_place_def)
  then show False using parts(3) by (auto simp: validate_heartbeat_def rbind_eq_Inr split: if_splits)
qed

theorem coinciding_endpoints_silence_witness:
  "\<not> is_ok (current_heartbeat demo_policy_env demo_heartbeat_io demo_manual_db demo_mapped_db 7 NodeServing 1 None)"
  using coinciding_endpoints_silence [of demo_policy_env demo_heartbeat_io demo_manual_db 7 demo_manual_candidate demo_mapped_db]
    demo_manual_loaded demo_mapping_loaded
  by (simp add: demo_heartbeat_io_def demo_mapped_candidate_def demo_manual_candidate_def demo_manual_db_def demo_applied_db_def)

end
