(* ===== verification/Controller_Documents.thy ===== *)
theory Controller_Documents
  imports Node_Heartbeat Relay_Grant
begin

text \<open>
  The documents that the controller signs for a node: the desired state of a revision (\<open>DesiredStateDocument\<close> of
  \<open>crates/control-protocol/src/node.rs\<close>) and the answer to a heartbeat, with the transcripts their signatures cover
  (\<open>desired.rs\<close> and \<open>node_status.rs\<close>).
\<close>

section \<open>Desired state\<close>

record desired_user =
  du_user_id :: uuid
  du_credential_id :: uuid
  du_vless_uuid :: string
  du_enabled :: bool

record desired_xray =
  dx_listen_port :: u16
  dx_public_port :: "u16 option"
  dx_server_names :: "string list"
  dx_target :: string

record desired_document =
  dd_schema_version :: u16
  dd_network_id :: uuid
  dd_node_id :: uuid
  dd_revision :: int
  dd_created_at :: odt
  dd_min_agent_version :: string
  dd_users :: "desired_user list"
  dd_xray :: desired_xray
  dd_signing_key_id :: uuid
  dd_controller_instance_id :: uuid

record signed_desired =
  sd_document :: desired_document
  sd_signature :: string

definition SUPPORTED_DESIRED_SCHEMAS :: "u16 list" where "SUPPORTED_DESIRED_SCHEMAS = [1, 2]"

definition canonical_uuid :: "'z proto_env_scheme \<Rightarrow> string \<Rightarrow> bool" where
  "canonical_uuid pe value = (case uuid_parse pe value of None \<Rightarrow> False | Some parsed \<Rightarrow> uuid_show pe parsed = value)"

text \<open>The loop over the users with the identities it has seen.\<close>

fun validate_users ::
  "'z proto_env_scheme \<Rightarrow> uuid list \<Rightarrow> uuid list \<Rightarrow> desired_user list \<Rightarrow> (protocol_error, unit) result" where
  "validate_users pe user_ids credential_ids [] = Inr ()"
| "validate_users pe user_ids credential_ids (u # us) =
     (if du_user_id u \<in> set user_ids \<or> du_credential_id u \<in> set credential_ids
      then Inl (validation DuplicateIdentity ''users'' ''user and credential IDs must be unique within desired state'')
      else if \<not> canonical_uuid pe (du_vless_uuid u)
      then Inl (validation InvalidFormat ''users.vlessUuid'' ''VLESS credential must be a canonical lowercase UUID'')
      else validate_users pe (du_user_id u # user_ids) (du_credential_id u # credential_ids) us)"

definition validate_ports :: "desired_xray \<Rightarrow> u16 \<Rightarrow> (protocol_error, unit) result" where
  "validate_ports x schema_version =
     (if schema_version = 1
      then (if dx_public_port x \<noteq> None
            then Inl (validation InconsistentState ''xray.publicPort''
                        ''desired-state schema version 1 cannot carry a public admission port'')
            else Inr ())
      else if schema_version = 2
      then (case dx_public_port x of
              None \<Rightarrow> Inl (validation MissingField ''xray.publicPort''
                             ''desired-state schema version 2 requires a public admission port'')
            | Some public_port \<Rightarrow>
                if public_port = 0
                then Inl (validation OutOfRange ''xray.publicPort'' ''public admission port must be non-zero'')
                else if dx_listen_port x < 1024
                then Inl (validation OutOfRange ''xray.listenPort'' ''schema version 2 loopback port must be unprivileged'')
                else if public_port = dx_listen_port x
                then Inl (validation InconsistentState ''xray.publicPort'' ''public admission and Xray loopback ports must differ'')
                else Inr ())
      else Inl (validation UnsupportedSchema ''schemaVersion'' ''desired-state Xray schema version is not supported''))"

fun contains_pair :: "char \<Rightarrow> string \<Rightarrow> bool" where
  "contains_pair c (a # b # s) \<longleftrightarrow> a = c \<and> b = c \<or> contains_pair c (b # s)"
| "contains_pair c _ \<longleftrightarrow> False"

definition validate_xray :: "desired_xray \<Rightarrow> u16 \<Rightarrow> (protocol_error, unit) result" where
  "validate_xray x schema_version =
     (if dx_listen_port x = 0
      then Inl (validation OutOfRange ''xray.listenPort'' ''Xray listen port must be non-zero'')
      else
        rbind (validate_ports x schema_version) (\<lambda>_.
          if dx_server_names x = [] \<or> 16 < length (dx_server_names x)
          then Inl (validation OutOfRange ''xray.serverNames'' ''one to sixteen REALITY server names are required'')
          else
            rbind (check_all (\<lambda>name. validate_short_text name 253 ''xray.serverNames'') (dx_server_names x)) (\<lambda>_.
            rbind (validate_short_text (dx_target x) 259 ''xray.target'') (\<lambda>_.
              if CHR '':'' \<notin> set (dx_target x) \<or> contains_pair (CHR ''/'') (dx_target x)
              then Inl (validation InvalidFormat ''xray.target'' ''Xray target must use host:port form'')
              else Inr ()))))"

definition validate_desired_for ::
  "'z proto_env_scheme \<Rightarrow> desired_document \<Rightarrow> uuid \<Rightarrow> uuid \<Rightarrow> uuid \<Rightarrow> int option \<Rightarrow> u16 list \<Rightarrow> (protocol_error, unit) result" where
  "validate_desired_for pe d network node controller last_seen schemas =
     (if dd_schema_version d \<notin> set schemas
      then Inl (validation UnsupportedSchema ''schemaVersion'' ''desired-state schema version is not supported'')
      else if dd_network_id d \<noteq> network
      then Inl (validation IdentityMismatch ''networkId'' ''desired state is addressed to another network'')
      else if dd_node_id d \<noteq> node
      then Inl (validation IdentityMismatch ''nodeId'' ''desired state is addressed to another node'')
      else if dd_controller_instance_id d \<noteq> controller
      then Inl (validation IdentityMismatch ''controllerInstanceId'' ''desired state belongs to another controller epoch'')
      else if (case last_seen of None \<Rightarrow> False | Some latest \<Rightarrow> dd_revision d \<le> latest)
      then Inl (validation StaleState ''revision'' ''desired-state revision is not newer than local state'')
      else
        rbind (validate_short_text (dd_min_agent_version d) 64 ''minAgentVersion'') (\<lambda>_.
          if 10000 < length (dd_users d)
          then Inl (validation OutOfRange ''users'' ''desired-state user count exceeds the protocol bound'')
          else rbind (validate_users pe [] [] (dd_users d)) (\<lambda>_. validate_xray (dd_xray d) (dd_schema_version d))))"

section \<open>Transcripts\<close>

text \<open>\<open>DesiredStateCryptoError\<close>; \<open>NodeStatusCryptoError\<close> has the same cases but for the schema.\<close>

datatype document_error = DocumentSignature | DocumentFieldTooLarge | DocumentSchema | DocumentInvalid

text \<open>Both files have the same encoder.\<close>

definition doc_bytes :: "string \<Rightarrow> byte list \<Rightarrow> byte list \<Rightarrow> (document_error, byte list) result" where
  "doc_bytes label value t =
     (case u16_try_from (length label) of
        None \<Rightarrow> Inl DocumentFieldTooLarge
      | Some label_length \<Rightarrow>
          (case u32_try_from (length value) of
             None \<Rightarrow> Inl DocumentFieldTooLarge
           | Some value_length \<Rightarrow>
               Inr (t @ u16_be label_length @ str_bytes label @ u32_be value_length @ value)))"

definition doc_new :: "string \<Rightarrow> (document_error, byte list) result" where
  "doc_new domain = doc_bytes ''domain'' (str_bytes domain) []"

definition doc_text :: "string \<Rightarrow> string \<Rightarrow> byte list \<Rightarrow> (document_error, byte list) result" where
  "doc_text label value t = doc_bytes label (str_bytes value) t"

definition doc_count :: "string \<Rightarrow> nat \<Rightarrow> byte list \<Rightarrow> (document_error, byte list) result" where
  "doc_count label value t =
     (case u32_try_from value of None \<Rightarrow> Inl DocumentFieldTooLarge | Some n \<Rightarrow> doc_bytes label (u32_be n) t)"

definition doc_optional_text :: "string \<Rightarrow> string option \<Rightarrow> byte list \<Rightarrow> (document_error, byte list) result" where
  "doc_optional_text label value t =
     rbind (doc_bytes (label @ ''-present'') [if value \<noteq> None then 1 else 0] t) (\<lambda>t1.
       case value of None \<Rightarrow> Inr t1 | Some v \<Rightarrow> doc_text label v t1)"

fun encode_users :: "'z proto_env_scheme \<Rightarrow> desired_user list \<Rightarrow> byte list \<Rightarrow> (document_error, byte list) result" where
  "encode_users pe [] t = Inr t"
| "encode_users pe (u # us) t =
     rbind (doc_text ''user-id'' (uuid_show pe (du_user_id u)) t) (\<lambda>t1.
     rbind (doc_text ''credential-id'' (uuid_show pe (du_credential_id u)) t1) (\<lambda>t2.
     rbind (doc_text ''vless-uuid'' (du_vless_uuid u) t2) (\<lambda>t3.
     rbind (doc_bytes ''enabled'' [if du_enabled u then 1 else 0] t3) (\<lambda>t4.
       encode_users pe us t4))))"

fun encode_names :: "string list \<Rightarrow> byte list \<Rightarrow> (document_error, byte list) result" where
  "encode_names [] t = Inr t"
| "encode_names (n # ns) t = rbind (doc_text ''server-name'' n t) (encode_names ns)"

definition DESIRED_STATE_V1_DOMAIN :: string where "DESIRED_STATE_V1_DOMAIN = ''control/desired-state/v1''"
definition DESIRED_STATE_V2_DOMAIN :: string where "DESIRED_STATE_V2_DOMAIN = ''control/desired-state/v2''"
definition NODE_STATUS_V1_DOMAIN :: string where "NODE_STATUS_V1_DOMAIN = ''control/node-heartbeat-status/v1''"

definition desired_domain :: "desired_document \<Rightarrow> (document_error, string) result" where
  "desired_domain d =
     (if dd_schema_version d = 1 \<and> dx_public_port (dd_xray d) = None then Inr DESIRED_STATE_V1_DOMAIN
      else if dd_schema_version d = 2 \<and> dx_public_port (dd_xray d) \<noteq> None then Inr DESIRED_STATE_V2_DOMAIN
      else if dd_schema_version d = 1 \<or> dd_schema_version d = 2 then Inl DocumentInvalid
      else Inl DocumentSchema)"

definition encode_ports :: "desired_document \<Rightarrow> byte list \<Rightarrow> (document_error, byte list) result" where
  "encode_ports d t =
     (if dd_schema_version d = 1 then doc_bytes ''listen-port'' (u16_be (dx_listen_port (dd_xray d))) t
      else
        rbind (doc_bytes ''loopback-port'' (u16_be (dx_listen_port (dd_xray d))) t) (\<lambda>t1.
          case dx_public_port (dd_xray d) of
            None \<Rightarrow> Inl DocumentInvalid
          | Some public_port \<Rightarrow> doc_bytes ''public-port'' (u16_be public_port) t1))"

definition desired_state_transcript ::
  "'z proto_env_scheme \<Rightarrow> desired_document \<Rightarrow> (document_error, byte list) result" where
  "desired_state_transcript pe d =
     rbind (desired_domain d) (\<lambda>domain.
     rbind (doc_new domain) (\<lambda>t0.
     rbind (doc_bytes ''schema-version'' (u16_be (dd_schema_version d)) t0) (\<lambda>t1.
     rbind (doc_text ''network-id'' (uuid_show pe (dd_network_id d)) t1) (\<lambda>t2.
     rbind (doc_text ''node-id'' (uuid_show pe (dd_node_id d)) t2) (\<lambda>t3.
     rbind (doc_bytes ''revision'' (u64_be (of_int (dd_revision d))) t3) (\<lambda>t4.
     rbind (doc_text ''created-at'' (rfc3339_show pe (dd_created_at d)) t4) (\<lambda>t5.
     rbind (doc_text ''min-agent-version'' (dd_min_agent_version d) t5) (\<lambda>t6.
     rbind (doc_text ''signing-key-id'' (uuid_show pe (dd_signing_key_id d)) t6) (\<lambda>t7.
     rbind (doc_text ''controller-instance-id'' (uuid_show pe (dd_controller_instance_id d)) t7) (\<lambda>t8.
     rbind (doc_count ''user-count'' (length (dd_users d)) t8) (\<lambda>t9.
     rbind (encode_users pe (dd_users d) t9) (\<lambda>t10.
     rbind (encode_ports d t10) (\<lambda>t11.
     rbind (doc_count ''server-name-count'' (length (dx_server_names (dd_xray d))) t11) (\<lambda>t12.
     rbind (encode_names (dx_server_names (dd_xray d)) t12) (\<lambda>t13.
       doc_text ''target'' (dx_target (dd_xray d)) t13)))))))))))))))"

fun encode_endpoints ::
  "'z proto_env_scheme \<Rightarrow> node_endpoint_status list \<Rightarrow> byte list \<Rightarrow> (document_error, byte list) result" where
  "encode_endpoints pe [] t = Inr t"
| "encode_endpoints pe (e # es) t =
     rbind (doc_text ''endpoint-id'' (uuid_show pe (ne_endpoint_id e)) t) (\<lambda>t1.
     rbind (doc_text ''readiness'' (endpoint_readiness_str (ne_readiness e)) t1) (\<lambda>t2.
     rbind (doc_optional_text ''last-checked-at'' (map_option (rfc3339_show pe) (ne_last_checked_at e)) t2) (\<lambda>t3.
     rbind (doc_optional_text ''error-code'' (ne_error_code e) t3) (\<lambda>t4.
       encode_endpoints pe es t4))))"

definition node_heartbeat_status_transcript ::
  "'z proto_env_scheme \<Rightarrow> heartbeat_status \<Rightarrow> (document_error, byte list) result" where
  "node_heartbeat_status_transcript pe s =
     rbind (map_err (\<lambda>_. DocumentInvalid)
        (validate_heartbeat_status s (hs_node_id s) (hs_generation s) (hs_controller_instance_id s))) (\<lambda>_.
     rbind (doc_new NODE_STATUS_V1_DOMAIN) (\<lambda>t0.
     rbind (doc_bytes ''schema-version'' (u16_be (hs_schema_version s)) t0) (\<lambda>t1.
     rbind (doc_text ''node-id'' (uuid_show pe (hs_node_id s)) t1) (\<lambda>t2.
     rbind (doc_bytes ''heartbeat-generation'' (u64_be (of_int (hs_generation s))) t2) (\<lambda>t3.
     rbind (doc_text ''observed-at'' (rfc3339_show pe (hs_observed_at s)) t3) (\<lambda>t4.
     rbind (doc_text ''lifecycle'' (node_lifecycle_str (hs_lifecycle s)) t4) (\<lambda>t5.
     rbind (doc_text ''signing-key-id'' (uuid_show pe (hs_signing_key_id s)) t5) (\<lambda>t6.
     rbind (doc_text ''controller-instance-id'' (uuid_show pe (hs_controller_instance_id s)) t6) (\<lambda>t7.
     rbind (doc_count ''endpoint-count'' (length (hs_endpoints s)) t7) (\<lambda>t8.
       encode_endpoints pe (hs_endpoints s) t8))))))))))"

section \<open>Signatures\<close>

definition doc_decode_exact :: "'z proto_env_scheme \<Rightarrow> string \<Rightarrow> nat \<Rightarrow> (document_error, byte list) result" where
  "doc_decode_exact pe value len =
     (case b64_decode pe value of
        None \<Rightarrow> Inl DocumentSignature
      | Some decoded \<Rightarrow> if length decoded \<noteq> len then Inl DocumentSignature else Inr decoded)"

definition verify_document_signature ::
  "'z crypto_env_scheme \<Rightarrow> (document_error, byte list) result \<Rightarrow> string \<Rightarrow> string \<Rightarrow> (document_error, unit) result" where
  "verify_document_signature ce transcript signature public_key =
     rbind (doc_decode_exact ce public_key 32) (\<lambda>public_bytes.
     rbind (doc_decode_exact ce signature 64) (\<lambda>signature_bytes.
       if \<not> ed_key_ok ce public_bytes then Inl DocumentSignature
       else rbind transcript (\<lambda>t.
         if ed_verify ce public_bytes signature_bytes t then Inr () else Inl DocumentSignature)))"

definition verify_desired_state_signature ::
  "'z crypto_env_scheme \<Rightarrow> desired_document \<Rightarrow> string \<Rightarrow> string \<Rightarrow> (document_error, unit) result" where
  "verify_desired_state_signature ce d signature public_key =
     verify_document_signature ce (desired_state_transcript ce d) signature public_key"

definition verify_node_heartbeat_status_signature ::
  "'z crypto_env_scheme \<Rightarrow> heartbeat_status \<Rightarrow> string \<Rightarrow> string \<Rightarrow> (document_error, unit) result" where
  "verify_node_heartbeat_status_signature ce s signature public_key =
     verify_document_signature ce (node_heartbeat_status_transcript ce s) signature public_key"

end
