(* ===== verification/Controller_Documents_Properties.thy ===== *)
theory Controller_Documents_Properties
  imports Controller_Documents
begin

text \<open>
  What a signature of the controller on a desired state covers: its transcript determines the document, and no
  document of one kind has the transcript of another.
\<close>

section \<open>Transcripts as fields\<close>

lemma doc_bytes_Inr: "doc_bytes label value t = Inr t' \<longleftrightarrow> field_fits (label, value) \<and> t' = t @ field_wire (label, value)"
  by (auto simp: doc_bytes_def field_fits_def field_wire_def u16_try_from_def u32_try_from_def)

lemma doc_count_Inr:
  "doc_count label n t = Inr t' \<longleftrightarrow>
     n < 2 ^ 32 \<and> field_fits (label, u32_be (of_nat n)) \<and> t' = t @ field_wire (label, u32_be (of_nat n))"
  by (auto simp: doc_count_def doc_bytes_Inr u32_try_from_def)

lemmas doc_Inr = doc_bytes_Inr doc_count_Inr doc_text_def doc_new_def

definition user_fields :: "'z proto_env_scheme \<Rightarrow> desired_user \<Rightarrow> (string \<times> byte list) list" where
  "user_fields pe u =
     [(''user-id'', str_bytes (uuid_show pe (du_user_id u))), (''credential-id'', str_bytes (uuid_show pe (du_credential_id u))),
      (''vless-uuid'', str_bytes (du_vless_uuid u)), (''enabled'', [if du_enabled u then 1 else 0])]"

definition name_field :: "string \<Rightarrow> string \<times> byte list" where
  "name_field n = (''server-name'', str_bytes n)"

definition port_fields :: "desired_document \<Rightarrow> (string \<times> byte list) list" where
  "port_fields d =
     (if dd_schema_version d = 1 then [(''listen-port'', u16_be (dx_listen_port (dd_xray d)))]
      else [(''loopback-port'', u16_be (dx_listen_port (dd_xray d))), (''public-port'', u16_be (the (dx_public_port (dd_xray d))))])"

definition desired_head :: "'z proto_env_scheme \<Rightarrow> desired_document \<Rightarrow> (string \<times> byte list) list" where
  "desired_head pe d =
     [(''schema-version'', u16_be (dd_schema_version d)), (''network-id'', str_bytes (uuid_show pe (dd_network_id d))),
      (''node-id'', str_bytes (uuid_show pe (dd_node_id d))), (''revision'', u64_be (of_int (dd_revision d))),
      (''created-at'', str_bytes (rfc3339_show pe (dd_created_at d))), (''min-agent-version'', str_bytes (dd_min_agent_version d)),
      (''signing-key-id'', str_bytes (uuid_show pe (dd_signing_key_id d))),
      (''controller-instance-id'', str_bytes (uuid_show pe (dd_controller_instance_id d))),
      (''user-count'', u32_be (of_nat (length (dd_users d))))]"

definition desired_fields :: "'z proto_env_scheme \<Rightarrow> desired_document \<Rightarrow> string \<Rightarrow> (string \<times> byte list) list" where
  "desired_fields pe d domain =
     (''domain'', str_bytes domain) # desired_head pe d @ concat (map (user_fields pe) (dd_users d)) @ port_fields d
     @ (''server-name-count'', u32_be (of_nat (length (dx_server_names (dd_xray d)))))
     # map name_field (dx_server_names (dd_xray d)) @ [(''target'', str_bytes (dx_target (dd_xray d)))]"

lemma encode_users_Inr:
  "encode_users pe us t = Inr t' \<Longrightarrow> list_all field_fits (concat (map (user_fields pe) us))
     \<and> t' = t @ concat (map field_wire (concat (map (user_fields pe) us)))"
proof (induction us arbitrary: t)
  case (Cons u us)
  then obtain t1 where t1: "t1 = t @ concat (map field_wire (user_fields pe u))" "list_all field_fits (user_fields pe u)"
    "encode_users pe us t1 = Inr t'" by (simp add: rbind_eq_Inr doc_Inr user_fields_def)
  with Cons.IH [OF t1(3)] show ?case by simp
qed simp

lemma encode_names_Inr:
  "encode_names ns t = Inr t' \<Longrightarrow> list_all field_fits (map name_field ns) \<and> t' = t @ concat (map field_wire (map name_field ns))"
proof (induction ns arbitrary: t)
  case (Cons n ns)
  then obtain t1 where t1: "t1 = t @ field_wire (name_field n)" "field_fits (name_field n)" "encode_names ns t1 = Inr t'"
    by (simp add: rbind_eq_Inr doc_Inr name_field_def)
  with Cons.IH [OF t1(3)] show ?case by simp
qed simp

lemma encode_ports_Inr:
  "encode_ports d t = Inr t' \<Longrightarrow> list_all field_fits (port_fields d) \<and> t' = t @ concat (map field_wire (port_fields d))"
  by (auto simp: encode_ports_def port_fields_def rbind_eq_Inr doc_Inr split: if_splits option.splits)

lemma desired_transcript_Inr:
  assumes "desired_state_transcript pe d = Inr t"
  obtains domain where "desired_domain d = Inr domain" "t = concat (map field_wire (desired_fields pe d domain))"
    "list_all field_fits (desired_fields pe d domain)" "length (dd_users d) < 2 ^ 32" "length (dx_server_names (dd_xray d)) < 2 ^ 32"
proof -
  from assms obtain domain t9 t10 t11 t12 t13 where t: "desired_domain d = Inr domain"
    "list_all field_fits ((''domain'', str_bytes domain) # desired_head pe d)"
    "t9 = concat (map field_wire ((''domain'', str_bytes domain) # desired_head pe d))" "length (dd_users d) < 2 ^ 32"
    "encode_users pe (dd_users d) t9 = Inr t10" "encode_ports d t10 = Inr t11"
    "doc_count ''server-name-count'' (length (dx_server_names (dd_xray d))) t11 = Inr t12"
    "encode_names (dx_server_names (dd_xray d)) t12 = Inr t13" "doc_text ''target'' (dx_target (dd_xray d)) t13 = Inr t"
    unfolding desired_state_transcript_def rbind_eq_Inr doc_Inr desired_head_def by (elim exE conjE) simp
  note parts = encode_users_Inr [OF t(5)] encode_ports_Inr [OF t(6)] encode_names_Inr [OF t(8)]
  show thesis
    by (rule that [OF t(1)]) (use t(2-4,7,9) parts in \<open>auto simp: desired_fields_def doc_Inr\<close>)
qed

section \<open>What the fields determine\<close>

lemma u16_be_inj [simp]: "u16_be a = u16_be b \<longleftrightarrow> a = b"
  by (metis word_from_be_be(1))

lemma u32_be_inj [simp]: "u32_be a = u32_be b \<longleftrightarrow> a = b"
  by (metis word_from_be_be(2))

lemma count_inj: "m < 2 ^ 32 \<Longrightarrow> n < 2 ^ 32 \<Longrightarrow> u32_be (of_nat m) = u32_be (of_nat n) \<Longrightarrow> m = n"
  by (metis u32_be_inj unat_of_nat_u32)

lemma user_fields_inj:
  assumes "shows_distinct pe" "user_fields pe u = user_fields pe v"
  shows "u = v"
  using assms by (intro desired_user.equality) (auto simp: user_fields_def shows_distinct_def split: if_splits)

text \<open>Lists of equal length with fields of a fixed number are separated from what follows them.\<close>

lemma users_prefix_inj:
  assumes "shows_distinct pe" "length us = length vs"
    and "concat (map (user_fields pe) us) @ r = concat (map (user_fields pe) vs) @ s"
  shows "us = vs \<and> r = s"
  using assms(2,3)
proof (induction us vs rule: list_induct2)
  case (Cons u us v vs)
  have "length (user_fields pe u) = length (user_fields pe v)" by (simp add: user_fields_def)
  with Cons.prems have "user_fields pe u = user_fields pe v" "concat (map (user_fields pe) us) @ r = concat (map (user_fields pe) vs) @ s"
    by (simp_all add: append_eq_append_conv)
  with Cons.IH user_fields_inj [OF assms(1)] show ?case by simp
qed simp

lemma name_field_inj: "inj name_field"
  by (simp add: inj_def name_field_def)

text \<open>The type of a revision is a positive 64-bit integer, and the one of a timestamp is in UTC.\<close>

definition desired_typed :: "desired_document \<Rightarrow> bool" where
  "desired_typed d \<longleftrightarrow> 0 < dd_revision d \<and> dd_revision d < 2 ^ 63 \<and> utc_offset (dd_created_at d) = 0"

lemma desired_head_inj:
  assumes "shows_distinct pe" "desired_typed d" "desired_typed d'" "desired_head pe d = desired_head pe d'"
  shows "dd_schema_version d = dd_schema_version d' \<and> dd_network_id d = dd_network_id d' \<and> dd_node_id d = dd_node_id d'
    \<and> dd_revision d = dd_revision d' \<and> dd_created_at d = dd_created_at d' \<and> dd_min_agent_version d = dd_min_agent_version d'
    \<and> dd_signing_key_id d = dd_signing_key_id d' \<and> dd_controller_instance_id d = dd_controller_instance_id d'"
proof -
  have "dd_revision d = dd_revision d'"
    using assms(2-4) by (intro of_int_u64_inj) (simp_all add: desired_head_def desired_typed_def)
  then show ?thesis using assms by (simp add: desired_head_def shows_distinct_def desired_typed_def)
qed

lemma port_fields_inj:
  assumes "desired_domain d = Inr domain" "desired_domain d' = Inr domain'" "dd_schema_version d = dd_schema_version d'"
    and "port_fields d @ r = port_fields d' @ r'"
  shows "dx_listen_port (dd_xray d) = dx_listen_port (dd_xray d') \<and> dx_public_port (dd_xray d) = dx_public_port (dd_xray d') \<and> r = r'"
  using assms by (auto simp: desired_domain_def port_fields_def split: if_splits)

lemma desired_fields_inj:
  assumes "shows_distinct pe" "desired_typed d" "desired_typed d'"
    and domains: "desired_domain d = Inr domain" "desired_domain d' = Inr domain'"
    and counts: "length (dd_users d) < 2 ^ 32" "length (dd_users d') < 2 ^ 32"
      "length (dx_server_names (dd_xray d)) < 2 ^ 32" "length (dx_server_names (dd_xray d')) < 2 ^ 32"
    and fields: "desired_fields pe d domain = desired_fields pe d' domain'"
  shows "d = d'"
proof -
  let ?tail = "\<lambda>d. port_fields d @ (''server-name-count'', u32_be (of_nat (length (dx_server_names (dd_xray d)))))
     # map name_field (dx_server_names (dd_xray d)) @ [(''target'', str_bytes (dx_target (dd_xray d)))]"
  have "length (desired_head pe d) = length (desired_head pe d')" by (simp add: desired_head_def)
  with fields have head: "desired_head pe d = desired_head pe d'"
    and rest: "concat (map (user_fields pe) (dd_users d)) @ ?tail d = concat (map (user_fields pe) (dd_users d')) @ ?tail d'"
    by (simp_all add: desired_fields_def append_eq_append_conv)
  note same = desired_head_inj [OF assms(1-3) head]
  have "length (dd_users d) = length (dd_users d')" using head by (intro count_inj counts) (simp add: desired_head_def)
  from users_prefix_inj [OF assms(1) this rest] have users: "dd_users d = dd_users d'" and tail: "?tail d = ?tail d'" by auto
  note ports = port_fields_inj [OF domains conjunct1 [OF same] tail]
  then have n: "length (dx_server_names (dd_xray d)) = length (dx_server_names (dd_xray d'))" by (intro count_inj counts) simp
  with ports have "dx_server_names (dd_xray d) = dx_server_names (dd_xray d')" "dx_target (dd_xray d) = dx_target (dd_xray d')"
    by (simp_all add: append_eq_append_conv inj_map_eq_map [OF name_field_inj])
  with ports have "dd_xray d = dd_xray d'" by (intro desired_xray.equality) simp_all
  with same users show ?thesis by (intro desired_document.equality) simp_all
qed

section \<open>The answer to a heartbeat\<close>

definition optional_fields :: "string \<Rightarrow> string option \<Rightarrow> (string \<times> byte list) list" where
  "optional_fields label value =
     (label @ ''-present'', [if value \<noteq> None then 1 else 0]) # (case value of None \<Rightarrow> [] | Some v \<Rightarrow> [(label, str_bytes v)])"

definition endpoint_fields :: "'z proto_env_scheme \<Rightarrow> node_endpoint_status \<Rightarrow> (string \<times> byte list) list" where
  "endpoint_fields pe e =
     (''endpoint-id'', str_bytes (uuid_show pe (ne_endpoint_id e)))
     # (''readiness'', str_bytes (endpoint_readiness_str (ne_readiness e)))
     # optional_fields ''last-checked-at'' (map_option (rfc3339_show pe) (ne_last_checked_at e))
     @ optional_fields ''error-code'' (ne_error_code e)"

definition status_head :: "'z proto_env_scheme \<Rightarrow> heartbeat_status \<Rightarrow> (string \<times> byte list) list" where
  "status_head pe s =
     [(''schema-version'', u16_be (hs_schema_version s)), (''node-id'', str_bytes (uuid_show pe (hs_node_id s))),
      (''heartbeat-generation'', u64_be (of_int (hs_generation s))), (''observed-at'', str_bytes (rfc3339_show pe (hs_observed_at s))),
      (''lifecycle'', str_bytes (node_lifecycle_str (hs_lifecycle s))),
      (''signing-key-id'', str_bytes (uuid_show pe (hs_signing_key_id s))),
      (''controller-instance-id'', str_bytes (uuid_show pe (hs_controller_instance_id s))),
      (''endpoint-count'', u32_be (of_nat (length (hs_endpoints s))))]"

definition status_fields :: "'z proto_env_scheme \<Rightarrow> heartbeat_status \<Rightarrow> (string \<times> byte list) list" where
  "status_fields pe s =
     (''domain'', str_bytes NODE_STATUS_V1_DOMAIN) # status_head pe s @ concat (map (endpoint_fields pe) (hs_endpoints s))"

lemma optional_text_Inr:
  "doc_optional_text label value t = Inr t' \<Longrightarrow>
   list_all field_fits (optional_fields label value) \<and> t' = t @ concat (map field_wire (optional_fields label value))"
  by (cases "value") (auto simp: doc_optional_text_def optional_fields_def rbind_eq_Inr doc_Inr)

lemma encode_endpoints_Inr:
  "encode_endpoints pe es t = Inr t' \<Longrightarrow> list_all field_fits (concat (map (endpoint_fields pe) es))
     \<and> t' = t @ concat (map field_wire (concat (map (endpoint_fields pe) es)))"
proof (induction es arbitrary: t)
  case (Cons e es)
  then obtain t2 t3 t4 where t: "list_all field_fits [(''endpoint-id'', str_bytes (uuid_show pe (ne_endpoint_id e))),
      (''readiness'', str_bytes (endpoint_readiness_str (ne_readiness e)))]"
    "t2 = t @ concat (map field_wire [(''endpoint-id'', str_bytes (uuid_show pe (ne_endpoint_id e))),
      (''readiness'', str_bytes (endpoint_readiness_str (ne_readiness e)))])"
    "doc_optional_text ''last-checked-at'' (map_option (rfc3339_show pe) (ne_last_checked_at e)) t2 = Inr t3"
    "doc_optional_text ''error-code'' (ne_error_code e) t3 = Inr t4" "encode_endpoints pe es t4 = Inr t'"
    by (auto simp: rbind_eq_Inr doc_Inr)
  with optional_text_Inr [OF t(3)] optional_text_Inr [OF t(4)] Cons.IH [OF t(5)] show ?case
    by (simp add: endpoint_fields_def)
qed simp

lemma status_transcript_Inr:
  assumes "node_heartbeat_status_transcript pe s = Inr t"
  shows "t = concat (map field_wire (status_fields pe s))" "list_all field_fits (status_fields pe s)"
    "length (hs_endpoints s) < 2 ^ 32"
proof -
  from assms obtain t8 where t: "list_all field_fits ((''domain'', str_bytes NODE_STATUS_V1_DOMAIN) # status_head pe s)"
    "t8 = concat (map field_wire ((''domain'', str_bytes NODE_STATUS_V1_DOMAIN) # status_head pe s))"
    "length (hs_endpoints s) < 2 ^ 32" "encode_endpoints pe (hs_endpoints s) t8 = Inr t"
    unfolding node_heartbeat_status_transcript_def rbind_eq_Inr doc_Inr status_head_def by (elim exE conjE) simp
  with encode_endpoints_Inr [OF t(4)] show "t = concat (map field_wire (status_fields pe s))"
    "list_all field_fits (status_fields pe s)" "length (hs_endpoints s) < 2 ^ 32"
    by (simp_all add: status_fields_def)
qed

definition status_typed :: "heartbeat_status \<Rightarrow> bool" where
  "status_typed s \<longleftrightarrow> 0 \<le> hs_generation s \<and> hs_generation s < 2 ^ 63 \<and> utc_offset (hs_observed_at s) = 0
     \<and> list_all (\<lambda>e. \<forall>t. ne_last_checked_at e = Some t \<longrightarrow> utc_offset t = 0) (hs_endpoints s)"

lemma readiness_str_inj [simp]: "endpoint_readiness_str a = endpoint_readiness_str b \<longleftrightarrow> a = b"
  by (cases a; cases b) simp_all

lemma lifecycle_str_inj [simp]: "node_lifecycle_str a = node_lifecycle_str b \<longleftrightarrow> a = b"
  by (cases a; cases b) simp_all

lemma optional_fields_inj: "optional_fields label v @ r = optional_fields label w @ s \<Longrightarrow> v = w \<and> r = s"
  by (cases v; cases w) (simp_all add: optional_fields_def)

lemma endpoint_fields_inj:
  assumes "shows_distinct pe" "\<forall>t. ne_last_checked_at a = Some t \<longrightarrow> utc_offset t = 0"
    "\<forall>t. ne_last_checked_at b = Some t \<longrightarrow> utc_offset t = 0" "endpoint_fields pe a @ r = endpoint_fields pe b @ s"
  shows "a = b \<and> r = s"
proof -
  have instants: "t = u" if "utc_offset t = 0" "utc_offset u = 0" "rfc3339_show pe t = rfc3339_show pe u" for t u
    using assms(1) that by (simp add: shows_distinct_def)
  from assms(4) have "uuid_show pe (ne_endpoint_id a) = uuid_show pe (ne_endpoint_id b)" and ready: "ne_readiness a = ne_readiness b"
    by (simp_all add: endpoint_fields_def)
  then have id: "ne_endpoint_id a = ne_endpoint_id b" using assms(1) by (simp add: shows_distinct_def)
  from assms(4) have "optional_fields ''last-checked-at'' (map_option (rfc3339_show pe) (ne_last_checked_at a))
      @ optional_fields ''error-code'' (ne_error_code a) @ r
    = optional_fields ''last-checked-at'' (map_option (rfc3339_show pe) (ne_last_checked_at b))
      @ optional_fields ''error-code'' (ne_error_code b) @ s" by (simp add: endpoint_fields_def)
  note first = optional_fields_inj [OF this]
  note at = conjunct1 [OF first] and code = optional_fields_inj [OF conjunct2 [OF first]]
  have "ne_last_checked_at a = ne_last_checked_at b"
    using at assms(2,3) by (cases "ne_last_checked_at a"; cases "ne_last_checked_at b") (auto intro: instants)
  with id ready code show ?thesis by simp
qed

lemma endpoints_inj:
  assumes "shows_distinct pe" "length es = length fs" "list_all (\<lambda>e. \<forall>t. ne_last_checked_at e = Some t \<longrightarrow> utc_offset t = 0) es"
    "list_all (\<lambda>e. \<forall>t. ne_last_checked_at e = Some t \<longrightarrow> utc_offset t = 0) fs"
    "concat (map (endpoint_fields pe) es) = concat (map (endpoint_fields pe) fs)"
  shows "es = fs"
  using assms(2-5)
proof (induction es fs rule: list_induct2)
  case (Cons e es f fs)
  then have "e = f \<and> concat (map (endpoint_fields pe) es) = concat (map (endpoint_fields pe) fs)"
    by (intro endpoint_fields_inj [OF assms(1)]) auto
  with Cons show ?case by simp
qed simp

lemma status_fields_inj:
  assumes "shows_distinct pe" "status_typed s" "status_typed s'" "status_fields pe s = status_fields pe s'"
    and "length (hs_endpoints s) < 2 ^ 32" "length (hs_endpoints s') < 2 ^ 32"
  shows "s = s'"
proof -
  have "length (status_head pe s) = length (status_head pe s')" by (simp add: status_head_def)
  with assms(4) have head: "status_head pe s = status_head pe s'"
    and rest: "concat (map (endpoint_fields pe) (hs_endpoints s)) = concat (map (endpoint_fields pe) (hs_endpoints s'))"
    by (simp_all add: status_fields_def append_eq_append_conv)
  have "hs_generation s = hs_generation s'"
    using head assms(2,3) by (intro of_int_u64_inj) (simp_all add: status_head_def status_typed_def)
  moreover have "length (hs_endpoints s) = length (hs_endpoints s')"
    using head by (intro count_inj assms(5,6)) (simp add: status_head_def)
  then have "hs_endpoints s = hs_endpoints s'"
    using endpoints_inj [OF assms(1) _ _ _ rest] assms(2,3) by (simp add: status_typed_def)
  ultimately show ?thesis
    using head assms(1-3) by (intro heartbeat_status.equality) (simp_all add: status_head_def shows_distinct_def status_typed_def)
qed

section \<open>Two documents\<close>

definition demo_desired :: desired_document where
  "demo_desired =
     \<lparr>dd_schema_version = 2, dd_network_id = [1], dd_node_id = [2], dd_revision = 7, dd_created_at = demo_instant 3,
      dd_min_agent_version = ''1'',
      dd_users = [\<lparr>du_user_id = [8], du_credential_id = [9], du_vless_uuid = ''v'', du_enabled = True\<rparr>],
      dd_xray = \<lparr>dx_listen_port = 8443, dx_public_port = Some 443, dx_server_names = [''s''], dx_target = ''t:1''\<rparr>,
      dd_signing_key_id = [7], dd_controller_instance_id = [5]\<rparr>"

definition demo_status :: heartbeat_status where
  "demo_status =
     \<lparr>hs_schema_version = 1, hs_node_id = [2], hs_generation = 4, hs_observed_at = demo_instant 3, hs_lifecycle = LifecycleActive,
      hs_endpoints = [\<lparr>ne_endpoint_id = [6], ne_readiness = TcpUnreachable, ne_last_checked_at = Some (demo_instant 2),
        ne_error_code = Some ''e''\<rparr>],
      hs_signing_key_id = [7], hs_controller_instance_id = [5]\<rparr>"

lemma doc_bytes_fits: "field_fits (label, value) \<Longrightarrow> doc_bytes label value t = Inr (t @ field_wire (label, value))"
  by (simp add: doc_bytes_Inr)

lemma demo_desired_transcript: "\<exists>t. desired_state_transcript demo_crypto demo_desired = Inr t"
  by (simp add: desired_state_transcript_def demo_desired_def desired_domain_def doc_new_def doc_text_def doc_count_def u32_try_from_def
      doc_bytes_fits field_fits_def encode_ports_def demo_crypto_def unary_show_def demo_instant_def DESIRED_STATE_V2_DOMAIN_def)

lemma demo_status_transcript: "\<exists>t. node_heartbeat_status_transcript demo_crypto demo_status = Inr t"
proof -
  have "validate_heartbeat_status demo_status (hs_node_id demo_status) (hs_generation demo_status) (hs_controller_instance_id demo_status) = Inr ()"
    by (simp add: validate_heartbeat_status_def demo_status_def validate_endpoint_status_def readiness_consistent_def
        validate_short_text_def str_bytes_def byte_of_def char_is_control_def is_ascii_lowercase_def Let_def)
  then show ?thesis
    by (simp add: node_heartbeat_status_transcript_def map_err_def)
      (simp add: demo_status_def doc_new_def doc_text_def doc_count_def u32_try_from_def doc_optional_text_def
      doc_bytes_fits field_fits_def demo_crypto_def unary_show_def demo_instant_def NODE_STATUS_V1_DOMAIN_def)
qed

section \<open>Properties\<close>

text \<open>Claim C5: a signature of the controller covers the whole document. Two desired states with the same transcript
  are the same document, with all users, ports and server names, and so are two answers to a heartbeat with all their
  endpoints; lists and optional fields of different lengths cannot be shifted into one another.\<close>

theorem controller_signature_binds:
  assumes "shows_distinct pe" "desired_typed d" "desired_typed d'" "status_typed s" "status_typed s'"
    and "desired_state_transcript pe d = Inr t" "desired_state_transcript pe d' = Inr t"
    and "node_heartbeat_status_transcript pe s = Inr u" "node_heartbeat_status_transcript pe s' = Inr u"
  shows "d = d' \<and> s = s'"
proof
  from assms(6) obtain a where a: "desired_domain d = Inr a" "t = concat (map field_wire (desired_fields pe d a))"
    "list_all field_fits (desired_fields pe d a)" "length (dd_users d) < 2 ^ 32" "length (dx_server_names (dd_xray d)) < 2 ^ 32"
    by (rule desired_transcript_Inr)
  from assms(7) obtain b where b: "desired_domain d' = Inr b" "t = concat (map field_wire (desired_fields pe d' b))"
    "list_all field_fits (desired_fields pe d' b)" "length (dd_users d') < 2 ^ 32" "length (dx_server_names (dd_xray d')) < 2 ^ 32"
    by (rule desired_transcript_Inr)
  have "desired_fields pe d a = desired_fields pe d' b" using a b by (intro tf.stream_inj) auto
  with assms(1-3) a b show "d = d'" by (intro desired_fields_inj)
  note u = status_transcript_Inr [OF assms(8)] status_transcript_Inr [OF assms(9)]
  have "status_fields pe s = status_fields pe s'" using u by (intro tf.stream_inj) auto
  with assms(1,4,5) u show "s = s'" by (intro status_fields_inj)
qed

theorem controller_signature_binds_witness:
  "\<exists>t u. {d. desired_typed d \<and> desired_state_transcript demo_crypto d = Inr t} = {demo_desired}
     \<and> {s. status_typed s \<and> node_heartbeat_status_transcript demo_crypto s = Inr u} = {demo_status}"
proof -
  obtain t u where t: "desired_state_transcript demo_crypto demo_desired = Inr t"
    and u: "node_heartbeat_status_transcript demo_crypto demo_status = Inr u"
    using demo_desired_transcript demo_status_transcript by blast
  have typed: "desired_typed demo_desired" "status_typed demo_status"
    by (simp_all add: desired_typed_def status_typed_def demo_desired_def demo_status_def demo_instant_def)
  have both: "d = demo_desired \<and> s = demo_status"
    if "desired_typed d" "status_typed s" "desired_state_transcript demo_crypto d = Inr t"
      "node_heartbeat_status_transcript demo_crypto s = Inr u" for d s
    by (rule controller_signature_binds [OF demo_shows that(1) typed(1) that(2) typed(2) that(3) t that(4) u])
  have "{d. desired_typed d \<and> desired_state_transcript demo_crypto d = Inr t} = {demo_desired}"
    using t typed(1) both [OF _ typed(2) _ u, THEN conjunct1] by auto
  moreover have "{s. status_typed s \<and> node_heartbeat_status_transcript demo_crypto s = Inr u} = {demo_status}"
    using u typed(2) both [OF typed(1) _ t, THEN conjunct2] by auto
  ultimately show ?thesis by blast
qed

text \<open>Claim C28: what the controller signs for one purpose is never accepted for another: the transcripts of a relay
  route, a relay assignment, a desired state and an answer to a heartbeat, all signed with the same key, differ.\<close>

theorem controller_texts_separated:
  assumes "relay_route_transcript pe r = Inr t" "relay_assignment_transcript pe a = Inr u"
    and "desired_state_transcript pe d = Inr v" "node_heartbeat_status_transcript pe s = Inr w"
  shows "distinct [t, u, v, w]"
proof -
  from assms(3) obtain domain where v: "desired_domain d = Inr domain" "v = concat (map field_wire (desired_fields pe d domain))"
    "list_all field_fits (desired_fields pe d domain)" by (rule desired_transcript_Inr)
  have domain: "domain \<in> {DESIRED_STATE_V1_DOMAIN, DESIRED_STATE_V2_DOMAIN}" using v(1) by (auto simp: desired_domain_def split: if_splits)
  have differ: "f \<noteq> g \<Longrightarrow> x = concat (map field_wire (f # fs)) \<Longrightarrow> y = concat (map field_wire (g # gs)) \<Longrightarrow>
      list_all field_fits (f # fs) \<Longrightarrow> list_all field_fits (g # gs) \<Longrightarrow> x \<noteq> y" for f g fs gs x y
    using domain_field_neq by blast
  note fields = relay_route_transcript_Inr(1,2) [OF assms(1), unfolded route_fields_def]
    relay_assignment_transcript_Inr(1,2) [OF assms(2), unfolded assignment_fields_def]
    v(2,3) [unfolded desired_fields_def] status_transcript_Inr(1,2) [OF assms(4), unfolded status_fields_def]
  have "t \<noteq> u" by (rule differ [OF _ fields(1,3,2,4)]) (simp add: RELAY_ROUTE_DOMAIN_def RELAY_ASSIGNMENT_DOMAIN_def)
  moreover have "t \<noteq> v" using domain by (intro differ [OF _ fields(1,5,2,6)])
      (auto simp: RELAY_ROUTE_DOMAIN_def DESIRED_STATE_V1_DOMAIN_def DESIRED_STATE_V2_DOMAIN_def)
  moreover have "t \<noteq> w" by (rule differ [OF _ fields(1,7,2,8)]) (simp add: RELAY_ROUTE_DOMAIN_def NODE_STATUS_V1_DOMAIN_def)
  moreover have "u \<noteq> v" using domain by (intro differ [OF _ fields(3,5,4,6)])
      (auto simp: RELAY_ASSIGNMENT_DOMAIN_def DESIRED_STATE_V1_DOMAIN_def DESIRED_STATE_V2_DOMAIN_def)
  moreover have "u \<noteq> w" by (rule differ [OF _ fields(3,7,4,8)]) (simp add: RELAY_ASSIGNMENT_DOMAIN_def NODE_STATUS_V1_DOMAIN_def)
  moreover have "v \<noteq> w" using domain by (intro differ [OF _ fields(5,7,6,8)])
      (auto simp: NODE_STATUS_V1_DOMAIN_def DESIRED_STATE_V1_DOMAIN_def DESIRED_STATE_V2_DOMAIN_def)
  ultimately show ?thesis by simp
qed

theorem controller_texts_separated_witness:
  "\<exists>t u v w. relay_route_transcript demo_crypto demo_signed_route = Inr t \<and> relay_assignment_transcript demo_crypto demo_assignment = Inr u
     \<and> desired_state_transcript demo_crypto demo_desired = Inr v \<and> node_heartbeat_status_transcript demo_crypto demo_status = Inr w
     \<and> distinct [t, u, v, w]"
  using demo_route_transcript demo_assignment_transcript demo_desired_transcript demo_status_transcript controller_texts_separated
  by blast

end
