(* ===== verification/Spec2Isabelle.thy ===== *)
theory Spec2Isabelle
  imports Registry Relay_Bounds Relay_Node_Properties Relay_Handshake Router_Recovery Node_Heartbeat_Properties
    Controller_Documents_Properties
begin

text \<open>
  A model of the data path of this repository: the relay service, the connector at the node, the signed documents that
  configure them, the router mapping by which a node is reached directly, the limits its owner sets and the heartbeat
  that advertises it.

  \<^bold>\<open>The program.\<close> A member reaches a node either through a relay or through a port that the router of the node
  forwards. The relay server (\<open>src/relay-server/src\<close>) keeps one tunnel per route to the connector of a node, carries
  the connections of members over it as logical streams, and meters them: windows per stream, a rate per route, a
  byte limit per connection and a durable monthly quota. Its routes come from a configuration file and from a
  directory of documents that the controller signs (\<open>src/crates/control-protocol/src/relay.rs\<close>). The node host
  (\<open>src/node-host/src\<close>) asks the router for a port mapping with a finite lease, if its owner consented, or uses an
  endpoint that the owner configured by hand, and publishes both in its heartbeat while the owner's pause, schedule and
  monthly cap allow it.

  \<^bold>\<open>Conventions.\<close> Structs are records, enums are datatypes, fallible functions return \<open>('e, 'a) result\<close> with the error
  on the left, machine integers are words and \<open>usize\<close> is \<open>nat\<close>; checked, saturating and wrapping operations are
  written out. A \<open>str\<close> is the list of its UTF-8 bytes. Objects behind an \<open>Arc\<close> live in stores with addresses. Code of
  third-party packages (TOML, JSON, HPKE, Ed25519, SHA-256, UUID, calendar, TLS, tokio, rusqlite, netdev, crab_nat,
  igd_next) is an argument: either a record of functions (\<open>proto_env\<close> and its
  extensions \<open>crypto_env\<close>, \<open>registry_env\<close> and \<open>policy_env\<close>; \<open>token_env\<close>, \<open>quota_env\<close>) with what is relied on
  as named hypotheses (\<open>sha256_len\<close>, \<open>shows_distinct\<close>, \<open>policy_env_ok\<close> and the ones of \<open>Quota\<close> and \<open>Relay_Grant\<close>), each met by a
  concrete instance in a witness, or the outcome of a call, over which the theorems quantify. Asynchronous tasks
  are passes: one iteration of a task's loop is one definition, and the systems interleave passes in any order. Where
  \<open>tokio::select!\<close> has several ready branches the passes take cancellation first. A loop that waits is given the list of
  what wakes it and recurses on that list; no definition runs on fuel, so there is no bound to justify. That such a
  loop returns is a theorem of its own (\<open>Flow.rate_acquire_returns\<close>).

  \<^bold>\<open>Foundations.\<close> \<open>Prelude\<close> has the machine types, results, the checked integer operations, big-endian encodings and the
  interfaces \<open>prefix_codec\<close> (a value written to a byte stream and read back), \<open>invariant_system\<close> (labelled steps that keep
  an invariant) and \<open>simulation\<close> (a refinement mapping between such systems). \<open>Rust_Std\<close> has text, addresses with
  their parser and display, paths and dates. \<open>Ordered_Map\<close> has \<open>BTreeMap\<close> as a sorted association list, an instance of
  the interface \<open>keyed_map\<close>.

  \<^bold>\<open>Relay, data.\<close> \<open>Relay_Error\<close> models \<open>error.rs\<close>. \<open>Frame\<close> models \<open>frame.rs\<close>: frames written to a tunnel are read back,
  what is read was written canonically, and registrations round-trip. \<open>Flow\<close> models \<open>flow.rs\<close>: credit is conserved, the
  limiter hands out at most a second of its rate plus the rate times the time, a request within the rate is served at
  the latest when it wakes up and finds the shared limiter untouched for a second, and on a limiter of its own a
  request above a nonzero remainder is starved by a timer that is exactly on time. \<open>Relay_Config\<close> models \<open>config.rs\<close>: validation of routes
  is equivalent to its declarative meaning and a loaded configuration is consistent. \<open>Quota\<close> models \<open>quota.rs\<close> with
  the file it keeps: over runs with crashes, failing writes and clock jumps no route is granted more than its monthly
  limit; a grant survives a restart; a failed commit closes the store. \<open>Relay_Metrics\<close> models \<open>metrics.rs\<close>: the text is
  well-formed for any route identifier.

  \<^bold>\<open>Signed documents.\<close> \<open>Protocol_Base\<close> models identifiers, numbers, timestamps, digests, keys and nonces of the control
  protocol. \<open>Relay_Grant\<close> models the assignment and route documents: transcripts are injective and separated by domain,
  sealed material opens only under the header it was sealed for. \<open>Registry\<close> models \<open>registry.rs\<close>: every managed route
  comes from a valid document of the controller for this relay, the fingerprint determines the routes unless the two
  texts it was computed from collide, and static and managed routes are compatible.

  \<^bold>\<open>The tunnel.\<close> \<open>Tunnel\<close> (stream table, windows, frame dispatch, heartbeat) and \<open>Relay_Stream\<close> (admission of a
  member, the two pumps, the watchdog) model the relay end in \<open>relay.rs\<close>; \<open>Relay_Node\<close> models \<open>node.rs\<close>, the other
  end, with registration and reconnection. \<open>Tunnel_System\<close> composes both ends at the level of frames, with one rule per pass
  of a task. \<open>Tunnel_Wire\<close> adds what is between them: the bounded queues, the writers that encode a frame and may fail or
  end, the bytes of the two directions, the readers that decode them and the errors that end a reader; it shows that
  each of its runs is, after moving the frames on the wire into the queues, a run of frames. \<open>Tunnel_Properties\<close> is about
  the runs over bytes: no schedule violates flow control, a run refines one of independent in-order pipes, delivery is
  a prefix of what was read from the socket at the other end, and a stream closed in the regular way can end the tunnel. \<open>Relay_Bounds\<close> replaces the node by an arbitrary peer and
  bounds what the relay buffers. \<open>Relay_Node_Properties\<close> characterises the delays between sessions.

  \<^bold>\<open>The server.\<close> \<open>Relay_Server\<close> models start, reload, watchers, revocation, registration of nodes and shutdown of
  \<open>relay.rs\<close>. \<open>Relay_Server_Properties\<close> shows the invariant of its state over every run, that a live tunnel is unique
  and its node authenticated, what applying a set of routes does, and what a reload that fails half-way leaves.
  \<open>Relay_Handshake\<close> composes the registration of both sides over the bytes between them: they agree on its outcome.

  \<^bold>\<open>Router mappings.\<close> \<open>Router_Protocol\<close> models \<open>router_protocol.rs\<close>: the default route and its fingerprint, PCP, NAT-PMP
  and UPnP, and the backend that tries them in order; each operation returns the list of the library calls it made
  with its result. \<open>Router_Protocol_Properties\<close> shows that these concern only mappings of the node and bounds their
  number (what one call sends, with its retries, is up to the library): 74 for a creation, 131 for a renewal, 66 for a release, from the limit of 64 entries that the loop over
  the table of a gateway has in the code. \<open>Router_Mapping\<close> models \<open>mapping.rs\<close> on tables with the constraints of the
  migrations in \<open>lib.rs\<close>: the consent, the leases, a pass of the supervisor, shutdown, status and candidates. The
  places where a pass opens the database, runs a statement or reads a clock are the constructors of \<open>site\<close>, and each
  may fail. \<open>Router_Mapping_Properties\<close> states what the supervisor relies on as the interface \<open>mapping_backend\<close>,
  interpreted on the backend of the code, and shows the invariant of the tables over every run and what is published.
  \<open>Router_Recovery\<close> shows that a recorded lease reads back as the material to renew or release it with, and that the
  code which is to stop automatic attempts is never recorded by an attempt to create a mapping.

  \<^bold>\<open>The owner's limits.\<close> \<open>Provider_Policy\<close> models \<open>policy.rs\<close> with its three tables: validation of a policy, the
  weekly schedule, the usage of a month with the highest clock seen, manual endpoints with their expiry, the status and
  whether the node may be advertised. \<open>Provider_Policy_Properties\<close> runs its operations in any order, with failing
  statements and clocks that jump, beside a ledger of the bytes per month: a loaded status counts exactly the bytes of
  its month, and the node is available exactly if it is not paused, within its schedule and below its cap. A window
  of the schedule is an interval of the minutes of a week. The months of the calendar package are ordered like their
  instants, which is the hypothesis \<open>policy_env_ok\<close>.

  \<^bold>\<open>Heartbeats.\<close> \<open>Node_Heartbeat\<close> models the heartbeat, the answer of the controller and the results of a revision of
  \<open>node.rs\<close> in the control protocol, and how \<open>sync.rs\<close> builds a heartbeat from the tables. \<open>Node_Heartbeat_Properties\<close>
  joins the runs of the policy and of the mapping: every endpoint in a heartbeat is allowed by the owner's limits and
  is the one of the relay or has, field by field, what an unexpired manual endpoint or a lease with consent records; and a manual endpoint at the
  place of the mapping makes every heartbeat fail its own validation.

  \<^bold>\<open>Documents for a node.\<close> \<open>Controller_Documents\<close> models the desired state of a revision in \<open>node.rs\<close> and the texts
  that the controller signs for it and for the answer to a heartbeat (\<open>desired.rs\<close>, \<open>node_status.rs\<close>).
  \<open>Controller_Documents_Properties\<close> reads both transcripts as lists of labelled fields, of which \<open>Relay_Grant\<close> showed that
  they are self-delimiting: a transcript determines its document, and the four kinds of signed texts are disjoint.

  \<^bold>\<open>Not modelled.\<close> Start-up of processes, TLS handshakes and the task runtime are calls into packages and the
  operating system. Of the node host, activation, enrolment, telemetry, admission, the platform services and all of the
  synchronisation but the heartbeat are not modelled: they are sequences of HTTP requests, process control and file
  operations. Nor are the messages of the control protocol that only they exchange, the control server, whose logic is
  SQL over its own database, the Xray runtime, the desktop and Connect applications, and the probe worker. They call the
  modelled parts but no modelled part calls them; where they change the tables a modelled part reads, the steps
  \<open>Elsewhere\<close> of \<open>mapping_step\<close> and \<open>TablesElsewhere\<close> of \<open>policy_step\<close> stand for them.
\<close>

end
